(* ===== verification/Prelude.thy ===== *)
theory Prelude
  imports Complex_Main
begin

section \<open>Prelude: shared types, automation and generic lemmas\<close>

text \<open>
  Nothing in this theory is specific to the order system. It fixes the collections the
  component theories declare their facts into, the sequencing of fallible steps over
  \<open>'e + 'a\<close> (a thrown exception is \<open>Inl\<close>, a returned value is \<open>Inr\<close>), and the lemmas on
  tables. A table is a list of rows that a key function identifies: \<open>find\<close> reads the row of a
  key, \<open>update_rows\<close> is an SQL \<open>UPDATE .. WHERE key = k\<close>, which leaves the order and the number
  of rows alone.
\<close>

named_theorems model_defs \<open>definitions of straight-line operations, unfolded to compute\<close>
named_theorems frame_simps \<open>what an operation leaves unchanged\<close>
named_theorems inv_intros \<open>preservation of a component invariant by an operation\<close>

type_synonym uuid = string
type_synonym timestamp = int

subsection \<open>Sequencing of fallible steps\<close>

definition bindR :: "'e + 'a \<Rightarrow> ('a \<Rightarrow> 'e + 'b) \<Rightarrow> 'e + 'b" where
  "bindR r f = (case r of Inl e \<Rightarrow> Inl e | Inr a \<Rightarrow> f a)"

lemma bindR_simps [simp]:
  "bindR (Inl e) f = Inl e"
  "bindR (Inr a) f = f a"
  by (simp_all add: bindR_def)

lemma bindR_eq_Inr [simp]: "bindR r f = Inr b \<longleftrightarrow> (\<exists>a. r = Inr a \<and> f a = Inr b)"
  by (cases r) auto

lemma bindR_eq_Inl: "bindR r f = Inl e \<longleftrightarrow> r = Inl e \<or> (\<exists>a. r = Inr a \<and> f a = Inl e)"
  by (cases r) auto

lemma bindR_assoc: "bindR (bindR r f) g = bindR r (\<lambda>a. bindR (f a) g)"
  by (cases r) auto

text \<open>A loop over a list whose body may throw and updates a state; it stops at the first throw.\<close>

fun foldR :: "('a \<Rightarrow> 's \<Rightarrow> 'e + 's) \<Rightarrow> 'a list \<Rightarrow> 's \<Rightarrow> 'e + 's" where
  "foldR f [] s = Inr s"
| "foldR f (x # xs) s = bindR (f x s) (foldR f xs)"

lemma foldR_append: "foldR f (xs @ ys) s = bindR (foldR f xs s) (foldR f ys)"
  by (induction xs arbitrary: s) (auto simp: bindR_assoc bindR_def split: sum.splits)

lemma foldR_invariant:
  assumes "foldR f xs s = Inr t" and "P s"
    and "\<And>x s s'. x \<in> set xs \<Longrightarrow> P s \<Longrightarrow> f x s = Inr s' \<Longrightarrow> P s'"
  shows "P t"
  using assms
proof (induction xs arbitrary: s)
  case Nil
  then show ?case by simp
next
  case (Cons x xs)
  then obtain s' where "f x s = Inr s'" "foldR f xs s' = Inr t" by auto
  with Cons show ?case by (meson list.set_intros)
qed

fun mapR :: "('a \<Rightarrow> 'e + 'b) \<Rightarrow> 'a list \<Rightarrow> 'e + 'b list" where
  "mapR f [] = Inr []"
| "mapR f (x # xs) = bindR (f x) (\<lambda>y. bindR (mapR f xs) (\<lambda>ys. Inr (y # ys)))"

lemma mapR_Inr_map: "(\<And>x. x \<in> set xs \<Longrightarrow> f x = Inr (g x)) \<Longrightarrow> mapR f xs = Inr (map g xs)"
  by (induction xs) auto

subsection \<open>Steps that change a state even when they fail\<close>

text \<open>
  A sequence of separate transactions and calls to other services keeps what its earlier parts
  did when a later one throws, so such a step returns a state in both cases.
\<close>

definition bindE :: "('s \<Rightarrow> ('e + 'a) \<times> 's) \<Rightarrow> ('a \<Rightarrow> 's \<Rightarrow> ('e + 'b) \<times> 's) \<Rightarrow> 's \<Rightarrow> ('e + 'b) \<times> 's" where
  "bindE m f s = (case m s of (Inl e, s') \<Rightarrow> (Inl e, s') | (Inr a, s') \<Rightarrow> f a s')"

definition returnE :: "'a \<Rightarrow> 's \<Rightarrow> ('e + 'a) \<times> 's" where
  "returnE a s = (Inr a, s)"

definition throwE :: "'e \<Rightarrow> 's \<Rightarrow> ('e + 'a) \<times> 's" where
  "throwE e s = (Inl e, s)"

lemma bindE_simps [simp]:
  "m s = (Inl e, s') \<Longrightarrow> bindE m f s = (Inl e, s')"
  "m s = (Inr a, s') \<Longrightarrow> bindE m f s = f a s'"
  "bindE (returnE a) f s = f a s"
  "bindE (throwE e) f s = (Inl e, s)"
  by (simp_all add: bindE_def returnE_def throwE_def)

lemma returnE_eq [simp]: "returnE a s = (Inr b, t) \<longleftrightarrow> a = b \<and> s = t" "returnE a s \<noteq> (Inl e, t)"
  by (auto simp: returnE_def)

lemma throwE_eq [simp]: "throwE e s = (Inl e', t) \<longleftrightarrow> e = e' \<and> s = t" "throwE e s \<noteq> (Inr b, t)"
  by (auto simp: throwE_def)

lemma bindE_Inr:
  assumes "bindE m f s = (Inr b, t)"
  obtains a s' where "m s = (Inr a, s')" "f a s' = (Inr b, t)"
  using assms by (auto simp: bindE_def split: prod.splits sum.splits)

lemma bindE_Inl:
  assumes "bindE m f s = (Inl e, t)"
  obtains (first) "m s = (Inl e, t)" | (second) a s' where "m s = (Inr a, s')" "f a s' = (Inl e, t)"
  using assms by (auto simp: bindE_def split: prod.splits sum.splits)

subsection \<open>Tables: rows found and updated by key\<close>

definition update_rows :: "('r \<Rightarrow> bool) \<Rightarrow> ('r \<Rightarrow> 'r) \<Rightarrow> 'r list \<Rightarrow> 'r list" where
  "update_rows p f rows = map (\<lambda>r. if p r then f r else r) rows"

lemma length_update_rows [simp]: "length (update_rows p f rows) = length rows"
  by (simp add: update_rows_def)

lemma update_rows_Nil [simp]: "update_rows p f [] = []"
  by (simp add: update_rows_def)

lemma update_rows_Cons [simp]:
  "update_rows p f (r # rows) = (if p r then f r else r) # update_rows p f rows"
  by (simp add: update_rows_def)

lemma map_update_rows:
  "(\<And>r. p r \<Longrightarrow> key (f r) = key r) \<Longrightarrow> map key (update_rows p f rows) = map key rows"
  by (simp add: update_rows_def)

lemma find_append: "find p (xs @ ys) = (case find p xs of None \<Rightarrow> find p ys | Some x \<Rightarrow> Some x)"
  by (induction xs) auto

lemma find_update_rows_same:
  assumes "\<And>r. key (f r) = key r"
  shows "find (\<lambda>r. key r = k) (update_rows (\<lambda>r. key r = k) f rows) =
    map_option f (find (\<lambda>r. key r = k) rows)"
  using assms by (induction rows) auto

lemma find_update_rows_other:
  assumes "\<And>r. key (f r) = key r" and "k \<noteq> k'"
  shows "find (\<lambda>r. key r = k') (update_rows (\<lambda>r. key r = k) f rows) = find (\<lambda>r. key r = k') rows"
  using assms by (induction rows) auto

lemma update_rows_absent: "(\<And>r. r \<in> set rows \<Longrightarrow> \<not> p r) \<Longrightarrow> update_rows p f rows = rows"
  by (induction rows) auto

lemma in_set_update_rowsE:
  assumes "r \<in> set (update_rows p f rows)"
  obtains r0 where "r0 \<in> set rows" "r = (if p r0 then f r0 else r0)"
  using assms by (auto simp: update_rows_def)

lemma find_Some_key: "find (\<lambda>r. key r = k) rows = Some r \<Longrightarrow> r \<in> set rows \<and> key r = k"
  by (auto simp: find_Some_iff)

lemma find_None_key: "find (\<lambda>r. key r = k) rows = None \<longleftrightarrow> k \<notin> key ` set rows"
  by (auto simp: find_None_iff)

lemma find_distinct_key:
  assumes "distinct (map key rows)" and "r \<in> set rows"
  shows "find (\<lambda>r'. key r' = key r) rows = Some r"
  using assms by (induction rows) auto

text \<open>Summing over a table when one row, identified by its key, changes.\<close>

lemma sum_list_update_rows:
  fixes g :: "'r \<Rightarrow> int"
  assumes "distinct (map key rows)" and "r \<in> set rows" and "key r = k"
  shows "(\<Sum>x\<leftarrow>update_rows (\<lambda>x. key x = k) f rows. g x) = (\<Sum>x\<leftarrow>rows. g x) - g r + g (f r)"
  using assms
proof (induction rows)
  case Nil
  then show ?case by simp
next
  case (Cons x rows)
  show ?case
  proof (cases "key x = k")
    case True
    with Cons.prems have "x = r" by (metis distinct.simps(2) image_eqI list.set_map list.simps(9) set_ConsD)
    moreover from True Cons.prems have "update_rows (\<lambda>x. key x = k) f rows = rows"
      by (intro update_rows_absent) (auto simp: image_iff)
    ultimately show ?thesis by (simp add: \<open>key r = k\<close>)
  next
    case False
    with Cons show ?thesis by auto
  qed
qed

lemma sum_list_cong_set:
  fixes g :: "'r \<Rightarrow> int"
  shows "(\<And>x. x \<in> set xs \<Longrightarrow> g x = h x) \<Longrightarrow> (\<Sum>x\<leftarrow>xs. g x) = (\<Sum>x\<leftarrow>xs. h x)"
  by (induction xs) auto

lemma sum_list_nonneg_int:
  fixes g :: "'r \<Rightarrow> int"
  shows "(\<And>x. x \<in> set xs \<Longrightarrow> 0 \<le> g x) \<Longrightarrow> 0 \<le> (\<Sum>x\<leftarrow>xs. g x)"
  by (induction xs) auto

end
