(* ===== verification/Js_Number.thy ===== *)
theory Js_Number
  imports Prelude
begin

section \<open>JavaScript numbers and decimal text\<close>

text \<open>
  A JavaScript number is an IEEE double. The program does arithmetic on integers only (cents,
  quantities, counters, milliseconds); fractions reach it as coordinates and distances, which it
  compares but does not combine. So a number is either a finite rational or one of the three
  special values, and integer arithmetic is \<^emph>\<open>exact arithmetic followed by rounding to 53
  significant bits\<close>, ties to even, with overflow to an infinity at \<open>2 ^ 1024\<close>. This is what IEEE
  prescribes for \<open>+\<close>, \<open>-\<close> and \<open>*\<close> on integral operands. Negative zero is not distinguished from
  zero, since no code under \<^verbatim>\<open>src/\<close> does.
\<close>

datatype js_num = Num rat | NaN | PosInf | NegInf

definition js_int :: "int \<Rightarrow> js_num" where
  "js_int i = Num (of_int i)"

text \<open>\<open>Number.isInteger\<close> and \<open>Number.isFinite\<close> of the standard library.\<close>

fun is_integer :: "js_num \<Rightarrow> bool" where
  "is_integer (Num q) = (of_int \<lfloor>q\<rfloor> = q)"
| "is_integer _ = False"

fun is_finite :: "js_num \<Rightarrow> bool" where
  "is_finite (Num q) = True"
| "is_finite _ = False"

text \<open>The comparison operators; a comparison with \<open>NaN\<close> is false.\<close>

fun js_less :: "js_num \<Rightarrow> js_num \<Rightarrow> bool" where
  "js_less NaN _ = False"
| "js_less _ NaN = False"
| "js_less (Num a) (Num b) = (a < b)"
| "js_less NegInf y = (y \<noteq> NegInf)"
| "js_less _ PosInf = True"
| "js_less _ _ = False"

fun js_to_int :: "js_num \<Rightarrow> int" where
  "js_to_int (Num q) = \<lfloor>q\<rfloor>"
| "js_to_int _ = 0"

lemma is_integer_js_int [simp]: "is_integer (js_int i)"
  by (simp add: js_int_def)

lemma js_to_int_js_int [simp]: "js_to_int (js_int i) = i"
  by (simp add: js_int_def)

lemma js_less_js_int [simp]: "js_less (js_int a) (js_int b) \<longleftrightarrow> a < b"
  by (simp add: js_int_def)

lemma js_int_inject [simp]: "js_int a = js_int b \<longleftrightarrow> a = b"
  by (simp add: js_int_def)

lemma is_integerE:
  assumes "is_integer n"
  obtains i where "n = js_int i"
  using assms by (cases n) (auto simp: js_int_def)

subsection \<open>Rounding of integral results\<close>

fun bit_length :: "nat \<Rightarrow> nat" where
  "bit_length n = (if n = 0 then 0 else Suc (bit_length (n div 2)))"

declare bit_length.simps [simp del]

lemma bit_length_le: "n < 2 ^ k \<Longrightarrow> bit_length n \<le> k"
proof (induction k arbitrary: n)
  case 0
  then show ?case by (simp add: bit_length.simps)
next
  case (Suc k)
  show ?case
  proof (cases "n = 0")
    case True
    then show ?thesis by (simp add: bit_length.simps)
  next
    case False
    from Suc.prems have "n div 2 < 2 ^ k" by auto
    with Suc.IH False show ?thesis by (subst bit_length.simps) auto
  qed
qed

lemma bit_length_ge: "2 ^ k \<le> n \<Longrightarrow> Suc k \<le> bit_length n"
proof (induction k arbitrary: n)
  case 0
  then show ?case by (subst bit_length.simps) simp
next
  case (Suc k)
  then have "2 ^ k \<le> n div 2" by (simp add: less_eq_div_iff_mult_less_eq mult.commute)
  then have "Suc k \<le> bit_length (n div 2)" by (rule Suc.IH)
  moreover have "n \<noteq> 0" using Suc.prems by (metis not_one_le_zero one_le_power one_le_numeral order_trans)
  ultimately show ?case by (subst bit_length.simps) simp
qed

lemma bit_length_eq: "2 ^ k \<le> n \<Longrightarrow> n < 2 ^ Suc k \<Longrightarrow> bit_length n = Suc k"
  by (rule antisym) (blast intro: bit_length_le, blast intro: bit_length_ge)

text \<open>Round a magnitude to 53 significant bits, ties to even.\<close>

definition round53 :: "nat \<Rightarrow> nat" where
  "round53 n =
    (let e = bit_length n - 53; q = n div 2 ^ e; r = n mod 2 ^ e
     in if e = 0 then n
        else if 2 * r > 2 ^ e \<or> (2 * r = 2 ^ e \<and> odd q) then Suc q * 2 ^ e
        else q * 2 ^ e)"

definition js_of_int :: "int \<Rightarrow> js_num" where
  "js_of_int i =
    (let m = round53 (nat \<bar>i\<bar>)
     in if m \<ge> 2 ^ 1024 then (if i < 0 then NegInf else PosInf)
        else js_int (sgn i * int m))"

definition max_safe :: int where
  "max_safe = 2 ^ 53"

lemma round53_small: "n \<le> 2 ^ 53 \<Longrightarrow> round53 n = n"
proof (cases "n = 2 ^ 53")
  case True
  moreover have "bit_length (2 ^ 53) = Suc 53"
    by (rule bit_length_eq) auto
  ultimately show ?thesis by (simp add: round53_def)
next
  case False
  moreover assume "n \<le> 2 ^ 53"
  ultimately have "bit_length n \<le> 53" by (intro bit_length_le) auto
  then show ?thesis by (simp add: round53_def)
qed

lemma js_of_int_exact: "\<bar>i\<bar> \<le> max_safe \<Longrightarrow> js_of_int i = js_int i"
proof -
  assume "\<bar>i\<bar> \<le> max_safe"
  then have le: "nat \<bar>i\<bar> \<le> 2 ^ 53" by (simp add: max_safe_def nat_le_iff)
  have "(2::nat) ^ 53 < 2 ^ 1024" by (rule power_strict_increasing) auto
  with le have "\<not> 2 ^ 1024 \<le> nat \<bar>i\<bar>" by (meson leD order.strict_trans1)
  moreover from le have "round53 (nat \<bar>i\<bar>) = nat \<bar>i\<bar>" by (rule round53_small)
  ultimately show ?thesis unfolding js_of_int_def Let_def by (simp add: sgn_mult_abs)
qed

text \<open>Beyond the safe range the sum of two integers is no longer exact.\<close>

lemma js_of_int_inexact: "js_of_int (2 ^ 53 + 1) = js_int (2 ^ 53)"
proof -
  have "bit_length (2 ^ 53 + 1) = Suc 53" by (rule bit_length_eq) auto
  then have "round53 (2 ^ 53 + 1) = 2 ^ 53" by (simp add: round53_def Let_def)
  moreover have "nat \<bar>2 ^ 53 + 1 :: int\<bar> = 2 ^ 53 + 1" by simp
  moreover have "\<not> (2::nat) ^ 1024 \<le> 2 ^ 53" by (simp only: power_increasing_iff)
  ultimately show ?thesis unfolding js_of_int_def Let_def by (simp add: js_int_def)
qed

subsection \<open>Decimal text of integers\<close>

text \<open>
  \<open>String(n)\<close>, template literals and Postgres' \<open>bigint::text\<close> all print a non-negative integer as
  its decimal digits, and \<open>Number(s)\<close> reads them back.
\<close>

definition digit_char :: "nat \<Rightarrow> char" where
  "digit_char d = char_of (48 + d)"

lemma digit_char_eqs:
  "digit_char 0 = CHR ''0''"
  "digit_char 1 = CHR ''1''"
  "digit_char 2 = CHR ''2''"
  "digit_char 3 = CHR ''3''"
  "digit_char 4 = CHR ''4''"
  "digit_char 5 = CHR ''5''"
  "digit_char 6 = CHR ''6''"
  "digit_char 7 = CHR ''7''"
  "digit_char 8 = CHR ''8''"
  "digit_char 9 = CHR ''9''"
  "digit_char (Suc 0) = CHR ''1''"
  by code_simp+

definition is_digit :: "char \<Rightarrow> bool" where
  "is_digit c \<longleftrightarrow> 48 \<le> (of_char c :: nat) \<and> (of_char c :: nat) \<le> 57"

definition digit_val :: "char \<Rightarrow> nat" where
  "digit_val c = of_char c - 48"

fun show_nat :: "nat \<Rightarrow> string" where
  "show_nat n = (if n < 10 then [digit_char n] else show_nat (n div 10) @ [digit_char (n mod 10)])"

declare show_nat.simps [simp del]

definition show_int :: "int \<Rightarrow> string" where
  "show_int i = (if i < 0 then CHR ''-'' # show_nat (nat (- i)) else show_nat (nat i))"

definition parse_digits :: "string \<Rightarrow> nat" where
  "parse_digits = foldl (\<lambda>acc c. 10 * acc + digit_val c) 0"

lemma digit_char_props [simp]:
  assumes "d < 10"
  shows "is_digit (digit_char d)" and "digit_val (digit_char d) = d"
  using assms by (simp_all add: is_digit_def digit_char_def digit_val_def)

lemma show_nat_digits: "c \<in> set (show_nat n) \<Longrightarrow> is_digit c"
proof (induction n rule: show_nat.induct)
  case (1 n)
  show ?case
  proof (cases "n < 10")
    case True
    with "1.prems" show ?thesis by (simp add: show_nat.simps [of n])
  next
    case False
    with "1.prems" have "c \<in> set (show_nat (n div 10)) \<or> c = digit_char (n mod 10)"
      by (auto simp: show_nat.simps [of n])
    with "1.IH" False show ?thesis by auto
  qed
qed

lemma show_nat_not_Nil [simp]: "show_nat n \<noteq> []"
  by (subst show_nat.simps) simp

lemma parse_show_nat [simp]: "parse_digits (show_nat n) = n"
proof (induction n rule: show_nat.induct)
  case (1 n)
  show ?case
  proof (cases "n < 10")
    case True
    then show ?thesis by (subst show_nat.simps) (simp add: parse_digits_def)
  next
    case False
    with 1 have "parse_digits (show_nat (n div 10)) = n div 10" by simp
    with False show ?thesis by (subst show_nat.simps) (simp add: parse_digits_def)
  qed
qed

lemma show_nat_inject [simp]: "show_nat m = show_nat n \<longleftrightarrow> m = n"
  by (metis parse_show_nat)

lemma show_nat_no_dash: "CHR ''-'' \<notin> set (show_nat n)"
  using show_nat_digits[of "CHR ''-''" n] by (auto simp: is_digit_def)

end
