(* ===== verification/Domain_Types.thy ===== *)
theory Domain_Types
  imports Js_Number
begin

section \<open>Domain enumerations and thrown errors\<close>

text \<open>
  The string unions of \<^verbatim>\<open>src/domain/enum-types/\<close> as datatypes, the failure codes of the payment
  port, and every exception class the program throws as one sum type, so that a throw is a
  value. \<open>error_message\<close> is the \<open>message\<close> property each constructor sets.
\<close>

datatype order_status = PENDING_PAYMENT | PAID | CONFIRMED | PAYMENT_FAILED | CANCELLED

datatype payment_status =
  PS_PENDING | PS_AUTHORIZED | PS_CAPTURED | PS_DECLINED | PS_FAILED | PS_UNKNOWN | PS_REFUNDED

datatype shipment_status =
  PENDING_DISPATCH | DISPATCHED | IN_TRANSIT | DELIVERED | SHIPMENT_CANCELLED

datatype product_condition = COND_NEW | COND_REFURBISHED | COND_OPEN_BOX | COND_USED

datatype payment_failure_code =
  CARD_DECLINED | TIMEOUT | PROVIDER_ERROR | CONNECTION_REFUSED
| NETWORK_ERROR | CIRCUIT_OPEN | INVALID_REQUEST | NOT_FOUND

datatype nofulfil_reason = NO_CANDIDATES | RESERVATION_RACE_LOST

datatype geocoding_reason = UNKNOWN_ADDRESS | PROVIDER_UNAVAILABLE

fun order_status_text :: "order_status \<Rightarrow> string" where
  "order_status_text PENDING_PAYMENT = ''PENDING_PAYMENT''"
| "order_status_text PAID = ''PAID''"
| "order_status_text CONFIRMED = ''CONFIRMED''"
| "order_status_text PAYMENT_FAILED = ''PAYMENT_FAILED''"
| "order_status_text CANCELLED = ''CANCELLED''"

fun failure_code_text :: "payment_failure_code \<Rightarrow> string" where
  "failure_code_text CARD_DECLINED = ''CARD_DECLINED''"
| "failure_code_text TIMEOUT = ''TIMEOUT''"
| "failure_code_text PROVIDER_ERROR = ''PROVIDER_ERROR''"
| "failure_code_text CONNECTION_REFUSED = ''CONNECTION_REFUSED''"
| "failure_code_text NETWORK_ERROR = ''NETWORK_ERROR''"
| "failure_code_text CIRCUIT_OPEN = ''CIRCUIT_OPEN''"
| "failure_code_text INVALID_REQUEST = ''INVALID_REQUEST''"
| "failure_code_text NOT_FOUND = ''NOT_FOUND''"

text \<open>
  A driver error of Postgres is its SQLSTATE: unique violation, out of range, check, foreign-key
  violation, not-null violation, a lock that timed out, and a text that is no date or no UUID.
\<close>

datatype sqlstate =
  SQL_UNIQUE_23505 | SQL_RANGE_22003 | SQL_CHECK_23514 | SQL_FK_23503 | SQL_NOT_NULL_23502 | SQL_LOCK_55P03
| SQL_DATETIME_22007 | SQL_TEXT_22P02

text \<open>What \<open>HttpException.getResponse().message\<close> holds: one text, or the validator's list.\<close>

datatype response_message = MsgText string | MsgList "string list"

datatype app_error =
  JsError string
| InsufficientStockError "uuid list"
| NoFulfilmentPossibleError "uuid list" nofulfil_reason
| CustomerNotFoundError uuid
| ProductNotFoundError "uuid list"
| PaymentDeclinedError uuid "string option"
| PaymentProviderUnavailableError uuid "string option"
| OrderNotFoundError string
| InvalidCursorError string
| GeocodingFailedError geocoding_reason string
| UnroutedEventError string
| BadRequestException response_message
| HttpException nat string string \<comment> \<open>status, \<open>name\<close>, \<open>message\<close>\<close>
| ExposedHttpError nat string string \<comment> \<open>an error of the Express middleware\<close>
| QueryFailedError sqlstate
| EntityNotFoundError

abbreviation ConflictException :: "string \<Rightarrow> app_error" where
  "ConflictException m \<equiv> HttpException 409 ''ConflictException'' m"

abbreviation UnprocessableEntityException :: "string \<Rightarrow> app_error" where
  "UnprocessableEntityException m \<equiv> HttpException 422 ''UnprocessableEntityException'' m"

text \<open>\<open>Array.prototype.join\<close>.\<close>

fun js_join :: "string \<Rightarrow> string list \<Rightarrow> string" where
  "js_join sep [] = []"
| "js_join sep [x] = x"
| "js_join sep (x # y # xs) = x @ sep @ js_join sep (y # xs)"

definition in_parens :: "string option \<Rightarrow> string" where
  "in_parens c = (case c of Some t \<Rightarrow> (if t = [] then [] else '' ('' @ t @ '')'') | None \<Rightarrow> [])"

fun error_message :: "app_error \<Rightarrow> string" where
  "error_message (JsError m) = m"
| "error_message (InsufficientStockError ids) =
     ''Insufficient stock for product ids: '' @ js_join '', '' ids"
| "error_message (NoFulfilmentPossibleError ids r) =
     ''No fulfilment possible for product ids: '' @ js_join '', '' ids"
| "error_message (CustomerNotFoundError i) = ''Customer not found: '' @ i"
| "error_message (ProductNotFoundError ids) =
     ''Product not found or inactive: '' @ js_join '', '' ids"
| "error_message (PaymentDeclinedError oid c) = ''Payment declined'' @ in_parens c"
| "error_message (PaymentProviderUnavailableError oid c) =
     ''Payment provider unavailable'' @ in_parens c"
| "error_message (OrderNotFoundError i) = ''Order not found: '' @ i"
| "error_message (InvalidCursorError c) = ''Invalid cursor: '' @ c"
| "error_message (GeocodingFailedError r m) = m"
| "error_message (UnroutedEventError t) = ''No route configured for event type: '' @ t"
| "error_message (BadRequestException (MsgText m)) = m"
| "error_message (BadRequestException (MsgList ms)) = ''Bad Request Exception''"
| "error_message (HttpException s n m) = m"
| "error_message (ExposedHttpError s n m) = m"
| "error_message (QueryFailedError c) = []"
| "error_message EntityNotFoundError = []"

lemma order_status_text_inject [simp]:
  "order_status_text a = order_status_text b \<longleftrightarrow> a = b"
  by (cases a; cases b) simp_all

end
