(* ===== verification/Money.thy ===== *)
theory Money
  imports Domain_Types
begin

section \<open>Money\<close>

text \<open>
  \<^verbatim>\<open>src/domain/value-objects/money.ts\<close>. The private constructor is reached only through
  \<open>money_of\<close>, so the amount of a \<open>money\<close> value is an integer; every operation computes a
  JavaScript number (rounded, see \<open>Js_Number\<close>) and validates it again through \<open>money_of\<close>.
\<close>

record money =
  amount_cents :: int
  currency :: string

definition is_currency :: "string \<Rightarrow> bool" where
  "is_currency c \<longleftrightarrow> length c = 3 \<and> (\<forall>x \<in> set c. 65 \<le> (of_char x :: nat) \<and> (of_char x :: nat) \<le> 90)"

definition usd :: string where
  "usd = ''USD''"

definition money_of :: "js_num \<Rightarrow> string \<Rightarrow> app_error + money" where
  "money_of n cur =
    (if \<not> is_integer n then Inl (JsError ''Money amount must be an integer number of cents'')
     else if js_less n (js_int 0) then Inl (JsError ''Money amount cannot be negative'')
     else if \<not> is_currency cur then Inl (JsError ''Money currency must be a 3-letter ISO code'')
     else Inr \<lparr>amount_cents = js_to_int n, currency = cur\<rparr>)"

definition money_zero :: "string \<Rightarrow> app_error + money" where
  "money_zero cur = money_of (js_int 0) cur"

definition assert_same_currency :: "money \<Rightarrow> money \<Rightarrow> app_error + unit" where
  "assert_same_currency a b =
    (if currency a \<noteq> currency b
     then Inl (JsError (''Cannot combine '' @ currency a @ '' with '' @ currency b))
     else Inr ())"

definition money_add :: "money \<Rightarrow> money \<Rightarrow> app_error + money" where
  "money_add a b = bindR (assert_same_currency a b)
    (\<lambda>_. money_of (js_of_int (amount_cents a + amount_cents b)) (currency a))"

definition money_subtract :: "money \<Rightarrow> money \<Rightarrow> app_error + money" where
  "money_subtract a b = bindR (assert_same_currency a b)
    (\<lambda>_. money_of (js_of_int (amount_cents a - amount_cents b)) (currency a))"

definition money_multiply :: "money \<Rightarrow> js_num \<Rightarrow> app_error + money" where
  "money_multiply a q =
    (if \<not> is_integer q \<or> js_less q (js_int 0)
     then Inl (JsError ''Money can only be multiplied by a non-negative integer'')
     else money_of (js_of_int (amount_cents a * js_to_int q)) (currency a))"

definition money_is_greater_than :: "money \<Rightarrow> money \<Rightarrow> app_error + bool" where
  "money_is_greater_than a b = bindR (assert_same_currency a b)
    (\<lambda>_. Inr (amount_cents a > amount_cents b))"

definition money_equals :: "money \<Rightarrow> money \<Rightarrow> bool" where
  "money_equals a b \<longleftrightarrow> amount_cents a = amount_cents b \<and> currency a = currency b"

subsection \<open>The class invariant and exactness\<close>

definition money_wf :: "money \<Rightarrow> bool" where
  "money_wf m \<longleftrightarrow> 0 \<le> amount_cents m \<and> is_currency (currency m)"

lemma is_currency_usd [simp]: "is_currency usd"
  by (simp add: is_currency_def usd_def)

lemma money_of_js_int:
  "money_of (js_int i) cur = Inr m \<longleftrightarrow>
     0 \<le> i \<and> is_currency cur \<and> m = \<lparr>amount_cents = i, currency = cur\<rparr>"
  by (auto simp: money_of_def)

lemma money_of_wf [inv_intros]: "money_of n cur = Inr m \<Longrightarrow> money_wf m \<and> currency m = cur"
  by (auto simp: money_of_def money_wf_def js_int_def split: if_splits elim!: is_integerE)

lemma money_of_self: "money_wf m \<Longrightarrow> money_of (js_int (amount_cents m)) (currency m) = Inr m"
  by (simp add: money_of_js_int money_wf_def)

lemma money_ops_wf:
  "money_add a b = Inr m \<Longrightarrow> money_wf m"
  "money_subtract a b = Inr m \<Longrightarrow> money_wf m"
  "money_multiply a q = Inr m \<Longrightarrow> money_wf m"
  by (auto simp: money_add_def money_subtract_def money_multiply_def split: if_splits
      dest: money_of_wf)

lemma money_add_exact:
  assumes "money_wf a" "money_wf b" "currency a = currency b"
    and "amount_cents a + amount_cents b \<le> max_safe"
  shows "money_add a b = Inr \<lparr>amount_cents = amount_cents a + amount_cents b, currency = currency a\<rparr>"
  using assms by (simp add: money_add_def assert_same_currency_def js_of_int_exact money_wf_def
      money_of_js_int)

lemma money_multiply_exact:
  assumes "money_wf a" "0 \<le> q" "amount_cents a * q \<le> max_safe"
  shows "money_multiply a (js_int q) =
    Inr \<lparr>amount_cents = amount_cents a * q, currency = currency a\<rparr>"
  using assms by (simp add: money_multiply_def js_of_int_exact money_wf_def money_of_js_int)

text \<open>The order total: the left fold of line totals, as the saga's \<open>reduce\<close> computes it.\<close>

definition total_of_lines :: "(int \<times> int) list \<Rightarrow> app_error + money" where
  "total_of_lines lines = bindR (money_zero usd)
    (foldR (\<lambda>(price, qty) acc.
       bindR (money_of (js_int price) usd) (\<lambda>unit.
       bindR (money_multiply unit (js_int qty)) (\<lambda>line. money_add acc line))) lines)"

lemma total_of_lines_from:
  assumes "\<forall>(price, qty) \<in> set lines. 0 \<le> price \<and> 0 \<le> qty"
    and "0 \<le> c" and "c + (\<Sum>(price, qty)\<leftarrow>lines. price * qty) \<le> max_safe"
  shows "foldR (\<lambda>(price, qty) acc.
       bindR (money_of (js_int price) usd) (\<lambda>unit.
       bindR (money_multiply unit (js_int qty)) (\<lambda>line. money_add acc line))) lines
       \<lparr>amount_cents = c, currency = usd\<rparr>
     = Inr \<lparr>amount_cents = c + (\<Sum>(price, qty)\<leftarrow>lines. price * qty), currency = usd\<rparr>"
  using assms
proof (induction lines arbitrary: c)
  case Nil
  then show ?case by simp
next
  case (Cons x lines)
  obtain price qty where x: "x = (price, qty)" by fastforce
  let ?unit = "\<lparr>amount_cents = price, currency = usd\<rparr>"
  let ?line = "\<lparr>amount_cents = price * qty, currency = usd\<rparr>"
  have rest: "0 \<le> (\<Sum>(price, qty)\<leftarrow>lines. price * qty)"
    using Cons.prems(1) by (intro sum_list_nonneg_int) auto
  from Cons.prems x have nn: "0 \<le> price" "0 \<le> qty" "0 \<le> price * qty" by auto
  from Cons.prems x rest nn
  have b1: "price * qty \<le> max_safe" and b2: "c + price * qty \<le> max_safe" by auto
  from nn have u: "money_of (js_int price) usd = Inr ?unit" by (simp add: money_of_js_int)
  from nn b1 have l: "money_multiply ?unit (js_int qty) = Inr ?line"
    by (subst money_multiply_exact) (simp_all add: money_wf_def)
  from nn b2 Cons.prems(2) have a:
    "money_add \<lparr>amount_cents = c, currency = usd\<rparr> ?line =
      Inr \<lparr>amount_cents = c + price * qty, currency = usd\<rparr>"
    by (subst money_add_exact) (simp_all add: money_wf_def)
  show ?case
    using Cons.IH[of "c + price * qty"] Cons.prems x nn by (simp add: u l a add.assoc)
qed

lemma total_of_lines_eq:
  assumes "\<forall>(price, qty) \<in> set lines. 0 \<le> price \<and> 0 \<le> qty"
    and "(\<Sum>(price, qty)\<leftarrow>lines. price * qty) \<le> 2 ^ 53"
  shows "total_of_lines lines =
    Inr \<lparr>amount_cents = (\<Sum>(price, qty)\<leftarrow>lines. price * qty), currency = usd\<rparr>"
proof -
  have "money_zero usd = Inr \<lparr>amount_cents = 0, currency = usd\<rparr>"
    by (simp add: money_zero_def money_of_js_int)
  with assms show ?thesis
    using total_of_lines_from[of lines 0] by (simp add: total_of_lines_def max_safe_def)
qed

text \<open>
  As long as the exact total of an order stays within the integers a double represents
  exactly, the total the code accumulates with \<open>Money.add\<close> and \<open>Money.multiply\<close> is the exact
  sum of price times quantity, in USD.
\<close>

lemma total_of_lines_exact:
  assumes "\<forall>(price, qty) \<in> set lines. 0 \<le> price \<and> 0 \<le> qty"
    and "(\<Sum>(price, qty)\<leftarrow>lines. price * qty) \<le> 2 ^ 53"
  shows "total_of_lines lines =
    Inr \<lparr>amount_cents = (\<Sum>(price, qty)\<leftarrow>lines. price * qty), currency = usd\<rparr>"
  using assms by (rule total_of_lines_eq)

end
