(* ===== verification/Value_Objects.thy ===== *)
theory Value_Objects
  imports Domain_Types
begin

section \<open>Coordinates and shipping addresses\<close>

text \<open>
  \<^verbatim>\<open>src/domain/value-objects/coordinates.ts\<close> and \<^verbatim>\<open>shipping-address.ts\<close>: two classes with a
  private constructor behind a validating factory. A string is a list of code units below 256,
  so the white space that \<open>trim\<close> removes is the ASCII white space and the no-break space.
  Messages are the source's text up to the interpolated number.
\<close>

subsection \<open>\<open>String.prototype.trim\<close>\<close>

definition is_js_space :: "char \<Rightarrow> bool" where
  "is_js_space c \<longleftrightarrow> (of_char c :: nat) \<in> {9, 10, 11, 12, 13, 32, 160}"

definition js_trim :: "string \<Rightarrow> string" where
  "js_trim s = rev (dropWhile is_js_space (rev (dropWhile is_js_space s)))"

lemma js_trim_Nil_iff: "js_trim s = [] \<longleftrightarrow> (\<forall>c \<in> set s. is_js_space c)"
proof -
  have "dropWhile is_js_space (rev (dropWhile is_js_space s)) = [] \<longleftrightarrow> dropWhile is_js_space s = []"
    by (metis dropWhile.simps(1) dropWhile_eq_Nil_conv hd_dropWhile hd_in_set rev.simps(1) set_rev)
  then show ?thesis by (simp add: js_trim_def dropWhile_eq_Nil_conv)
qed

subsection \<open>Coordinates\<close>

record coordinates =
  latitude :: rat
  longitude :: rat

definition in_range :: "js_num \<Rightarrow> int \<Rightarrow> int \<Rightarrow> bool" where
  "in_range n lo hi \<longleftrightarrow>
     \<not> (\<not> is_finite n \<or> js_less n (js_int lo) \<or> js_less (js_int hi) n)"

fun js_rat :: "js_num \<Rightarrow> rat" where
  "js_rat (Num q) = q"
| "js_rat _ = 0"

definition coordinates_of :: "js_num \<Rightarrow> js_num \<Rightarrow> app_error + coordinates" where
  "coordinates_of lat lng =
    (if \<not> in_range lat (-90) 90 then Inl (JsError ''Latitude must be between -90 and 90'')
     else if \<not> in_range lng (-180) 180 then Inl (JsError ''Longitude must be between -180 and 180'')
     else Inr \<lparr>latitude = js_rat lat, longitude = js_rat lng\<rparr>)"

definition coordinates_equals :: "coordinates \<Rightarrow> coordinates \<Rightarrow> bool" where
  "coordinates_equals a b \<longleftrightarrow> latitude a = latitude b \<and> longitude a = longitude b"

definition coordinates_wf :: "coordinates \<Rightarrow> bool" where
  "coordinates_wf c \<longleftrightarrow> -90 \<le> latitude c \<and> latitude c \<le> 90 \<and> -180 \<le> longitude c \<and> longitude c \<le> 180"

lemma coordinates_eta [simp]: "\<lparr>latitude = latitude c, longitude = longitude c\<rparr> = (c :: coordinates)"
  by simp

lemma in_range_iff: "in_range n lo hi \<longleftrightarrow> (\<exists>q. n = Num q \<and> of_int lo \<le> q \<and> q \<le> of_int hi)"
  by (cases n) (auto simp: in_range_def js_int_def)

lemma coordinates_of_Inr_iff:
  "coordinates_of lat lng = Inr c \<longleftrightarrow>
     coordinates_wf c \<and> lat = Num (latitude c) \<and> lng = Num (longitude c)"
  by (cases c) (auto simp: coordinates_of_def in_range_iff coordinates_wf_def)

lemma coordinates_of_wf: "coordinates_wf c \<Longrightarrow> coordinates_of (Num (latitude c)) (Num (longitude c)) = Inr c"
  by (simp add: coordinates_of_Inr_iff)

subsection \<open>Shipping address\<close>

record address =
  recipient :: "string option"
  line1 :: "string option"
  line2 :: "string option"
  city :: "string option"
  state :: "string option"
  postal_code :: "string option"
  country :: "string option"

definition blank :: "string option \<Rightarrow> bool" where
  "blank f = (case f of None \<Rightarrow> True | Some s \<Rightarrow> js_trim s = [])"

definition shipping_address_of :: "address \<Rightarrow> app_error + address" where
  "shipping_address_of a =
    (if blank (recipient a) then Inl (JsError ''ShippingAddress.recipient is required'')
     else if blank (line1 a) then Inl (JsError ''ShippingAddress.line1 is required'')
     else if blank (city a) then Inl (JsError ''ShippingAddress.city is required'')
     else if blank (country a) then Inl (JsError ''ShippingAddress.country is required'')
     else Inr a)"

definition address_equals :: "address \<Rightarrow> address \<Rightarrow> bool" where
  "address_equals a b \<longleftrightarrow>
     recipient a = recipient b \<and> line1 a = line1 b \<and> line2 a = line2 b \<and> city a = city b \<and>
     state a = state b \<and> postal_code a = postal_code b \<and> country a = country b"

definition address_wf :: "address \<Rightarrow> bool" where
  "address_wf a \<longleftrightarrow>
     \<not> blank (recipient a) \<and> \<not> blank (line1 a) \<and> \<not> blank (city a) \<and> \<not> blank (country a)"

lemma shipping_address_of_Inr_iff: "shipping_address_of a = Inr b \<longleftrightarrow> address_wf a \<and> b = a"
  by (auto simp: shipping_address_of_def address_wf_def)

lemma address_equals_iff [simp]: "address_equals a b \<longleftrightarrow> a = b"
  by (cases a; cases b) (auto simp: address_equals_def)

end
