(* ===== verification/Order_Entity.thy ===== *)
theory Order_Entity
  imports Money Value_Objects
begin

section \<open>The order entity and its status machine\<close>

text \<open>
  \<^verbatim>\<open>src/domain/entities/order-status.transitions.ts\<close>, \<^verbatim>\<open>order.ts\<close> and \<^verbatim>\<open>order-item.ts\<close>. The
  locale \<open>status_machine\<close> is the contract between a transition table and the code that treats a
  status as final; it is interpreted on the order table.
\<close>

subsection \<open>Transitions\<close>

fun order_transitions :: "order_status \<Rightarrow> order_status list" where
  "order_transitions PENDING_PAYMENT = [PAID, PAYMENT_FAILED, CANCELLED]"
| "order_transitions PAID = [CONFIRMED]"
| "order_transitions CONFIRMED = []"
| "order_transitions PAYMENT_FAILED = []"
| "order_transitions CANCELLED = []"

definition is_terminal_order_status :: "order_status \<Rightarrow> bool" where
  "is_terminal_order_status s \<longleftrightarrow> length (order_transitions s) = 0"

definition can_transition_order_status :: "order_status \<Rightarrow> order_status \<Rightarrow> bool" where
  "can_transition_order_status from to \<longleftrightarrow> to \<in> set (order_transitions from)"

definition assert_valid_order_transition :: "order_status \<Rightarrow> order_status \<Rightarrow> app_error + unit" where
  "assert_valid_order_transition from to =
    (if \<not> can_transition_order_status from to
     then Inl (JsError (''Illegal order status transition: '' @ order_status_text from @ '' -> '' @
       order_status_text to))
     else Inr ())"

locale status_machine =
  fixes can :: "'s \<Rightarrow> 's \<Rightarrow> bool"
    and terminal :: "'s \<Rightarrow> bool"
    and rank :: "'s \<Rightarrow> nat"
  assumes terminal_iff: "terminal s \<longleftrightarrow> (\<forall>t. \<not> can s t)"
    and rank_decreases: "can s t \<Longrightarrow> rank t < rank s"
begin

lemma terminal_stuck: "can\<^sup>*\<^sup>* s t \<Longrightarrow> terminal s \<Longrightarrow> t = s"
  by (induction rule: converse_rtranclp_induct) (auto simp: terminal_iff)

lemma rank_rtranclp: "can\<^sup>*\<^sup>* s t \<Longrightarrow> rank t \<le> rank s"
  by (induction rule: rtranclp_induct) (auto dest: rank_decreases)

lemma acyclic: "can\<^sup>+\<^sup>+ s t \<Longrightarrow> s \<noteq> t"
proof
  assume st: "can\<^sup>+\<^sup>+ s t" and "s = t"
  from st obtain u where "can s u" "can\<^sup>*\<^sup>* u t" by (auto dest: tranclpD)
  then have "rank t < rank s" using rank_decreases rank_rtranclp by (meson order.strict_trans1)
  with \<open>s = t\<close> show False by simp
qed

lemma progress_to_terminal: "\<exists>t. can\<^sup>*\<^sup>* s t \<and> terminal t"
proof (induction "rank s" arbitrary: s rule: less_induct)
  case less
  show ?case
  proof (cases "terminal s")
    case True
    then show ?thesis by blast
  next
    case False
    then obtain u where "can s u" by (auto simp: terminal_iff)
    moreover from this less obtain t where "can\<^sup>*\<^sup>* u t" "terminal t"
      using rank_decreases by blast
    ultimately show ?thesis by (meson converse_rtranclp_into_rtranclp)
  qed
qed

end

fun status_rank :: "order_status \<Rightarrow> nat" where
  "status_rank PENDING_PAYMENT = 2"
| "status_rank PAID = 1"
| "status_rank _ = 0"

interpretation order_machine:
  status_machine can_transition_order_status is_terminal_order_status status_rank
proof
  fix s t
  show "is_terminal_order_status s \<longleftrightarrow> (\<forall>t. \<not> can_transition_order_status s t)"
    by (cases s) (auto simp: is_terminal_order_status_def can_transition_order_status_def)
  show "can_transition_order_status s t \<Longrightarrow> status_rank t < status_rank s"
    by (cases s) (auto simp: can_transition_order_status_def)
qed

lemma assert_valid_Inr [simp]:
  "assert_valid_order_transition from to = Inr u \<longleftrightarrow> can_transition_order_status from to"
  by (simp add: assert_valid_order_transition_def)

text \<open>
  The statuses an order can still reach from a terminal one are that status alone: once an
  order is CONFIRMED, PAYMENT_FAILED or CANCELLED, no sequence of legal transitions changes it
  (in particular there is no edge between PAYMENT_FAILED and CANCELLED).
\<close>

lemma terminal_status_final:
  assumes "can_transition_order_status\<^sup>*\<^sup>* s t" and "s \<in> {CONFIRMED, PAYMENT_FAILED, CANCELLED}"
  shows "t = s"
proof -
  from assms(2) have "is_terminal_order_status s"
    by (auto simp: is_terminal_order_status_def)
  with assms(1) show ?thesis by (rule order_machine.terminal_stuck)
qed

subsection \<open>The entity\<close>

record order =
  ord_id :: uuid
  ord_number :: string
  ord_customer :: uuid
  ord_warehouse :: "uuid option"
  ord_status :: order_status
  ord_total :: money
  ord_address :: address
  ord_location :: coordinates
  ord_reservation_expires_at :: "timestamp option"
  ord_confirmed_at :: "timestamp option"
  ord_cancelled_at :: "timestamp option"
  ord_cancellation_reason :: "string option"
  ord_created_at :: timestamp
  ord_updated_at :: timestamp

definition mark_paid :: "order \<Rightarrow> app_error + order" where
  "mark_paid o1 = bindR (assert_valid_order_transition (ord_status o1) PAID)
    (\<lambda>_. Inr (o1\<lparr>ord_status := PAID\<rparr>))"

definition mark_payment_failed :: "order \<Rightarrow> app_error + order" where
  "mark_payment_failed o1 = bindR (assert_valid_order_transition (ord_status o1) PAYMENT_FAILED)
    (\<lambda>_. Inr (o1\<lparr>ord_status := PAYMENT_FAILED\<rparr>))"

definition confirm :: "timestamp \<Rightarrow> order \<Rightarrow> app_error + order" where
  "confirm now o1 = bindR (assert_valid_order_transition (ord_status o1) CONFIRMED)
    (\<lambda>_. Inr (o1\<lparr>ord_status := CONFIRMED, ord_confirmed_at := Some now\<rparr>))"

definition cancel :: "timestamp \<Rightarrow> string \<Rightarrow> order \<Rightarrow> app_error + order" where
  "cancel now reason o1 = bindR (assert_valid_order_transition (ord_status o1) CANCELLED)
    (\<lambda>_. Inr (o1\<lparr>ord_status := CANCELLED, ord_cancelled_at := Some now,
       ord_cancellation_reason := Some reason\<rparr>))"

text \<open>The call order of the class: its public methods as one step function, and sequences of calls.\<close>

datatype order_method = MarkPaid | MarkPaymentFailed | Confirm timestamp | Cancel timestamp string

fun order_call :: "order_method \<Rightarrow> order \<Rightarrow> app_error + order" where
  "order_call MarkPaid o1 = mark_paid o1"
| "order_call MarkPaymentFailed o1 = mark_payment_failed o1"
| "order_call (Confirm now) o1 = confirm now o1"
| "order_call (Cancel now reason) o1 = cancel now reason o1"

lemma order_call_transition:
  "order_call c o1 = Inr o2 \<Longrightarrow> can_transition_order_status (ord_status o1) (ord_status o2)"
  by (cases c) (auto simp: mark_paid_def mark_payment_failed_def confirm_def cancel_def)

lemma order_calls_reach:
  "foldR order_call cs o1 = Inr o2 \<Longrightarrow> can_transition_order_status\<^sup>*\<^sup>* (ord_status o1) (ord_status o2)"
proof (induction cs arbitrary: o1)
  case Nil
  then show ?case by simp
next
  case (Cons c cs)
  then obtain o' where o': "order_call c o1 = Inr o'" "foldR order_call cs o' = Inr o2" by auto
  from Cons.IH[OF o'(2)] order_call_transition[OF o'(1)] show ?case
    by (rule converse_rtranclp_into_rtranclp[rotated])
qed

text \<open>
  Bookkeeping the database relies on: a confirmed order carries its confirmation time, a
  cancelled one its time and reason, and no other status carries either.
\<close>

definition order_times_wf :: "order \<Rightarrow> bool" where
  "order_times_wf o1 \<longleftrightarrow>
     (ord_status o1 = CONFIRMED \<longleftrightarrow> ord_confirmed_at o1 \<noteq> None) \<and>
     (ord_status o1 = CANCELLED \<longleftrightarrow> ord_cancelled_at o1 \<noteq> None) \<and>
     (ord_status o1 = CANCELLED \<longleftrightarrow> ord_cancellation_reason o1 \<noteq> None)"

lemma order_call_times_wf:
  "order_call c o1 = Inr o2 \<Longrightarrow> order_times_wf o1 \<Longrightarrow> order_times_wf o2"
  by (cases c; cases "ord_status o1")
    (auto simp: mark_paid_def mark_payment_failed_def confirm_def cancel_def order_times_wf_def
      can_transition_order_status_def)

text \<open>
  However the methods of an order are called, in any number and order, as long as none of
  the calls throws: the status only moves along legal transitions, so it never gets an order out
  of a terminal status, and \<open>confirmedAt\<close>, \<open>cancelledAt\<close> and \<open>cancellationReason\<close> stay in step
  with the status.
\<close>

lemma order_calls_sound:
  assumes "foldR order_call cs o1 = Inr o2" and "order_times_wf o1"
  shows "can_transition_order_status\<^sup>*\<^sup>* (ord_status o1) (ord_status o2) \<and> order_times_wf o2 \<and>
    (is_terminal_order_status (ord_status o1) \<longrightarrow> cs = [] \<and> o2 = o1)"
proof (intro conjI impI)
  show "can_transition_order_status\<^sup>*\<^sup>* (ord_status o1) (ord_status o2)"
    using assms(1) by (rule order_calls_reach)
  show "order_times_wf o2"
    using assms by (rule foldR_invariant) (rule order_call_times_wf)
next
  assume t: "is_terminal_order_status (ord_status o1)"
  show cs: "cs = []"
  proof (cases cs)
    case (Cons c cs')
    with assms(1) obtain o' where "order_call c o1 = Inr o'" by auto
    with t show ?thesis using order_call_transition order_machine.terminal_iff by blast
  qed
  with assms(1) show "o2 = o1" by simp
qed

definition sample_order :: order where
  "sample_order = \<lparr>ord_id = ''o1'', ord_number = ''CNL-2026-000001'', ord_customer = ''c1'',
     ord_warehouse = Some ''w1'', ord_status = PENDING_PAYMENT,
     ord_total = \<lparr>amount_cents = 100, currency = usd\<rparr>,
     ord_address = \<lparr>recipient = Some ''Ada'', line1 = Some ''600 Harbor Dr'', line2 = None,
       city = Some ''San Diego'', state = Some ''CA'', postal_code = None, country = Some ''US''\<rparr>,
     ord_location = \<lparr>latitude = 32, longitude = -117\<rparr>,
     ord_reservation_expires_at = None, ord_confirmed_at = None, ord_cancelled_at = None,
     ord_cancellation_reason = None, ord_created_at = 0, ord_updated_at = 0\<rparr>"

subsection \<open>Order items\<close>

record order_item =
  item_id :: uuid
  item_order :: uuid
  item_product :: uuid
  item_quantity :: int
  item_sku :: string
  item_name :: string
  item_unit_price :: money
  item_created_at :: timestamp

definition new_order_item ::
  "uuid \<Rightarrow> uuid \<Rightarrow> uuid \<Rightarrow> js_num \<Rightarrow> string \<Rightarrow> string \<Rightarrow> money \<Rightarrow> timestamp \<Rightarrow> app_error + order_item" where
  "new_order_item iid oid pid qty sku name price now =
    (if \<not> is_integer qty \<or> \<not> js_less (js_int 0) qty
     then Inl (JsError ''OrderItem quantity must be a positive integer'')
     else Inr \<lparr>item_id = iid, item_order = oid, item_product = pid, item_quantity = js_to_int qty,
       item_sku = sku, item_name = name, item_unit_price = price, item_created_at = now\<rparr>)"

definition line_total :: "order_item \<Rightarrow> app_error + money" where
  "line_total i = money_multiply (item_unit_price i) (js_int (item_quantity i))"

lemma new_order_item_Inr_iff:
  "new_order_item iid oid pid (js_int q) sku name price now = Inr i \<longleftrightarrow>
     0 < q \<and> i = \<lparr>item_id = iid, item_order = oid, item_product = pid, item_quantity = q,
       item_sku = sku, item_name = name, item_unit_price = price, item_created_at = now\<rparr>"
  by (auto simp: new_order_item_def)

end
