(* ===== verification/Ports.thy ===== *)
theory Ports
  imports Order_Entity
begin

section \<open>Ports of the domain\<close>

text \<open>
  \<^verbatim>\<open>src/domain/ports/\<close>: the command and the result that cross the payment port, JSON values
  (what \<open>Record<string, unknown>\<close> holds), and the event and job bodies of the messaging port.
\<close>

datatype json =
  JNull | JBool bool | JNum js_num | JStr string | JArr "json list" | JObj "(string \<times> json) list"

record charge_command =
  cmd_card_number :: string
  cmd_amount_minor :: int
  cmd_currency :: string
  cmd_description :: string
  cmd_idempotency_key :: string

record charge_result =
  res_status :: payment_status
  res_provider_payment_id :: "string option"
  res_card_last4 :: "string option"
  res_card_brand :: "string option"
  res_failure_code :: "payment_failure_code option"
  res_raw_response :: "json option"

record order_confirmed_payload =
  payload_order_id :: uuid
  payload_occurred_at :: timestamp

record job =
  job_queue :: string
  job_payload :: order_confirmed_payload
  job_correlation_id :: string
  job_traceparent :: "string option"
  job_published_at :: timestamp

record order_line =
  line_product :: uuid
  line_quantity :: int

definition lines_total :: "order_line list \<Rightarrow> uuid \<Rightarrow> int" where
  "lines_total ls p = (\<Sum>l\<leftarrow>ls. if line_product l = p then line_quantity l else 0)"

lemma lines_total_Nil [simp]: "lines_total [] p = 0"
  by (simp add: lines_total_def)

lemma lines_total_Cons [simp]:
  "lines_total (l # ls) p = (if line_product l = p then line_quantity l else 0) + lines_total ls p"
  by (simp add: lines_total_def)

lemma lines_total_absent: "p \<notin> line_product ` set ls \<Longrightarrow> lines_total ls p = 0"
  by (induction ls) auto

lemma lines_total_distinct:
  "distinct (map line_product ls) \<Longrightarrow> l \<in> set ls \<Longrightarrow> lines_total ls (line_product l) = line_quantity l"
  by (induction ls) (auto simp: lines_total_absent image_iff)

end
