(* ===== verification/Store.thy ===== *)
theory Store
  imports Ports
begin

section \<open>The database\<close>

text \<open>
  The tables of \<^verbatim>\<open>src/infrastructure/database/migrations/1789596059697-InitialSchema.ts\<close> the order
  flow reads and writes, with the ORM entities' columns, as one record of row lists. A statement
  is a function from the database to an error (the SQLSTATE of the violated constraint) or the
  new database; a transaction that ends in \<open>Inl\<close> leaves the caller with the database it started
  from, which is the rollback. The ledger \<open>movements\<close> keeps its newest row first, so the list
  order is the order of the identity column. Column widths of texts are not
  modelled, nor the generated columns (the identity and \<open>created_at\<close> of a movement, \<open>created_at\<close> of an
  item, the coordinates derived from a warehouse's location).
\<close>

subsection \<open>Rows\<close>

record customer_row =
  cust_id :: uuid
  cust_email :: string
  cust_full_name :: string
  cust_phone :: "string option"
  cust_created_at :: timestamp
  cust_updated_at :: timestamp
  cust_deleted_at :: "timestamp option"

record product_row =
  prod_id :: uuid
  prod_sku :: string
  prod_name :: string
  prod_description :: "string option"
  prod_condition :: product_condition
  prod_unit_price_cents :: int
  prod_is_active :: bool
  prod_created_at :: timestamp
  prod_updated_at :: timestamp
  prod_deleted_at :: "timestamp option"

record warehouse_row =
  wh_id :: uuid
  wh_name :: string
  wh_address :: json
  wh_location :: coordinates
  wh_is_active :: bool
  wh_created_at :: timestamp
  wh_updated_at :: timestamp
  wh_deleted_at :: "timestamp option"

record inventory_row =
  inv_warehouse :: uuid
  inv_product :: uuid
  qty_available :: int
  qty_reserved :: int
  inv_version :: int

datatype movement_type = RESERVE | RELEASE | COMMIT | RESTOCK | ADJUST

record movement_row =
  mv_warehouse :: uuid
  mv_product :: uuid
  mv_order :: "uuid option"
  mv_type :: movement_type
  mv_quantity_delta :: int
  mv_available_after :: int
  mv_reserved_after :: int

record order_row =
  row_id :: uuid
  row_number :: string
  row_customer :: uuid
  row_warehouse :: "uuid option"
  row_status :: order_status
  row_currency :: string
  row_total_cents :: int
  row_address :: address
  row_location :: "rat \<times> rat" \<comment> \<open>GeoJSON point: longitude, latitude\<close>
  row_reservation_expires_at :: "timestamp option"
  row_confirmed_at :: "timestamp option"
  row_cancelled_at :: "timestamp option"
  row_cancellation_reason :: "string option"
  row_created_at :: timestamp
  row_updated_at :: timestamp

record order_item_row =
  ir_id :: uuid
  ir_order :: uuid
  ir_product :: uuid
  ir_quantity :: int
  ir_sku :: string
  ir_name :: string
  ir_unit_price_cents :: int

record payment_row =
  pay_id :: uuid
  pay_order :: uuid
  pay_attempt :: int
  pay_provider :: string
  pay_provider_payment_id :: "string option"
  pay_idempotency_key :: string
  pay_status :: payment_status
  pay_amount_cents :: int
  pay_currency :: string
  pay_card_last4 :: "string option"
  pay_card_brand :: "string option"
  pay_failure_code :: "payment_failure_code option"
  pay_raw_response :: "json option"
  pay_settled_at :: "timestamp option"
  pay_created_at :: timestamp
  pay_updated_at :: timestamp

record shipment_row =
  shp_id :: uuid
  shp_order :: uuid
  shp_warehouse :: uuid
  shp_status :: shipment_status
  shp_carrier :: "string option"
  shp_tracking_number :: "string option"
  shp_dispatched_at :: "timestamp option"
  shp_delivered_at :: "timestamp option"
  shp_created_at :: timestamp
  shp_updated_at :: timestamp

record db =
  customers :: "customer_row list"
  products :: "product_row list"
  warehouses :: "warehouse_row list"
  inventory :: "inventory_row list"
  movements :: "movement_row list"
  orders :: "order_row list"
  order_items :: "order_item_row list"
  payments :: "payment_row list"
  shipments :: "shipment_row list"
  jobs :: "job list"
  order_number_seq :: nat

subsection \<open>Reads by key\<close>

definition inv_key :: "inventory_row \<Rightarrow> uuid \<times> uuid" where
  "inv_key r = (inv_warehouse r, inv_product r)"

definition find_inventory :: "db \<Rightarrow> uuid \<Rightarrow> uuid \<Rightarrow> inventory_row option" where
  "find_inventory d w p = find (\<lambda>r. inv_key r = (w, p)) (inventory d)"

definition find_order :: "db \<Rightarrow> uuid \<Rightarrow> order_row option" where
  "find_order d oid = find (\<lambda>r. row_id r = oid) (orders d)"

definition find_payment :: "db \<Rightarrow> uuid \<Rightarrow> payment_row option" where
  "find_payment d pid = find (\<lambda>r. pay_id r = pid) (payments d)"

definition items_of :: "db \<Rightarrow> uuid \<Rightarrow> order_item_row list" where
  "items_of d oid = filter (\<lambda>i. ir_order i = oid) (order_items d)"

definition order_exists :: "db \<Rightarrow> uuid \<Rightarrow> bool" where
  "order_exists d oid \<longleftrightarrow> oid \<in> row_id ` set (orders d)"

lemma find_order_Some: "find_order d oid = Some r \<Longrightarrow> r \<in> set (orders d) \<and> row_id r = oid"
  unfolding find_order_def by (rule find_Some_key)

lemma find_order_None: "find_order d oid = None \<longleftrightarrow> \<not> order_exists d oid"
  by (simp add: find_order_def order_exists_def find_None_key)

lemma find_inventory_Some:
  "find_inventory d w p = Some r \<Longrightarrow> r \<in> set (inventory d) \<and> inv_warehouse r = w \<and> inv_product r = p"
  unfolding find_inventory_def by (drule find_Some_key) (simp add: inv_key_def)

text \<open>The statements that change one table leave the reads of the others alone.\<close>

lemma find_inventory_frame [frame_simps, simp]:
  "find_inventory (d\<lparr>movements := m\<rparr>) w p = find_inventory d w p"
  "find_inventory (d\<lparr>orders := os\<rparr>) w p = find_inventory d w p"
  "find_inventory (d\<lparr>order_items := is\<rparr>) w p = find_inventory d w p"
  "find_inventory (d\<lparr>payments := ps\<rparr>) w p = find_inventory d w p"
  "find_inventory (d\<lparr>jobs := js\<rparr>) w p = find_inventory d w p"
  by (simp_all add: find_inventory_def)

lemma find_order_frame [frame_simps, simp]:
  "find_order (d\<lparr>movements := m\<rparr>) i = find_order d i"
  "find_order (d\<lparr>inventory := iv\<rparr>) i = find_order d i"
  "find_order (d\<lparr>order_items := is\<rparr>) i = find_order d i"
  "find_order (d\<lparr>payments := ps\<rparr>) i = find_order d i"
  "find_order (d\<lparr>jobs := js\<rparr>) i = find_order d i"
  by (simp_all add: find_order_def)

lemma items_of_frame [frame_simps, simp]:
  "items_of (d\<lparr>movements := m\<rparr>) i = items_of d i"
  "items_of (d\<lparr>inventory := iv\<rparr>) i = items_of d i"
  "items_of (d\<lparr>orders := os\<rparr>) i = items_of d i"
  "items_of (d\<lparr>payments := ps\<rparr>) i = items_of d i"
  "items_of (d\<lparr>jobs := js\<rparr>) i = items_of d i"
  by (simp_all add: items_of_def)

lemma order_exists_frame [frame_simps, simp]:
  "order_exists (d\<lparr>movements := m\<rparr>) i = order_exists d i"
  "order_exists (d\<lparr>inventory := iv\<rparr>) i = order_exists d i"
  "order_exists (d\<lparr>order_items := is\<rparr>) i = order_exists d i"
  "order_exists (d\<lparr>payments := ps\<rparr>) i = order_exists d i"
  "order_exists (d\<lparr>jobs := js\<rparr>) i = order_exists d i"
  by (simp_all add: order_exists_def)

subsection \<open>Constraints of the schema\<close>

definition in_int4 :: "int \<Rightarrow> bool" where
  "in_int4 i \<longleftrightarrow> - (2 ^ 31) \<le> i \<and> i < 2 ^ 31"

definition in_int8 :: "int \<Rightarrow> bool" where
  "in_int8 i \<longleftrightarrow> - (2 ^ 63) \<le> i \<and> i < 2 ^ 63"

text \<open>\<open>orders\<close>: primary key, unique order number, foreign keys to customers and warehouses.\<close>

definition orders_fk_ok :: "db \<Rightarrow> order_row \<Rightarrow> bool" where
  "orders_fk_ok d r \<longleftrightarrow> row_customer r \<in> cust_id ` set (customers d) \<and>
     (case row_warehouse r of None \<Rightarrow> True | Some w \<Rightarrow> w \<in> wh_id ` set (warehouses d))"

text \<open>TypeORM's \<open>save\<close>: update the row of that primary key if there is one, else insert.\<close>

definition save_order :: "order_row \<Rightarrow> db \<Rightarrow> app_error + db" where
  "save_order r d =
    (if \<not> in_int8 (row_total_cents r) then Inl (QueryFailedError SQL_RANGE_22003)
     else if \<exists>x \<in> set (orders d). row_id x \<noteq> row_id r \<and> row_number x = row_number r
     then Inl (QueryFailedError SQL_UNIQUE_23505)
     else if \<not> orders_fk_ok d r then Inl (QueryFailedError SQL_FK_23503)
     else if order_exists d (row_id r)
     then Inr (d\<lparr>orders := update_rows (\<lambda>x. row_id x = row_id r) (\<lambda>_. r) (orders d)\<rparr>)
     else Inr (d\<lparr>orders := orders d @ [r]\<rparr>))"

text \<open>\<open>order_items\<close>: \<open>quantity > 0\<close>, unique (order, product), foreign keys.\<close>

definition insert_order_item :: "order_item_row \<Rightarrow> db \<Rightarrow> app_error + db" where
  "insert_order_item i d =
    (if \<not> 0 < ir_quantity i then Inl (QueryFailedError SQL_CHECK_23514)
     else if \<not> in_int4 (ir_quantity i) \<or> \<not> in_int8 (ir_unit_price_cents i) then Inl (QueryFailedError SQL_RANGE_22003)
     else if \<exists>x \<in> set (order_items d). (ir_order x = ir_order i \<and> ir_product x = ir_product i) \<or>
               ir_id x = ir_id i
     then Inl (QueryFailedError SQL_UNIQUE_23505)
     else if \<not> order_exists d (ir_order i) \<or> ir_product i \<notin> prod_id ` set (products d)
     then Inl (QueryFailedError SQL_FK_23503)
     else Inr (d\<lparr>order_items := order_items d @ [i]\<rparr>))"

text \<open>
  \<open>payments\<close>: unique idempotency key, unique (order, attempt), at most one CAPTURED row per order
  (the partial unique index), foreign key to orders.
\<close>

definition payment_conflicts :: "db \<Rightarrow> payment_row \<Rightarrow> bool" where
  "payment_conflicts d r \<longleftrightarrow>
     (\<exists>x \<in> set (payments d). pay_id x \<noteq> pay_id r \<and>
        (pay_idempotency_key x = pay_idempotency_key r \<or>
         (pay_order x = pay_order r \<and> pay_attempt x = pay_attempt r) \<or>
         (pay_order x = pay_order r \<and> pay_status x = PS_CAPTURED \<and> pay_status r = PS_CAPTURED)))"

definition save_payment :: "payment_row \<Rightarrow> db \<Rightarrow> app_error + db" where
  "save_payment r d =
    (if \<not> in_int8 (pay_amount_cents r) then Inl (QueryFailedError SQL_RANGE_22003)
     else if payment_conflicts d r then Inl (QueryFailedError SQL_UNIQUE_23505)
     else if \<not> order_exists d (pay_order r) then Inl (QueryFailedError SQL_FK_23503)
     else if pay_id r \<in> pay_id ` set (payments d)
     then Inr (d\<lparr>payments := update_rows (\<lambda>x. pay_id x = pay_id r) (\<lambda>_. r) (payments d)\<rparr>)
     else Inr (d\<lparr>payments := payments d @ [r]\<rparr>))"

lemma save_order_cases:
  assumes "save_order r d = Inr d'"
  obtains (update) "order_exists d (row_id r)"
      "d' = d\<lparr>orders := update_rows (\<lambda>x. row_id x = row_id r) (\<lambda>_. r) (orders d)\<rparr>"
  | (insert) "\<not> order_exists d (row_id r)" "d' = d\<lparr>orders := orders d @ [r]\<rparr>"
  using assms by (auto simp: save_order_def split: if_splits)

lemma save_payment_cases:
  assumes "save_payment r d = Inr d'"
  obtains (update) "pay_id r \<in> pay_id ` set (payments d)" "\<not> payment_conflicts d r"
      "order_exists d (pay_order r)"
      "d' = d\<lparr>payments := update_rows (\<lambda>x. pay_id x = pay_id r) (\<lambda>_. r) (payments d)\<rparr>"
  | (insert) "pay_id r \<notin> pay_id ` set (payments d)" "\<not> payment_conflicts d r"
      "order_exists d (pay_order r)" "d' = d\<lparr>payments := payments d @ [r]\<rparr>"
  using assms by (auto simp: save_payment_def split: if_splits)

lemma insert_order_item_Inr:
  "insert_order_item i d = Inr d' \<Longrightarrow>
     d' = d\<lparr>order_items := order_items d @ [i]\<rparr> \<and> 0 < ir_quantity i \<and>
     order_exists d (ir_order i) \<and>
     (\<forall>x \<in> set (order_items d). \<not> (ir_order x = ir_order i \<and> ir_product x = ir_product i))"
  by (auto simp: insert_order_item_def split: if_splits)

end
