(* ===== verification/Inventory.thy ===== *)
theory Inventory
  imports Store "HOL-Library.Char_ord" "HOL-Library.List_Lexorder"
begin

section \<open>The inventory service and its ledger\<close>

text \<open>
  \<^verbatim>\<open>src/application/allocation/inventory.service.ts\<close> and \<^verbatim>\<open>helpers/inventory.helpers.ts\<close>:
  \<open>reserve\<close>, \<open>release\<close> and \<open>commit\<close> on the caller's transaction. Each locks the rows it will
  touch in product order, computes new balances from that snapshot, writes them and appends one
  movement per product to the ledger. Whether a row lock times out is decided by the other
  sessions, so it is the argument \<open>contended\<close>. The \<open>version\<close> counter of a row is assumed not to
  reach \<open>2 ^ 31\<close>.
\<close>

subsection \<open>Helpers\<close>

definition lock_inventory_rows ::
  "bool \<Rightarrow> db \<Rightarrow> uuid \<Rightarrow> uuid list \<Rightarrow> app_error + inventory_row list" where
  "lock_inventory_rows contended d w pids =
    (if contended then Inl (QueryFailedError SQL_LOCK_55P03)
     else Inr (sort_key inv_product
       (filter (\<lambda>r. inv_warehouse r = w \<and> inv_product r \<in> set pids) (inventory d))))"

text \<open>The JavaScript \<open>Map\<close> built from the rows: \<open>product_id\<close> is unique within a warehouse.\<close>

definition row_of :: "inventory_row list \<Rightarrow> uuid \<Rightarrow> inventory_row option" where
  "row_of rows p = find (\<lambda>r. inv_product r = p) rows"

definition update_inventory_balances ::
  "uuid \<Rightarrow> uuid \<Rightarrow> int \<Rightarrow> int \<Rightarrow> db \<Rightarrow> app_error + db" where
  "update_inventory_balances w p avail res d =
    (if \<not> in_int4 avail \<or> \<not> in_int4 res then Inl (QueryFailedError SQL_RANGE_22003)
     else if (w, p) \<in> inv_key ` set (inventory d) \<and> (avail < 0 \<or> res < 0)
     then Inl (QueryFailedError SQL_CHECK_23514)
     else Inr (d\<lparr>inventory := update_rows (\<lambda>r. inv_key r = (w, p))
       (\<lambda>r. r\<lparr>qty_available := avail, qty_reserved := res, inv_version := inv_version r + 1\<rparr>)
       (inventory d)\<rparr>))"

definition movement_fk_ok :: "db \<Rightarrow> movement_row \<Rightarrow> bool" where
  "movement_fk_ok d m \<longleftrightarrow> mv_warehouse m \<in> wh_id ` set (warehouses d) \<and>
     mv_product m \<in> prod_id ` set (products d) \<and>
     (case mv_order m of None \<Rightarrow> True | Some oid \<Rightarrow> order_exists d oid)"

definition insert_movement :: "movement_row \<Rightarrow> db \<Rightarrow> app_error + db" where
  "insert_movement m d =
    (if \<not> in_int4 (mv_quantity_delta m) \<or> \<not> in_int4 (mv_available_after m) \<or>
        \<not> in_int4 (mv_reserved_after m) then Inl (QueryFailedError SQL_RANGE_22003)
     else if \<not> movement_fk_ok d m then Inl (QueryFailedError SQL_FK_23503)
     else Inr (d\<lparr>movements := m # movements d\<rparr>))"

definition is_lock_timeout :: "app_error \<Rightarrow> bool" where
  "is_lock_timeout e \<longleftrightarrow> e = QueryFailedError SQL_LOCK_55P03"

text \<open>The two calls every branch of the service makes in a row: new balances, then the movement.\<close>

definition post_movement :: "movement_row \<Rightarrow> db \<Rightarrow> app_error + db" where
  "post_movement m d = bindR
     (update_inventory_balances (mv_warehouse m) (mv_product m) (mv_available_after m)
        (mv_reserved_after m) d)
     (insert_movement m)"

subsection \<open>The three operations\<close>

record reserve_command =
  rc_order :: uuid
  rc_warehouse :: uuid
  rc_lines :: "order_line list"

record release_command =
  lc_order :: uuid
  lc_warehouse :: uuid
  lc_products :: "uuid list"

definition reservation_ttl_minutes :: int where
  "reservation_ttl_minutes = 15"

definition ms_per_minute :: int where
  "ms_per_minute = 60000"

definition unmet_products :: "inventory_row list \<Rightarrow> order_line list \<Rightarrow> uuid list" where
  "unmet_products rows ls = map line_product (filter (\<lambda>l.
     case row_of rows (line_product l) of None \<Rightarrow> True
     | Some r \<Rightarrow> qty_available r < line_quantity l) ls)"

definition reserve_line ::
  "reserve_command \<Rightarrow> inventory_row list \<Rightarrow> order_line \<Rightarrow> db \<Rightarrow> app_error + db" where
  "reserve_line c rows l d =
    (case row_of rows (line_product l) of
       None \<Rightarrow> Inl (JsError ''Cannot read properties of undefined'')
     | Some r \<Rightarrow> post_movement
         \<lparr>mv_warehouse = rc_warehouse c, mv_product = line_product l, mv_order = Some (rc_order c),
          mv_type = RESERVE, mv_quantity_delta = - line_quantity l,
          mv_available_after = qty_available r - line_quantity l,
          mv_reserved_after = qty_reserved r + line_quantity l\<rparr> d)"

definition set_reservation :: "uuid \<Rightarrow> timestamp \<Rightarrow> uuid \<Rightarrow> db \<Rightarrow> app_error + db" where
  "set_reservation w expires oid d =
    (if order_exists d oid \<and> w \<notin> wh_id ` set (warehouses d)
     then Inl (QueryFailedError SQL_FK_23503)
     else Inr (d\<lparr>orders := update_rows (\<lambda>r. row_id r = oid)
       (\<lambda>r. r\<lparr>row_warehouse := Some w, row_reservation_expires_at := Some expires\<rparr>) (orders d)\<rparr>))"

definition reserve :: "timestamp \<Rightarrow> bool \<Rightarrow> reserve_command \<Rightarrow> db \<Rightarrow> app_error + db" where
  "reserve now contended c d =
    (let pids = map line_product (rc_lines c) in
     case lock_inventory_rows contended d (rc_warehouse c) pids of
       Inl e \<Rightarrow> (if is_lock_timeout e then Inl (InsufficientStockError pids) else Inl e)
     | Inr rows \<Rightarrow>
         (let unmet = unmet_products rows (rc_lines c) in
          if unmet \<noteq> [] then Inl (InsufficientStockError unmet)
          else bindR (foldR (reserve_line c rows) (rc_lines c) d)
            (set_reservation (rc_warehouse c) (now + reservation_ttl_minutes * ms_per_minute)
               (rc_order c))))"

definition latest_movement :: "movement_row list \<Rightarrow> uuid \<Rightarrow> uuid \<Rightarrow> movement_row option" where
  "latest_movement ms oid p = find (\<lambda>m. mv_order m = Some oid \<and> mv_product m = p) ms"

definition ends_reservation :: "movement_type \<Rightarrow> bool" where
  "ends_reservation t \<longleftrightarrow> t = RELEASE \<or> t = COMMIT"

definition release_product ::
  "release_command \<Rightarrow> inventory_row list \<Rightarrow> uuid \<Rightarrow> db \<Rightarrow> app_error + db" where
  "release_product c rows p d =
    (case latest_movement (movements d) (lc_order c) p of
       None \<Rightarrow> Inr d
     | Some m \<Rightarrow>
         if ends_reservation (mv_type m) then Inr d
         else (case row_of rows p of
           None \<Rightarrow> Inr d
         | Some r \<Rightarrow>
             (let q = \<bar>mv_quantity_delta m\<bar> in post_movement
               \<lparr>mv_warehouse = lc_warehouse c, mv_product = p, mv_order = Some (lc_order c),
                mv_type = RELEASE, mv_quantity_delta = q,
                mv_available_after = qty_available r + q,
                mv_reserved_after = qty_reserved r - q\<rparr> d)))"

definition release :: "bool \<Rightarrow> release_command \<Rightarrow> db \<Rightarrow> app_error + db" where
  "release contended c d = bindR (lock_inventory_rows contended d (lc_warehouse c) (lc_products c))
     (\<lambda>rows. foldR (release_product c rows) (lc_products c) d)"

definition commit_product ::
  "release_command \<Rightarrow> inventory_row list \<Rightarrow> uuid \<Rightarrow> db \<Rightarrow> app_error + db" where
  "commit_product c rows p d =
    (case latest_movement (movements d) (lc_order c) p of
       None \<Rightarrow> Inr d
     | Some m \<Rightarrow>
         if ends_reservation (mv_type m) then Inr d
         else (case row_of rows p of
           None \<Rightarrow> Inr d
         | Some r \<Rightarrow>
             (let q = \<bar>mv_quantity_delta m\<bar> in post_movement
               \<lparr>mv_warehouse = lc_warehouse c, mv_product = p, mv_order = Some (lc_order c),
                mv_type = COMMIT, mv_quantity_delta = 0,
                mv_available_after = qty_available r,
                mv_reserved_after = qty_reserved r - q\<rparr> d)))"

definition commit :: "bool \<Rightarrow> release_command \<Rightarrow> db \<Rightarrow> app_error + db" where
  "commit contended c d = bindR (lock_inventory_rows contended d (lc_warehouse c) (lc_products c))
     (\<lambda>rows. foldR (commit_product c rows) (lc_products c) d)"

subsection \<open>Locking reads the current rows, in product order\<close>

lemma find_sort_key:
  fixes key :: "'r \<Rightarrow> 'k::linorder"
  assumes "distinct (map key rows)"
  shows "find (\<lambda>r. key r = k) (sort_key key rows) = find (\<lambda>r. key r = k) rows"
proof (cases "find (\<lambda>r. key r = k) rows")
  case None
  then have "k \<notin> key ` set (sort_key key rows)" by (simp add: find_None_key)
  then have "find (\<lambda>r. key r = k) (sort_key key rows) = None" by (simp only: find_None_key not_False_eq_True)
  with None show ?thesis by simp
next
  case (Some r)
  then have r: "r \<in> set rows" "key r = k" by (auto dest: find_Some_key)
  have "distinct (map key (sort_key key rows))"
    using assms by (simp add: distinct_map)
  with r have "find (\<lambda>r'. key r' = key r) (sort_key key rows) = Some r"
    by (intro find_distinct_key) auto
  with r Some show ?thesis by simp
qed

definition inventory_keys_distinct :: "db \<Rightarrow> bool" where
  "inventory_keys_distinct d \<longleftrightarrow> distinct (map inv_key (inventory d))"

lemma row_of_locked:
  assumes "inventory_keys_distinct d" and "lock_inventory_rows contended d w pids = Inr rows"
  shows "row_of rows p = (if p \<in> set pids then find_inventory d w p else None)"
proof -
  let ?sel = "filter (\<lambda>r. inv_warehouse r = w \<and> inv_product r \<in> set pids) (inventory d)"
  from assms(2) have rows: "rows = sort_key inv_product ?sel"
    by (simp add: lock_inventory_rows_def split: if_splits)
  have "distinct (map inv_key ?sel)"
    using assms(1) by (simp add: inventory_keys_distinct_def distinct_map_filter)
  then have "distinct (map inv_product ?sel)"
    by (auto simp: distinct_map inj_on_def inv_key_def)
  then have "row_of rows p = find (\<lambda>r. inv_product r = p) ?sel"
    unfolding rows row_of_def by (rule find_sort_key)
  also have "\<dots> = (if p \<in> set pids then find_inventory d w p else None)"
  proof -
    have "find (\<lambda>r. inv_product r = p)
        (filter (\<lambda>r. inv_warehouse r = w \<and> inv_product r \<in> set pids) rs) =
      (if p \<in> set pids then find (\<lambda>r. inv_key r = (w, p)) rs else None)" for rs
      by (induction rs) (auto simp: inv_key_def)
    then show ?thesis by (simp add: find_inventory_def)
  qed
  finally show ?thesis .
qed

end
