(* ===== verification/Ledger.thy ===== *)
theory Ledger
  imports Inventory
begin

section \<open>What the inventory operations do to stock and ledger\<close>

text \<open>
  The three operations of \<open>Inventory\<close> are shown equal to posting a batch of movements computed
  from the locked snapshot; everything else about them follows from one lemma on posting a batch.
  \<open>stock\<close> is the abstract view: available and reserved units of a product in a warehouse.
\<close>

subsection \<open>The abstract view\<close>

definition stock :: "db \<Rightarrow> uuid \<Rightarrow> uuid \<Rightarrow> (int \<times> int) option" where
  "stock d w p = map_option (\<lambda>r. (qty_available r, qty_reserved r)) (find_inventory d w p)"

definition mv_key :: "movement_row \<Rightarrow> uuid \<times> uuid" where
  "mv_key m = (mv_warehouse m, mv_product m)"

lemma stock_frame [frame_simps, simp]:
  "stock (d\<lparr>movements := m\<rparr>) = stock d"
  "stock (d\<lparr>orders := os\<rparr>) = stock d"
  "stock (d\<lparr>order_items := is\<rparr>) = stock d"
  "stock (d\<lparr>payments := ps\<rparr>) = stock d"
  "stock (d\<lparr>jobs := js\<rparr>) = stock d"
  by (auto simp: stock_def fun_eq_iff)

lemma stock_keys: "stock d w p \<noteq> None \<longleftrightarrow> (w, p) \<in> inv_key ` set (inventory d)"
  by (simp add: stock_def find_inventory_def find_None_key)

subsection \<open>One movement\<close>

lemma update_inventory_balances_Inr:
  assumes "update_inventory_balances w p a r d = Inr d'"
  shows "\<exists>iv. d' = d\<lparr>inventory := iv\<rparr>"
    and "map inv_key (inventory d') = map inv_key (inventory d)"
    and "stock d' w' p' = (if w' = w \<and> p' = p then map_option (\<lambda>_. (a, r)) (stock d w p)
           else stock d w' p')"
    and "stock d w p \<noteq> None \<Longrightarrow> 0 \<le> a \<and> 0 \<le> r"
proof -
  let ?f = "\<lambda>x. x\<lparr>qty_available := a, qty_reserved := r, inv_version := inv_version x + 1\<rparr>"
  from assms have d': "d' = d\<lparr>inventory := update_rows (\<lambda>x. inv_key x = (w, p)) ?f (inventory d)\<rparr>"
    and nn: "(w, p) \<in> inv_key ` set (inventory d) \<Longrightarrow> 0 \<le> a \<and> 0 \<le> r"
    by (auto simp: update_inventory_balances_def split: if_splits)
  have key: "inv_key (?f x) = inv_key x" for x
    by (simp add: inv_key_def)
  show "\<exists>iv. d' = d\<lparr>inventory := iv\<rparr>" by (auto simp: d')
  show "map inv_key (inventory d') = map inv_key (inventory d)"
    by (simp add: d' map_update_rows key)
  have same: "find_inventory d' w p = map_option ?f (find_inventory d w p)"
    unfolding d' find_inventory_def by (simp add: find_update_rows_same key)
  have other: "find_inventory d' w' p' = find_inventory d w' p'" if "(w', p') \<noteq> (w, p)"
  proof -
    from that have "(w, p) \<noteq> (w', p')" by auto
    from find_update_rows_other[of inv_key ?f, OF key this] show ?thesis
      by (simp add: d' find_inventory_def)
  qed
  show "stock d' w' p' = (if w' = w \<and> p' = p then map_option (\<lambda>_. (a, r)) (stock d w p)
      else stock d w' p')"
    using same other by (auto simp: stock_def option.map_comp o_def)
  show "stock d w p \<noteq> None \<Longrightarrow> 0 \<le> a \<and> 0 \<le> r"
    using nn stock_keys by blast
qed

lemma post_movement_Inr:
  assumes "post_movement m d = Inr d'"
  shows "\<exists>iv. d' = d\<lparr>inventory := iv, movements := m # movements d\<rparr>"
    and "map inv_key (inventory d') = map inv_key (inventory d)"
    and "stock d' w p = (if (w, p) = mv_key m
           then map_option (\<lambda>_. (mv_available_after m, mv_reserved_after m)) (stock d w p)
           else stock d w p)"
    and "stock d (mv_warehouse m) (mv_product m) \<noteq> None \<Longrightarrow>
           0 \<le> mv_available_after m \<and> 0 \<le> mv_reserved_after m"
proof -
  from assms obtain d1 where d1:
      "update_inventory_balances (mv_warehouse m) (mv_product m) (mv_available_after m)
         (mv_reserved_after m) d = Inr d1"
    and d': "d' = d1\<lparr>movements := m # movements d1\<rparr>"
    by (auto simp: post_movement_def insert_movement_def split: if_splits)
  note upd = update_inventory_balances_Inr[OF d1]
  from upd(1) show "\<exists>iv. d' = d\<lparr>inventory := iv, movements := m # movements d\<rparr>"
    unfolding d' by auto
  show "map inv_key (inventory d') = map inv_key (inventory d)"
    using upd(2) by (simp add: d')
  show "stock d' w p = (if (w, p) = mv_key m
      then map_option (\<lambda>_. (mv_available_after m, mv_reserved_after m)) (stock d w p)
      else stock d w p)"
    using upd(3)[of w p] by (auto simp: d' mv_key_def)
  show "stock d (mv_warehouse m) (mv_product m) \<noteq> None \<Longrightarrow>
      0 \<le> mv_available_after m \<and> 0 \<le> mv_reserved_after m"
    by (rule upd(4))
qed

definition movement_fits :: "movement_row \<Rightarrow> bool" where
  "movement_fits m \<longleftrightarrow> in_int4 (mv_quantity_delta m) \<and> in_int4 (mv_available_after m) \<and>
     in_int4 (mv_reserved_after m) \<and> 0 \<le> mv_available_after m \<and> 0 \<le> mv_reserved_after m"

lemma post_movement_ok:
  assumes "movement_fits m" and "movement_fk_ok d m"
  shows "\<exists>d'. post_movement m d = Inr d'"
  using assms by (auto simp: post_movement_def update_inventory_balances_def insert_movement_def
      movement_fits_def movement_fk_ok_def split: option.splits)

subsection \<open>A batch of movements\<close>

lemma movement_fk_frame:
  "movement_fk_ok (d\<lparr>inventory := iv, movements := ms\<rparr>) m \<longleftrightarrow> movement_fk_ok d m"
  by (simp add: movement_fk_ok_def order_exists_def split: option.splits)

lemma post_batch_Inr:
  assumes "foldR post_movement ms d = Inr d'" and "distinct (map mv_key ms)"
  shows "\<exists>iv. d' = d\<lparr>inventory := iv, movements := rev ms @ movements d\<rparr>"
    and "map inv_key (inventory d') = map inv_key (inventory d)"
    and "\<And>w p. stock d' w p = (case find (\<lambda>m. mv_key m = (w, p)) ms of
           None \<Rightarrow> stock d w p
         | Some m \<Rightarrow> map_option (\<lambda>_. (mv_available_after m, mv_reserved_after m)) (stock d w p))"
    and "\<And>m. m \<in> set ms \<Longrightarrow> stock d (mv_warehouse m) (mv_product m) \<noteq> None \<Longrightarrow>
           0 \<le> mv_available_after m \<and> 0 \<le> mv_reserved_after m"
  using assms
proof (induction ms arbitrary: d)
  case Nil
  { case 1 then show ?case by (auto intro: exI[of _ "inventory d"]) }
  { case 2 then show ?case by simp }
  { case 3 then show ?case by simp }
  { case 4 then show ?case by simp }
next
  case (Cons m ms)
  {
    case 1
    then obtain d1 where d1: "post_movement m d = Inr d1" "foldR post_movement ms d1 = Inr d'" by auto
    from post_movement_Inr(1)[OF d1(1)] obtain iv1 where
      "d1 = d\<lparr>inventory := iv1, movements := m # movements d\<rparr>" by blast
    moreover from Cons.IH(1)[OF d1(2)] 1 obtain iv where
      "d' = d1\<lparr>inventory := iv, movements := rev ms @ movements d1\<rparr>" by auto
    ultimately show ?case by auto
  }
  {
    case 2
    then obtain d1 where d1: "post_movement m d = Inr d1" "foldR post_movement ms d1 = Inr d'" by auto
    with Cons.IH(2)[OF d1(2)] 2 post_movement_Inr(2)[OF d1(1)] show ?case by simp
  }
  {
    case (3 w p)
    then obtain d1 where d1: "post_movement m d = Inr d1" "foldR post_movement ms d1 = Inr d'" by auto
    from 3 have absent: "mv_key m \<notin> mv_key ` set ms" by simp
    then have none: "find (\<lambda>x. mv_key x = mv_key m) ms = None" by (simp add: find_None_key)
    from 3 Cons.IH(3)[OF d1(2), of w p] post_movement_Inr(3)[OF d1(1), of w p] none
    show ?case by (cases "(w, p) = mv_key m") (auto split: option.splits)
  }
  {
    case (4 x)
    then obtain d1 where d1: "post_movement m d = Inr d1" "foldR post_movement ms d1 = Inr d'" by auto
    note head = post_movement_Inr[OF d1(1)]
    show ?case
    proof (cases "x = m")
      case True
      with head(4) 4 show ?thesis by simp
    next
      case False
      with 4 have "x \<in> set ms" by simp
      moreover have "stock d1 (mv_warehouse x) (mv_product x) \<noteq> None"
        using 4 head(3)[of "mv_warehouse x" "mv_product x"] by auto
      ultimately show ?thesis using Cons.IH(4)[OF _ _ d1(2)] 4 by simp
    qed
  }
qed

lemma post_batch_ok:
  assumes "\<forall>m \<in> set ms. movement_fits m \<and> movement_fk_ok d m"
  shows "\<exists>d'. foldR post_movement ms d = Inr d'"
  using assms
proof (induction ms arbitrary: d)
  case Nil
  then show ?case by simp
next
  case (Cons m ms)
  then obtain d1 where d1: "post_movement m d = Inr d1"
    using post_movement_ok by (metis list.set_intros(1))
  from post_movement_Inr(1)[OF d1] Cons.prems have "\<forall>x \<in> set ms. movement_fits x \<and> movement_fk_ok d1 x"
    by (auto simp: movement_fk_frame)
  with Cons.IH d1 show ?case by auto
qed

subsection \<open>Reservation as a batch\<close>

definition lacks :: "db \<Rightarrow> uuid \<Rightarrow> order_line \<Rightarrow> bool" where
  "lacks d w l = (case stock d w (line_product l) of None \<Rightarrow> True
     | Some (a, r) \<Rightarrow> a < line_quantity l)"

definition reserve_mv :: "reserve_command \<Rightarrow> int \<times> int \<Rightarrow> order_line \<Rightarrow> movement_row" where
  "reserve_mv c ar l = \<lparr>mv_warehouse = rc_warehouse c, mv_product = line_product l,
     mv_order = Some (rc_order c), mv_type = RESERVE, mv_quantity_delta = - line_quantity l,
     mv_available_after = fst ar - line_quantity l, mv_reserved_after = snd ar + line_quantity l\<rparr>"

definition reserve_batch :: "reserve_command \<Rightarrow> db \<Rightarrow> movement_row list" where
  "reserve_batch c d = map (\<lambda>l. reserve_mv c (the (stock d (rc_warehouse c) (line_product l))) l) (rc_lines c)"

lemma reserve_lines_batch:
  assumes "\<forall>l \<in> set ls. \<exists>r. row_of rows (line_product l) = Some r \<and>
      stock d0 (rc_warehouse c) (line_product l) = Some (qty_available r, qty_reserved r)"
  shows "foldR (reserve_line c rows) ls d =
    foldR post_movement (map (\<lambda>l. reserve_mv c (the (stock d0 (rc_warehouse c) (line_product l))) l) ls) d"
  using assms
proof (induction ls arbitrary: d)
  case Nil
  then show ?case by simp
next
  case (Cons l ls)
  then obtain r where "row_of rows (line_product l) = Some r"
    "stock d0 (rc_warehouse c) (line_product l) = Some (qty_available r, qty_reserved r)" by auto
  then have "reserve_line c rows l d =
      post_movement (reserve_mv c (the (stock d0 (rc_warehouse c) (line_product l))) l) d"
    by (simp add: reserve_line_def reserve_mv_def)
  with Cons show ?case by (simp add: bindR_def split: sum.splits)
qed

lemma reserve_eq:
  assumes "inventory_keys_distinct d"
  shows "reserve now False c d =
    (if filter (lacks d (rc_warehouse c)) (rc_lines c) \<noteq> []
     then Inl (InsufficientStockError (map line_product (filter (lacks d (rc_warehouse c)) (rc_lines c))))
     else bindR (foldR post_movement (reserve_batch c d) d)
       (set_reservation (rc_warehouse c) (now + reservation_ttl_minutes * ms_per_minute) (rc_order c)))"
proof -
  let ?w = "rc_warehouse c" and ?ls = "rc_lines c"
  obtain rows where rows: "lock_inventory_rows False d ?w (map line_product ?ls) = Inr rows"
    by (simp add: lock_inventory_rows_def)
  note row = row_of_locked[OF assms rows]
  have unmet: "unmet_products rows ?ls = map line_product (filter (lacks d ?w) ?ls)"
  proof -
    have "(case row_of rows (line_product l) of None \<Rightarrow> True
        | Some r \<Rightarrow> qty_available r < line_quantity l) = lacks d ?w l" if "l \<in> set ?ls" for l
      using that by (auto simp: row lacks_def stock_def split: option.splits)
    then show ?thesis unfolding unmet_products_def by (auto cong: filter_cong)
  qed
  have batch: "foldR (reserve_line c rows) ?ls d = foldR post_movement (reserve_batch c d) d"
    if "filter (lacks d ?w) ?ls = []"
    unfolding reserve_batch_def
  proof (rule reserve_lines_batch, intro ballI)
    fix l assume l: "l \<in> set ?ls"
    with that have "\<not> lacks d ?w l" by (auto simp: filter_empty_conv)
    then obtain r where "find_inventory d ?w (line_product l) = Some r"
      by (auto simp: lacks_def stock_def split: option.splits)
    with l show "\<exists>r. row_of rows (line_product l) = Some r \<and>
        stock d ?w (line_product l) = Some (qty_available r, qty_reserved r)"
      by (auto simp: row stock_def)
  qed
  show ?thesis
    using batch by (simp add: reserve_def rows unmet Let_def)
qed

lemma reserve_contended:
  "reserve now True c d = Inl (InsufficientStockError (map line_product (rc_lines c)))"
  by (simp add: reserve_def lock_inventory_rows_def is_lock_timeout_def)

subsection \<open>Release and commit as batches\<close>

definition settle_mv :: "movement_type \<Rightarrow> release_command \<Rightarrow> uuid \<Rightarrow> int \<Rightarrow> int \<times> int \<Rightarrow> movement_row" where
  "settle_mv t c p q ar = \<lparr>mv_warehouse = lc_warehouse c, mv_product = p,
     mv_order = Some (lc_order c), mv_type = t,
     mv_quantity_delta = (if t = RELEASE then q else 0),
     mv_available_after = (if t = RELEASE then fst ar + q else fst ar),
     mv_reserved_after = snd ar - q\<rparr>"

definition settle_mvs :: "movement_type \<Rightarrow> release_command \<Rightarrow> db \<Rightarrow> uuid \<Rightarrow> movement_row list" where
  "settle_mvs t c d p =
    (case latest_movement (movements d) (lc_order c) p of
       None \<Rightarrow> []
     | Some m \<Rightarrow> if ends_reservation (mv_type m) then []
         else (case stock d (lc_warehouse c) p of None \<Rightarrow> []
           | Some ar \<Rightarrow> [settle_mv t c p \<bar>mv_quantity_delta m\<bar> ar]))"

definition settle_batch :: "movement_type \<Rightarrow> release_command \<Rightarrow> db \<Rightarrow> movement_row list" where
  "settle_batch t c d = concat (map (settle_mvs t c d) (lc_products c))"

lemma settle_mv_sel [simp]:
  "mv_warehouse (settle_mv t c p q ar) = lc_warehouse c"
  "mv_product (settle_mv t c p q ar) = p"
  "mv_order (settle_mv t c p q ar) = Some (lc_order c)"
  "mv_type (settle_mv t c p q ar) = t"
  by (simp_all add: settle_mv_def)

lemma settle_mvs_props:
  "m \<in> set (settle_mvs t c d p) \<Longrightarrow> mv_product m = p \<and> mv_warehouse m = lc_warehouse c \<and>
     mv_order m = Some (lc_order c) \<and> mv_type m = t"
  by (cases "latest_movement (movements d) (lc_order c) p"; cases "stock d (lc_warehouse c) p")
    (auto simp: settle_mvs_def split: if_splits)

lemma settle_mvs_short: "settle_mvs t c d p = [] \<or> (\<exists>m. settle_mvs t c d p = [m])"
  by (auto simp: settle_mvs_def split: option.splits)

lemma map_key_settle_batch:
  "distinct ps \<Longrightarrow> distinct (map mv_key (concat (map (settle_mvs t c d) ps)))"
proof (induction ps)
  case Nil
  then show ?case by simp
next
  case (Cons p ps)
  have "mv_key x \<noteq> mv_key y" if "x \<in> set (settle_mvs t c d p)"
    "y \<in> set (concat (map (settle_mvs t c d) ps))" for x y
    using that Cons.prems settle_mvs_props by (fastforce simp: mv_key_def)
  then have "mv_key ` set (settle_mvs t c d p) \<inter> mv_key ` set (concat (map (settle_mvs t c d) ps)) = {}"
    by blast
  with Cons settle_mvs_short[of t c d p] show ?case by auto
qed

lemma latest_movement_Cons:
  "latest_movement (m # ms) oid p =
    (if mv_order m = Some oid \<and> mv_product m = p then Some m else latest_movement ms oid p)"
  by (simp add: latest_movement_def)

text \<open>One proof for both operations: \<open>step\<close> is \<open>release_product\<close> or \<open>commit_product\<close>.\<close>

lemma settle_products_batch:
  assumes step: "\<And>p d. step p d = foldR post_movement
      (case latest_movement (movements d) (lc_order c) p of
         None \<Rightarrow> []
       | Some m \<Rightarrow> if ends_reservation (mv_type m) then []
           else (case row_of rows p of None \<Rightarrow> []
             | Some r \<Rightarrow> [settle_mv t c p \<bar>mv_quantity_delta m\<bar> (qty_available r, qty_reserved r)])) d"
    and rows: "\<forall>p \<in> set ps. map_option (\<lambda>r. (qty_available r, qty_reserved r)) (row_of rows p) =
      stock d0 (lc_warehouse c) p"
    and latest: "\<forall>p \<in> set ps. latest_movement (movements d) (lc_order c) p =
      latest_movement (movements d0) (lc_order c) p"
    and "distinct ps"
  shows "foldR step ps d = foldR post_movement (concat (map (settle_mvs t c d0) ps)) d"
  using rows latest \<open>distinct ps\<close>
proof (induction ps arbitrary: d)
  case Nil
  then show ?case by simp
next
  case (Cons p ps)
  from Cons.prems(1) have "map_option (\<lambda>r. (qty_available r, qty_reserved r)) (row_of rows p) =
      stock d0 (lc_warehouse c) p" by simp
  with Cons.prems(2) have eq: "step p d = foldR post_movement (settle_mvs t c d0 p) d"
    by (auto simp: step settle_mvs_def split: option.splits)
  have rest: "foldR step ps d1 = foldR post_movement (concat (map (settle_mvs t c d0) ps)) d1"
    if d1: "foldR post_movement (settle_mvs t c d0 p) d = Inr d1" for d1
  proof (rule Cons.IH)
    show "\<forall>p\<in>set ps. map_option (\<lambda>r. (qty_available r, qty_reserved r)) (row_of rows p) =
        stock d0 (lc_warehouse c) p" using Cons.prems(1) by simp
    show "distinct ps" using Cons.prems(3) by simp
    show "\<forall>q\<in>set ps. latest_movement (movements d1) (lc_order c) q =
        latest_movement (movements d0) (lc_order c) q"
    proof
      fix q assume q: "q \<in> set ps"
      with Cons.prems(3) have "q \<noteq> p" by auto
      have "latest_movement (movements d1) (lc_order c) q = latest_movement (movements d) (lc_order c) q"
      proof (cases "settle_mvs t c d0 p")
        case Nil
        with d1 show ?thesis by simp
      next
        case (Cons m ms)
        with settle_mvs_short[of t c d0 p] have m: "settle_mvs t c d0 p = [m]" by auto
        with d1 have "post_movement m d = Inr d1" by auto
        from post_movement_Inr(1)[OF this] have "movements d1 = m # movements d" by auto
        with m settle_mvs_props[of m t c d0 p] \<open>q \<noteq> p\<close> show ?thesis
          by (simp add: latest_movement_Cons)
      qed
      with q Cons.prems(2) show "latest_movement (movements d1) (lc_order c) q =
          latest_movement (movements d0) (lc_order c) q" by simp
    qed
  qed
  show ?case
    by (simp add: eq foldR_append bindR_def rest split: sum.splits)
qed

lemma settle_rows:
  assumes "inventory_keys_distinct d" and "lock_inventory_rows False d w ps = Inr rows"
  shows "\<forall>p \<in> set ps. map_option (\<lambda>r. (qty_available r, qty_reserved r)) (row_of rows p) = stock d w p"
  using row_of_locked[OF assms] by (simp add: stock_def)

lemma release_eq:
  assumes "inventory_keys_distinct d" and "distinct (lc_products c)"
  shows "release False c d = foldR post_movement (settle_batch RELEASE c d) d"
proof -
  obtain rows where rows: "lock_inventory_rows False d (lc_warehouse c) (lc_products c) = Inr rows"
    by (simp add: lock_inventory_rows_def)
  show ?thesis
    unfolding release_def rows settle_batch_def bindR_simps
    by (rule settle_products_batch[where rows = rows])
      (use assms settle_rows[OF assms(1) rows] in
        \<open>auto simp: release_product_def settle_mv_def Let_def bindR_def split: option.splits sum.splits\<close>)
qed

lemma commit_eq:
  assumes "inventory_keys_distinct d" and "distinct (lc_products c)"
  shows "commit False c d = foldR post_movement (settle_batch COMMIT c d) d"
proof -
  obtain rows where rows: "lock_inventory_rows False d (lc_warehouse c) (lc_products c) = Inr rows"
    by (simp add: lock_inventory_rows_def)
  show ?thesis
    unfolding commit_def rows settle_batch_def bindR_simps
    by (rule settle_products_batch[where rows = rows])
      (use assms settle_rows[OF assms(1) rows] in
        \<open>auto simp: commit_product_def settle_mv_def Let_def bindR_def split: option.splits sum.splits\<close>)
qed

lemma settle_contended:
  "release True c d = Inl (QueryFailedError SQL_LOCK_55P03)"
  "commit True c d = Inl (QueryFailedError SQL_LOCK_55P03)"
  by (simp_all add: release_def commit_def lock_inventory_rows_def)

subsection \<open>What a reservation does\<close>

text \<open>The open reservation of an order: the units its latest movement of a product still holds.\<close>

definition held :: "db \<Rightarrow> uuid \<Rightarrow> uuid \<Rightarrow> int" where
  "held d oid p = (case latest_movement (movements d) oid p of
     None \<Rightarrow> 0
   | Some m \<Rightarrow> if ends_reservation (mv_type m) then 0 else \<bar>mv_quantity_delta m\<bar>)"

lemma held_frame [frame_simps, simp]:
  "held (d\<lparr>inventory := iv\<rparr>) = held d"
  "held (d\<lparr>orders := os\<rparr>) = held d"
  "held (d\<lparr>order_items := is\<rparr>) = held d"
  "held (d\<lparr>payments := ps\<rparr>) = held d"
  "held (d\<lparr>jobs := js\<rparr>) = held d"
  by (auto simp: held_def fun_eq_iff)

lemma latest_movement_append:
  "latest_movement (ms @ ms') oid p =
    (case latest_movement ms oid p of None \<Rightarrow> latest_movement ms' oid p | Some m \<Rightarrow> Some m)"
  by (induction ms) (auto simp: latest_movement_def)

lemma latest_movement_None:
  "latest_movement ms oid p = None \<longleftrightarrow> (\<forall>m \<in> set ms. \<not> (mv_order m = Some oid \<and> mv_product m = p))"
  by (auto simp: latest_movement_def find_None_iff)

lemma latest_movement_Some:
  "latest_movement ms oid p = Some m \<Longrightarrow> m \<in> set ms \<and> mv_order m = Some oid \<and> mv_product m = p"
  by (induction ms) (auto simp: latest_movement_Cons latest_movement_def split: if_splits)

lemma latest_movement_unique:
  assumes "distinct (map mv_product ms)" and "m \<in> set ms" and "mv_order m = Some oid"
  shows "latest_movement ms oid (mv_product m) = Some m"
  using assms
proof (induction ms)
  case Nil
  then show ?case by simp
next
  case (Cons x ms)
  then show ?case by (cases "x = m") (auto simp: latest_movement_Cons image_iff)
qed

lemma reserve_batch_products: "map mv_product (reserve_batch c d) = map line_product (rc_lines c)"
  by (simp add: reserve_batch_def reserve_mv_def)

lemma reserve_batch_keys:
  "map mv_key (reserve_batch c d) = map (\<lambda>l. (rc_warehouse c, line_product l)) (rc_lines c)"
  by (simp add: reserve_batch_def reserve_mv_def mv_key_def)

lemma reserve_mv_sel [simp]:
  "mv_warehouse (reserve_mv c ar l) = rc_warehouse c"
  "mv_product (reserve_mv c ar l) = line_product l"
  "mv_order (reserve_mv c ar l) = Some (rc_order c)"
  "mv_type (reserve_mv c ar l) = RESERVE"
  "mv_quantity_delta (reserve_mv c ar l) = - line_quantity l"
  "mv_available_after (reserve_mv c ar l) = fst ar - line_quantity l"
  "mv_reserved_after (reserve_mv c ar l) = snd ar + line_quantity l"
  by (simp_all add: reserve_mv_def)

lemma find_reserve_batch:
  "find (\<lambda>m. mv_key m = (w, p)) (reserve_batch c d) =
    (if w = rc_warehouse c
     then map_option (\<lambda>l. reserve_mv c (the (stock d w (line_product l))) l)
       (find (\<lambda>l. line_product l = p) (rc_lines c))
     else None)"
proof -
  have "find (\<lambda>m. mv_key m = (w, p)) (map (\<lambda>l. reserve_mv c (f l) l) ls) =
    (if w = rc_warehouse c then map_option (\<lambda>l. reserve_mv c (f l) l) (find (\<lambda>l. line_product l = p) ls)
     else None)" for f ls
    by (induction ls) (auto simp: mv_key_def)
  then show ?thesis by (simp add: reserve_batch_def)
qed

lemma lines_total_find:
  "distinct (map line_product ls) \<Longrightarrow>
    lines_total ls p = (case find (\<lambda>l. line_product l = p) ls of None \<Rightarrow> 0 | Some l \<Rightarrow> line_quantity l)"
  by (induction ls) (auto simp: lines_total_absent)

lemma set_reservation_Inr:
  "set_reservation w e oid d = Inr d' \<Longrightarrow>
     d' = d\<lparr>orders := update_rows (\<lambda>r. row_id r = oid)
       (\<lambda>r. r\<lparr>row_warehouse := Some w, row_reservation_expires_at := Some e\<rparr>) (orders d)\<rparr>"
  by (simp add: set_reservation_def split: if_splits)

lemma reserve_Inr:
  assumes "reserve now contended c d = Inr d'" and "inventory_keys_distinct d"
  shows "\<not> contended"
    and "\<forall>l \<in> set (rc_lines c). \<not> lacks d (rc_warehouse c) l"
    and "\<exists>d1. foldR post_movement (reserve_batch c d) d = Inr d1 \<and>
      set_reservation (rc_warehouse c) (now + reservation_ttl_minutes * ms_per_minute) (rc_order c) d1
        = Inr d'"
proof -
  show nc: "\<not> contended"
    using assms(1) by (auto simp: reserve_contended)
  from assms nc show "\<forall>l \<in> set (rc_lines c). \<not> lacks d (rc_warehouse c) l"
    by (auto simp: reserve_eq filter_empty_conv split: if_splits)
  from assms nc show "\<exists>d1. foldR post_movement (reserve_batch c d) d = Inr d1 \<and>
      set_reservation (rc_warehouse c) (now + reservation_ttl_minutes * ms_per_minute) (rc_order c) d1
        = Inr d'"
    by (auto simp: reserve_eq split: if_splits)
qed

lemma reserve_stock:
  assumes "reserve now contended c d = Inr d'" and "inventory_keys_distinct d"
    and "distinct (map line_product (rc_lines c))"
  shows "stock d' w p = (if w = rc_warehouse c
      then map_option (\<lambda>(a, r). (a - lines_total (rc_lines c) p, r + lines_total (rc_lines c) p)) (stock d w p)
      else stock d w p)"
proof -
  from reserve_Inr(3)[OF assms(1,2)] obtain d1 where
    d1: "foldR post_movement (reserve_batch c d) d = Inr d1"
    and d': "set_reservation (rc_warehouse c) (now + reservation_ttl_minutes * ms_per_minute) (rc_order c) d1
        = Inr d'" by blast
  have "distinct (map mv_key (reserve_batch c d))"
    using assms(3) by (simp add: reserve_batch_keys distinct_map inj_on_def)
  note batch = post_batch_Inr(3)[OF d1 this, of w p]
  have eq: "stock d' w p = stock d1 w p"
    using set_reservation_Inr[OF d'] by simp
  show ?thesis
    by (cases "stock d w p"; cases "find (\<lambda>l. line_product l = p) (rc_lines c)")
      (auto simp: eq batch find_reserve_batch lines_total_find[OF assms(3)] dest: find_Some_key)
qed

lemma reserve_frame:
  assumes "reserve now contended c d = Inr d'" and "inventory_keys_distinct d"
    and "distinct (map line_product (rc_lines c))"
  shows "\<exists>iv. d' = d\<lparr>inventory := iv, movements := rev (reserve_batch c d) @ movements d,
      orders := update_rows (\<lambda>r. row_id r = rc_order c)
       (\<lambda>r. r\<lparr>row_warehouse := Some (rc_warehouse c),
           row_reservation_expires_at := Some (now + reservation_ttl_minutes * ms_per_minute)\<rparr>) (orders d)\<rparr>
    \<and> map inv_key iv = map inv_key (inventory d)"
proof -
  from reserve_Inr(3)[OF assms(1,2)] obtain d1 where
    d1: "foldR post_movement (reserve_batch c d) d = Inr d1"
    and d': "set_reservation (rc_warehouse c) (now + reservation_ttl_minutes * ms_per_minute) (rc_order c) d1
        = Inr d'" by blast
  have dist: "distinct (map mv_key (reserve_batch c d))"
    using assms(3) by (simp add: reserve_batch_keys distinct_map inj_on_def)
  from post_batch_Inr(1,2)[OF d1 dist] obtain iv where
    "d1 = d\<lparr>inventory := iv, movements := rev (reserve_batch c d) @ movements d\<rparr>"
    and "map inv_key iv = map inv_key (inventory d)" by auto
  with set_reservation_Inr[OF d'] show ?thesis by auto
qed

lemma order_exists_update [simp]:
  "(\<And>r. row_id (f r) = row_id r) \<Longrightarrow>
    order_exists (d\<lparr>orders := update_rows p f os\<rparr>) oid = (oid \<in> row_id ` set os)"
proof -
  assume "\<And>r. row_id (f r) = row_id r"
  then have "map row_id (update_rows p f os) = map row_id os" by (rule map_update_rows)
  then have "row_id ` set (update_rows p f os) = row_id ` set os" by (metis list.set_map)
  then show ?thesis by (simp add: order_exists_def)
qed

lemma reserve_unchanged:
  assumes "reserve now contended c d = Inr d'" and "inventory_keys_distinct d"
    and "distinct (map line_product (rc_lines c))"
  shows "inventory_keys_distinct d'" and "customers d' = customers d" and "products d' = products d"
    and "warehouses d' = warehouses d" and "order_items d' = order_items d"
    and "payments d' = payments d" and "jobs d' = jobs d" and "shipments d' = shipments d"
    and "order_number_seq d' = order_number_seq d" and "order_exists d' oid = order_exists d oid"
    and "map inv_key (inventory d') = map inv_key (inventory d)"
  using reserve_frame[OF assms] assms(2)
  by (auto simp: inventory_keys_distinct_def order_exists_def[of d])

lemma reserve_orders:
  assumes "reserve now contended c d = Inr d'" and "inventory_keys_distinct d"
    and "distinct (map line_product (rc_lines c))"
  shows "orders d' = update_rows (\<lambda>r. row_id r = rc_order c)
       (\<lambda>r. r\<lparr>row_warehouse := Some (rc_warehouse c),
           row_reservation_expires_at := Some (now + reservation_ttl_minutes * ms_per_minute)\<rparr>) (orders d)"
    and "movements d' = rev (reserve_batch c d) @ movements d"
  using reserve_frame[OF assms] by auto

lemma latest_reserve_batch:
  assumes "distinct (map line_product (rc_lines c))"
  shows "latest_movement (rev (reserve_batch c d)) oid p =
    (if oid = rc_order c then map_option (\<lambda>l. reserve_mv c (the (stock d (rc_warehouse c) (line_product l))) l)
        (find (\<lambda>l. line_product l = p) (rc_lines c)) else None)"
proof (cases "oid = rc_order c")
  case False
  then show ?thesis by (auto simp: latest_movement_None reserve_batch_def)
next
  case True
  have dist: "distinct (map mv_product (rev (reserve_batch c d)))"
    using assms by (simp add: reserve_batch_products rev_map[symmetric])
  show ?thesis
  proof (cases "find (\<lambda>l. line_product l = p) (rc_lines c)")
    case None
    then have "latest_movement (rev (reserve_batch c d)) oid p = None"
      by (auto simp: latest_movement_None reserve_batch_def find_None_iff)
    with None show ?thesis by simp
  next
    case (Some l)
    then have l: "l \<in> set (rc_lines c)" "line_product l = p" by (auto dest: find_Some_key)
    let ?m = "reserve_mv c (the (stock d (rc_warehouse c) (line_product l))) l"
    from l have "?m \<in> set (rev (reserve_batch c d))" by (auto simp: reserve_batch_def)
    with dist True have "latest_movement (rev (reserve_batch c d)) oid (mv_product ?m) = Some ?m"
      by (intro latest_movement_unique) auto
    with Some True l show ?thesis by simp
  qed
qed

lemma reserve_held:
  assumes "reserve now contended c d = Inr d'" and "inventory_keys_distinct d"
    and "distinct (map line_product (rc_lines c))"
  shows "held d' oid p = (if oid = rc_order c \<and> p \<in> line_product ` set (rc_lines c)
     then \<bar>lines_total (rc_lines c) p\<bar> else held d oid p)"
proof -
  from reserve_frame[OF assms] have ms: "movements d' = rev (reserve_batch c d) @ movements d" by auto
  show ?thesis
  proof (cases "find (\<lambda>l. line_product l = p) (rc_lines c)")
    case None
    then have "p \<notin> line_product ` set (rc_lines c)" by (simp add: find_None_key)
    with None show ?thesis
      by (simp add: held_def ms latest_movement_append latest_reserve_batch[OF assms(3)])
  next
    case (Some l)
    then have "p \<in> line_product ` set (rc_lines c)" by (auto dest: find_Some_key)
    with Some show ?thesis
      by (simp add: held_def ms latest_movement_append latest_reserve_batch[OF assms(3)]
          lines_total_find[OF assms(3)] ends_reservation_def)
  qed
qed

text \<open>A reservation that nothing contends and every line of which is covered succeeds.\<close>

lemma reserve_ok:
  assumes "inventory_keys_distinct d" and "distinct (map line_product (rc_lines c))"
    and "\<forall>l \<in> set (rc_lines c). \<exists>a r. stock d (rc_warehouse c) (line_product l) = Some (a, r) \<and>
      line_quantity l \<le> a \<and> 0 \<le> r \<and> a + r < 2 ^ 31 \<and> 0 < line_quantity l"
    and "\<forall>l \<in> set (rc_lines c). line_product l \<in> prod_id ` set (products d)"
    and "rc_warehouse c \<in> wh_id ` set (warehouses d)" and "order_exists d (rc_order c)"
  shows "\<exists>d'. reserve now False c d = Inr d'"
proof -
  have "movement_fits m \<and> movement_fk_ok d m" if "m \<in> set (reserve_batch c d)" for m
  proof -
    from that obtain l where l: "l \<in> set (rc_lines c)"
      "m = reserve_mv c (the (stock d (rc_warehouse c) (line_product l))) l"
      by (auto simp: reserve_batch_def)
    with assms(3) obtain a r where ar: "stock d (rc_warehouse c) (line_product l) = Some (a, r)"
      "line_quantity l \<le> a" "0 \<le> r" "a + r < 2 ^ 31" "0 < line_quantity l" by blast
    with l assms(4,5,6) show ?thesis
      by (auto simp: movement_fits_def movement_fk_ok_def in_int4_def)
  qed
  then obtain d1 where d1: "foldR post_movement (reserve_batch c d) d = Inr d1"
    using post_batch_ok[of "reserve_batch c d" d] by blast
  have dist: "distinct (map mv_key (reserve_batch c d))"
    using assms(2) by (simp add: reserve_batch_keys distinct_map inj_on_def)
  from post_batch_Inr(1)[OF d1 dist] have "warehouses d1 = warehouses d" by auto
  with assms(5) have "\<exists>d'. set_reservation (rc_warehouse c)
      (now + reservation_ttl_minutes * ms_per_minute) (rc_order c) d1 = Inr d'"
    by (simp add: set_reservation_def)
  moreover have "filter (lacks d (rc_warehouse c)) (rc_lines c) = []"
    using assms(3) by (fastforce simp: filter_empty_conv lacks_def)
  ultimately show ?thesis
    using d1 by (auto simp: reserve_eq[OF assms(1)])
qed

subsection \<open>What ending a reservation does\<close>

text \<open>
  \<open>settle t contended c\<close> is \<open>release\<close> for \<open>t = RELEASE\<close> and \<open>commit\<close> for \<open>t = COMMIT\<close>, so
  that the facts the two share are stated once.
\<close>

definition settle :: "movement_type \<Rightarrow> bool \<Rightarrow> release_command \<Rightarrow> db \<Rightarrow> app_error + db" where
  "settle t contended c d = (if t = RELEASE then release contended c d else commit contended c d)"

lemma settle_release: "release contended c d = settle RELEASE contended c d"
  by (simp add: settle_def)

lemma settle_commit: "commit contended c d = settle COMMIT contended c d"
  by (simp add: settle_def)

definition settle_type :: "movement_type \<Rightarrow> bool" where
  "settle_type t \<longleftrightarrow> t = RELEASE \<or> t = COMMIT"

lemma settle_type_simps [simp]: "settle_type RELEASE" "settle_type COMMIT"
  by (simp_all add: settle_type_def)

lemma settle_eq:
  assumes "settle_type t" and "inventory_keys_distinct d" and "distinct (lc_products c)"
  shows "settle t False c d = foldR post_movement (settle_batch t c d) d"
  using assms by (auto simp: settle_type_def settle_def release_eq commit_eq)

lemma settle_Inr:
  assumes "settle t contended c d = Inr d'" and "settle_type t" and "inventory_keys_distinct d"
    and "distinct (lc_products c)"
  shows "\<not> contended" and "foldR post_movement (settle_batch t c d) d = Inr d'"
proof -
  show "\<not> contended"
    using assms(1) settle_contended by (auto simp: settle_def split: if_splits)
  with assms settle_eq show "foldR post_movement (settle_batch t c d) d = Inr d'" by auto
qed

lemma settle_frame:
  assumes "settle t contended c d = Inr d'" and "settle_type t" and "inventory_keys_distinct d"
    and "distinct (lc_products c)"
  shows "\<exists>iv. d' = d\<lparr>inventory := iv, movements := rev (settle_batch t c d) @ movements d\<rparr> \<and>
     map inv_key iv = map inv_key (inventory d)"
proof -
  have "distinct (map mv_key (settle_batch t c d))"
    unfolding settle_batch_def using assms(4) by (rule map_key_settle_batch)
  from post_batch_Inr(1,2)[OF settle_Inr(2)[OF assms] this] show ?thesis by auto
qed

lemma find_settle_batch:
  "find (\<lambda>m. mv_key m = (w, p)) (settle_batch t c d) =
    (if w = lc_warehouse c \<and> p \<in> set (lc_products c) \<and> settle_mvs t c d p \<noteq> []
     then Some (hd (settle_mvs t c d p)) else None)"
proof -
  have "find (\<lambda>m. mv_key m = (w, p)) (concat (map (settle_mvs t c d) ps)) =
    (if w = lc_warehouse c \<and> p \<in> set ps \<and> settle_mvs t c d p \<noteq> []
     then Some (hd (settle_mvs t c d p)) else None)" for ps
  proof (induction ps)
    case Nil
    then show ?case by simp
  next
    case (Cons q ps)
    from settle_mvs_short[of t c d q] show ?case
    proof
      assume "settle_mvs t c d q = []"
      with Cons show ?thesis by auto
    next
      assume "\<exists>m. settle_mvs t c d q = [m]"
      then obtain m where m: "settle_mvs t c d q = [m]" by blast
      then have "mv_key m = (lc_warehouse c, q)"
        using settle_mvs_props[of m t c d q] by (simp add: mv_key_def)
      with Cons m show ?thesis by auto
    qed
  qed
  then show ?thesis by (simp add: settle_batch_def)
qed

lemma settle_mvs_held:
  "settle_mvs t c d p \<noteq> [] \<Longrightarrow> \<exists>ar. stock d (lc_warehouse c) p = Some ar \<and>
     settle_mvs t c d p = [settle_mv t c p (held d (lc_order c) p) ar]"
  by (cases "latest_movement (movements d) (lc_order c) p"; cases "stock d (lc_warehouse c) p")
    (auto simp: settle_mvs_def held_def split: if_splits)

lemma settle_mvs_empty:
  "settle_mvs t c d p = [] \<Longrightarrow> stock d (lc_warehouse c) p \<noteq> None \<Longrightarrow> held d (lc_order c) p = 0"
  by (cases "latest_movement (movements d) (lc_order c) p"; cases "stock d (lc_warehouse c) p")
    (auto simp: settle_mvs_def held_def split: if_splits)

definition returned :: "movement_type \<Rightarrow> int \<Rightarrow> int" where
  "returned t q = (if t = RELEASE then q else 0)"

lemma settle_mv_after [simp]:
  "mv_available_after (settle_mv t c p q ar) = fst ar + returned t q"
  "mv_reserved_after (settle_mv t c p q ar) = snd ar - q"
  "mv_quantity_delta (settle_mv t c p q ar) = returned t q"
  by (simp_all add: settle_mv_def returned_def)

lemma settle_stock:
  assumes "settle t contended c d = Inr d'" and "settle_type t" and "inventory_keys_distinct d"
    and "distinct (lc_products c)"
  shows "stock d' w p = (if w = lc_warehouse c \<and> p \<in> set (lc_products c)
      then map_option (\<lambda>(a, r). (a + returned t (held d (lc_order c) p), r - held d (lc_order c) p)) (stock d w p)
      else stock d w p)"
proof -
  have "distinct (map mv_key (settle_batch t c d))"
    unfolding settle_batch_def using assms(4) by (rule map_key_settle_batch)
  note batch = post_batch_Inr(3)[OF settle_Inr(2)[OF assms] this, of w p]
  show ?thesis
  proof (cases "w = lc_warehouse c \<and> p \<in> set (lc_products c)")
    case False
    with batch show ?thesis by (auto simp: find_settle_batch)
  next
    case True
    show ?thesis
    proof (cases "settle_mvs t c d p = []")
      case True
      with batch settle_mvs_empty[OF True] \<open>w = lc_warehouse c \<and> p \<in> set (lc_products c)\<close>
      show ?thesis by (cases "stock d w p") (auto simp: find_settle_batch returned_def)
    next
      case False
      from settle_mvs_held[OF False] obtain ar where "stock d (lc_warehouse c) p = Some ar"
        "settle_mvs t c d p = [settle_mv t c p (held d (lc_order c) p) ar]" by blast
      with batch True False show ?thesis by (auto simp: find_settle_batch split: prod.splits)
    qed
  qed
qed

lemma latest_settle_batch:
  "latest_movement (rev (settle_batch t c d)) oid p =
    (if oid = lc_order c \<and> p \<in> set (lc_products c) \<and> settle_mvs t c d p \<noteq> []
     then Some (hd (settle_mvs t c d p)) else None)"
proof (cases "oid = lc_order c \<and> p \<in> set (lc_products c) \<and> settle_mvs t c d p \<noteq> []")
  case False
  have "\<not> (mv_order m = Some oid \<and> mv_product m = p)" if m: "m \<in> set (settle_batch t c d)" for m
  proof
    assume eq: "mv_order m = Some oid \<and> mv_product m = p"
    from m obtain q where "q \<in> set (lc_products c)" "m \<in> set (settle_mvs t c d q)"
      by (auto simp: settle_batch_def)
    with eq settle_mvs_props[of m t c d q] have "q = p" "oid = lc_order c" by auto
    with False \<open>q \<in> _\<close> \<open>m \<in> set (settle_mvs t c d q)\<close> show False by auto
  qed
  then have "latest_movement (rev (settle_batch t c d)) oid p = None"
    by (simp add: latest_movement_None)
  with False show ?thesis by auto
next
  case True
  then obtain m where m: "settle_mvs t c d p = [m]" using settle_mvs_short by fast
  have *: "x = m" if "x \<in> set (settle_batch t c d)" "mv_product x = p" for x
  proof -
    from that obtain q where "q \<in> set (lc_products c)" "x \<in> set (settle_mvs t c d q)"
      by (auto simp: settle_batch_def)
    with that settle_mvs_props[of x t c d q] m show ?thesis by auto
  qed
  have "m \<in> set (settle_batch t c d)" using True m by (force simp: settle_batch_def)
  moreover have "mv_product m = p \<and> mv_order m = Some oid"
    using settle_mvs_props[of m t c d p] m True by auto
  ultimately have "latest_movement (rev (settle_batch t c d)) oid p \<noteq> None"
    by (auto simp: latest_movement_None)
  then obtain x where x: "latest_movement (rev (settle_batch t c d)) oid p = Some x" by blast
  then have "x \<in> set (settle_batch t c d)" "mv_product x = p"
    using latest_movement_Some[OF x] by simp_all
  with * x m True show ?thesis by auto
qed

lemma settle_held:
  assumes "settle t contended c d = Inr d'" and "settle_type t" and "inventory_keys_distinct d"
    and "distinct (lc_products c)"
  shows "held d' oid p = (if oid = lc_order c \<and> p \<in> set (lc_products c) \<and>
      stock d (lc_warehouse c) p \<noteq> None then 0 else held d oid p)"
proof -
  from settle_frame[OF assms] have ms: "movements d' = rev (settle_batch t c d) @ movements d" by auto
  show ?thesis
  proof (cases "oid = lc_order c \<and> p \<in> set (lc_products c) \<and> settle_mvs t c d p \<noteq> []")
    case True
    then obtain ar where "stock d (lc_warehouse c) p = Some ar"
      "settle_mvs t c d p = [settle_mv t c p (held d (lc_order c) p) ar]"
      using settle_mvs_held by blast
    with True assms(2) show ?thesis
      by (auto simp: held_def[of d'] ms latest_movement_append latest_settle_batch ends_reservation_def
          settle_type_def)
  next
    case False
    then have "held d' oid p = held d oid p"
      by (auto simp: held_def ms latest_movement_append latest_settle_batch)
    with False settle_mvs_empty show ?thesis by auto
  qed
qed

text \<open>Ending a reservation succeeds when the ledger's open units are in the reserved balance.\<close>

lemma settle_ok:
  assumes "settle_type t" and "inventory_keys_distinct d" and "distinct (lc_products c)"
    and "\<forall>p \<in> set (lc_products c). case stock d (lc_warehouse c) p of None \<Rightarrow> True
      | Some (a, r) \<Rightarrow> 0 \<le> a \<and> held d (lc_order c) p \<le> r \<and> a + r < 2 ^ 31"
    and "set (lc_products c) \<subseteq> prod_id ` set (products d)"
    and "lc_warehouse c \<in> wh_id ` set (warehouses d)" and "order_exists d (lc_order c)"
  shows "\<exists>d'. settle t False c d = Inr d'"
proof -
  have "movement_fits m \<and> movement_fk_ok d m" if "m \<in> set (settle_batch t c d)" for m
  proof -
    from that obtain p where p: "p \<in> set (lc_products c)" "m \<in> set (settle_mvs t c d p)"
      by (auto simp: settle_batch_def)
    then have "settle_mvs t c d p \<noteq> []" by auto
    from settle_mvs_held[OF this] obtain a r where ar: "stock d (lc_warehouse c) p = Some (a, r)"
      "settle_mvs t c d p = [settle_mv t c p (held d (lc_order c) p) (a, r)]" by auto
    with p have m: "m = settle_mv t c p (held d (lc_order c) p) (a, r)" by simp
    have "0 \<le> held d (lc_order c) p" by (simp add: held_def split: option.split)
    with p ar assms(4) m assms(5,6,7) show ?thesis
      by (fastforce simp: movement_fits_def movement_fk_ok_def in_int4_def returned_def)
  qed
  with post_batch_ok[of "settle_batch t c d" d] show ?thesis
    by (simp add: settle_eq[OF assms(1-3)])
qed

lemma settle_nothing_held:
  assumes "settle_type t" and "inventory_keys_distinct d" and "distinct (lc_products c)"
    and "\<forall>p \<in> set (lc_products c). case latest_movement (movements d) (lc_order c) p of
      None \<Rightarrow> True | Some m \<Rightarrow> ends_reservation (mv_type m)"
  shows "settle t False c d = Inr d"
proof -
  have "settle_mvs t c d p = []" if "p \<in> set (lc_products c)" for p
    using that assms(4) by (fastforce simp: settle_mvs_def split: option.splits)
  then have "settle_batch t c d = []" by (simp add: settle_batch_def)
  with settle_eq[OF assms(1-3)] show ?thesis by simp
qed

lemma settle_unchanged:
  assumes "settle t contended c d = Inr d'" and "settle_type t" and "inventory_keys_distinct d"
    and "distinct (lc_products c)"
  shows "inventory_keys_distinct d'" and "customers d' = customers d" and "products d' = products d"
    and "warehouses d' = warehouses d" and "order_items d' = order_items d" and "orders d' = orders d"
    and "payments d' = payments d" and "jobs d' = jobs d" and "shipments d' = shipments d"
    and "order_number_seq d' = order_number_seq d" and "order_exists d' oid = order_exists d oid"
    and "map inv_key (inventory d') = map inv_key (inventory d)"
  using settle_frame[OF assms] assms(3) by (auto simp: inventory_keys_distinct_def)

end
