(* ===== verification/Reservation.thy ===== *)
theory Reservation
  imports Ledger
begin

section \<open>The contract of the inventory service\<close>

text \<open>
  What the payment side relies on when it calls \<open>reserve\<close>, \<open>release\<close> and \<open>commit\<close>, as a locale:
  the stock a call leaves behind and the units an order still holds afterwards. The lemmas of the
  locale are what its clients use; it is interpreted on the model of \<open>InventoryService\<close>.
\<close>

locale reservation_ledger =
  fixes ok :: "'d \<Rightarrow> bool"
    and level :: "'d \<Rightarrow> 'w \<Rightarrow> 'p \<Rightarrow> (int \<times> int) option"
    and open_units :: "'d \<Rightarrow> 'o \<Rightarrow> 'p \<Rightarrow> int"
    and lines_ok :: "'l \<Rightarrow> bool"
    and demand :: "'l \<Rightarrow> 'p \<Rightarrow> int"
    and listed :: "'l \<Rightarrow> 'p list"
    and reserve_in :: "'o \<Rightarrow> 'w \<Rightarrow> 'l \<Rightarrow> 'd \<Rightarrow> 'e + 'd"
    and release_in :: "'o \<Rightarrow> 'w \<Rightarrow> 'p list \<Rightarrow> 'd \<Rightarrow> 'e + 'd"
    and commit_in :: "'o \<Rightarrow> 'w \<Rightarrow> 'p list \<Rightarrow> 'd \<Rightarrow> 'e + 'd"
  assumes listed_distinct: "lines_ok ls \<Longrightarrow> distinct (listed ls)"
    and demand_pos: "lines_ok ls \<Longrightarrow> p \<in> set (listed ls) \<Longrightarrow> 0 < demand ls p"
    and demand_unlisted: "p \<notin> set (listed ls) \<Longrightarrow> demand ls p = 0"
    and reserve_law: "ok d \<Longrightarrow> lines_ok ls \<Longrightarrow> reserve_in oid w ls d = Inr d' \<Longrightarrow>
      ok d' \<and>
      (\<forall>w' p. level d' w' p = (if w' = w
         then map_option (\<lambda>(a, r). (a - demand ls p, r + demand ls p)) (level d w p) else level d w' p)) \<and>
      (\<forall>o' p. open_units d' o' p =
         (if o' = oid \<and> p \<in> set (listed ls) then demand ls p else open_units d o' p))"
    and reserve_enough: "ok d \<Longrightarrow> lines_ok ls \<Longrightarrow> reserve_in oid w ls d = Inr d' \<Longrightarrow>
      p \<in> set (listed ls) \<Longrightarrow> \<exists>a r. level d w p = Some (a, r) \<and> demand ls p \<le> a"
    and release_law: "ok d \<Longrightarrow> distinct ps \<Longrightarrow> release_in oid w ps d = Inr d' \<Longrightarrow>
      ok d' \<and>
      (\<forall>w' p. level d' w' p = (if w' = w \<and> p \<in> set ps
         then map_option (\<lambda>(a, r). (a + open_units d oid p, r - open_units d oid p)) (level d w p)
         else level d w' p)) \<and>
      (\<forall>o' p. open_units d' o' p =
         (if o' = oid \<and> p \<in> set ps \<and> level d w p \<noteq> None then 0 else open_units d o' p))"
    and commit_law: "ok d \<Longrightarrow> distinct ps \<Longrightarrow> commit_in oid w ps d = Inr d' \<Longrightarrow>
      ok d' \<and>
      (\<forall>w' p. level d' w' p = (if w' = w \<and> p \<in> set ps
         then map_option (\<lambda>(a, r). (a, r - open_units d oid p)) (level d w p)
         else level d w' p)) \<and>
      (\<forall>o' p. open_units d' o' p =
         (if o' = oid \<and> p \<in> set ps \<and> level d w p \<noteq> None then 0 else open_units d o' p))"
begin

lemma release_undoes_reserve:
  assumes "ok d" and "lines_ok ls" and "reserve_in oid w ls d = Inr d1"
    and "release_in oid w (listed ls) d1 = Inr d2"
  shows "level d2 w' p = level d w' p" and "p \<in> set (listed ls) \<Longrightarrow> open_units d2 oid p = 0"
proof -
  note r = reserve_law[OF assms(1-3)]
  have ps: "distinct (listed ls)" using assms(2) by (rule listed_distinct)
  note s = release_law[OF conjunct1[OF r] ps assms(4)]
  show "level d2 w' p = level d w' p"
    using r s demand_unlisted[of p ls] by (cases "level d w p") (auto split: if_splits)
  show "open_units d2 oid p = 0" if "p \<in> set (listed ls)"
    using reserve_enough[OF assms(1-3) that] r s that by auto
qed

lemma commit_after_reserve:
  assumes "ok d" and "lines_ok ls" and "reserve_in oid w ls d = Inr d1"
    and "commit_in oid w (listed ls) d1 = Inr d2" and "level d w p = Some (a, r)"
  shows "level d2 w p = Some (a - demand ls p, r)"
proof -
  note r = reserve_law[OF assms(1-3)]
  have ps: "distinct (listed ls)" using assms(2) by (rule listed_distinct)
  note s = commit_law[OF conjunct1[OF r] ps assms(4)]
  show ?thesis
    using r s assms(5) demand_unlisted[of p ls] by (auto split: if_splits)
qed

lemma release_twice:
  assumes "ok d" and "distinct ps" and "release_in oid w ps d = Inr d1"
    and "release_in oid w ps d1 = Inr d2"
  shows "level d2 = level d1"
proof (intro ext)
  fix w' p
  note r = release_law[OF assms(1-3)]
  note s = release_law[OF conjunct1[OF r] assms(2) assms(4)]
  show "level d2 w' p = level d1 w' p"
    using r s by (cases "level d w p") auto
qed

lemma release_after_commit:
  assumes "ok d" and "distinct ps" and "commit_in oid w ps d = Inr d1"
    and "release_in oid w ps d1 = Inr d2"
  shows "level d2 = level d1"
proof (intro ext)
  fix w' p
  note r = commit_law[OF assms(1-3)]
  note s = release_law[OF conjunct1[OF r] assms(2) assms(4)]
  show "level d2 w' p = level d1 w' p"
    using r s by (cases "level d w p") auto
qed

lemma commit_after_release:
  assumes "ok d" and "distinct ps" and "release_in oid w ps d = Inr d1"
    and "commit_in oid w ps d1 = Inr d2"
  shows "level d2 = level d1"
proof (intro ext)
  fix w' p
  note r = release_law[OF assms(1-3)]
  note s = commit_law[OF conjunct1[OF r] assms(2) assms(4)]
  show "level d2 w' p = level d1 w' p"
    using r s by (cases "level d w p") auto
qed

lemma commit_twice:
  assumes "ok d" and "distinct ps" and "commit_in oid w ps d = Inr d1"
    and "commit_in oid w ps d1 = Inr d2"
  shows "level d2 = level d1"
proof (intro ext)
  fix w' p
  note r = commit_law[OF assms(1-3)]
  note s = commit_law[OF conjunct1[OF r] assms(2) assms(4)]
  show "level d2 w' p = level d1 w' p"
    using r s by (cases "level d w p") auto
qed

text \<open>Reserving and releasing only move units between the two balances.\<close>

lemma reserve_conserves:
  assumes "ok d" and "lines_ok ls" and "reserve_in oid w ls d = Inr d'"
  shows "map_option (\<lambda>(a, r). a + r) (level d' w' p) = map_option (\<lambda>(a, r). a + r) (level d w' p)"
  using reserve_law[OF assms] by (cases "level d w p") auto

lemma release_conserves:
  assumes "ok d" and "distinct ps" and "release_in oid w ps d = Inr d'"
  shows "map_option (\<lambda>(a, r). a + r) (level d' w' p) = map_option (\<lambda>(a, r). a + r) (level d w' p)"
  using release_law[OF assms] by (cases "level d w p") auto

end

subsection \<open>The service of the code provides it\<close>

definition reserve_step ::
  "timestamp \<Rightarrow> bool \<Rightarrow> uuid \<Rightarrow> uuid \<Rightarrow> order_line list \<Rightarrow> db \<Rightarrow> app_error + db" where
  "reserve_step now contended oid w ls =
     reserve now contended \<lparr>rc_order = oid, rc_warehouse = w, rc_lines = ls\<rparr>"

definition release_step :: "bool \<Rightarrow> uuid \<Rightarrow> uuid \<Rightarrow> uuid list \<Rightarrow> db \<Rightarrow> app_error + db" where
  "release_step contended oid w ps =
     release contended \<lparr>lc_order = oid, lc_warehouse = w, lc_products = ps\<rparr>"

definition commit_step :: "bool \<Rightarrow> uuid \<Rightarrow> uuid \<Rightarrow> uuid list \<Rightarrow> db \<Rightarrow> app_error + db" where
  "commit_step contended oid w ps =
     commit contended \<lparr>lc_order = oid, lc_warehouse = w, lc_products = ps\<rparr>"

definition valid_lines :: "order_line list \<Rightarrow> bool" where
  "valid_lines ls \<longleftrightarrow> distinct (map line_product ls) \<and> (\<forall>l \<in> set ls. 0 < line_quantity l)"

lemma lines_total_pos:
  "valid_lines ls \<Longrightarrow> p \<in> line_product ` set ls \<Longrightarrow> 0 < lines_total ls p"
  by (auto simp: valid_lines_def lines_total_distinct)

lemma inventory_keys_distinct_step:
  assumes "inventory_keys_distinct d" and "map inv_key (inventory d') = map inv_key (inventory d)"
  shows "inventory_keys_distinct d'"
  using assms by (simp add: inventory_keys_distinct_def)

interpretation inventory_service:
  reservation_ledger inventory_keys_distinct stock held valid_lines lines_total "map line_product"
    "reserve_step now contended" "release_step contended" "commit_step contended"
  for now contended
proof
  fix ls :: "order_line list" and p d d' oid w ps
  show "valid_lines ls \<Longrightarrow> distinct (map line_product ls)"
    by (simp add: valid_lines_def)
  show "valid_lines ls \<Longrightarrow> p \<in> set (map line_product ls) \<Longrightarrow> 0 < lines_total ls p"
    by (rule lines_total_pos) auto
  show "p \<notin> set (map line_product ls) \<Longrightarrow> lines_total ls p = 0"
    by (simp add: lines_total_absent)
  { assume d: "inventory_keys_distinct d" and ls: "valid_lines ls"
      and res: "reserve_step now contended oid w ls d = Inr d'"
    let ?c = "\<lparr>rc_order = oid, rc_warehouse = w, rc_lines = ls\<rparr>"
    from res have r: "reserve now contended ?c d = Inr d'" by (simp add: reserve_step_def)
    from ls have dist: "distinct (map line_product (rc_lines ?c))" by (simp add: valid_lines_def)
    from reserve_frame[OF r d dist] have "inventory_keys_distinct d'"
      by (auto intro: inventory_keys_distinct_step[OF d])
    with reserve_stock[OF r d dist] reserve_held[OF r d dist] lines_total_pos[OF ls]
    show "inventory_keys_distinct d' \<and>
      (\<forall>w' p. stock d' w' p = (if w' = w
         then map_option (\<lambda>(a, r). (a - lines_total ls p, r + lines_total ls p)) (stock d w p)
         else stock d w' p)) \<and>
      (\<forall>o' p. held d' o' p =
         (if o' = oid \<and> p \<in> set (map line_product ls) then lines_total ls p else held d o' p))"
      by (auto simp: less_imp_le)
    from reserve_Inr(2)[OF r d] dist show "p \<in> set (map line_product ls) \<Longrightarrow>
        \<exists>a r. stock d w p = Some (a, r) \<and> lines_total ls p \<le> a"
      by (auto simp: lacks_def lines_total_distinct not_less split: option.splits) }
  { assume d: "inventory_keys_distinct d" and ps: "distinct ps"
      and rel: "release_step contended oid w ps d = Inr d'"
    let ?c = "\<lparr>lc_order = oid, lc_warehouse = w, lc_products = ps\<rparr>"
    from rel have r: "settle RELEASE contended ?c d = Inr d'"
      by (simp add: release_step_def settle_release)
    from ps have dist: "distinct (lc_products ?c)" by simp
    from settle_frame[OF r _ d dist] have "inventory_keys_distinct d'"
      by (auto intro: inventory_keys_distinct_step[OF d])
    with settle_stock[OF r _ d dist] settle_held[OF r _ d dist]
    show "inventory_keys_distinct d' \<and>
      (\<forall>w' p. stock d' w' p = (if w' = w \<and> p \<in> set ps
         then map_option (\<lambda>(a, r). (a + held d oid p, r - held d oid p)) (stock d w p)
         else stock d w' p)) \<and>
      (\<forall>o' p. held d' o' p =
         (if o' = oid \<and> p \<in> set ps \<and> stock d w p \<noteq> None then 0 else held d o' p))"
      by (simp add: returned_def) }
  { assume d: "inventory_keys_distinct d" and ps: "distinct ps"
      and com: "commit_step contended oid w ps d = Inr d'"
    let ?c = "\<lparr>lc_order = oid, lc_warehouse = w, lc_products = ps\<rparr>"
    from com have r: "settle COMMIT contended ?c d = Inr d'"
      by (simp add: commit_step_def settle_commit)
    from ps have dist: "distinct (lc_products ?c)" by simp
    from settle_frame[OF r _ d dist] have "inventory_keys_distinct d'"
      by (auto intro: inventory_keys_distinct_step[OF d])
    with settle_stock[OF r _ d dist] settle_held[OF r _ d dist]
    show "inventory_keys_distinct d' \<and>
      (\<forall>w' p. stock d' w' p = (if w' = w \<and> p \<in> set ps
         then map_option (\<lambda>(a, r). (a, r - held d oid p)) (stock d w p)
         else stock d w' p)) \<and>
      (\<forall>o' p. held d' o' p =
         (if o' = oid \<and> p \<in> set ps \<and> stock d w p \<noteq> None then 0 else held d o' p))"
      by (simp add: returned_def) }
qed

subsection \<open>A concrete store\<close>

definition sample_order_row :: order_row where
  "sample_order_row = \<lparr>row_id = ''o1'', row_number = ''CNL-2026-000001'', row_customer = ''c1'',
     row_warehouse = None, row_status = PENDING_PAYMENT, row_currency = usd, row_total_cents = 300,
     row_address = ord_address sample_order, row_location = (- 117, 32),
     row_reservation_expires_at = None, row_confirmed_at = None, row_cancelled_at = None,
     row_cancellation_reason = None, row_created_at = 0, row_updated_at = 0\<rparr>"

definition sample_db :: db where
  "sample_db = \<lparr>customers = [\<lparr>cust_id = ''c1'', cust_email = ''a@b.c'', cust_full_name = ''Ada'',
       cust_phone = None, cust_created_at = 0, cust_updated_at = 0, cust_deleted_at = None\<rparr>],
     products = [
       \<lparr>prod_id = ''pa'', prod_sku = ''A'', prod_name = ''a'', prod_description = None,
        prod_condition = COND_NEW, prod_unit_price_cents = 100,
        prod_is_active = True, prod_created_at = 0, prod_updated_at = 0, prod_deleted_at = None\<rparr>,
       \<lparr>prod_id = ''pb'', prod_sku = ''B'', prod_name = ''b'', prod_description = None,
        prod_condition = COND_USED, prod_unit_price_cents = 50,
        prod_is_active = True, prod_created_at = 0, prod_updated_at = 0, prod_deleted_at = None\<rparr>],
     warehouses = [\<lparr>wh_id = ''w1'', wh_name = ''w'', wh_address = JObj [],
        wh_location = \<lparr>latitude = 32, longitude = - 117\<rparr>, wh_is_active = True, wh_created_at = 0,
        wh_updated_at = 0, wh_deleted_at = None\<rparr>],
     inventory = [
       \<lparr>inv_warehouse = ''w1'', inv_product = ''pa'', qty_available = 5, qty_reserved = 0, inv_version = 0\<rparr>,
       \<lparr>inv_warehouse = ''w1'', inv_product = ''pb'', qty_available = 4, qty_reserved = 1, inv_version = 0\<rparr>],
     movements = [], orders = [sample_order_row], order_items = [], payments = [], shipments = [],
     jobs = [], order_number_seq = 1\<rparr>"

definition sample_reserve :: reserve_command where
  "sample_reserve = \<lparr>rc_order = ''o1'', rc_warehouse = ''w1'',
     rc_lines = [\<lparr>line_product = ''pa'', line_quantity = 2\<rparr>, \<lparr>line_product = ''pb'', line_quantity = 4\<rparr>]\<rparr>"

lemmas sample_defs = sample_db_def sample_order_row_def sample_reserve_def sample_order_def

lemma sample_facts:
  "inventory_keys_distinct sample_db" "valid_lines (rc_lines sample_reserve)"
  "stock sample_db ''w1'' ''pa'' = Some (5, 0)" "stock sample_db ''w1'' ''pb'' = Some (4, 1)"
  by (simp_all add: sample_defs inventory_keys_distinct_def valid_lines_def inv_key_def stock_def
      find_inventory_def)

definition sample_reserved :: db where
  "sample_reserved = (case reserve 0 False sample_reserve sample_db of Inr d \<Rightarrow> d | Inl e \<Rightarrow> sample_db)"

lemma sample_reserve_ok: "reserve 0 False sample_reserve sample_db = Inr sample_reserved"
proof -
  have "\<exists>d'. reserve 0 False sample_reserve sample_db = Inr d'"
    using sample_facts
    by (intro reserve_ok) (simp_all add: sample_defs valid_lines_def order_exists_def)
  then show ?thesis by (auto simp: sample_reserved_def)
qed

subsection \<open>Properties\<close>

text \<open>
  C11. A reservation that returns did so without contention and moved, for every line and no other
  product or warehouse, exactly the quantity asked from available to reserved; it never takes a
  balance below zero, records the units as held by that order, and sets the order's warehouse and
  its expiry fifteen minutes ahead. Nothing else in the database changes but the ledger.
\<close>

theorem reserve_moves_units:
  assumes "reserve now contended c d = Inr d'" and "inventory_keys_distinct d"
    and "valid_lines (rc_lines c)"
  shows "\<not> contended \<and>
    (\<forall>w p. stock d' w p = (if w = rc_warehouse c
       then map_option (\<lambda>(a, r). (a - lines_total (rc_lines c) p, r + lines_total (rc_lines c) p)) (stock d w p)
       else stock d w p)) \<and>
    (\<forall>l \<in> set (rc_lines c). \<exists>a r. stock d (rc_warehouse c) (line_product l) = Some (a, r) \<and>
       line_quantity l \<le> a \<and> held d' (rc_order c) (line_product l) = line_quantity l) \<and>
    (\<exists>iv ms. d' = d\<lparr>inventory := iv, movements := ms @ movements d,
       orders := update_rows (\<lambda>r. row_id r = rc_order c)
         (\<lambda>r. r\<lparr>row_warehouse := Some (rc_warehouse c), row_reservation_expires_at := Some (now + 900000)\<rparr>)
         (orders d)\<rparr> \<and> length ms = length (rc_lines c))"
proof (intro conjI allI ballI)
  from assms(3) have dist: "distinct (map line_product (rc_lines c))" by (simp add: valid_lines_def)
  show "\<not> contended" by (rule reserve_Inr(1)[OF assms(1,2)])
  show "stock d' w p = (if w = rc_warehouse c
       then map_option (\<lambda>(a, r). (a - lines_total (rc_lines c) p, r + lines_total (rc_lines c) p)) (stock d w p)
       else stock d w p)" for w p
    by (rule reserve_stock[OF assms(1,2) dist])
  show "\<exists>a r. stock d (rc_warehouse c) (line_product l) = Some (a, r) \<and> line_quantity l \<le> a \<and>
      held d' (rc_order c) (line_product l) = line_quantity l" if l: "l \<in> set (rc_lines c)" for l
  proof -
    from l reserve_Inr(2)[OF assms(1,2)] have "\<not> lacks d (rc_warehouse c) l" by blast
    then obtain a r where "stock d (rc_warehouse c) (line_product l) = Some (a, r)" "line_quantity l \<le> a"
      by (auto simp: lacks_def split: option.splits)
    moreover from l have "lines_total (rc_lines c) (line_product l) = line_quantity l" "0 < line_quantity l"
      using lines_total_distinct[OF dist] assms(3) by (auto simp: valid_lines_def)
    ultimately show ?thesis using reserve_held[OF assms(1,2) dist] l by simp
  qed
  from reserve_frame[OF assms(1,2) dist]
  show "\<exists>iv ms. d' = d\<lparr>inventory := iv, movements := ms @ movements d,
       orders := update_rows (\<lambda>r. row_id r = rc_order c)
         (\<lambda>r. r\<lparr>row_warehouse := Some (rc_warehouse c), row_reservation_expires_at := Some (now + 900000)\<rparr>)
         (orders d)\<rparr> \<and> length ms = length (rc_lines c)"
    by (auto simp: reservation_ttl_minutes_def ms_per_minute_def reserve_batch_def
        intro!: exI[of _ "rev (reserve_batch c d)"])
qed

theorem reserve_moves_units_witness:
  "stock sample_reserved ''w1'' ''pb'' = Some (0, 5)"
  using reserve_moves_units[OF sample_reserve_ok sample_facts(1,2)] sample_facts
  by (simp add: sample_reserve_def)

text \<open>
  \<open>InsufficientStockError\<close> is thrown in two cases only, and names exactly the products meant:
  all of the command's when a row lock timed out, otherwise those, in the order of the lines,
  whose row is missing or holds fewer available units than asked.
\<close>

lemma reserve_insufficient_iff:
  assumes "inventory_keys_distinct d"
  shows "reserve now contended c d = Inl (InsufficientStockError ids) \<longleftrightarrow>
    (if contended then ids = map line_product (rc_lines c)
     else ids \<noteq> [] \<and> ids = map line_product (filter (\<lambda>l. case stock d (rc_warehouse c) (line_product l) of
        None \<Rightarrow> True | Some (a, r) \<Rightarrow> a < line_quantity l) (rc_lines c)))"
proof (cases contended)
  case True
  then show ?thesis by (auto simp: reserve_contended)
next
  case False
  have post: "foldR post_movement ms d0 \<noteq> Inl (InsufficientStockError ids)" for ms d0
    by (induction ms arbitrary: d0) (auto simp: bindR_eq_Inl post_movement_def
        update_inventory_balances_def insert_movement_def)
  have "lacks d (rc_warehouse c) = (\<lambda>l. case stock d (rc_warehouse c) (line_product l) of
        None \<Rightarrow> True | Some (a, r) \<Rightarrow> a < line_quantity l)"
    by (simp add: lacks_def fun_eq_iff)
  with False post show ?thesis
    by (auto simp: reserve_eq[OF assms] bindR_eq_Inl set_reservation_def)
qed

text \<open>
  Releasing an order's reservation gives back exactly what reserving took: every balance of
  every warehouse is as it was before, and the order holds nothing any more.
\<close>

lemma release_restores_stock:
  assumes "reserve now b1 c d = Inr d1" and "inventory_keys_distinct d" and "valid_lines (rc_lines c)"
    and "release b2 \<lparr>lc_order = rc_order c, lc_warehouse = rc_warehouse c,
           lc_products = map line_product (rc_lines c)\<rparr> d1 = Inr d2"
  shows "stock d2 = stock d \<and> (\<forall>l \<in> set (rc_lines c). held d2 (rc_order c) (line_product l) = 0)"
proof -
  from assms(1,4) have "\<not> b1" "\<not> b2"
    by (auto simp: reserve_contended settle_contended)
  with assms have r: "reserve_step now False (rc_order c) (rc_warehouse c) (rc_lines c) d = Inr d1"
    and s: "release_step False (rc_order c) (rc_warehouse c) (map line_product (rc_lines c)) d1 = Inr d2"
    by (cases c; simp add: reserve_step_def release_step_def)+
  note undo = inventory_service.release_undoes_reserve[OF assms(2,3) r s]
  show ?thesis
    using undo(2) by (auto simp: undo(1) fun_eq_iff)
qed

definition sample_release :: release_command where
  "sample_release = \<lparr>lc_order = ''o1'', lc_warehouse = ''w1'', lc_products = [''pa'', ''pb'']\<rparr>"

lemma sample_reserved_facts:
  "stock sample_reserved ''w1'' ''pa'' = Some (3, 2)" "stock sample_reserved ''w1'' ''pb'' = Some (0, 5)"
  "held sample_reserved ''o1'' ''pa'' = 2" "held sample_reserved ''o1'' ''pb'' = 4"
  "inventory_keys_distinct sample_reserved"
  "products sample_reserved = products sample_db" "warehouses sample_reserved = warehouses sample_db"
  "order_exists sample_reserved ''o1''"
proof -
  from sample_facts(2) have dist: "distinct (map line_product (rc_lines sample_reserve))"
    by (simp add: valid_lines_def)
  note st = reserve_stock[OF sample_reserve_ok sample_facts(1) dist]
    and hd = reserve_held[OF sample_reserve_ok sample_facts(1) dist]
  show "stock sample_reserved ''w1'' ''pa'' = Some (3, 2)"
    and "stock sample_reserved ''w1'' ''pb'' = Some (0, 5)"
    by (simp_all add: st) (simp_all add: sample_reserve_def sample_facts)
  show "held sample_reserved ''o1'' ''pa'' = 2" "held sample_reserved ''o1'' ''pb'' = 4"
    by (simp_all add: hd) (simp_all add: sample_reserve_def)
  note same = reserve_unchanged[OF sample_reserve_ok sample_facts(1) dist]
  show "inventory_keys_distinct sample_reserved" "products sample_reserved = products sample_db"
    "warehouses sample_reserved = warehouses sample_db" "order_exists sample_reserved ''o1''"
    by (simp_all add: same) (simp add: order_exists_def sample_db_def sample_order_row_def)
qed

lemma sample_settle_ok:
  assumes "settle_type t"
  shows "\<exists>d. settle t False sample_release sample_reserved = Inr d"
  using assms sample_reserved_facts
  by (intro settle_ok) (simp_all add: sample_release_def sample_db_def)

text \<open>
  A reservation is settled once. After the stock of an order was committed or released,
  committing or releasing the same lines again, in either combination, changes no balance of any
  warehouse: a retried settlement or a late reaper cannot give units back twice, nor give back
  units that were sold.
\<close>

lemma settled_once:
  assumes "settle t1 b1 c d = Inr d1" and "settle t2 b2 c d1 = Inr d2"
    and "t1 \<in> {RELEASE, COMMIT}" and "t2 \<in> {RELEASE, COMMIT}"
    and "inventory_keys_distinct d" and "distinct (lc_products c)"
  shows "stock d2 = stock d1"
proof -
  from settle_Inr(1)[OF assms(1)] settle_contended assms have "\<not> b1" "\<not> b2"
    by (auto simp: settle_def)
  with assms(1,2) have
    "(if t1 = RELEASE then release_step False else commit_step False)
       (lc_order c) (lc_warehouse c) (lc_products c) d = Inr d1"
    "(if t2 = RELEASE then release_step False else commit_step False)
       (lc_order c) (lc_warehouse c) (lc_products c) d1 = Inr d2"
    by (cases c; simp add: settle_def release_step_def commit_step_def split: if_splits)+
  then show ?thesis
    using inventory_service.release_twice[OF assms(5,6)] inventory_service.commit_twice[OF assms(5,6)]
      inventory_service.release_after_commit[OF assms(5,6)] inventory_service.commit_after_release[OF assms(5,6)]
    by (auto split: if_splits)
qed

end
