(* ===== verification/Allocation.thy ===== *)
theory Allocation
  imports Reservation
begin

section \<open>Choosing a warehouse and reserving from it\<close>

text \<open>
  \<^verbatim>\<open>src/infrastructure/database/sql/select-warehouse.sql\<close> with the repository that runs it, and
  \<^verbatim>\<open>src/application/allocation/allocate-inventory.use-case.ts\<close>. Distances come from PostGIS, which
  is not part of the program: \<open>knn\<close> is the distance the operator \<open><->\<close> orders by and
  \<open>st_distance\<close> the one \<open>ST_Distance\<close> reports; nothing is assumed about either.
\<close>

subsection \<open>Selection\<close>

type_synonym distance = "coordinates \<Rightarrow> coordinates \<Rightarrow> rat"

record warehouse_candidate =
  cand_warehouse :: uuid
  cand_name :: string
  cand_distance :: rat

text \<open>The \<open>ORDER BY\<close> key: distance first, then the warehouse id.\<close>

datatype rank = Rank (rank_distance: rat) (rank_id: uuid)

instantiation rank :: linorder
begin

definition less_eq_rank :: "rank \<Rightarrow> rank \<Rightarrow> bool" where
  "less_eq_rank a b \<longleftrightarrow> rank_distance a < rank_distance b \<or>
     (rank_distance a = rank_distance b \<and> rank_id a \<le> rank_id b)"

definition less_rank :: "rank \<Rightarrow> rank \<Rightarrow> bool" where
  "less_rank a b \<longleftrightarrow> rank_distance a < rank_distance b \<or>
     (rank_distance a = rank_distance b \<and> rank_id a < rank_id b)"

instance
  by standard (auto simp: less_eq_rank_def less_rank_def rank.expand)

end

text \<open>
  The join of the \<open>eligible\<close> CTE: one row for every requested line, inventory row of the
  warehouse and active product that agree and whose available units cover the line.
\<close>

definition matches_line :: "inventory_row \<Rightarrow> uuid \<Rightarrow> order_line \<Rightarrow> bool" where
  "matches_line i w l \<longleftrightarrow> inv_warehouse i = w \<and> inv_product i = line_product l \<and>
     line_quantity l \<le> qty_available i"

definition eligible_rows :: "db \<Rightarrow> order_line list \<Rightarrow> uuid \<Rightarrow> (order_line \<times> inventory_row \<times> product_row) list" where
  "eligible_rows d ls w = concat (map (\<lambda>l. concat (map (\<lambda>i.
     map (\<lambda>p. (l, i, p)) (filter (\<lambda>p. prod_id p = inv_product i \<and> prod_is_active p) (products d)))
     (filter (\<lambda>i. matches_line i w l) (inventory d)))) ls)"

definition eligible :: "db \<Rightarrow> order_line list \<Rightarrow> uuid \<Rightarrow> bool" where
  "eligible d ls w \<longleftrightarrow> (let n = length (eligible_rows d ls w) in 0 < n \<and> n = length ls)"

definition warehouse_rank :: "distance \<Rightarrow> coordinates \<Rightarrow> warehouse_row \<Rightarrow> rank" where
  "warehouse_rank knn point w = Rank (knn (wh_location w) point) (wh_id w)"

definition select_warehouse ::
  "distance \<Rightarrow> distance \<Rightarrow> db \<Rightarrow> coordinates \<Rightarrow> order_line list \<Rightarrow> warehouse_candidate list" where
  "select_warehouse knn st_distance d point ls =
     map (\<lambda>w. \<lparr>cand_warehouse = wh_id w, cand_name = wh_name w,
        cand_distance = st_distance (wh_location w) point\<rparr>)
      (take 3 (sort_key (warehouse_rank knn point)
        (filter (\<lambda>w. wh_is_active w \<and> eligible d ls (wh_id w)) (warehouses d))))"

text \<open>The quantities travel as \<open>int[]\<close>, so a larger one is refused by the cast.\<close>

definition find_candidates ::
  "distance \<Rightarrow> distance \<Rightarrow> db \<Rightarrow> coordinates \<Rightarrow> order_line list \<Rightarrow> app_error + warehouse_candidate list" where
  "find_candidates knn st_distance d point ls =
    (if \<exists>l \<in> set ls. \<not> in_int4 (line_quantity l) then Inl (QueryFailedError SQL_RANGE_22003)
     else Inr (select_warehouse knn st_distance d point ls))"

subsection \<open>Failover over the candidates\<close>

record alloc_env =
  al_order_id :: uuid
  al_now :: "nat \<Rightarrow> timestamp" \<comment> \<open>clock of attempt k\<close>
  al_contended :: "nat \<Rightarrow> bool" \<comment> \<open>whether a row lock times out in attempt k\<close>
  al_others :: "nat \<Rightarrow> db \<Rightarrow> db" \<comment> \<open>what other sessions commit before attempt k\<close>

record allocation_result =
  alloc_order_id :: uuid
  alloc_warehouse :: uuid
  alloc_name :: string
  alloc_distance :: rat

text \<open>A JavaScript \<open>Set\<close> in insertion order.\<close>

definition set_add_all :: "'a list \<Rightarrow> 'a list \<Rightarrow> 'a list" where
  "set_add_all s xs = foldl (\<lambda>s x. if x \<in> set s then s else s @ [x]) s xs"

text \<open>
  One attempt is one transaction: the caller's \<open>onBeforeReserve\<close>, which also returns what it
  built, then the reservation.
\<close>

definition attempt ::
  "alloc_env \<Rightarrow> (uuid \<Rightarrow> uuid \<Rightarrow> db \<Rightarrow> app_error + ('x \<times> db)) \<Rightarrow> order_line list \<Rightarrow> nat \<Rightarrow> uuid \<Rightarrow> db \<Rightarrow>
   app_error + ('x \<times> db)" where
  "attempt env prepare ls k w d = bindR (prepare (al_order_id env) w d) (\<lambda>(x, d1).
     bindR (reserve (al_now env k) (al_contended env k)
       \<lparr>rc_order = al_order_id env, rc_warehouse = w, rc_lines = ls\<rparr> d1) (\<lambda>d2. Inr (x, d2)))"

fun try_candidates ::
  "alloc_env \<Rightarrow> (uuid \<Rightarrow> uuid \<Rightarrow> db \<Rightarrow> app_error + ('x \<times> db)) \<Rightarrow> order_line list \<Rightarrow> nat \<Rightarrow>
   warehouse_candidate list \<Rightarrow> uuid list \<Rightarrow> db \<Rightarrow> (app_error + (allocation_result \<times> 'x)) \<times> db" where
  "try_candidates env prepare ls k [] unmet d =
     (Inl (NoFulfilmentPossibleError unmet RESERVATION_RACE_LOST), d)"
| "try_candidates env prepare ls k (c # cs) unmet d =
     (let d0 = al_others env k d in
      case attempt env prepare ls k (cand_warehouse c) d0 of
        Inr (x, d1) \<Rightarrow>
          (Inr (\<lparr>alloc_order_id = al_order_id env, alloc_warehouse = cand_warehouse c,
             alloc_name = cand_name c, alloc_distance = cand_distance c\<rparr>, x), d1)
      | Inl e \<Rightarrow>
          (case e of
             InsufficientStockError ids \<Rightarrow>
               try_candidates env prepare ls (Suc k) cs (set_add_all unmet ids) d0
           | _ \<Rightarrow> (Inl e, d0)))"

definition allocate_inventory ::
  "distance \<Rightarrow> distance \<Rightarrow> alloc_env \<Rightarrow> (uuid \<Rightarrow> uuid \<Rightarrow> db \<Rightarrow> app_error + ('x \<times> db)) \<Rightarrow>
   coordinates \<Rightarrow> order_line list \<Rightarrow> db \<Rightarrow> (app_error + (allocation_result \<times> 'x)) \<times> db" where
  "allocate_inventory knn st_distance env prepare point ls d =
    (case find_candidates knn st_distance d point ls of
       Inl e \<Rightarrow> (Inl e, d)
     | Inr cs \<Rightarrow>
         if cs = [] then (Inl (NoFulfilmentPossibleError (map line_product ls) NO_CANDIDATES), d)
         else try_candidates env prepare ls 0 cs [] d)"

subsection \<open>Eligibility is coverage of every line\<close>

definition covers :: "db \<Rightarrow> uuid \<Rightarrow> order_line \<Rightarrow> bool" where
  "covers d w l \<longleftrightarrow> (\<exists>a r. stock d w (line_product l) = Some (a, r) \<and> line_quantity l \<le> a) \<and>
     (\<exists>p \<in> set (products d). prod_id p = line_product l \<and> prod_is_active p)"

lemma filter_distinct_key:
  "distinct (map key xs) \<Longrightarrow> filter (\<lambda>x. key x = k \<and> q x) xs =
     (case find (\<lambda>x. key x = k) xs of Some x \<Rightarrow> if q x then [x] else [] | None \<Rightarrow> [])"
proof (induction xs)
  case Nil
  then show ?case by simp
next
  case (Cons x xs)
  then show ?case
  proof (cases "key x = k")
    case True
    with Cons.prems have "filter (\<lambda>x. key x = k \<and> q x) xs = []"
      by (auto simp: filter_empty_conv) (metis image_eqI)
    with True show ?thesis by simp
  next
    case False
    with Cons show ?thesis by simp
  qed
qed

definition catalogue_distinct :: "db \<Rightarrow> bool" where
  "catalogue_distinct d \<longleftrightarrow> inventory_keys_distinct d \<and> distinct (map prod_id (products d))"

lemma line_rows:
  assumes "catalogue_distinct d"
  shows "length (concat (map (\<lambda>i. map (\<lambda>p. (l, i, p))
      (filter (\<lambda>p. prod_id p = inv_product i \<and> prod_is_active p) (products d)))
     (filter (\<lambda>i. matches_line i w l) (inventory d)))) = (if covers d w l then 1 else 0)"
proof -
  have inv: "filter (\<lambda>i. matches_line i w l) (inventory d) =
     (case find_inventory d w (line_product l) of
        Some i \<Rightarrow> if line_quantity l \<le> qty_available i then [i] else [] | None \<Rightarrow> [])"
    using filter_distinct_key[of inv_key "inventory d" "(w, line_product l)"
        "\<lambda>i. line_quantity l \<le> qty_available i"] assms
    by (simp add: catalogue_distinct_def inventory_keys_distinct_def find_inventory_def
        matches_line_def inv_key_def cong: filter_cong)
  have prod: "filter (\<lambda>p. prod_id p = pid \<and> prod_is_active p) (products d) =
     (case find (\<lambda>p. prod_id p = pid) (products d) of
        Some p \<Rightarrow> if prod_is_active p then [p] else [] | None \<Rightarrow> [])" for pid
    using assms by (intro filter_distinct_key) (simp add: catalogue_distinct_def)
  have active: "(\<exists>p \<in> set (products d). prod_id p = pid \<and> prod_is_active p) \<longleftrightarrow>
     (case find (\<lambda>p. prod_id p = pid) (products d) of Some p \<Rightarrow> prod_is_active p | None \<Rightarrow> False)" for pid
    using prod[of pid] by (auto simp: filter_eq_Cons_iff filter_empty_conv split: option.splits if_splits)
  show ?thesis
  proof (cases "find_inventory d w (line_product l)")
    case None
    then show ?thesis by (simp add: inv covers_def stock_def)
  next
    case (Some i)
    then have "inv_product i = line_product l" by (auto dest: find_inventory_Some)
    with Some show ?thesis
      by (auto simp: inv covers_def stock_def prod active split: option.splits)
  qed
qed

lemma length_eligible_rows:
  assumes "catalogue_distinct d"
  shows "length (eligible_rows d ls w) = length (filter (covers d w) ls)"
  by (induction ls) (simp_all add: eligible_rows_def line_rows[OF assms])

lemma eligible_iff:
  assumes "catalogue_distinct d"
  shows "eligible d ls w \<longleftrightarrow> ls \<noteq> [] \<and> (\<forall>l \<in> set ls. covers d w l)"
proof -
  have "length (filter (covers d w) ls) = length ls \<longleftrightarrow> (\<forall>l \<in> set ls. covers d w l)"
    by (metis filter_True length_filter_less nat_neq_iff)
  then show ?thesis
    by (auto simp: eligible_def Let_def length_eligible_rows[OF assms])
qed

subsection \<open>Facts on the selection and the failover\<close>

lemma sorted_take: "sorted xs \<Longrightarrow> sorted (take n xs)"
  by (metis append_take_drop_id sorted_append)

lemma sorted_take_drop:
  assumes "sorted xs" and "x \<in> set (take n xs)" and "y \<in> set (drop n xs)"
  shows "x \<le> y"
  using assms by (metis append_take_drop_id sorted_append)

definition qualifies :: "db \<Rightarrow> order_line list \<Rightarrow> warehouse_row \<Rightarrow> bool" where
  "qualifies d ls w \<longleftrightarrow> wh_is_active w \<and> ls \<noteq> [] \<and> (\<forall>l \<in> set ls. covers d (wh_id w) l)"

definition candidate_of :: "distance \<Rightarrow> coordinates \<Rightarrow> warehouse_row \<Rightarrow> warehouse_candidate" where
  "candidate_of st_distance point w = \<lparr>cand_warehouse = wh_id w, cand_name = wh_name w,
     cand_distance = st_distance (wh_location w) point\<rparr>"

lemma select_warehouse_eq:
  assumes "catalogue_distinct d"
  shows "select_warehouse knn st_distance d point ls = map (candidate_of st_distance point)
    (take 3 (sort_key (warehouse_rank knn point) (filter (qualifies d ls) (warehouses d))))"
proof -
  have "(\<lambda>w. wh_is_active w \<and> eligible d ls (wh_id w)) = qualifies d ls"
    by (simp add: fun_eq_iff eligible_iff[OF assms] qualifies_def)
  moreover have "(\<lambda>w. \<lparr>cand_warehouse = wh_id w, cand_name = wh_name w,
      cand_distance = st_distance (wh_location w) point\<rparr>) = candidate_of st_distance point"
    by (simp add: fun_eq_iff candidate_of_def)
  ultimately show ?thesis by (simp only: select_warehouse_def)
qed

lemma try_candidates_error:
  assumes "try_candidates env prepare ls k cs unmet d = (Inl e, d')"
  shows "\<exists>n \<le> length cs. d' = foldl (\<lambda>d j. al_others env j d) d [k..<k + n]"
  using assms
proof (induction env prepare ls k cs unmet d rule: try_candidates.induct)
  case (1 env prepare ls k unmet d)
  then show ?case by auto
next
  case (2 env prepare ls k c cs unmet d)
  let ?d0 = "al_others env k d"
  have one: "\<exists>n \<le> length (c # cs). ?d0 = foldl (\<lambda>d j. al_others env j d) d [k..<k + n]"
    by (intro exI[of _ 1]) simp
  show ?case
  proof (cases "attempt env prepare ls k (cand_warehouse c) ?d0")
    case (Inr xd)
    with 2(2) show ?thesis by (cases xd) simp
  next
    case (Inl e')
    show ?thesis
    proof (cases "\<exists>ids. e' = InsufficientStockError ids")
      case True
      then obtain ids where e': "e' = InsufficientStockError ids" by blast
      with Inl 2(2) have "try_candidates env prepare ls (Suc k) cs (set_add_all unmet ids) ?d0 = (Inl e, d')"
        by simp
      with 2(1)[OF refl Inl e'] obtain n where n: "n \<le> length cs"
        "d' = foldl (\<lambda>d j. al_others env j d) ?d0 [Suc k..<Suc k + n]" by blast
      have "[k..<k + Suc n] = k # [Suc k..<Suc k + n]" by (simp add: upt_conv_Cons)
      with n show ?thesis by (intro exI[of _ "Suc n"]) simp
    next
      case False
      with Inl 2(2) have "d' = ?d0" by (cases e') auto
      with one show ?thesis by simp
    qed
  qed
qed

lemma try_candidates_success:
  assumes "try_candidates env prepare ls k cs unmet d = (Inr (res, x), d')"
  shows "\<exists>c \<in> set cs. \<exists>j d0. k \<le> j \<and> attempt env prepare ls j (cand_warehouse c) d0 = Inr (x, d') \<and>
    res = \<lparr>alloc_order_id = al_order_id env, alloc_warehouse = cand_warehouse c,
      alloc_name = cand_name c, alloc_distance = cand_distance c\<rparr>"
  using assms
proof (induction env prepare ls k cs unmet d rule: try_candidates.induct)
  case (1 env prepare ls k unmet d)
  then show ?case by simp
next
  case (2 env prepare ls k c cs unmet d)
  let ?d0 = "al_others env k d"
  show ?case
  proof (cases "attempt env prepare ls k (cand_warehouse c) ?d0")
    case (Inr xd)
    with 2(2) show ?thesis by (cases xd) auto
  next
    case (Inl e')
    show ?thesis
    proof (cases "\<exists>ids. e' = InsufficientStockError ids")
      case True
      then obtain ids where e': "e' = InsufficientStockError ids" by blast
      with Inl 2(2) have "try_candidates env prepare ls (Suc k) cs (set_add_all unmet ids) ?d0 = (Inr (res, x), d')"
        by simp
      with 2(1)[OF refl Inl e'] show ?thesis by (force dest: Suc_leD)
    next
      case False
      with Inl 2(2) show ?thesis by (cases e') auto
    qed
  qed
qed

subsection \<open>What the failover asks of its caller\<close>

text \<open>
  \<open>onBeforeReserve\<close> writes the order before the stock is touched. The failover relies on it to
  leave stock, ledger and catalogue alone, to have created the order the movements point to, and
  not to throw the one error that means ``try the next warehouse''.
\<close>

locale order_preparation =
  fixes prepare :: "uuid \<Rightarrow> uuid \<Rightarrow> db \<Rightarrow> app_error + ('x \<times> db)"
  assumes before_frame: "prepare oid w d = Inr (x, d') \<Longrightarrow>
      inventory d' = inventory d \<and> movements d' = movements d \<and> products d' = products d \<and>
      warehouses d' = warehouses d \<and> order_exists d' oid"
    and before_no_stock_error: "prepare oid w d \<noteq> Inl (InsufficientStockError ids)"
begin

lemma before_stock:
  assumes "prepare oid w d = Inr (x, d')"
  shows "stock d' = stock d" and "held d' = held d" and "catalogue_distinct d' = catalogue_distinct d"
    and "inventory_keys_distinct d' = inventory_keys_distinct d"
  using before_frame[OF assms]
  by (auto simp: stock_def find_inventory_def held_def catalogue_distinct_def
      inventory_keys_distinct_def fun_eq_iff)

lemma attempt_reserves:
  assumes "attempt env prepare ls k w d = Inr (x, d')"
  obtains d1 where "prepare (al_order_id env) w d = Inr (x, d1)"
    "reserve (al_now env k) (al_contended env k) \<lparr>rc_order = al_order_id env, rc_warehouse = w, rc_lines = ls\<rparr> d1
       = Inr d'"
  using assms by (auto simp: attempt_def)

lemma attempt_covers:
  assumes "attempt env prepare ls k w d = Inr (x, d')" and "inventory_keys_distinct d" and "valid_lines ls"
  shows "stock d' w' p = (if w' = w
      then map_option (\<lambda>(a, r). (a - lines_total ls p, r + lines_total ls p)) (stock d w p) else stock d w' p)"
    and "l \<in> set ls \<Longrightarrow> \<exists>a r. stock d w (line_product l) = Some (a, r) \<and> line_quantity l \<le> a"
proof -
  from assms(1) obtain d1 where b: "prepare (al_order_id env) w d = Inr (x, d1)"
    and r: "reserve (al_now env k) (al_contended env k)
      \<lparr>rc_order = al_order_id env, rc_warehouse = w, rc_lines = ls\<rparr> d1 = Inr d'"
    by (rule attempt_reserves)
  note same = before_stock[OF b]
  have k: "inventory_keys_distinct d1" using assms(2) same by simp
  have dist: "distinct (map line_product (rc_lines \<lparr>rc_order = al_order_id env, rc_warehouse = w, rc_lines = ls\<rparr>))"
    using assms(3) by (simp add: valid_lines_def)
  from reserve_stock[OF r k dist, of w' p] show "stock d' w' p = (if w' = w
      then map_option (\<lambda>(a, r). (a - lines_total ls p, r + lines_total ls p)) (stock d w p) else stock d w' p)"
    by (simp add: same)
  from reserve_Inr(2)[OF r k] show "l \<in> set ls \<Longrightarrow>
      \<exists>a r. stock d w (line_product l) = Some (a, r) \<and> line_quantity l \<le> a"
    by (auto simp: lacks_def same split: option.splits)
qed

lemma nearest_wins:
  assumes d: "catalogue_distinct d" "distinct (map wh_id (warehouses d))"
    and ls: "valid_lines ls" "\<forall>l \<in> set ls. in_int4 (line_quantity l)"
    and env: "al_others env 0 = (\<lambda>d. d)" "\<not> al_contended env 0"
    and w: "w \<in> set (warehouses d)" "qualifies d ls w"
      "\<forall>v \<in> set (warehouses d). qualifies d ls v \<longrightarrow> warehouse_rank knn point w \<le> warehouse_rank knn point v"
    and levels: "\<forall>p a r. stock d (wh_id w) p = Some (a, r) \<longrightarrow> 0 \<le> r \<and> a + r < 2 ^ 31"
    and prepared: "prepare (al_order_id env) (wh_id w) d = Inr (x, d1)"
  shows "\<exists>d'. allocate_inventory knn st_distance env prepare point ls d =
    (Inr (\<lparr>alloc_order_id = al_order_id env, alloc_warehouse = wh_id w, alloc_name = wh_name w,
       alloc_distance = st_distance (wh_location w) point\<rparr>, x), d') \<and>
    reserve (al_now env 0) False \<lparr>rc_order = al_order_id env, rc_warehouse = wh_id w, rc_lines = ls\<rparr> d1 = Inr d'"
proof -
  let ?rank = "warehouse_rank knn point"
  let ?q = "filter (qualifies d ls) (warehouses d)"
  have inj: "v = u" if "v \<in> set (warehouses d)" "u \<in> set (warehouses d)" "?rank v = ?rank u" for v u
    using that d(2) by (auto simp: warehouse_rank_def distinct_map inj_on_def)
  have mem: "w \<in> set ?q" using w by simp
  have "sort_key ?rank ?q = w # tl (sort_key ?rank ?q)"
  proof (cases "sort_key ?rank ?q")
    case Nil
    with mem show ?thesis by (metis empty_iff empty_set set_sort)
  next
    case (Cons v vs)
    have v: "v \<in> set ?q" using Cons by (metis list.set_intros(1) set_sort)
    have "sorted (map ?rank (v # vs))" using Cons by (metis sorted_sort_key)
    then have "?rank v \<le> ?rank w"
      using mem Cons by (metis (no_types, lifting) image_eqI list.set_map list.simps(9) order_refl
          set_ConsD set_sort sorted_simps(2))
    moreover have "?rank w \<le> ?rank v" using w(3) v by simp
    ultimately have "v = w" using inj v w(1) by simp
    with Cons show ?thesis by simp
  qed
  then have cs: "select_warehouse knn st_distance d point ls =
      candidate_of st_distance point w # map (candidate_of st_distance point) (take 2 (tl (sort_key ?rank ?q)))"
    by (metis (no_types, lifting) d(1) list.simps(9) numeral_3_eq_3 numeral_2_eq_2 select_warehouse_eq take_Suc_Cons)
  let ?c = "\<lparr>rc_order = al_order_id env, rc_warehouse = wh_id w, rc_lines = ls\<rparr>"
  note same = before_stock[OF prepared] and frame = before_frame[OF prepared]
  have "\<exists>d2. reserve (al_now env 0) False ?c d1 = Inr d2"
  proof (rule reserve_ok)
    show "inventory_keys_distinct d1" using d(1) same by (simp add: catalogue_distinct_def)
    show "distinct (map line_product (rc_lines ?c))" using ls by (simp add: valid_lines_def)
    show "\<forall>l\<in>set (rc_lines ?c). \<exists>a r. stock d1 (rc_warehouse ?c) (line_product l) = Some (a, r) \<and>
        line_quantity l \<le> a \<and> 0 \<le> r \<and> a + r < 2 ^ 31 \<and> 0 < line_quantity l"
      using w(2) levels ls by (fastforce simp: qualifies_def covers_def same valid_lines_def)
    show "\<forall>l\<in>set (rc_lines ?c). line_product l \<in> prod_id ` set (products d1)"
    proof
      fix l assume "l \<in> set (rc_lines ?c)"
      then have "covers d (wh_id w) l" using w(2) by (simp add: qualifies_def)
      then show "line_product l \<in> prod_id ` set (products d1)"
        using frame by (auto simp: covers_def) (metis image_eqI)
    qed
    show "rc_warehouse ?c \<in> wh_id ` set (warehouses d1)" "order_exists d1 (rc_order ?c)"
      using w(1) frame by auto
  qed
  then obtain d2 where d2: "reserve (al_now env 0) False ?c d1 = Inr d2" by blast
  then have "attempt env prepare ls 0 (wh_id w) d = Inr (x, d2)"
    using prepared env(2) by (simp add: attempt_def)
  then show ?thesis
    using ls(2) env(1) d2 by (simp add: allocate_inventory_def find_candidates_def cs candidate_of_def)
qed

end

subsection \<open>Properties\<close>



lemma allocation_error_trace:
  assumes "allocate_inventory knn st_distance env prepare point ls d = (Inl e, d')"
  shows "\<exists>n \<le> 3. d' = foldl (\<lambda>d j. al_others env j d) d [0..<n]"
proof (cases "find_candidates knn st_distance d point ls")
  case (Inl e')
  with assms show ?thesis by (intro exI[of _ 0]) (simp add: allocate_inventory_def)
next
  case (Inr cs)
  then have "cs = select_warehouse knn st_distance d point ls"
    by (simp add: find_candidates_def split: if_splits)
  then have len: "length cs \<le> 3" by (simp add: select_warehouse_def)
  show ?thesis
  proof (cases "cs = []")
    case True
    with assms Inr show ?thesis by (intro exI[of _ 0]) (simp add: allocate_inventory_def)
  next
    case False
    with assms Inr have "try_candidates env prepare ls 0 cs [] d = (Inl e, d')"
      by (simp add: allocate_inventory_def)
    from try_candidates_error[OF this] obtain n where
      "n \<le> length cs" "d' = foldl (\<lambda>d j. al_others env j d) d [0..<0 + n]" by blast
    with len show ?thesis by (intro exI[of _ n]) simp
  qed
qed

text \<open>
  C13. An allocation that fails leaves nothing behind: whichever of its at most three attempts
  failed and how, the database is exactly what the other sessions made of it in the meantime, and
  the very one it started from when there were none.
\<close>

theorem failed_allocation_leaves_no_trace:
  assumes "allocate_inventory knn st_distance env prepare point ls d = (Inl e, d')"
  shows "\<exists>n \<le> 3. d' = foldl (\<lambda>d j. al_others env j d) d [0..<n]"
  by (rule allocation_error_trace[OF assms])

definition sample_alloc_env :: alloc_env where
  "sample_alloc_env = \<lparr>al_order_id = ''o2'', al_now = (\<lambda>_. 0), al_contended = (\<lambda>_. True),
     al_others = (\<lambda>_ d. d\<lparr>order_number_seq := order_number_seq d + 1\<rparr>)\<rparr>"

theorem failed_allocation_leaves_no_trace_witness:
  "\<exists>d'. allocate_inventory (\<lambda>a b. 0) (\<lambda>a b. 0) sample_alloc_env (\<lambda>oid w d. Inr ((), d))
       \<lparr>latitude = 32, longitude = - 117\<rparr> [\<lparr>line_product = ''pa'', line_quantity = 5\<rparr>] sample_db
     = (Inl (NoFulfilmentPossibleError [''pa''] RESERVATION_RACE_LOST), d') \<and>
     (\<exists>n \<le> 3. d' = foldl (\<lambda>d j. al_others sample_alloc_env j d) sample_db [0..<n])"
proof -
  let ?ls = "[\<lparr>line_product = ''pa'', line_quantity = 5\<rparr>]"
  have "eligible sample_db ?ls ''w1''"
    by (simp add: eligible_def eligible_rows_def matches_line_def sample_db_def Let_def)
  then have "find_candidates (\<lambda>a b. 0) (\<lambda>a b. 0) sample_db \<lparr>latitude = 32, longitude = - 117\<rparr> ?ls =
      Inr [\<lparr>cand_warehouse = ''w1'', cand_name = ''w'', cand_distance = 0\<rparr>]"
    by (simp add: find_candidates_def in_int4_def select_warehouse_def sample_db_def)
  then obtain d' where "allocate_inventory (\<lambda>a b. 0) (\<lambda>a b. 0) sample_alloc_env (\<lambda>oid w d. Inr ((), d))
       \<lparr>latitude = 32, longitude = - 117\<rparr> ?ls sample_db
     = (Inl (NoFulfilmentPossibleError [''pa''] RESERVATION_RACE_LOST), d')"
    by (auto simp: allocate_inventory_def attempt_def reserve_contended sample_alloc_env_def set_add_all_def)
  with failed_allocation_leaves_no_trace[OF this] show ?thesis by blast
qed

end
