(* ===== verification/Order_Mapper.thy ===== *)
theory Order_Mapper
  imports Store
begin

section \<open>Mapping between order rows and the order entity\<close>

text \<open>
  \<^verbatim>\<open>src/infrastructure/database/mappers/order.mapper.ts\<close>. Reading re-validates amount, address
  and location through the value objects' factories, so it may throw; writing never does.
  \<open>now\<close> is the clock the writer reads for the two time stamps.
\<close>

definition order_to_domain :: "order_row \<Rightarrow> app_error + order" where
  "order_to_domain r =
    bindR (money_of (js_of_int (row_total_cents r)) (row_currency r)) (\<lambda>total.
    bindR (shipping_address_of (row_address r)) (\<lambda>a.
    bindR (coordinates_of (Num (snd (row_location r))) (Num (fst (row_location r)))) (\<lambda>l.
    Inr \<lparr>ord_id = row_id r, ord_number = row_number r, ord_customer = row_customer r,
      ord_warehouse = row_warehouse r, ord_status = row_status r, ord_total = total,
      ord_address = a, ord_location = l,
      ord_reservation_expires_at = row_reservation_expires_at r,
      ord_confirmed_at = row_confirmed_at r, ord_cancelled_at = row_cancelled_at r,
      ord_cancellation_reason = row_cancellation_reason r,
      ord_created_at = row_created_at r, ord_updated_at = row_updated_at r\<rparr>)))"

definition shipping_address_to_plain_object :: "address \<Rightarrow> address" where
  "shipping_address_to_plain_object a =
    \<lparr>recipient = recipient a, line1 = line1 a, line2 = line2 a, city = city a, state = state a,
     postal_code = postal_code a, country = country a\<rparr>"

definition order_to_persistence :: "timestamp \<Rightarrow> order \<Rightarrow> order_row" where
  "order_to_persistence now o1 =
    \<lparr>row_id = ord_id o1, row_number = ord_number o1, row_customer = ord_customer o1,
     row_warehouse = ord_warehouse o1, row_status = ord_status o1,
     row_currency = currency (ord_total o1), row_total_cents = amount_cents (ord_total o1),
     row_address = shipping_address_to_plain_object (ord_address o1),
     row_location = (longitude (ord_location o1), latitude (ord_location o1)),
     row_reservation_expires_at = ord_reservation_expires_at o1,
     row_confirmed_at = ord_confirmed_at o1, row_cancelled_at = ord_cancelled_at o1,
     row_cancellation_reason = ord_cancellation_reason o1,
     row_created_at = now, row_updated_at = now\<rparr>"

definition order_item_to_domain :: "timestamp \<Rightarrow> order_item_row \<Rightarrow> app_error + order_item" where
  "order_item_to_domain created r =
    bindR (money_of (js_of_int (ir_unit_price_cents r)) usd) (\<lambda>price.
    new_order_item (ir_id r) (ir_order r) (ir_product r) (js_int (ir_quantity r)) (ir_sku r) (ir_name r)
      price created)"

definition order_item_to_persistence :: "order_item \<Rightarrow> order_item_row" where
  "order_item_to_persistence i =
    \<lparr>ir_id = item_id i, ir_order = item_order i, ir_product = item_product i,
     ir_quantity = item_quantity i, ir_sku = item_sku i, ir_name = item_name i,
     ir_unit_price_cents = amount_cents (item_unit_price i)\<rparr>"

subsection \<open>Well-formed rows and entities\<close>

text \<open>Rows the code itself can have written, and the entities they come from.\<close>

definition order_wf :: "order \<Rightarrow> bool" where
  "order_wf o1 \<longleftrightarrow> money_wf (ord_total o1) \<and> amount_cents (ord_total o1) \<le> max_safe \<and>
     address_wf (ord_address o1) \<and> coordinates_wf (ord_location o1)"

definition order_row_wf :: "order_row \<Rightarrow> bool" where
  "order_row_wf r \<longleftrightarrow> 0 \<le> row_total_cents r \<and> row_total_cents r \<le> max_safe \<and>
     is_currency (row_currency r) \<and> address_wf (row_address r) \<and>
     coordinates_wf \<lparr>latitude = snd (row_location r), longitude = fst (row_location r)\<rparr>"

definition entity_of :: "order_row \<Rightarrow> order" where
  "entity_of r = \<lparr>ord_id = row_id r, ord_number = row_number r, ord_customer = row_customer r,
      ord_warehouse = row_warehouse r, ord_status = row_status r,
      ord_total = \<lparr>amount_cents = row_total_cents r, currency = row_currency r\<rparr>,
      ord_address = row_address r,
      ord_location = \<lparr>latitude = snd (row_location r), longitude = fst (row_location r)\<rparr>,
      ord_reservation_expires_at = row_reservation_expires_at r,
      ord_confirmed_at = row_confirmed_at r, ord_cancelled_at = row_cancelled_at r,
      ord_cancellation_reason = row_cancellation_reason r,
      ord_created_at = row_created_at r, ord_updated_at = row_updated_at r\<rparr>"

lemma plain_address [simp]: "shipping_address_to_plain_object a = a"
  by (simp add: shipping_address_to_plain_object_def)

lemma order_to_domain_wf: "order_row_wf r \<Longrightarrow> order_to_domain r = Inr (entity_of r)"
proof -
  assume wf: "order_row_wf r"
  then have "money_of (js_of_int (row_total_cents r)) (row_currency r) =
      Inr \<lparr>amount_cents = row_total_cents r, currency = row_currency r\<rparr>"
    by (simp add: js_of_int_exact money_of_js_int order_row_wf_def)
  moreover from wf have "shipping_address_of (row_address r) = Inr (row_address r)"
    by (simp add: shipping_address_of_Inr_iff order_row_wf_def)
  moreover from wf have "coordinates_of (Num (snd (row_location r))) (Num (fst (row_location r))) =
      Inr \<lparr>latitude = snd (row_location r), longitude = fst (row_location r)\<rparr>"
    by (simp add: coordinates_of_Inr_iff order_row_wf_def)
  ultimately show ?thesis by (simp add: order_to_domain_def entity_of_def)
qed

lemma order_to_domain_Inr_id:
  "order_to_domain r = Inr o1 \<Longrightarrow> ord_id o1 = row_id r \<and> ord_status o1 = row_status r \<and>
     ord_warehouse o1 = row_warehouse r \<and> ord_number o1 = row_number r \<and>
     ord_customer o1 = row_customer r"
  by (auto simp: order_to_domain_def)

lemma entity_of_persistence:
  "entity_of (order_to_persistence now o1) = o1\<lparr>ord_created_at := now, ord_updated_at := now\<rparr>"
  by (simp add: entity_of_def order_to_persistence_def)

lemma order_row_wf_persistence [inv_intros]: "order_wf o1 \<Longrightarrow> order_row_wf (order_to_persistence now o1)"
  by (simp add: order_row_wf_def order_to_persistence_def order_wf_def money_wf_def)

lemma order_wf_entity [inv_intros]: "order_row_wf r \<Longrightarrow> order_wf (entity_of r)"
  by (simp add: order_row_wf_def entity_of_def order_wf_def money_wf_def)

lemma order_to_persistence_sel [simp]:
  "row_id (order_to_persistence now o1) = ord_id o1"
  "row_number (order_to_persistence now o1) = ord_number o1"
  "row_customer (order_to_persistence now o1) = ord_customer o1"
  "row_warehouse (order_to_persistence now o1) = ord_warehouse o1"
  "row_status (order_to_persistence now o1) = ord_status o1"
  "row_created_at (order_to_persistence now o1) = now"
  "row_reservation_expires_at (order_to_persistence now o1) = ord_reservation_expires_at o1"
  by (simp_all add: order_to_persistence_def)

lemma entity_of_sel [simp]:
  "ord_id (entity_of r) = row_id r" "ord_number (entity_of r) = row_number r"
  "ord_customer (entity_of r) = row_customer r" "ord_warehouse (entity_of r) = row_warehouse r"
  "ord_status (entity_of r) = row_status r"
  "ord_reservation_expires_at (entity_of r) = row_reservation_expires_at r"
  "ord_created_at (entity_of r) = row_created_at r"
  by (simp_all add: entity_of_def)

subsection \<open>Properties\<close>

text \<open>
  C19. Writing an order and reading it back gives the same order except for its two time stamps:
  \<open>createdAt\<close> and \<open>updatedAt\<close> are both the clock of the write, whatever the entity held. So
  every save of an existing order also moves its creation time, the key the listing is paged by.
\<close>

theorem order_persistence_roundtrip:
  assumes "order_wf o1"
  shows "order_to_domain (order_to_persistence now o1) =
    Inr (o1\<lparr>ord_created_at := now, ord_updated_at := now\<rparr>)"
  using assms by (simp add: order_to_domain_wf order_row_wf_persistence entity_of_persistence)

lemma sample_order_wf: "order_wf sample_order"
  by (simp add: sample_order_def order_wf_def money_wf_def max_safe_def address_wf_def blank_def
      coordinates_wf_def js_trim_def is_js_space_def)

theorem order_persistence_roundtrip_witness:
  "order_to_domain (order_to_persistence 9 sample_order) =
    Inr (sample_order\<lparr>ord_created_at := 9, ord_updated_at := 9\<rparr>) \<and> ord_created_at sample_order = 0"
  using order_persistence_roundtrip[OF sample_order_wf, of 9] by (simp add: sample_order_def)

text \<open>
  An order line survives the round trip through its row unchanged, given a USD price a
  double holds exactly and a positive quantity.
\<close>

lemma order_item_roundtrip:
  assumes "0 < item_quantity i" and "0 \<le> amount_cents (item_unit_price i)"
    and "amount_cents (item_unit_price i) \<le> 2 ^ 53" and "currency (item_unit_price i) = usd"
  shows "order_item_to_domain (item_created_at i) (order_item_to_persistence i) = Inr i"
proof -
  have "money_of (js_of_int (amount_cents (item_unit_price i))) usd = Inr (item_unit_price i)"
    using assms by (simp add: js_of_int_exact money_of_js_int max_safe_def)
  with assms(1) show ?thesis
    by (simp add: order_item_to_domain_def order_item_to_persistence_def new_order_item_Inr_iff)
qed

end
