(* ===== verification/Events.thy ===== *)
theory Events
  imports Store
begin

section \<open>Publishing domain events\<close>

text \<open>
  \<^verbatim>\<open>src/infrastructure/messaging/event-routing.ts\<close>, \<^verbatim>\<open>job-envelope.ts\<close> and
  \<^verbatim>\<open>pg-boss-event-publisher.ts\<close>, for the call with the caller's transaction. pg-boss is not part
  of the program: \<open>boss.send\<close> is the argument \<open>tx_send\<close> of the environment record, and
  \<open>sends_append\<close> is what its documentation promises, that a send through the caller's executor
  either fails or inserts that one job. \<open>tx_env\<close> gathers everything a transaction takes from
  outside the database.
\<close>

record tx_env =
  tx_now :: timestamp
  tx_contended :: bool
  tx_correlation_id :: "string option"
  tx_fresh_id :: uuid
  tx_traceparent :: "string option"
  tx_send :: "job \<Rightarrow> db \<Rightarrow> app_error + db"

definition event_routing :: "string \<Rightarrow> string list option" where
  "event_routing t = (if t = ''order.confirmed''
     then Some [''shipment.create'', ''customer.notify'', ''analytics.record''] else None)"

definition job_for :: "tx_env \<Rightarrow> order_confirmed_payload \<Rightarrow> string \<Rightarrow> job" where
  "job_for env payload q = \<lparr>job_queue = q, job_payload = payload,
     job_correlation_id = (case tx_correlation_id env of Some c \<Rightarrow> c | None \<Rightarrow> tx_fresh_id env),
     job_traceparent = tx_traceparent env, job_published_at = tx_now env\<rparr>"

definition publish :: "tx_env \<Rightarrow> string \<Rightarrow> order_confirmed_payload \<Rightarrow> db \<Rightarrow> app_error + db" where
  "publish env event_type payload d =
    (case event_routing event_type of
       None \<Rightarrow> Inl (UnroutedEventError event_type)
     | Some targets \<Rightarrow> foldR (\<lambda>q. tx_send env (job_for env payload q)) targets d)"

text \<open>The promise of the queue, and one queue that keeps it.\<close>

definition sends_append :: "(job \<Rightarrow> db \<Rightarrow> app_error + db) \<Rightarrow> bool" where
  "sends_append send \<longleftrightarrow> (\<forall>j d d'. send j d = Inr d' \<longrightarrow> d' = d\<lparr>jobs := jobs d @ [j]\<rparr>)"

definition plain_send :: "job \<Rightarrow> db \<Rightarrow> app_error + db" where
  "plain_send j d = Inr (d\<lparr>jobs := jobs d @ [j]\<rparr>)"

lemma sends_append_plain [simp]: "sends_append plain_send"
  by (simp add: sends_append_def plain_send_def)

lemma sends_appendD: "sends_append send \<Longrightarrow> send j d = Inr d' \<Longrightarrow> d' = d\<lparr>jobs := jobs d @ [j]\<rparr>"
  unfolding sends_append_def by blast

lemma foldR_send:
  assumes "sends_append send" and "foldR (\<lambda>q. send (f q)) qs d = Inr d'"
  shows "d' = d\<lparr>jobs := jobs d @ map f qs\<rparr>"
  using assms(2)
proof (induction qs arbitrary: d)
  case Nil
  then show ?case by simp
next
  case (Cons q qs)
  then obtain d1 where "send (f q) d = Inr d1" "foldR (\<lambda>q. send (f q)) qs d1 = Inr d'" by auto
  with Cons.IH sends_appendD[OF assms(1)] show ?case by fastforce
qed

lemma publish_confirmed_Inr:
  assumes "sends_append (tx_send env)" and "publish env ''order.confirmed'' payload d = Inr d'"
  shows "d' = d\<lparr>jobs := jobs d @ map (job_for env payload)
    [''shipment.create'', ''customer.notify'', ''analytics.record'']\<rparr>"
  using assms(2) foldR_send[OF assms(1), of "job_for env payload"]
  by (simp only: publish_def event_routing_def option.case if_True refl)

lemma job_for_sel [simp]:
  "job_queue (job_for env payload q) = q" "job_payload (job_for env payload q) = payload"
  "job_correlation_id (job_for env payload q) =
     (case tx_correlation_id env of Some c \<Rightarrow> c | None \<Rightarrow> tx_fresh_id env)"
  by (simp_all add: job_for_def)

lemma publish_plain:
  "tx_send env = plain_send \<Longrightarrow> publish env ''order.confirmed'' payload d =
    Inr (d\<lparr>jobs := jobs d @ map (job_for env payload)
      [''shipment.create'', ''customer.notify'', ''analytics.record'']\<rparr>)"
  by (simp add: publish_def event_routing_def plain_send_def)

text \<open>
  Publishing is all or nothing per event: an event type without a route is refused with
  \<open>UnroutedEventError\<close> and nothing is sent; a routed one adds exactly one job for each of its
  queues, in routing order, all with the same payload and correlation id.
\<close>

lemma publish_effect:
  assumes "sends_append (tx_send env)"
  shows "(t \<noteq> ''order.confirmed'' \<longrightarrow> publish env t payload d = Inl (UnroutedEventError t)) \<and>
    (publish env t payload d = Inr d' \<longrightarrow>
      (\<exists>js. d' = d\<lparr>jobs := jobs d @ js\<rparr> \<and>
        map job_queue js = [''shipment.create'', ''customer.notify'', ''analytics.record''] \<and>
        (\<forall>j \<in> set js. job_payload j = payload \<and> job_correlation_id j =
           (case tx_correlation_id env of Some c \<Rightarrow> c | None \<Rightarrow> tx_fresh_id env))))"
proof (intro conjI impI)
  show "publish env t payload d = Inl (UnroutedEventError t)" if "t \<noteq> ''order.confirmed''"
    using that by (simp add: publish_def event_routing_def)
  assume ok: "publish env t payload d = Inr d'"
  then have "t = ''order.confirmed''"
    by (auto simp: publish_def event_routing_def split: if_splits)
  with publish_confirmed_Inr[OF assms] ok have
    "d' = d\<lparr>jobs := jobs d @ map (job_for env payload)
      [''shipment.create'', ''customer.notify'', ''analytics.record'']\<rparr>" by blast
  then show "\<exists>js. d' = d\<lparr>jobs := jobs d @ js\<rparr> \<and>
      map job_queue js = [''shipment.create'', ''customer.notify'', ''analytics.record''] \<and>
      (\<forall>j \<in> set js. job_payload j = payload \<and> job_correlation_id j =
         (case tx_correlation_id env of Some c \<Rightarrow> c | None \<Rightarrow> tx_fresh_id env))"
    by (intro exI[of _ "map (job_for env payload)
      [''shipment.create'', ''customer.notify'', ''analytics.record'']"]) auto
qed

definition sample_env :: tx_env where
  "sample_env = \<lparr>tx_now = 60000, tx_contended = False, tx_correlation_id = Some ''corr'',
     tx_fresh_id = ''fresh'', tx_traceparent = None, tx_send = plain_send\<rparr>"

definition empty_db :: db where
  "empty_db = \<lparr>customers = [], products = [], warehouses = [], inventory = [], movements = [],
     orders = [], order_items = [], payments = [], shipments = [], jobs = [], order_number_seq = 1\<rparr>"

end
