(* ===== verification/Settlement.thy ===== *)
theory Settlement
  imports Reservation Order_Mapper Events
begin

section \<open>Settling an order\<close>

text \<open>
  \<^verbatim>\<open>src/application/orders/order-settlement.service.ts\<close>: the one path on which the saga, the
  reaper and reconciliation end an order's \<open>PENDING_PAYMENT\<close>. Each call is one transaction that
  holds the order's row lock from its first statement to its end, so calls on the same order are
  serial and a call is modelled as one function on the database; \<open>Inl\<close> is the rollback.
  All clock reads of one transaction are the single \<open>tx_now\<close>.
\<close>

datatype settlement_outcome = SETTLED | ALREADY_SETTLED

record payment_resolution =
  pr_payment_id :: uuid
  pr_charge_result :: charge_result

subsection \<open>The guarded update of the payment row\<close>

definition resolved_payment :: "timestamp \<Rightarrow> charge_result \<Rightarrow> payment_row \<Rightarrow> payment_row" where
  "resolved_payment now c r = r\<lparr>pay_status := res_status c,
     pay_provider_payment_id := res_provider_payment_id c, pay_card_last4 := res_card_last4 c,
     pay_card_brand := res_card_brand c, pay_failure_code := res_failure_code c,
     pay_raw_response := res_raw_response c, pay_settled_at := Some now, pay_updated_at := now\<rparr>"

definition unresolved :: "payment_status \<Rightarrow> bool" where
  "unresolved s \<longleftrightarrow> s = PS_PENDING \<or> s = PS_UNKNOWN"

text \<open>\<open>UPDATE payments .. WHERE id = $1 AND status IN ('PENDING', 'UNKNOWN')\<close>.\<close>

definition update_payment :: "timestamp \<Rightarrow> payment_resolution \<Rightarrow> db \<Rightarrow> app_error + db" where
  "update_payment now p d =
    (case find_payment d (pr_payment_id p) of
       None \<Rightarrow> Inr d
     | Some r \<Rightarrow>
         if \<not> unresolved (pay_status r) then Inr d
         else if payment_conflicts d (resolved_payment now (pr_charge_result p) r)
         then Inl (QueryFailedError SQL_UNIQUE_23505)
         else Inr (d\<lparr>payments := update_rows (\<lambda>x. pay_id x = pr_payment_id p)
           (\<lambda>x. if unresolved (pay_status x) then resolved_payment now (pr_charge_result p) x else x)
           (payments d)\<rparr>))"

subsection \<open>The shared steps\<close>

definition settle_order ::
  "tx_env \<Rightarrow> uuid \<Rightarrow> payment_resolution option \<Rightarrow>
   (order \<Rightarrow> uuid option \<Rightarrow> uuid list \<Rightarrow> db \<Rightarrow> app_error + (order \<times> db)) \<Rightarrow> db \<Rightarrow>
   app_error + (settlement_outcome \<times> order \<times> db)" where
  "settle_order env oid pay transition d =
    (case find_order d oid of
       None \<Rightarrow> Inl EntityNotFoundError
     | Some r \<Rightarrow> bindR (order_to_domain r) (\<lambda>o1.
         if ord_status o1 \<noteq> PENDING_PAYMENT then Inr (ALREADY_SETTLED, o1, d)
         else bindR (case pay of None \<Rightarrow> Inr d | Some p \<Rightarrow> update_payment (tx_now env) p d) (\<lambda>d1.
           bindR (transition o1 (ord_warehouse o1) (map ir_product (items_of d1 oid)) d1)
             (\<lambda>(o2, d2). Inr (SETTLED, o2, d2)))))"

text \<open>
  \<open>warehouseId\<close> is null only for an order without a reservation; the SQL comparison with null
  locks no row, so every line is skipped.
\<close>

definition commit_order ::
  "tx_env \<Rightarrow> uuid \<Rightarrow> uuid option \<Rightarrow> uuid list \<Rightarrow> db \<Rightarrow> app_error + db" where
  "commit_order env oid wh ps d = (case wh of None \<Rightarrow> Inr d
     | Some w \<Rightarrow> commit (tx_contended env) \<lparr>lc_order = oid, lc_warehouse = w, lc_products = ps\<rparr> d)"

definition release_order ::
  "tx_env \<Rightarrow> uuid \<Rightarrow> uuid option \<Rightarrow> uuid list \<Rightarrow> db \<Rightarrow> app_error + db" where
  "release_order env oid wh ps d = (case wh of None \<Rightarrow> Inr d
     | Some w \<Rightarrow> release (tx_contended env) \<lparr>lc_order = oid, lc_warehouse = w, lc_products = ps\<rparr> d)"

subsection \<open>The three operations\<close>

definition confirm_captured ::
  "tx_env \<Rightarrow> uuid \<Rightarrow> payment_resolution option \<Rightarrow> db \<Rightarrow> app_error + (settlement_outcome \<times> order \<times> db)" where
  "confirm_captured env oid pay = settle_order env oid pay (\<lambda>o1 wh ps d.
     bindR (commit_order env (ord_id o1) wh ps d) (\<lambda>d.
     bindR (mark_paid o1) (\<lambda>o1.
     bindR (confirm (tx_now env) o1) (\<lambda>o1.
     bindR (save_order (order_to_persistence (tx_now env) o1) d) (\<lambda>d.
     bindR (publish env ''order.confirmed''
       \<lparr>payload_order_id = ord_id o1, payload_occurred_at = tx_now env\<rparr> d) (\<lambda>d.
     Inr (o1, d)))))))"

definition fail_declined ::
  "tx_env \<Rightarrow> uuid \<Rightarrow> payment_resolution option \<Rightarrow> db \<Rightarrow> app_error + (settlement_outcome \<times> order \<times> db)" where
  "fail_declined env oid pay = settle_order env oid pay (\<lambda>o1 wh ps d.
     bindR (release_order env (ord_id o1) wh ps d) (\<lambda>d.
     bindR (mark_payment_failed o1) (\<lambda>o1.
     bindR (save_order (order_to_persistence (tx_now env) o1) d) (\<lambda>d.
     Inr (o1, d)))))"

definition cancel_unpaid ::
  "tx_env \<Rightarrow> uuid \<Rightarrow> string \<Rightarrow> payment_resolution option \<Rightarrow> db \<Rightarrow>
   app_error + (settlement_outcome \<times> order \<times> db)" where
  "cancel_unpaid env oid reason pay = settle_order env oid pay (\<lambda>o1 wh ps d.
     bindR (release_order env (ord_id o1) wh ps d) (\<lambda>d.
     bindR (cancel (tx_now env) reason o1) (\<lambda>o1.
     bindR (save_order (order_to_persistence (tx_now env) o1) d) (\<lambda>d.
     Inr (o1, d)))))"

subsection \<open>One description of the three\<close>

datatype settlement = SettleCaptured | SettleDeclined | SettleUnpaid string

fun settlement_call ::
  "settlement \<Rightarrow> tx_env \<Rightarrow> uuid \<Rightarrow> payment_resolution option \<Rightarrow> db \<Rightarrow>
   app_error + (settlement_outcome \<times> order \<times> db)" where
  "settlement_call SettleCaptured env oid pay = confirm_captured env oid pay"
| "settlement_call SettleDeclined env oid pay = fail_declined env oid pay"
| "settlement_call (SettleUnpaid reason) env oid pay = cancel_unpaid env oid reason pay"

fun settlement_type :: "settlement \<Rightarrow> movement_type" where
  "settlement_type SettleCaptured = COMMIT"
| "settlement_type _ = RELEASE"

fun final_status :: "settlement \<Rightarrow> order_status" where
  "final_status SettleCaptured = CONFIRMED"
| "final_status SettleDeclined = PAYMENT_FAILED"
| "final_status (SettleUnpaid reason) = CANCELLED"

fun settled_entity :: "settlement \<Rightarrow> timestamp \<Rightarrow> order \<Rightarrow> order" where
  "settled_entity SettleCaptured now o1 = o1\<lparr>ord_status := CONFIRMED, ord_confirmed_at := Some now\<rparr>"
| "settled_entity SettleDeclined now o1 = o1\<lparr>ord_status := PAYMENT_FAILED\<rparr>"
| "settled_entity (SettleUnpaid reason) now o1 = o1\<lparr>ord_status := CANCELLED,
     ord_cancelled_at := Some now, ord_cancellation_reason := Some reason\<rparr>"

definition settle_stock_of ::
  "movement_type \<Rightarrow> tx_env \<Rightarrow> uuid \<Rightarrow> uuid option \<Rightarrow> uuid list \<Rightarrow> db \<Rightarrow> app_error + db" where
  "settle_stock_of t env oid wh ps d = (case wh of None \<Rightarrow> Inr d
     | Some w \<Rightarrow> settle t (tx_contended env) \<lparr>lc_order = oid, lc_warehouse = w, lc_products = ps\<rparr> d)"

fun announce :: "settlement \<Rightarrow> tx_env \<Rightarrow> uuid \<Rightarrow> db \<Rightarrow> app_error + db" where
  "announce SettleCaptured env oid d = publish env ''order.confirmed''
     \<lparr>payload_order_id = oid, payload_occurred_at = tx_now env\<rparr> d"
| "announce _ env oid d = Inr d"

lemma settled_entity_sel [simp]:
  "ord_id (settled_entity s now o1) = ord_id o1"
  "ord_status (settled_entity s now o1) = final_status s"
  "ord_number (settled_entity s now o1) = ord_number o1"
  "ord_customer (settled_entity s now o1) = ord_customer o1"
  "ord_warehouse (settled_entity s now o1) = ord_warehouse o1"
  "ord_total (settled_entity s now o1) = ord_total o1"
  "ord_address (settled_entity s now o1) = ord_address o1"
  "ord_location (settled_entity s now o1) = ord_location o1"
  by (cases s; simp)+

lemma settlement_type_ok [simp]: "settle_type (settlement_type s)"
  by (cases s) simp_all

lemma final_status_terminal [simp]: "is_terminal_order_status (final_status s)"
  by (cases s) (simp_all add: is_terminal_order_status_def)

lemma final_status_not_pending [simp]: "final_status s \<noteq> PENDING_PAYMENT" "final_status s \<noteq> PAID"
  by (cases s; simp)+

lemma settle_stock_of_folds:
  "commit_order env oid wh ps d = settle_stock_of COMMIT env oid wh ps d"
  "release_order env oid wh ps d = settle_stock_of RELEASE env oid wh ps d"
  by (simp_all add: commit_order_def release_order_def settle_stock_of_def settle_commit settle_release
      split: option.split)

lemma order_steps_pending:
  assumes "ord_status o1 = PENDING_PAYMENT"
  shows "mark_paid o1 = Inr (o1\<lparr>ord_status := PAID\<rparr>)"
    and "confirm now (o1\<lparr>ord_status := PAID\<rparr>) = Inr (settled_entity SettleCaptured now o1)"
    and "mark_payment_failed o1 = Inr (settled_entity SettleDeclined now o1)"
    and "cancel now reason o1 = Inr (settled_entity (SettleUnpaid reason) now o1)"
  using assms by (simp_all add: mark_paid_def confirm_def mark_payment_failed_def cancel_def
      can_transition_order_status_def assert_valid_order_transition_def)

lemma settlement_call_eq:
  assumes "find_order d oid = Some r" and "order_to_domain r = Inr o1" and "row_status r = PENDING_PAYMENT"
  shows "settlement_call s env oid pay d =
    bindR (case pay of None \<Rightarrow> Inr d | Some p \<Rightarrow> update_payment (tx_now env) p d) (\<lambda>d1.
    bindR (settle_stock_of (settlement_type s) env oid (row_warehouse r) (map ir_product (items_of d1 oid)) d1) (\<lambda>d2.
    bindR (save_order (order_to_persistence (tx_now env) (settled_entity s (tx_now env) o1)) d2) (\<lambda>d3.
    bindR (announce s env oid d3) (\<lambda>d4. Inr (SETTLED, settled_entity s (tx_now env) o1, d4)))))"
proof -
  from order_to_domain_Inr_id[OF assms(2)] assms(3) find_order_Some[OF assms(1)]
  have o1: "ord_status o1 = PENDING_PAYMENT" "ord_id o1 = oid" "ord_warehouse o1 = row_warehouse r"
    by auto
  note steps = order_steps_pending(1)[OF o1(1)]
    order_steps_pending(2-4)[OF o1(1), where now = "tx_now env"]
  show ?thesis
    using assms(1,2) o1 by (cases s) (simp_all add: confirm_captured_def fail_declined_def
        cancel_unpaid_def settle_order_def settle_stock_of_folds steps bindR_assoc
        del: settled_entity.simps)
qed

lemma settlement_call_already:
  assumes "find_order d oid = Some r" and "order_to_domain r = Inr o1" and "row_status r \<noteq> PENDING_PAYMENT"
  shows "settlement_call s env oid pay d = Inr (ALREADY_SETTLED, o1, d)"
  using assms order_to_domain_Inr_id[OF assms(2)]
  by (cases s) (simp_all add: confirm_captured_def fail_declined_def cancel_unpaid_def settle_order_def)

lemma settlement_call_errors:
  "find_order d oid = None \<Longrightarrow> settlement_call s env oid pay d = Inl EntityNotFoundError"
  "find_order d oid = Some r \<Longrightarrow> order_to_domain r = Inl e \<Longrightarrow> settlement_call s env oid pay d = Inl e"
  by (cases s; simp add: confirm_captured_def fail_declined_def cancel_unpaid_def settle_order_def)+

subsection \<open>What each step changes\<close>

lemma update_payment_Inr:
  assumes "update_payment now p d = Inr d'"
  shows "\<exists>ps. d' = d\<lparr>payments := ps\<rparr>"
  using assms by (cases "find_payment d (pr_payment_id p)")
    (auto simp: update_payment_def split: if_splits intro: exI[of _ "payments d"])

lemma resolve_step_Inr:
  assumes "(case pay of None \<Rightarrow> Inr d | Some p \<Rightarrow> update_payment now p d) = Inr d'"
  shows "\<exists>ps. d' = d\<lparr>payments := ps\<rparr>"
  using assms update_payment_Inr by (cases pay) (auto intro: exI[of _ "payments d"])

lemma settle_stock_of_unchanged:
  assumes "settle_stock_of t env oid wh ps d = Inr d'" and "settle_type t"
    and "inventory_keys_distinct d" and "distinct ps"
  shows "inventory_keys_distinct d'" and "orders d' = orders d" and "order_items d' = order_items d"
    and "payments d' = payments d" and "jobs d' = jobs d" and "shipments d' = shipments d"
    and "customers d' = customers d" and "warehouses d' = warehouses d" and "products d' = products d"
    and "order_number_seq d' = order_number_seq d" and "map inv_key (inventory d') = map inv_key (inventory d)"
  using assms settle_unchanged[OF _ assms(2,3)] by (cases wh; simp add: settle_stock_of_def)+

lemma find_order_save:
  assumes "save_order r d = Inr d'"
  shows "find_order d' oid = (if oid = row_id r then Some r else find_order d oid)"
  using assms
proof (cases rule: save_order_cases)
  case update
  then show ?thesis
  proof (cases "oid = row_id r")
    case True
    have "find (\<lambda>x. row_id x = row_id r) (update_rows (\<lambda>x. row_id x = row_id r) (\<lambda>_. r) os) =
        (if row_id r \<in> row_id ` set os then Some r else None)" for os
      by (induction os) auto
    with True update show ?thesis by (simp add: find_order_def order_exists_def)
  next
    case False
    have "find (\<lambda>x. row_id x = oid) (update_rows (\<lambda>x. row_id x = row_id r) (\<lambda>_. r) os) =
        find (\<lambda>x. row_id x = oid) os" for os
      using False by (induction os) auto
    with False update show ?thesis by (simp add: find_order_def)
  qed
next
  case insert
  have "find (\<lambda>x. row_id x = oid) (os @ [r]) = (case find (\<lambda>x. row_id x = oid) os of
      None \<Rightarrow> if row_id r = oid then Some r else None | Some x \<Rightarrow> Some x)" for os
    by (induction os) auto
  moreover from insert(1) have "find (\<lambda>x. row_id x = row_id r) (orders d) = None"
    by (simp add: order_exists_def find_None_key)
  ultimately show ?thesis using insert(2) by (auto simp: find_order_def split: option.split)
qed

lemma save_order_unchanged:
  assumes "save_order r d = Inr d'"
  shows "\<exists>os. d' = d\<lparr>orders := os\<rparr>"
  using assms by (cases rule: save_order_cases) auto

definition confirmed_jobs :: "tx_env \<Rightarrow> uuid \<Rightarrow> job list" where
  "confirmed_jobs env oid = map (job_for env \<lparr>payload_order_id = oid, payload_occurred_at = tx_now env\<rparr>)
     [''shipment.create'', ''customer.notify'', ''analytics.record'']"

fun settlement_jobs :: "settlement \<Rightarrow> tx_env \<Rightarrow> uuid \<Rightarrow> job list" where
  "settlement_jobs SettleCaptured env oid = confirmed_jobs env oid"
| "settlement_jobs _ env oid = []"

lemma announce_Inr:
  "announce s env oid d = Inr d' \<Longrightarrow> sends_append (tx_send env) \<Longrightarrow>
     d' = d\<lparr>jobs := jobs d @ settlement_jobs s env oid\<rparr>"
  by (cases s) (auto dest: publish_confirmed_Inr simp: confirmed_jobs_def)

lemma settlement_SETTLED:
  assumes "settlement_call s env oid pay d = Inr (SETTLED, o2, d')"
  obtains r o1 d1 d2 d3 where "find_order d oid = Some r" "order_to_domain r = Inr o1"
    "row_status r = PENDING_PAYMENT" "o2 = settled_entity s (tx_now env) o1"
    "(case pay of None \<Rightarrow> Inr d | Some p \<Rightarrow> update_payment (tx_now env) p d) = Inr d1"
    "settle_stock_of (settlement_type s) env oid (row_warehouse r) (map ir_product (items_of d oid)) d1 = Inr d2"
    "save_order (order_to_persistence (tx_now env) o2) d2 = Inr d3"
    "announce s env oid d3 = Inr d'"
proof -
  from assms obtain r where r: "find_order d oid = Some r"
    using settlement_call_errors(1)[of d oid s env pay] by (cases "find_order d oid") auto
  with assms obtain o1 where o1: "order_to_domain r = Inr o1"
    using settlement_call_errors(2)[OF r, of _ s env pay] by (cases "order_to_domain r") auto
  have p: "row_status r = PENDING_PAYMENT"
    using settlement_call_already[OF r o1, of s env pay] assms by (cases "row_status r = PENDING_PAYMENT") auto
  from assms[unfolded settlement_call_eq[OF r o1 p]] obtain d1 d2 d3 where
    d1: "(case pay of None \<Rightarrow> Inr d | Some p \<Rightarrow> update_payment (tx_now env) p d) = Inr d1"
    and d2: "settle_stock_of (settlement_type s) env oid (row_warehouse r) (map ir_product (items_of d1 oid)) d1 = Inr d2"
    and d3: "save_order (order_to_persistence (tx_now env) (settled_entity s (tx_now env) o1)) d2 = Inr d3"
      "announce s env oid d3 = Inr d'" "o2 = settled_entity s (tx_now env) o1" by auto
  from resolve_step_Inr[OF d1] have "items_of d1 oid = items_of d oid" by auto
  with that r o1 p d1 d2 d3 show ?thesis by simp
qed

lemma settlement_call_cases:
  assumes "settlement_call s env oid pay d = Inr (out, o2, d')"
  shows "out = SETTLED \<or> (out = ALREADY_SETTLED \<and> d' = d \<and>
    (\<exists>r. find_order d oid = Some r \<and> order_to_domain r = Inr o2 \<and> row_status r \<noteq> PENDING_PAYMENT))"
proof -
  from assms obtain r where r: "find_order d oid = Some r"
    using settlement_call_errors(1)[of d oid s env pay] by (cases "find_order d oid") auto
  with assms obtain o1 where o1: "order_to_domain r = Inr o1"
    using settlement_call_errors(2)[OF r, of _ s env pay] by (cases "order_to_domain r") auto
  show ?thesis
  proof (cases "row_status r = PENDING_PAYMENT")
    case True
    from assms[unfolded settlement_call_eq[OF r o1 True]] show ?thesis by auto
  next
    case False
    with assms settlement_call_already[OF r o1 False, of s env pay] r o1 show ?thesis by auto
  qed
qed

lemma settled_row:
  assumes "settlement_call s env oid pay d = Inr (SETTLED, o2, d')" and "sends_append (tx_send env)"
    and "inventory_keys_distinct d" and "distinct (map ir_product (items_of d oid))"
  shows "find_order d' oid' = (if oid' = oid then Some (order_to_persistence (tx_now env) o2)
      else find_order d oid')"
    and "ord_status o2 = final_status s"
    and "jobs d' = jobs d @ settlement_jobs s env oid"
    and "order_items d' = order_items d"
    and "inventory_keys_distinct d'"
proof -
  from assms(1) obtain r o1 d1 d2 d3 where 1: "find_order d oid = Some r" "order_to_domain r = Inr o1"
    "row_status r = PENDING_PAYMENT" "o2 = settled_entity s (tx_now env) o1"
    "(case pay of None \<Rightarrow> Inr d | Some p \<Rightarrow> update_payment (tx_now env) p d) = Inr d1"
    "settle_stock_of (settlement_type s) env oid (row_warehouse r) (map ir_product (items_of d oid)) d1 = Inr d2"
    "save_order (order_to_persistence (tx_now env) o2) d2 = Inr d3"
    "announce s env oid d3 = Inr d'" by (rule settlement_SETTLED)
  from resolve_step_Inr[OF 1(5)] obtain ps where d1: "d1 = d\<lparr>payments := ps\<rparr>" by blast
  with assms(3) have k1: "inventory_keys_distinct d1" by (simp add: inventory_keys_distinct_def)
  note d2 = settle_stock_of_unchanged[OF 1(6) settlement_type_ok k1 assms(4)]
  from save_order_unchanged[OF 1(7)] obtain os where d3: "d3 = d2\<lparr>orders := os\<rparr>" by blast
  note d' = announce_Inr[OF 1(8) assms(2)]
  from find_order_Some[OF 1(1)] order_to_domain_Inr_id[OF 1(2)] 1(4) have oid: "ord_id o2 = oid" by simp
  have "find_order d' oid' = find_order d3 oid'" by (simp add: d')
  also have "\<dots> = (if oid' = oid then Some (order_to_persistence (tx_now env) o2) else find_order d2 oid')"
    by (simp add: find_order_save[OF 1(7)] oid)
  also have "find_order d2 oid' = find_order d oid'"
    by (simp add: find_order_def d2(2) d1)
  finally show "find_order d' oid' = (if oid' = oid then Some (order_to_persistence (tx_now env) o2)
      else find_order d oid')" .
  from 1(4) show "ord_status o2 = final_status s" by simp
  show "jobs d' = jobs d @ settlement_jobs s env oid" "order_items d' = order_items d"
    by (simp_all add: d' d3 d2 d1)
  from d2(1) show "inventory_keys_distinct d'"
    by (simp add: d' d3 inventory_keys_distinct_def)
qed

lemma settled_stock:
  assumes "settlement_call s env oid pay d = Inr (SETTLED, o2, d')" and "sends_append (tx_send env)"
    and "inventory_keys_distinct d" and "distinct (map ir_product (items_of d oid))"
    and "find_order d oid = Some r" and "row_warehouse r = Some w"
  shows "stock d' w' p = (if w' = w \<and> p \<in> ir_product ` set (items_of d oid)
      then map_option (\<lambda>(a, r). (a + returned (settlement_type s) (held d oid p), r - held d oid p)) (stock d w p)
      else stock d w' p)"
    and "held d' oid' p = (if oid' = oid \<and> p \<in> ir_product ` set (items_of d oid) \<and> stock d w p \<noteq> None
      then 0 else held d oid' p)"
proof -
  from assms(1) obtain r' o1 d1 d2 d3 where 1: "find_order d oid = Some r'" "order_to_domain r' = Inr o1"
    "row_status r' = PENDING_PAYMENT" "o2 = settled_entity s (tx_now env) o1"
    "(case pay of None \<Rightarrow> Inr d | Some p \<Rightarrow> update_payment (tx_now env) p d) = Inr d1"
    "settle_stock_of (settlement_type s) env oid (row_warehouse r') (map ir_product (items_of d oid)) d1 = Inr d2"
    "save_order (order_to_persistence (tx_now env) o2) d2 = Inr d3"
    "announce s env oid d3 = Inr d'" by (rule settlement_SETTLED)
  let ?c = "\<lparr>lc_order = oid, lc_warehouse = w, lc_products = map ir_product (items_of d oid)\<rparr>"
  from resolve_step_Inr[OF 1(5)] obtain ps where d1: "d1 = d\<lparr>payments := ps\<rparr>" by blast
  with assms(3) have k1: "inventory_keys_distinct d1" by (simp add: inventory_keys_distinct_def)
  from 1(1,6) assms(5,6) have d2: "settle (settlement_type s) (tx_contended env) ?c d1 = Inr d2"
    by (simp add: settle_stock_of_def)
  have dist: "distinct (lc_products ?c)" using assms(4) by simp
  from save_order_unchanged[OF 1(7)] obtain os where d3: "d3 = d2\<lparr>orders := os\<rparr>" by blast
  note d' = announce_Inr[OF 1(8) assms(2)]
  have same: "stock d' = stock d2" "held d' = held d2" "stock d1 = stock d" "held d1 = held d"
    by (simp_all add: d' d3 d1)
  show "stock d' w' p = (if w' = w \<and> p \<in> ir_product ` set (items_of d oid)
      then map_option (\<lambda>(a, r). (a + returned (settlement_type s) (held d oid p), r - held d oid p)) (stock d w p)
      else stock d w' p)"
    using settle_stock[OF d2 settlement_type_ok k1 dist, of w' p] by (simp add: same)
  show "held d' oid' p = (if oid' = oid \<and> p \<in> ir_product ` set (items_of d oid) \<and> stock d w p \<noteq> None
      then 0 else held d oid' p)"
    using settle_held[OF d2 settlement_type_ok k1 dist, of oid' p] by (auto simp: same)
qed

lemma settled_payments:
  assumes "settlement_call s env oid pay d = Inr (SETTLED, o2, d')" and "sends_append (tx_send env)"
    and "inventory_keys_distinct d" and "distinct (map ir_product (items_of d oid))"
    and pay: "(case pay of None \<Rightarrow> Inr d | Some p \<Rightarrow> update_payment (tx_now env) p d) = Inr d1"
  shows "payments d' = payments d1"
proof -
  from assms(1) obtain r o1 d1' d2 d3 where "find_order d oid = Some r" "order_to_domain r = Inr o1"
    "row_status r = PENDING_PAYMENT" "o2 = settled_entity s (tx_now env) o1" and
    1: "(case pay of None \<Rightarrow> Inr d | Some p \<Rightarrow> update_payment (tx_now env) p d) = Inr d1'"
    "settle_stock_of (settlement_type s) env oid (row_warehouse r) (map ir_product (items_of d oid)) d1' = Inr d2"
    "save_order (order_to_persistence (tx_now env) o2) d2 = Inr d3"
    "announce s env oid d3 = Inr d'" by (rule settlement_SETTLED)
  from pay 1(1) have d1: "d1' = d1" by simp
  from resolve_step_Inr[OF pay] assms(3) have k1: "inventory_keys_distinct d1" by (auto simp: inventory_keys_distinct_def)
  note d2 = settle_stock_of_unchanged[OF 1(2)[unfolded d1] settlement_type_ok k1 assms(4)]
  from save_order_unchanged[OF 1(3)] announce_Inr[OF 1(4) assms(2)] d2(4) show ?thesis by auto
qed

lemma order_to_domain_wf_Inr: "order_to_domain r = Inr o1 \<Longrightarrow> order_row_wf r \<Longrightarrow> o1 = entity_of r"
  by (simp add: order_to_domain_wf)

lemma order_wf_settled: "order_wf o1 \<Longrightarrow> order_wf (settled_entity s now o1)"
  by (simp add: order_wf_def)

lemma settled_entity_wf:
  assumes "settlement_call s env oid pay d = Inr (SETTLED, o2, d')"
    and "find_order d oid = Some r" and "order_row_wf r"
  shows "o2 = settled_entity s (tx_now env) (entity_of r)" and "order_wf o2"
    and "row_status r = PENDING_PAYMENT"
proof -
  from assms(1) obtain r' o1 where 1: "find_order d oid = Some r'" "order_to_domain r' = Inr o1"
    "row_status r' = PENDING_PAYMENT" "o2 = settled_entity s (tx_now env) o1" by (rule settlement_SETTLED)
  with assms(2,3) show "o2 = settled_entity s (tx_now env) (entity_of r)" "row_status r = PENDING_PAYMENT"
    by (auto dest: order_to_domain_wf_Inr)
  then show "order_wf o2" using assms(3) by (simp add: order_wf_settled order_wf_entity)
qed

subsection \<open>Settling a pending order does not get stuck\<close>

definition sends_ok :: "(job \<Rightarrow> db \<Rightarrow> app_error + db) \<Rightarrow> bool" where
  "sends_ok send \<longleftrightarrow> (\<forall>j d. send j d = Inr (d\<lparr>jobs := jobs d @ [j]\<rparr>))"

lemma sends_ok_plain [simp]: "sends_ok plain_send"
  by (simp add: sends_ok_def plain_send_def)

lemma sends_ok_append: "sends_ok send \<Longrightarrow> sends_append send"
  by (simp add: sends_ok_def sends_append_def)

lemma announce_ok: "sends_ok (tx_send env) \<Longrightarrow> \<exists>d'. announce s env oid d = Inr d'"
  by (cases s) (simp_all add: publish_def event_routing_def sends_ok_def)

definition order_row_unique :: "db \<Rightarrow> order_row \<Rightarrow> bool" where
  "order_row_unique d r \<longleftrightarrow> (\<forall>x \<in> set (orders d). row_number x = row_number r \<longrightarrow> row_id x = row_id r)"

lemma save_order_ok:
  assumes "order_row_unique d r" and "orders_fk_ok d r" and "in_int8 (row_total_cents r)"
  shows "\<exists>d'. save_order r d = Inr d'"
  using assms by (auto simp: save_order_def order_row_unique_def)

lemma settlement_ok:
  assumes r: "find_order d oid = Some r" "row_status r = PENDING_PAYMENT" "order_row_wf r"
      "row_warehouse r = Some w"
    and inv: "inventory_keys_distinct d" "distinct (map ir_product (items_of d oid))"
    and stock: "\<forall>p \<in> ir_product ` set (items_of d oid). case stock d w p of None \<Rightarrow> True
      | Some (a, r) \<Rightarrow> 0 \<le> a \<and> held d oid p \<le> r \<and> a + r < 2 ^ 31"
    and fk: "ir_product ` set (items_of d oid) \<subseteq> prod_id ` set (products d)"
      "orders_fk_ok d r" "order_row_unique d r"
    and env: "\<not> tx_contended env" "sends_ok (tx_send env)"
    and pay: "(case pay of None \<Rightarrow> Inr d | Some p \<Rightarrow> update_payment (tx_now env) p d) = Inr d1"
  shows "\<exists>o2 d'. settlement_call s env oid pay d = Inr (SETTLED, o2, d')"
proof -
  let ?o2 = "settled_entity s (tx_now env) (entity_of r)"
  let ?row = "order_to_persistence (tx_now env) ?o2"
  let ?c = "\<lparr>lc_order = oid, lc_warehouse = w, lc_products = map ir_product (items_of d oid)\<rparr>"
  from resolve_step_Inr[OF pay] obtain ps where d1: "d1 = d\<lparr>payments := ps\<rparr>" by blast
  with inv have k1: "inventory_keys_distinct d1" by (simp add: inventory_keys_distinct_def)
  have same: "stock d1 = stock d" "held d1 = held d" "items_of d1 oid = items_of d oid"
    "products d1 = products d"
    by (simp_all add: d1)
  from r fk have w: "w \<in> wh_id ` set (warehouses d1)" by (simp add: orders_fk_ok_def d1)
  have "order_exists d1 oid" using find_order_None[of d oid] r(1) by (simp add: d1)
  with stock inv fk w have "\<exists>d2. settle (settlement_type s) False ?c d1 = Inr d2"
    by (intro settle_ok[OF settlement_type_ok k1]) (auto simp: same split: option.splits)
  then obtain d2 where d2:
    "settle_stock_of (settlement_type s) env oid (row_warehouse r) (map ir_product (items_of d1 oid)) d1 = Inr d2"
    using env(1) r(4) by (auto simp: settle_stock_of_def same)
  have dist: "distinct (map ir_product (items_of d1 oid))" using inv(2) by (simp add: same)
  note sd2 = settle_stock_of_unchanged[OF d2 settlement_type_ok k1 dist]
  have num: "row_number ?row = row_number r" "row_id ?row = row_id r" "row_customer ?row = row_customer r"
    "row_warehouse ?row = row_warehouse r" by simp_all
  have "row_total_cents ?row = row_total_cents r" by (simp add: order_to_persistence_def entity_of_def)
  with r(3) have "in_int8 (row_total_cents ?row)"
    by (simp add: order_row_wf_def in_int8_def max_safe_def)
  moreover have "order_row_unique d2 ?row" "orders_fk_ok d2 ?row"
    using fk num by (simp_all add: order_row_unique_def orders_fk_ok_def sd2 d1 r(4))
  ultimately obtain d3 where d3: "save_order ?row d2 = Inr d3" using save_order_ok by blast
  from announce_ok[OF env(2)] obtain d4 where d4: "announce s env oid d3 = Inr d4" by blast
  show ?thesis
    using settlement_call_eq[OF r(1) order_to_domain_wf[OF r(3)] r(2), of s env pay]
      pay d2 d3 d4 by simp
qed

subsection \<open>A concrete pending order\<close>

definition sample_pending :: db where
  "sample_pending = sample_reserved\<lparr>order_items := [
     \<lparr>ir_id = ''i1'', ir_order = ''o1'', ir_product = ''pa'', ir_quantity = 2, ir_sku = ''A'',
      ir_name = ''a'', ir_unit_price_cents = 100\<rparr>,
     \<lparr>ir_id = ''i2'', ir_order = ''o1'', ir_product = ''pb'', ir_quantity = 4, ir_sku = ''B'',
      ir_name = ''b'', ir_unit_price_cents = 50\<rparr>]\<rparr>"

definition sample_pending_row :: order_row where
  "sample_pending_row = sample_order_row\<lparr>row_warehouse := Some ''w1'',
     row_reservation_expires_at := Some 900000\<rparr>"

lemma sample_reserved_orders: "orders sample_reserved = [sample_pending_row]"
proof -
  have dist: "distinct (map line_product (rc_lines sample_reserve))"
    using sample_facts(2) by (simp add: valid_lines_def)
  show ?thesis
    by (simp add: reserve_orders(1)[OF sample_reserve_ok sample_facts(1) dist])
      (simp add: sample_db_def sample_reserve_def sample_pending_row_def sample_order_row_def
        reservation_ttl_minutes_def ms_per_minute_def)
qed

lemma sample_pending_facts:
  "find_order sample_pending ''o1'' = Some sample_pending_row"
  "order_row_wf sample_pending_row" "row_warehouse sample_pending_row = Some ''w1''"
  "row_status sample_pending_row = PENDING_PAYMENT"
  "inventory_keys_distinct sample_pending"
  "distinct (map ir_product (items_of sample_pending ''o1''))"
  "ir_product ` set (items_of sample_pending ''o1'') = {''pa'', ''pb''}"
  "stock sample_pending ''w1'' ''pa'' = Some (3, 2)" "stock sample_pending ''w1'' ''pb'' = Some (0, 5)"
  "held sample_pending ''o1'' ''pa'' = 2" "held sample_pending ''o1'' ''pb'' = 4"
proof -
  show "find_order sample_pending ''o1'' = Some sample_pending_row"
    by (simp add: sample_pending_def find_order_def sample_reserved_orders)
      (simp add: sample_pending_row_def sample_order_row_def)
  show "order_row_wf sample_pending_row"
    by (simp add: sample_pending_row_def sample_order_row_def sample_order_def order_row_wf_def
        max_safe_def address_wf_def blank_def coordinates_wf_def js_trim_def is_js_space_def)
  show "row_warehouse sample_pending_row = Some ''w1''" "row_status sample_pending_row = PENDING_PAYMENT"
    by (simp_all add: sample_pending_row_def sample_order_row_def)
  show "inventory_keys_distinct sample_pending"
    using sample_reserved_facts(5) by (simp add: sample_pending_def inventory_keys_distinct_def)
  show "distinct (map ir_product (items_of sample_pending ''o1''))"
    "ir_product ` set (items_of sample_pending ''o1'') = {''pa'', ''pb''}"
    by (auto simp: sample_pending_def items_of_def)
  show "stock sample_pending ''w1'' ''pa'' = Some (3, 2)" "stock sample_pending ''w1'' ''pb'' = Some (0, 5)"
    "held sample_pending ''o1'' ''pa'' = 2" "held sample_pending ''o1'' ''pb'' = 4"
    using sample_reserved_facts by (simp_all add: sample_pending_def)
qed

lemma sample_settles:
  "\<exists>o2 d'. settlement_call s sample_env ''o1'' None sample_pending = Inr (SETTLED, o2, d')"
proof (rule settlement_ok[OF sample_pending_facts(1,4,2,3,5,6)])
  note f = sample_pending_facts
  have p: "products sample_pending = products sample_db" "warehouses sample_pending = warehouses sample_db"
    "orders sample_pending = [sample_pending_row]" "customers sample_pending = customers sample_db"
    using sample_reserved_facts sample_reserved_orders
      reserve_unchanged(2)[OF sample_reserve_ok sample_facts(1)] sample_facts(2)
    by (simp_all add: sample_pending_def valid_lines_def)
  show "\<forall>p\<in>ir_product ` set (items_of sample_pending ''o1''). case stock sample_pending ''w1'' p of
      None \<Rightarrow> True | Some (a, r) \<Rightarrow> 0 \<le> a \<and> held sample_pending ''o1'' p \<le> r \<and> a + r < 2 ^ 31"
    by (simp add: f)
  show "ir_product ` set (items_of sample_pending ''o1'') \<subseteq> prod_id ` set (products sample_pending)"
    by (simp add: f p sample_db_def)
  show "orders_fk_ok sample_pending sample_pending_row"
    by (simp add: orders_fk_ok_def p f(3) sample_db_def)
      (simp add: sample_pending_row_def sample_order_row_def)
  show "order_row_unique sample_pending sample_pending_row"
    by (simp add: order_row_unique_def p)
  show "\<not> tx_contended sample_env" "sends_ok (tx_send sample_env)"
    by (simp_all add: sample_env_def)
  show "(case None of None \<Rightarrow> Inr sample_pending | Some p \<Rightarrow> update_payment (tx_now sample_env) p sample_pending)
      = Inr sample_pending" by simp
qed

subsection \<open>Properties\<close>

text \<open>
  C9. Whoever settles an order first wins, for good. After one of \<open>confirmCaptured\<close>,
  \<open>failDeclined\<close> and \<open>cancelUnpaid\<close> has settled an order, any later call of any of the three on
  that order, by the saga, the reaper or reconciliation and with any payment resolution, answers
  \<open>ALREADY_SETTLED\<close> with the order in the winner's status and changes nothing in the database.
\<close>

theorem first_settlement_wins:
  assumes "settlement_call s env oid pay d = Inr (SETTLED, o2, d')" and "sends_append (tx_send env)"
    and "inventory_keys_distinct d" and "distinct (map ir_product (items_of d oid))"
    and "find_order d oid = Some r" and "order_row_wf r"
  shows "\<exists>o3. settlement_call s' env' oid pay' d' = Inr (ALREADY_SETTLED, o3, d') \<and>
    ord_status o3 = final_status s"
proof -
  note row = settled_row[OF assms(1-4)]
  have "order_row_wf (order_to_persistence (tx_now env) o2)"
    using settled_entity_wf(2)[OF assms(1,5,6)] by (rule order_row_wf_persistence)
  then have dom: "order_to_domain (order_to_persistence (tx_now env) o2) =
      Inr (entity_of (order_to_persistence (tx_now env) o2))" by (rule order_to_domain_wf)
  have "find_order d' oid = Some (order_to_persistence (tx_now env) o2)" by (simp add: row(1))
  from settlement_call_already[OF this dom] show ?thesis
    using row(2) by (intro exI[of _ "entity_of (order_to_persistence (tx_now env) o2)"]) simp
qed

theorem first_settlement_wins_witness:
  "\<exists>o2 d' o3. confirm_captured sample_env ''o1'' None sample_pending = Inr (SETTLED, o2, d') \<and>
     cancel_unpaid sample_env ''o1'' ''reservation_expired'' None d' = Inr (ALREADY_SETTLED, o3, d') \<and>
     ord_status o3 = CONFIRMED"
proof -
  obtain o2 d' where s: "settlement_call SettleCaptured sample_env ''o1'' None sample_pending = Inr (SETTLED, o2, d')"
    using sample_settles by blast
  have "sends_append (tx_send sample_env)" by (simp add: sample_env_def)
  from first_settlement_wins[OF s this sample_pending_facts(5,6,1,2),
      of "SettleUnpaid ''reservation_expired''" sample_env None] s
  show ?thesis by auto
qed

text \<open>
  C10. What a settlement does: the order's row gets the final status of that settlement and no
  other order row changes; for each of its lines the units the order holds leave the reserved
  balance, going back to the available one exactly when the order was not confirmed; and the three
  \<open>order.confirmed\<close> jobs are queued in the same transaction exactly when it was.
\<close>

theorem settlement_effect:
  assumes "settlement_call s env oid pay d = Inr (SETTLED, o2, d')" and "sends_append (tx_send env)"
    and "inventory_keys_distinct d" and "distinct (map ir_product (items_of d oid))"
    and "find_order d oid = Some r" and "row_warehouse r = Some w"
    and "\<forall>p \<in> ir_product ` set (items_of d oid). stock d w p \<noteq> None"
  shows "row_status r = PENDING_PAYMENT \<and>
    find_order d' oid = Some (order_to_persistence (tx_now env) o2) \<and> ord_status o2 = final_status s \<and>
    (\<forall>oid'. oid' \<noteq> oid \<longrightarrow> find_order d' oid' = find_order d oid') \<and>
    (\<forall>w' p. stock d' w' p = (if w' = w \<and> p \<in> ir_product ` set (items_of d oid)
       then map_option (\<lambda>(a, r). (a + (if s = SettleCaptured then 0 else held d oid p), r - held d oid p))
         (stock d w p)
       else stock d w' p)) \<and>
    (\<forall>p \<in> ir_product ` set (items_of d oid). held d' oid p = 0) \<and>
    jobs d' = jobs d @ (if s = SettleCaptured
      then map (job_for env \<lparr>payload_order_id = oid, payload_occurred_at = tx_now env\<rparr>)
        [''shipment.create'', ''customer.notify'', ''analytics.record''] else [])"
proof -
  note row = settled_row[OF assms(1-4)] and st = settled_stock[OF assms(1-6)]
  have "returned (settlement_type s) = (\<lambda>q. if s = SettleCaptured then 0 else q)"
    by (cases s) (simp_all add: returned_def fun_eq_iff)
  moreover have "settlement_jobs s env oid = (if s = SettleCaptured
      then map (job_for env \<lparr>payload_order_id = oid, payload_occurred_at = tx_now env\<rparr>)
        [''shipment.create'', ''customer.notify'', ''analytics.record''] else [])"
    by (cases s) (simp_all add: confirmed_jobs_def)
  moreover have "row_status r = PENDING_PAYMENT"
    using assms(1,5) by (auto elim: settlement_SETTLED)
  ultimately show ?thesis using row st assms(7) by auto
qed

theorem settlement_effect_witness:
  "\<exists>o2 d'. fail_declined sample_env ''o1'' None sample_pending = Inr (SETTLED, o2, d') \<and>
     stock d' ''w1'' ''pb'' = Some (4, 1) \<and> jobs d' = jobs sample_pending"
proof -
  obtain o2 d' where s: "settlement_call SettleDeclined sample_env ''o1'' None sample_pending = Inr (SETTLED, o2, d')"
    using sample_settles by blast
  have "sends_append (tx_send sample_env)" by (simp add: sample_env_def)
  from settlement_effect[OF s this sample_pending_facts(5,6,1,3)] s sample_pending_facts
  show ?thesis by auto
qed

end
