(* ===== verification/Circuit_Breaker.thy ===== *)
theory Circuit_Breaker
  imports Domain_Types "HOL-Library.Multiset"
begin

section \<open>The circuit breaker\<close>

text \<open>
  \<^verbatim>\<open>src/infrastructure/http/circuit-breaker.ts\<close>. \<open>execute\<close> awaits the operation in its middle, so
  it is modelled as two atomic pieces, \<open>begin_call\<close> up to the \<open>await\<close> and \<open>finish_call\<close> after it;
  the single-threaded event loop interleaves the pieces of concurrent calls, which is the step
  relation below. \<open>execute\<close> is the call that nothing interleaves with.
\<close>

datatype breaker_state = CLOSED | OPEN | HALF_OPEN

record breaker_options =
  failure_threshold :: nat
  open_ms :: int

record breaker =
  current_state :: breaker_state
  consecutive_failures :: nat
  opened_at :: "int option"
  half_open_probe_in_flight :: bool

definition BREAKER_FAILURE_THRESHOLD :: nat where
  "BREAKER_FAILURE_THRESHOLD = 5"

definition BREAKER_OPEN_MS :: int where
  "BREAKER_OPEN_MS = 30000"

definition default_breaker_options :: breaker_options where
  "default_breaker_options = \<lparr>failure_threshold = BREAKER_FAILURE_THRESHOLD, open_ms = BREAKER_OPEN_MS\<rparr>"

definition new_breaker :: breaker where
  "new_breaker = \<lparr>current_state = CLOSED, consecutive_failures = 0, opened_at = None,
     half_open_probe_in_flight = False\<rparr>"

subsection \<open>Transitions\<close>

definition transition_to :: "breaker_state \<Rightarrow> breaker \<Rightarrow> breaker" where
  "transition_to s b = b\<lparr>current_state := s\<rparr>"

definition maybe_half_open :: "breaker_options \<Rightarrow> int \<Rightarrow> breaker \<Rightarrow> breaker" where
  "maybe_half_open opts now b =
    (let open_long_enough = (case opened_at b of None \<Rightarrow> False | Some t \<Rightarrow> open_ms opts \<le> now - t)
     in if current_state b = OPEN \<and> open_long_enough then transition_to HALF_OPEN b else b)"

definition on_success :: "breaker \<Rightarrow> breaker" where
  "on_success b =
    (if current_state b = HALF_OPEN then transition_to CLOSED (b\<lparr>consecutive_failures := 0\<rparr>)
     else b\<lparr>consecutive_failures := 0\<rparr>)"

definition on_failure :: "breaker_options \<Rightarrow> int \<Rightarrow> breaker \<Rightarrow> breaker" where
  "on_failure opts now b =
    (if current_state b = HALF_OPEN then transition_to OPEN (b\<lparr>opened_at := Some now\<rparr>)
     else (let b1 = b\<lparr>consecutive_failures := consecutive_failures b + 1\<rparr>
       in if failure_threshold opts \<le> consecutive_failures b1
          then transition_to OPEN (b1\<lparr>opened_at := Some now\<rparr>) else b1))"

text \<open>How a call was let through: as an ordinary call or as the half-open probe.\<close>

datatype call_kind = Ordinary | Probe

definition begin_call :: "breaker_options \<Rightarrow> int \<Rightarrow> breaker \<Rightarrow> call_kind option \<times> breaker" where
  "begin_call opts now b0 =
    (let b = maybe_half_open opts now b0 in
     if current_state b = OPEN then (None, b)
     else if current_state b = HALF_OPEN then
       (if half_open_probe_in_flight b then (None, b)
        else (Some Probe, b\<lparr>half_open_probe_in_flight := True\<rparr>))
     else (Some Ordinary, b))"

definition finish_call :: "breaker_options \<Rightarrow> int \<Rightarrow> bool \<Rightarrow> call_kind \<Rightarrow> breaker \<Rightarrow> breaker" where
  "finish_call opts now ok kind b =
    (let b1 = (if ok then on_success b else on_failure opts now b) in
     case kind of Probe \<Rightarrow> b1\<lparr>half_open_probe_in_flight := False\<rparr> | Ordinary \<Rightarrow> b1)"

text \<open>\<open>operation\<close> acts on a state whose clock is \<open>now_of\<close>; an \<open>Inl\<close> outcome is a throw.\<close>

definition execute ::
  "breaker_options \<Rightarrow> ('s \<Rightarrow> int) \<Rightarrow> 'e \<Rightarrow> ('s \<Rightarrow> ('e + 'a) \<times> 's) \<Rightarrow> breaker \<Rightarrow> 's \<Rightarrow>
   ('e + 'a) \<times> breaker \<times> 's" where
  "execute opts now_of circuit_open operation b s =
    (case begin_call opts (now_of s) b of
       (None, b1) \<Rightarrow> (Inl circuit_open, b1, s)
     | (Some kind, b1) \<Rightarrow>
         (case operation s of (outcome, s') \<Rightarrow>
            (outcome, finish_call opts (now_of s') (\<not> isl outcome) kind b1, s')))"

subsection \<open>Interleaved calls\<close>

record breaker_system =
  sys_breaker :: breaker
  sys_calls :: "call_kind multiset" \<comment> \<open>calls past \<open>begin_call\<close> and not finished\<close>
  sys_now :: int

inductive breaker_step :: "breaker_options \<Rightarrow> breaker_system \<Rightarrow> breaker_system \<Rightarrow> bool" for opts where
  tick: "sys_now s \<le> t \<Longrightarrow> breaker_step opts s (s\<lparr>sys_now := t\<rparr>)"
| reject: "begin_call opts (sys_now s) (sys_breaker s) = (None, b) \<Longrightarrow>
     breaker_step opts s (s\<lparr>sys_breaker := b\<rparr>)"
| admit: "begin_call opts (sys_now s) (sys_breaker s) = (Some kind, b) \<Longrightarrow>
     breaker_step opts s (s\<lparr>sys_breaker := b, sys_calls := add_mset kind (sys_calls s)\<rparr>)"
| finish: "kind \<in># sys_calls s \<Longrightarrow>
     breaker_step opts s (s\<lparr>sys_breaker := finish_call opts (sys_now s) ok kind (sys_breaker s),
       sys_calls := sys_calls s - {#kind#}\<rparr>)"

inductive_cases breaker_stepE: "breaker_step opts s s'"

definition breaker_start :: "int \<Rightarrow> breaker_system" where
  "breaker_start t = \<lparr>sys_breaker = new_breaker, sys_calls = {#}, sys_now = t\<rparr>"

definition breaker_reachable :: "breaker_options \<Rightarrow> breaker_system \<Rightarrow> bool" where
  "breaker_reachable opts s \<longleftrightarrow> (\<exists>t. (breaker_step opts)\<^sup>*\<^sup>* (breaker_start t) s)"

definition breaker_inv :: "breaker_options \<Rightarrow> breaker_system \<Rightarrow> bool" where
  "breaker_inv opts s \<longleftrightarrow>
     count (sys_calls s) Probe = (if half_open_probe_in_flight (sys_breaker s) then 1 else 0) \<and>
     (current_state (sys_breaker s) = CLOSED \<longrightarrow>
        consecutive_failures (sys_breaker s) < failure_threshold opts) \<and>
     (current_state (sys_breaker s) \<noteq> CLOSED \<longrightarrow>
        (\<exists>t \<le> sys_now s. opened_at (sys_breaker s) = Some t))"

lemmas breaker_defs [model_defs] = begin_call_def finish_call_def maybe_half_open_def on_success_def
  on_failure_def transition_to_def Let_def

lemma breaker_inv_start: "0 < failure_threshold opts \<Longrightarrow> breaker_inv opts (breaker_start t)"
  by (simp add: breaker_inv_def breaker_start_def new_breaker_def)

lemma breaker_inv_begin:
  assumes "breaker_inv opts s" and "begin_call opts (sys_now s) (sys_breaker s) = (k, b)"
  shows "(k = None \<or> k = Some Ordinary \<longrightarrow> half_open_probe_in_flight b = half_open_probe_in_flight (sys_breaker s)) \<and>
    (k = Some Probe \<longrightarrow> half_open_probe_in_flight b \<and> \<not> half_open_probe_in_flight (sys_breaker s)) \<and>
    (current_state b = CLOSED \<longrightarrow> consecutive_failures b < failure_threshold opts) \<and>
    (current_state b \<noteq> CLOSED \<longrightarrow> (\<exists>t \<le> sys_now s. opened_at b = Some t))"
  using assms by (cases "current_state (sys_breaker s)")
    (auto simp: breaker_inv_def breaker_defs split: if_splits option.splits)

lemma breaker_inv_step:
  assumes "breaker_step opts s s'" and "breaker_inv opts s" and "0 < failure_threshold opts"
  shows "breaker_inv opts s'"
proof (rule breaker_stepE[OF assms(1)], goal_cases)
  case (1 t)
  with assms(2) show ?thesis by (force simp: breaker_inv_def)
next
  case (2 b)
  with breaker_inv_begin[OF assms(2) 2(2)] assms(2) show ?thesis
    by (auto simp: breaker_inv_def)
next
  case (3 kind b)
  with breaker_inv_begin[OF assms(2) 3(2)] assms(2) show ?thesis
    by (cases kind) (auto simp: breaker_inv_def)
next
  case (4 kind ok)
  let ?b = "sys_breaker s"
  have probe: "count (sys_calls s - {#kind#}) Probe =
      (if half_open_probe_in_flight (finish_call opts (sys_now s) ok kind ?b) then 1 else 0)"
    using 4(2) assms(2) by (cases kind) (auto simp: breaker_inv_def breaker_defs split: if_splits)
  have "current_state (finish_call opts (sys_now s) ok kind ?b) = CLOSED \<longrightarrow>
      consecutive_failures (finish_call opts (sys_now s) ok kind ?b) < failure_threshold opts"
    using assms(2,3) by (cases kind) (auto simp: breaker_inv_def breaker_defs)
  moreover have "current_state (finish_call opts (sys_now s) ok kind ?b) \<noteq> CLOSED \<longrightarrow>
      (\<exists>t \<le> sys_now s. opened_at (finish_call opts (sys_now s) ok kind ?b) = Some t)"
    using assms(2) by (cases kind) (auto simp: breaker_inv_def breaker_defs)
  ultimately show ?thesis using probe 4(1) by (simp add: breaker_inv_def)
qed

lemma breaker_reachable_inv:
  assumes "breaker_reachable opts s" and "0 < failure_threshold opts"
  shows "breaker_inv opts s"
proof -
  from assms(1) obtain t where "(breaker_step opts)\<^sup>*\<^sup>* (breaker_start t) s"
    by (auto simp: breaker_reachable_def)
  then show ?thesis
    by (induction rule: rtranclp_induct) (auto intro: breaker_inv_start breaker_inv_step assms(2))
qed

subsection \<open>Properties\<close>

text \<open>
  C18. However calls start, finish and interleave with the clock, at most one probe is in flight
  at any time; a closed breaker has counted fewer failures than its threshold; and one that is
  not closed knows when it opened, so it cannot stay open for ever.
\<close>

theorem breaker_single_probe:
  assumes "breaker_reachable opts s" and "0 < failure_threshold opts"
  shows "count (sys_calls s) Probe \<le> 1 \<and>
    (current_state (sys_breaker s) = CLOSED \<longrightarrow>
       consecutive_failures (sys_breaker s) < failure_threshold opts) \<and>
    (current_state (sys_breaker s) \<noteq> CLOSED \<longrightarrow> (\<exists>t \<le> sys_now s. opened_at (sys_breaker s) = Some t))"
  using breaker_reachable_inv[OF assms] by (simp add: breaker_inv_def)

theorem breaker_single_probe_witness:
  "breaker_reachable default_breaker_options (breaker_start 7) \<and>
   count (sys_calls (breaker_start 7)) Probe \<le> 1"
proof -
  have "breaker_reachable default_breaker_options (breaker_start 7)"
    by (auto simp: breaker_reachable_def)
  with breaker_single_probe[of default_breaker_options "breaker_start 7"] show ?thesis
    by (simp add: default_breaker_options_def BREAKER_FAILURE_THRESHOLD_def)
qed

text \<open>
  The life of an outage, call by call: a closed breaker survives fewer consecutive failures
  than the threshold and opens on the one that reaches it; while it is open every call is refused
  without running the operation; once \<open>openMs\<close> has passed exactly one call is let through, whose
  success closes the breaker with a clean count and whose failure opens it for a full \<open>openMs\<close> again.
\<close>

lemma breaker_outage_cycle:
  assumes "0 < failure_threshold opts"
  shows "(\<forall>n now. n < failure_threshold opts \<longrightarrow>
      ((\<lambda>b. finish_call opts now False Ordinary (snd (begin_call opts now b))) ^^ n) new_breaker =
        new_breaker\<lparr>consecutive_failures := n\<rparr>) \<and>
    (\<forall>now b. current_state b = CLOSED \<and> Suc (consecutive_failures b) = failure_threshold opts \<longrightarrow>
      finish_call opts now False Ordinary b =
        b\<lparr>consecutive_failures := failure_threshold opts, opened_at := Some now, current_state := OPEN\<rparr>) \<and>
    (\<forall>now t b. current_state b = OPEN \<and> opened_at b = Some t \<and> now - t < open_ms opts \<longrightarrow>
      begin_call opts now b = (None, b)) \<and>
    (\<forall>now t b. current_state b = OPEN \<and> opened_at b = Some t \<and> open_ms opts \<le> now - t \<and>
        \<not> half_open_probe_in_flight b \<longrightarrow>
      (\<exists>b1. begin_call opts now b = (Some Probe, b1) \<and> fst (begin_call opts now b1) = None \<and>
        finish_call opts now' True Probe b1 = b\<lparr>current_state := CLOSED, consecutive_failures := 0\<rparr> \<and>
        finish_call opts now' False Probe b1 = b\<lparr>opened_at := Some now'\<rparr>))"
proof (intro conjI allI impI)
  fix n now
  show "n < failure_threshold opts \<Longrightarrow>
      ((\<lambda>b. finish_call opts now False Ordinary (snd (begin_call opts now b))) ^^ n) new_breaker =
        new_breaker\<lparr>consecutive_failures := n\<rparr>"
  proof (induction n)
    case 0
    then show ?case by (simp add: new_breaker_def)
  next
    case (Suc n)
    then show ?case by (simp add: new_breaker_def breaker_defs)
  qed
next
  fix now :: int and b :: breaker
  assume "current_state b = CLOSED \<and> Suc (consecutive_failures b) = failure_threshold opts"
  then show "finish_call opts now False Ordinary b =
      b\<lparr>consecutive_failures := failure_threshold opts, opened_at := Some now, current_state := OPEN\<rparr>"
    by (simp add: breaker_defs)
next
  fix now t :: int and b :: breaker
  assume "current_state b = OPEN \<and> opened_at b = Some t \<and> now - t < open_ms opts"
  then show "begin_call opts now b = (None, b)" by (simp add: breaker_defs)
next
  fix now t :: int and b :: breaker
  assume b: "current_state b = OPEN \<and> opened_at b = Some t \<and> open_ms opts \<le> now - t \<and>
    \<not> half_open_probe_in_flight b"
  let ?b1 = "b\<lparr>current_state := HALF_OPEN, half_open_probe_in_flight := True\<rparr>"
  from b show "\<exists>b1. begin_call opts now b = (Some Probe, b1) \<and> fst (begin_call opts now b1) = None \<and>
      finish_call opts now' True Probe b1 = b\<lparr>current_state := CLOSED, consecutive_failures := 0\<rparr> \<and>
      finish_call opts now' False Probe b1 = b\<lparr>opened_at := Some now'\<rparr>"
    by (intro exI[of _ ?b1]) (cases b, simp add: breaker_defs)
qed

end
