(* ===== verification/Retry.thy ===== *)
theory Retry
  imports Domain_Types
begin

section \<open>Retry with full jitter\<close>

text \<open>
  \<^verbatim>\<open>src/infrastructure/http/retry.ts\<close>. An operation is a function from a state (the clock, the
  breaker, the provider) to an outcome and the new state; \<open>sleep n\<close> is the wait after the failed
  attempt \<open>n\<close>. The locale \<open>timed_retry\<close> states what bounds the time of a whole retry loop; the
  HTTP adapters interpret it.
\<close>

definition MAX_ATTEMPTS :: nat where
  "MAX_ATTEMPTS = 3"

definition BACKOFF_BASE_MS :: int where
  "BACKOFF_BASE_MS = 200"

text \<open>\<open>random\<close> is the result of \<open>Math.random()\<close>, a number in [0, 1).\<close>

definition full_jitter_delay_ms :: "rat \<Rightarrow> nat \<Rightarrow> int \<Rightarrow> rat" where
  "full_jitter_delay_ms random failed_attempt base = random * (of_int base * 2 ^ (failed_attempt - 1))"

function with_retry_from ::
  "('s \<Rightarrow> ('e + 'a) \<times> 's) \<Rightarrow> ('e + 'a \<Rightarrow> bool) \<Rightarrow> (nat \<Rightarrow> 's \<Rightarrow> 's) \<Rightarrow> 'e \<Rightarrow> nat \<Rightarrow> nat \<Rightarrow> 's \<Rightarrow>
   ('e + 'a) \<times> 's" where
  "with_retry_from operation is_transient sleep no_attempt max_attempts attempt s =
    (if attempt \<le> max_attempts then
       (case operation s of (outcome, s') \<Rightarrow>
          if attempt = max_attempts \<or> \<not> is_transient outcome then (outcome, s')
          else with_retry_from operation is_transient sleep no_attempt max_attempts (Suc attempt)
                 (sleep attempt s'))
     else (Inl no_attempt, s))"
  by pat_completeness auto
termination
  by (relation "measure (\<lambda>(_, _, _, _, m, k, _). Suc m - k)") auto

declare with_retry_from.simps [simp del]

definition with_retry ::
  "('s \<Rightarrow> ('e + 'a) \<times> 's) \<Rightarrow> ('e + 'a \<Rightarrow> bool) \<Rightarrow> (nat \<Rightarrow> 's \<Rightarrow> 's) \<Rightarrow> 'e \<Rightarrow> nat \<Rightarrow> 's \<Rightarrow> ('e + 'a) \<times> 's" where
  "with_retry operation is_transient sleep no_attempt max_attempts s =
     with_retry_from operation is_transient sleep no_attempt max_attempts 1 s"

subsection \<open>The attempts a loop makes\<close>

text \<open>The state in which attempt \<open>k + 1\<close> starts, if the loop gets that far.\<close>

fun retry_state :: "('s \<Rightarrow> ('e + 'a) \<times> 's) \<Rightarrow> (nat \<Rightarrow> 's \<Rightarrow> 's) \<Rightarrow> nat \<Rightarrow> nat \<Rightarrow> 's \<Rightarrow> 's" where
  "retry_state operation sleep first 0 s = s"
| "retry_state operation sleep first (Suc k) s =
     retry_state operation sleep (Suc first) k (sleep first (snd (operation s)))"

lemma with_retry_from_attempts:
  assumes "attempt \<le> max_attempts"
  shows "\<exists>k \<le> max_attempts - attempt.
    with_retry_from operation is_transient sleep no_attempt max_attempts attempt s =
      operation (retry_state operation sleep attempt k s) \<and>
    (\<forall>j < k. is_transient (fst (operation (retry_state operation sleep attempt j s)))) \<and>
    (k = max_attempts - attempt \<or> \<not> is_transient (fst (operation (retry_state operation sleep attempt k s))))"
  using assms
proof (induction operation is_transient sleep no_attempt max_attempts attempt s rule: with_retry_from.induct)
  case (1 operation is_transient sleep no_attempt max_attempts attempt s)
  obtain outcome s' where op: "operation s = (outcome, s')" by fastforce
  show ?case
  proof (cases "attempt = max_attempts \<or> \<not> is_transient outcome")
    case True
    then show ?thesis
      using op 1(2) by (intro exI[of _ 0]) (auto simp: with_retry_from.simps)
  next
    case False
    with 1(2) have le: "Suc attempt \<le> max_attempts" by simp
    from 1(1)[OF 1(2) op[symmetric] False le] obtain k where k:
      "k \<le> max_attempts - Suc attempt"
      "with_retry_from operation is_transient sleep no_attempt max_attempts (Suc attempt) (sleep attempt s') =
        operation (retry_state operation sleep (Suc attempt) k (sleep attempt s'))"
      "\<forall>j < k. is_transient (fst (operation (retry_state operation sleep (Suc attempt) j (sleep attempt s'))))"
      "k = max_attempts - Suc attempt \<or>
        \<not> is_transient (fst (operation (retry_state operation sleep (Suc attempt) k (sleep attempt s'))))"
      by blast
    have "\<forall>j < Suc k. is_transient (fst (operation (retry_state operation sleep attempt j s)))"
      using k(3) op False by (auto simp: less_Suc_eq_0_disj)
    then show ?thesis
      using k op False le by (intro exI[of _ "Suc k"]) (auto simp: with_retry_from.simps)
  qed
qed

subsection \<open>How long a loop can take\<close>

locale timed_retry =
  fixes operation :: "'s \<Rightarrow> ('e + 'a) \<times> 's"
    and sleep :: "nat \<Rightarrow> 's \<Rightarrow> 's"
    and clock :: "'s \<Rightarrow> rat"
    and attempt_ms :: rat
    and base_ms :: rat
  assumes operation_time: "clock (snd (operation s)) \<le> clock s + attempt_ms"
    and sleep_time: "clock (sleep n s) \<le> clock s + base_ms * 2 ^ (n - 1)"
    and bounds_nonneg: "0 \<le> attempt_ms" "0 \<le> base_ms"
begin

lemma retry_state_time:
  assumes "0 < first"
  shows "clock (retry_state operation sleep first k s) \<le>
    clock s + of_nat k * attempt_ms + base_ms * 2 ^ (first - 1) * (2 ^ k - 1)"
  using assms
proof (induction k arbitrary: first s)
  case 0
  then show ?case by simp
next
  case (Suc k)
  let ?s = "sleep first (snd (operation s))"
  have "clock ?s \<le> clock s + attempt_ms + base_ms * 2 ^ (first - 1)"
    using operation_time[of s] sleep_time[of first "snd (operation s)"] by linarith
  moreover from Suc.IH[of "Suc first" ?s] have
    "clock (retry_state operation sleep (Suc first) k ?s) \<le>
      clock ?s + of_nat k * attempt_ms + base_ms * 2 ^ first * (2 ^ k - 1)" by simp
  moreover have "(2::rat) ^ first = 2 * 2 ^ (first - 1)"
    using Suc.prems by (cases first) simp_all
  ultimately show ?case by (simp add: algebra_simps)
qed

lemma with_retry_time:
  assumes "0 < max_attempts"
  shows "clock (snd (with_retry operation is_transient sleep no_attempt max_attempts s)) \<le>
    clock s + of_nat max_attempts * attempt_ms + base_ms * (2 ^ (max_attempts - 1) - 1)"
proof -
  from assms have "1 \<le> max_attempts" by simp
  from with_retry_from_attempts[OF this, of operation is_transient sleep no_attempt s]
  obtain k where k: "k \<le> max_attempts - 1"
    "with_retry operation is_transient sleep no_attempt max_attempts s =
      operation (retry_state operation sleep 1 k s)"
    by (auto simp: with_retry_def)
  have "clock (snd (operation (retry_state operation sleep 1 k s))) \<le>
      clock s + of_nat (Suc k) * attempt_ms + base_ms * (2 ^ k - 1)"
    using operation_time[of "retry_state operation sleep 1 k s"] retry_state_time[of 1 k s]
    by (simp add: algebra_simps)
  also have "\<dots> \<le> clock s + of_nat max_attempts * attempt_ms + base_ms * (2 ^ (max_attempts - 1) - 1)"
  proof -
    have "Suc k \<le> max_attempts" using k(1) assms by simp
    then have "(of_nat (Suc k) :: rat) \<le> of_nat max_attempts" by (simp only: of_nat_le_iff)
    then have "of_nat (Suc k) * attempt_ms \<le> of_nat max_attempts * attempt_ms"
      using bounds_nonneg(1) by (intro mult_right_mono)
    moreover have "(2::rat) ^ k \<le> 2 ^ (max_attempts - 1)" using k(1) by (intro power_increasing) simp_all
    then have "base_ms * (2 ^ k - 1) \<le> base_ms * (2 ^ (max_attempts - 1) - 1)"
      using bounds_nonneg(2) by (intro mult_left_mono) simp_all
    ultimately show ?thesis by linarith
  qed
  finally show ?thesis by (simp add: k(2))
qed

end

text \<open>The jitter stays below its cap, which is the \<open>sleep_time\<close> of an adapter.\<close>

lemma full_jitter_bounds:
  assumes "0 \<le> random" and "random < 1" and "0 \<le> base"
  shows "0 \<le> full_jitter_delay_ms random n base"
    and "full_jitter_delay_ms random n base \<le> of_int base * 2 ^ (n - 1)"
proof -
  have cap: "(0::rat) \<le> of_int base * 2 ^ (n - 1)" using assms(3) by simp
  then show "0 \<le> full_jitter_delay_ms random n base"
    using assms(1) by (simp add: full_jitter_delay_ms_def)
  show "full_jitter_delay_ms random n base \<le> of_int base * 2 ^ (n - 1)"
    using mult_right_mono[OF less_imp_le[OF assms(2)] cap] by (simp add: full_jitter_delay_ms_def)
qed

text \<open>
  C20. \<open>withRetry\<close> makes between one and \<open>maxAttempts\<close> attempts and surfaces exactly the outcome
  of the last one it made: every earlier attempt was transient, and it stops early only because
  an outcome was not.
\<close>

theorem with_retry_surfaces_last_attempt:
  assumes "1 \<le> max_attempts"
  shows "\<exists>k < max_attempts.
    with_retry operation is_transient sleep no_attempt max_attempts s =
      operation (retry_state operation sleep 1 k s) \<and>
    (\<forall>j < k. is_transient (fst (operation (retry_state operation sleep 1 j s)))) \<and>
    (k = max_attempts - 1 \<or> \<not> is_transient (fst (operation (retry_state operation sleep 1 k s))))"
proof -
  from with_retry_from_attempts[OF assms, of operation is_transient sleep no_attempt s]
  obtain k where k: "k \<le> max_attempts - 1"
    "with_retry operation is_transient sleep no_attempt max_attempts s =
      operation (retry_state operation sleep 1 k s)"
    "\<forall>j < k. is_transient (fst (operation (retry_state operation sleep 1 j s)))"
    "k = max_attempts - 1 \<or> \<not> is_transient (fst (operation (retry_state operation sleep 1 k s)))"
    by (auto simp: with_retry_def)
  with assms show ?thesis by (intro exI[of _ k]) auto
qed

definition fails_twice :: "nat \<Rightarrow> (string + nat) \<times> nat" where
  "fails_twice n = (if n < 2 then (Inl ''timeout'', Suc n) else (Inr n, Suc n))"

lemma retry_state_fails_twice: "retry_state fails_twice (\<lambda>n s. s) i k n = n + k"
  by (induction k arbitrary: i n) (simp_all add: fails_twice_def)

theorem with_retry_surfaces_last_attempt_witness:
  "\<exists>k < 3. with_retry fails_twice (\<lambda>x. x = Inl ''timeout'') (\<lambda>n s. s) [] 3 0 = fails_twice k \<and> k = 2"
proof -
  obtain k where k: "k < 3"
    "with_retry fails_twice (\<lambda>x. x = Inl ''timeout'') (\<lambda>n s. s) [] 3 0 = fails_twice k"
    "k = 2 \<or> fst (fails_twice k) \<noteq> Inl ''timeout''"
    using with_retry_surfaces_last_attempt[of 3 fails_twice "\<lambda>x. x = Inl ''timeout''" "\<lambda>n s. s" "[]" 0,
        unfolded retry_state_fails_twice] by auto
  from k(1,3) have "k = 2" by (auto simp: fails_twice_def split: if_splits)
  with k show ?thesis by blast
qed

end
