(* ===== verification/Http_Client.thy ===== *)
theory Http_Client
  imports Circuit_Breaker Retry Ports
begin

section \<open>One guarded HTTP call\<close>

text \<open>
  What the two adapters that call \<open>fetch\<close> share: \<^verbatim>\<open>src/infrastructure/http/fetch-errors.ts\<close>, the
  per-attempt timeout, and the retry loop around the breaker. The remote side is the argument
  \<open>fetch\<close>, a function from the time, the request and the remote state to what comes back, how many
  milliseconds that takes and the new remote state; the remote state moves on even when the answer
  arrives too late to be read.
\<close>

record http_request =
  rq_method :: string
  rq_path :: string
  rq_key :: "string option" \<comment> \<open>the \<open>Idempotency-Key\<close> header\<close>
  rq_body :: "json option"

text \<open>What \<open>fetch\<close> rejects with, as far as the classifier looks at it.\<close>

record thrown =
  thrown_name :: "string option"
  thrown_cause_code :: "string option"

text \<open>
  A failure after some time, or a response: when its headers arrive, its status, when its body is
  complete (counted from the start of the request) and the body, \<open>None\<close> if it is not JSON.
\<close>

datatype net_event =
  NetFailed nat thrown
| NetResponse nat nat nat "json option"

datatype fetch_error_kind = FetchTimeout | FetchConnectionRefused | FetchNetworkError

definition classify_fetch_error :: "thrown \<Rightarrow> fetch_error_kind" where
  "classify_fetch_error e =
    (if thrown_name e = Some ''TimeoutError'' then FetchTimeout
     else if thrown_cause_code e = Some ''ECONNREFUSED'' then FetchConnectionRefused
     else FetchNetworkError)"

text \<open>What \<open>AbortSignal.timeout\<close> makes \<open>fetch\<close> reject with.\<close>

definition timeout_error :: thrown where
  "timeout_error = \<lparr>thrown_name = Some ''TimeoutError'', thrown_cause_code = None\<rparr>"

record 'p net =
  net_clock :: rat
  net_breaker :: breaker
  net_remote :: 'p

definition net_now :: "'p net \<Rightarrow> int" where
  "net_now s = \<lfloor>net_clock s\<rfloor>"

type_synonym 'p fetch = "int \<Rightarrow> http_request \<Rightarrow> 'p \<Rightarrow> net_event \<times> 'p"

definition elapse :: "nat \<Rightarrow> 'p net \<Rightarrow> 'p net" where
  "elapse ms s = s\<lparr>net_clock := net_clock s + of_nat ms\<rparr>"

text \<open>\<open>fetch\<close> under \<open>AbortSignal.timeout\<close>: status, and the body if it is complete in time.\<close>

definition fetch_with_timeout ::
  "nat \<Rightarrow> 'p fetch \<Rightarrow> http_request \<Rightarrow> 'p net \<Rightarrow> (thrown + (nat \<times> nat \<times> nat \<times> json option)) \<times> 'p net" where
  "fetch_with_timeout timeout_ms fetch req s0 =
    (let (event, remote) = fetch (net_now s0) req (net_remote s0); s = s0\<lparr>net_remote := remote\<rparr> in
     case event of
       NetFailed ms e \<Rightarrow>
         if ms < timeout_ms then (Inl e, elapse ms s) else (Inl timeout_error, elapse timeout_ms s)
     | NetResponse ms status body_ms body \<Rightarrow>
         if ms < timeout_ms then (Inr (ms, status, body_ms, body), elapse ms s)
         else (Inl timeout_error, elapse timeout_ms s))"

text \<open>\<open>response.json().catch(() => null)\<close>, whose read the same signal aborts.\<close>

definition read_body :: "nat \<Rightarrow> nat \<Rightarrow> nat \<Rightarrow> json option \<Rightarrow> 'p net \<Rightarrow> json option \<times> 'p net" where
  "read_body timeout_ms ms body_ms body s =
    (if body_ms < timeout_ms then (body, elapse (body_ms - ms) s) else (None, elapse (timeout_ms - ms) s))"

text \<open>The breaker inside the retry loop: every attempt is counted by the breaker.\<close>

definition guarded ::
  "breaker_options \<Rightarrow> 'e \<Rightarrow> ('p net \<Rightarrow> ('e + 'a) \<times> 'p net) \<Rightarrow> 'p net \<Rightarrow> ('e + 'a) \<times> 'p net" where
  "guarded opts circuit_open operation s =
    (case execute opts net_now circuit_open operation (net_breaker s) s of
       (outcome, b, s') \<Rightarrow> (outcome, s'\<lparr>net_breaker := b\<rparr>))"

text \<open>
  \<open>Math.random()\<close> is any number in [0, 1): the fractional part of an arbitrary \<open>draw\<close>, which may
  depend on the time and the attempt.
\<close>

definition sleep :: "(rat \<Rightarrow> nat \<Rightarrow> rat) \<Rightarrow> int \<Rightarrow> nat \<Rightarrow> 'p net \<Rightarrow> 'p net" where
  "sleep draw base n s = s\<lparr>net_clock := net_clock s + full_jitter_delay_ms (frac (draw (net_clock s) n)) n base\<rparr>"

subsection \<open>Time\<close>

lemma elapse_sel [simp]:
  "net_clock (elapse ms s) = net_clock s + of_nat ms"
  "net_breaker (elapse ms s) = net_breaker s" "net_remote (elapse ms s) = net_remote s"
  by (simp_all add: elapse_def)

lemma fetch_with_timeout_time:
  assumes "fetch_with_timeout timeout_ms fetch req s = (r, s')"
  shows "net_clock s' \<le> net_clock s + of_nat timeout_ms"
    and "r = Inr (ms, rest) \<Longrightarrow> ms < timeout_ms \<and> net_clock s' = net_clock s + of_nat ms"
  using assms by (auto simp: fetch_with_timeout_def Let_def split: prod.splits net_event.splits if_splits)

lemma read_body_time:
  assumes "read_body timeout_ms ms body_ms body s = (b, s')" and "ms < timeout_ms"
  shows "net_clock s' \<le> net_clock s + of_nat (timeout_ms - ms)"
  using assms by (auto simp: read_body_def split: if_splits)

lemma guarded_time:
  assumes "\<And>s. net_clock (snd (operation s)) \<le> net_clock s + T" and "0 \<le> T"
  shows "net_clock (snd (guarded opts e operation s)) \<le> net_clock s + T"
  using assms(1)[of s] assms(2)
  by (auto simp: guarded_def execute_def split: prod.splits option.splits)

lemma sleep_time:
  assumes "0 \<le> base"
  shows "net_clock (sleep draw base n s) \<le> net_clock s + of_int base * 2 ^ (n - 1)"
  using full_jitter_bounds(2)[OF frac_ge_0 frac_lt_1 assms, of "draw (net_clock s) n" n]
  by (simp add: sleep_def)

end
