(* ===== verification/Redaction.thy ===== *)
theory Redaction
  imports Ports
begin

section \<open>Redaction of logs and provider responses\<close>

text \<open>
  \<^verbatim>\<open>src/infrastructure/http/redaction.ts\<close> on JSON values. The two regular expressions are
  written as the backtracking matchers they denote. JSON has no cycles, dates or errors, so those
  branches of \<open>redactValue\<close> have nothing to act on, except that \<open>redact_error\<close> models the record
  an \<open>Error\<close> becomes. Assigning to the key \<open>__proto__\<close> of the clone creates no property, so such a
  key disappears.
\<close>

subsection \<open>Characters\<close>

definition code :: "char \<Rightarrow> nat" where
  "code c = of_char c"

definition to_lower :: "char \<Rightarrow> char" where
  "to_lower c = (if 65 \<le> code c \<and> code c \<le> 90 then char_of (code c + 32) else c)"

definition is_separator :: "char \<Rightarrow> bool" where
  "is_separator c \<longleftrightarrow> c = CHR '' '' \<or> c = CHR ''-''"

subsection \<open>Card numbers in text\<close>

text \<open>\<open>\<bar>(?:\d[ -]?){mn,mx}\d\<bar>\<close> at the start of a text, greedy with backtracking: the match and the rest.\<close>

definition one_digit :: "string \<Rightarrow> (string \<times> string) option" where
  "one_digit s = (case s of [] \<Rightarrow> None | d # r \<Rightarrow> if is_digit d then Some ([d], r) else None)"

definition or_else :: "'a option \<Rightarrow> 'a option \<Rightarrow> 'a option" where
  "or_else a b = (case a of None \<Rightarrow> b | Some x \<Rightarrow> Some x)"

definition prepend :: "string \<Rightarrow> (string \<times> string) option \<Rightarrow> (string \<times> string) option" where
  "prepend p m = map_option (\<lambda>(s, r). (p @ s, r)) m"

fun card_at :: "nat \<Rightarrow> nat \<Rightarrow> string \<Rightarrow> (string \<times> string) option" where
  "card_at mn 0 s = (if mn = 0 then one_digit s else None)"
| "card_at mn (Suc mx) s = or_else
     (case s of
        [] \<Rightarrow> None
      | d # r \<Rightarrow>
          if \<not> is_digit d then None
          else or_else
            (case r of
               [] \<Rightarrow> None
             | c # r' \<Rightarrow> if is_separator c then prepend [d, c] (card_at (mn - 1) mx r') else None)
            (prepend [d] (card_at (mn - 1) mx r)))
     (if mn = 0 then one_digit s else None)"

fun luhn_sum :: "bool \<Rightarrow> nat list \<Rightarrow> nat" where
  "luhn_sum dbl [] = 0"
| "luhn_sum dbl (d # ds) =
     (let v = (if dbl then (if 2 * d > 9 then 2 * d - 9 else 2 * d) else d) in v + luhn_sum (\<not> dbl) ds)"

definition is_luhn_valid :: "string \<Rightarrow> bool" where
  "is_luhn_valid digits \<longleftrightarrow> luhn_sum False (map digit_val (rev digits)) mod 10 = 0"

definition last4 :: "string \<Rightarrow> string" where
  "last4 s = drop (length s - 4) s"

definition mask_digits :: "string \<Rightarrow> string" where
  "mask_digits digits = replicate (length digits - length (last4 digits)) CHR ''*'' @ last4 digits"

definition mask_card_value :: "string \<Rightarrow> string" where
  "mask_card_value raw =
    (let digits = filter is_digit raw in if length digits = 0 then raw else mask_digits digits)"

definition mask_match :: "string \<Rightarrow> string" where
  "mask_match m =
    (let digits = filter is_digit m in
     if length digits < 13 \<or> length digits > 19 \<or> \<not> is_luhn_valid digits then m else mask_digits digits)"

lemma or_else_Some: "or_else a b = Some x \<Longrightarrow> a = Some x \<or> b = Some x"
  by (auto simp: or_else_def split: option.splits)

lemma card_at_split: "card_at mn mx s = Some (m, r) \<Longrightarrow> s = m @ r \<and> m \<noteq> []"
proof (induction mn mx s arbitrary: m r rule: card_at.induct)
  case (1 mn s)
  then show ?case by (auto simp: one_digit_def split: if_splits list.splits)
next
  case (2 mn mx s)
  show ?case
  proof (cases s)
    case Nil
    with 2(3) show ?thesis by (simp add: or_else_def one_digit_def split: if_splits)
  next
    case (Cons d rs)
    let ?sep = "case rs of [] \<Rightarrow> None
       | c # r' \<Rightarrow> if is_separator c then prepend [d, c] (card_at (mn - 1) mx r') else None"
    let ?plain = "prepend [d] (card_at (mn - 1) mx rs)"
    from 2(3) Cons consider "is_digit d" "?sep = Some (m, r)" | "is_digit d" "?plain = Some (m, r)"
      | "one_digit s = Some (m, r)"
      by (auto dest!: or_else_Some split: if_splits)
    then show ?thesis
    proof cases
      case 1
      then obtain c r' where "rs = c # r'" "is_separator c" "prepend [d, c] (card_at (mn - 1) mx r') = Some (m, r)"
        by (auto split: list.splits if_splits)
      with 1(1) 2(1) Cons show ?thesis by (auto simp: prepend_def)
    next
      case 2
      with \<open>is_digit d\<close> "2.IH"(2) Cons show ?thesis by (auto simp: prepend_def)
    next
      case 3
      with Cons show ?thesis by (auto simp: one_digit_def split: if_splits)
    qed
  qed
qed

lemma card_at_shorter: "card_at mn mx s = Some (m, r) \<Longrightarrow> length r < length s"
  using card_at_split[of mn mx s m r] by auto

function replace_cards :: "string \<Rightarrow> string" where
  "replace_cards s =
    (case s of
       [] \<Rightarrow> []
     | c # cs \<Rightarrow>
         (case card_at 12 18 s of
            None \<Rightarrow> c # replace_cards cs
          | Some (m, r) \<Rightarrow> mask_match m @ replace_cards r))"
  by pat_completeness auto
termination
  by (relation "measure length") (auto dest: card_at_shorter simp del: card_at.simps)

declare replace_cards.simps [simp del]

subsection \<open>API keys in query strings\<close>

text \<open>A literal, letters compared without case; then the optional underscore of \<open>api_?key\<close>.\<close>

fun take_prefix :: "string \<Rightarrow> string \<Rightarrow> (string \<times> string) option" where
  "take_prefix [] s = Some ([], s)"
| "take_prefix (p # ps) [] = None"
| "take_prefix (p # ps) (c # cs) = (if to_lower c = p then prepend [c] (take_prefix ps cs) else None)"

definition api_key_name :: "string \<Rightarrow> (string \<times> string) option" where
  "api_key_name s = or_else (take_prefix ''api_key'' s) (take_prefix ''apikey'' s)"

definition api_key_at :: "string \<Rightarrow> (string \<times> string) option" where
  "api_key_at s = (case s of
     [] \<Rightarrow> None
   | c # cs \<Rightarrow> if c = CHR ''?'' \<or> c = CHR ''&'' then
       (case or_else (take_prefix ''api_key='' cs) (take_prefix ''apikey='' cs) of
          None \<Rightarrow> None
        | Some (name, r) \<Rightarrow>
            if takeWhile (\<lambda>c. c \<noteq> CHR ''&'' \<and> \<not> is_js_space c) r = [] then None
            else Some (c # name, dropWhile (\<lambda>c. c \<noteq> CHR ''&'' \<and> \<not> is_js_space c) r))
       else None)"

lemma take_prefix_split: "take_prefix p s = Some (m, r) \<Longrightarrow> s = m @ r"
  by (induction p s arbitrary: m rule: take_prefix.induct) (auto simp: prepend_def split: if_splits)

lemma api_key_at_shorter: "api_key_at s = Some (m, r) \<Longrightarrow> length r < length s"
proof -
  assume a: "api_key_at s = Some (m, r)"
  then obtain c cs name q where s: "s = c # cs"
    "or_else (take_prefix ''api_key='' cs) (take_prefix ''apikey='' cs) = Some (name, q)"
    "r = dropWhile (\<lambda>c. c \<noteq> CHR ''&'' \<and> \<not> is_js_space c) q"
    by (auto simp: api_key_at_def split: list.splits if_splits option.splits)
  from or_else_Some[OF s(2)] have "cs = name @ q" by (auto dest: take_prefix_split)
  moreover have "length r \<le> length q" by (simp add: s(3) length_dropWhile_le)
  ultimately show ?thesis by (simp add: s(1))
qed

definition REDACTED_SECRET :: string where
  "REDACTED_SECRET = ''[REDACTED]''"

function replace_api_keys :: "string \<Rightarrow> string" where
  "replace_api_keys s =
    (case s of
       [] \<Rightarrow> []
     | c # cs \<Rightarrow>
         (case api_key_at s of
            None \<Rightarrow> c # replace_api_keys cs
          | Some (m, r) \<Rightarrow> m @ REDACTED_SECRET @ replace_api_keys r))"
  by pat_completeness auto
termination
  by (relation "measure length") (auto dest: api_key_at_shorter)

declare replace_api_keys.simps [simp del]

definition redact_string :: "string \<Rightarrow> string" where
  "redact_string s = replace_api_keys (replace_cards s)"

subsection \<open>Values\<close>

definition is_masked_key :: "string \<Rightarrow> bool" where
  "is_masked_key k \<longleftrightarrow> map to_lower k \<in> {''cardnumber'', ''card_number'', ''pan''}"

definition is_redacted_key :: "string \<Rightarrow> bool" where
  "is_redacted_key k \<longleftrightarrow> map to_lower k \<in> {''apikey'', ''api_key''}"

fun redact :: "json \<Rightarrow> json" and redact_field :: "string \<Rightarrow> json \<Rightarrow> json" where
  "redact (JStr s) = JStr (redact_string s)"
| "redact (JArr xs) = JArr (map redact xs)"
| "redact (JObj kvs) = JObj (map (\<lambda>(k, v). (k, redact_field k v)) (filter (\<lambda>(k, v). k \<noteq> ''__proto__'') kvs))"
| "redact v = v"
| "redact_field k v =
    (if is_redacted_key k then JStr REDACTED_SECRET
     else case v of
       JStr s \<Rightarrow> if is_masked_key k then JStr (mask_card_value s) else redact v
     | _ \<Rightarrow> redact v)"

text \<open>\<open>redactError\<close>: name, message and stack first, then the enumerable fields.\<close>

definition redact_error :: "string \<Rightarrow> string \<Rightarrow> string option \<Rightarrow> (string \<times> json) list \<Rightarrow> (string \<times> json) list" where
  "redact_error name message stack own =
     [(''name'', JStr name), (''message'', JStr (redact_string message))] @
     (case stack of None \<Rightarrow> [] | Some t \<Rightarrow> [(''stack'', JStr (redact_string t))]) @
     map (\<lambda>(k, v). (k, redact v)) (filter (\<lambda>(k, v). k \<noteq> ''__proto__'') own)"

subsection \<open>What redaction hides\<close>

definition digits_shown :: "string \<Rightarrow> nat" where
  "digits_shown s = length (filter is_digit s)"

text \<open>No object at any depth shows a secret, or more than four digits of a card number, under its key.\<close>

fun fields_hidden :: "json \<Rightarrow> bool" and field_hidden :: "string \<Rightarrow> json \<Rightarrow> bool" where
  "fields_hidden (JArr xs) \<longleftrightarrow> (\<forall>x \<in> set xs. fields_hidden x)"
| "fields_hidden (JObj kvs) \<longleftrightarrow> (\<forall>kv \<in> set kvs. field_hidden (fst kv) (snd kv))"
| "fields_hidden v \<longleftrightarrow> True"
| "field_hidden k v \<longleftrightarrow> (is_redacted_key k \<longrightarrow> v = JStr ''[REDACTED]'') \<and>
     (case v of JStr s \<Rightarrow> (is_masked_key k \<longrightarrow> digits_shown s \<le> 4) | _ \<Rightarrow> True) \<and> fields_hidden v"

lemma filter_digit_replicate_star [simp]: "filter is_digit (replicate n CHR ''*'') = []"
  by (induction n) (simp_all add: is_digit_def)

lemma digits_shown_mask: "digits_shown (mask_digits ds) \<le> 4"
proof -
  have "length (filter is_digit (last4 ds)) \<le> length (last4 ds)" by (rule length_filter_le)
  also have "\<dots> \<le> 4" by (simp add: last4_def)
  finally show ?thesis by (simp add: digits_shown_def mask_digits_def)
qed

lemma digits_shown_card_value: "digits_shown (mask_card_value s) \<le> 4"
  by (auto simp: mask_card_value_def Let_def digits_shown_mask) (simp add: digits_shown_def)

lemma keys_disjoint: "is_redacted_key k \<Longrightarrow> \<not> is_masked_key k"
  by (auto simp: is_redacted_key_def is_masked_key_def)

lemma redact_hidden: "fields_hidden (redact v)" "field_hidden k (redact_field k w)"
proof (induction v and k w rule: redact_redact_field.induct)
  case (3 kvs)
  then show ?case by (auto simp del: redact_field.simps field_hidden.simps)
next
  case (5 k v)
  show ?case
  proof (cases "is_redacted_key k")
    case True
    then show ?thesis using keys_disjoint[OF True] by (simp add: REDACTED_SECRET_def)
  next
    case False
    with 5 show ?thesis
      using digits_shown_card_value by (cases v) (auto split: json.splits)
  qed
qed auto

text \<open>A card number on its own, digits only.\<close>

lemma card_at_all_digits:
  "\<forall>c \<in> set s. is_digit c \<Longrightarrow> mn < length s \<Longrightarrow> length s \<le> Suc mx \<Longrightarrow> card_at mn mx s = Some (s, [])"
proof (induction mx arbitrary: mn s)
  case 0
  then obtain d where "s = [d]" by (cases s) auto
  with 0 show ?case by (simp add: one_digit_def)
next
  case (Suc mx)
  then obtain d rs where s: "s = d # rs" by (cases s) auto
  have sep: "\<not> is_separator c" if "c \<in> set rs" for c
    using that Suc.prems(1) s by (auto simp: is_separator_def is_digit_def)
  show ?case
  proof (cases rs)
    case Nil
    with Suc.prems s have "mn = 0" by simp
    have "card_at m x [] = None" for m x
      by (cases x) (simp_all add: or_else_def one_digit_def)
    with Nil s Suc.prems \<open>mn = 0\<close> show ?thesis
      by (simp add: or_else_def prepend_def one_digit_def)
  next
    case (Cons c r)
    have "card_at (mn - 1) mx rs = Some (rs, [])"
      using Suc.prems s Cons by (intro Suc.IH) auto
    with s Cons sep[of c] Suc.prems show ?thesis by (simp add: or_else_def prepend_def)
  qed
qed

lemma replace_api_keys_none: "CHR ''?'' \<notin> set s \<Longrightarrow> CHR ''&'' \<notin> set s \<Longrightarrow> replace_api_keys s = s"
proof (induction s)
  case Nil
  then show ?case by (simp add: replace_api_keys.simps)
next
  case (Cons c s)
  then have "c \<noteq> CHR ''?''" "c \<noteq> CHR ''&''" "replace_api_keys s = s" by auto
  then show ?case by (subst replace_api_keys.simps) (simp add: api_key_at_def)
qed

subsection \<open>Properties\<close>

text \<open>
  Whatever a provider sends, the copy that crosses the port or reaches a log shows, under any
  key that names an API key and at any depth, only \<open>[REDACTED]\<close>, and under any key that names a
  card number at most four digits of a text.
\<close>

lemma redact_hides_fields:
  "fields_hidden (redact v)"
  by (rule redact_hidden)

text \<open>
  A card number standing on its own in a text (13 to 19 digits with a valid check digit) is
  masked but for its last four digits.
\<close>

lemma redact_masks_card_number:
  assumes "\<forall>c \<in> set s. is_digit c" and "13 \<le> length s" and "length s \<le> 19" and "is_luhn_valid s"
  shows "redact_string s = replicate (length s - 4) CHR ''*'' @ drop (length s - 4) s"
proof -
  have card: "card_at 12 18 s = Some (s, [])"
    using assms by (intro card_at_all_digits) auto
  have "filter is_digit s = s" using assms(1) by (simp add: filter_id_conv)
  with assms have m: "mask_match s = replicate (length s - 4) CHR ''*'' @ drop (length s - 4) s"
    by (simp add: mask_match_def mask_digits_def last4_def)
  have "replace_cards s = mask_match s"
    using assms(2) card by (cases s) (simp_all add: replace_cards.simps)
  moreover have "CHR ''?'' \<notin> set (mask_match s)" "CHR ''&'' \<notin> set (mask_match s)"
    using assms(1) unfolding m by (auto dest!: in_set_dropD simp: is_digit_def)
  ultimately show ?thesis by (simp add: redact_string_def replace_api_keys_none m)
qed

text \<open>
  The masking has gaps: one digit and a space before a card number make the run of digits fail
  the check, so the number is left as it is; a card number sent as a JSON number is not a text;
  and the fields of an \<open>Error\<close> are copied without the rules on their keys.
\<close>

lemma redact_misses_adjacent_digit: "redact_string ''2 4242424242424242'' = ''2 4242424242424242''"
  by code_simp

lemma redact_misses_number: "redact (JObj [(''cardNumber'', JNum n)]) = JObj [(''cardNumber'', JNum n)]"
  by (simp add: is_redacted_key_def to_lower_def code_def)

lemma redact_error_keeps_api_key:
  "redact_error ''Error'' ''failed'' None [(''apiKey'', JStr ''s3cret'')] =
     [(''name'', JStr ''Error''), (''message'', JStr ''failed''), (''apiKey'', JStr ''s3cret'')]"
  by code_simp

end
