(* ===== verification/Payment_Gateway.thy ===== *)
theory Payment_Gateway
  imports Http_Client Redaction
begin

section \<open>The HTTP payment gateway\<close>

text \<open>
  \<^verbatim>\<open>src/infrastructure/payments/http-payment-gateway.ts\<close> and \<^verbatim>\<open>card.ts\<close>. The provider is the
  argument \<open>fetch\<close>. The locale \<open>payment_gateway\<close> is the port the saga and the jobs rely on:
  which statuses a call can return and that a call returns in bounded time; it is interpreted on
  the adapter for any provider.
\<close>

subsection \<open>Card descriptions\<close>

definition digits_of :: "string \<Rightarrow> string" where
  "digits_of pan = filter is_digit pan"

definition starts_with :: "string \<Rightarrow> string \<Rightarrow> bool" where
  "starts_with s p \<longleftrightarrow> take (length p) s = p"

definition is_mastercard :: "string \<Rightarrow> bool" where
  "is_mastercard digits \<longleftrightarrow>
     (let two = parse_digits (take 2 digits) in 51 \<le> two \<and> two \<le> 55) \<or>
     (let four = parse_digits (take 4 digits) in 2221 \<le> four \<and> four \<le> 2720)"

definition is_discover :: "string \<Rightarrow> bool" where
  "is_discover digits \<longleftrightarrow> starts_with digits ''6011'' \<or>
     (let three = parse_digits (take 3 digits) in 644 \<le> three \<and> three \<le> 649) \<or>
     starts_with digits ''65''"

definition describe_brand :: "string \<Rightarrow> string" where
  "describe_brand digits =
    (if starts_with digits ''4'' then ''visa''
     else if is_mastercard digits then ''mastercard''
     else if starts_with digits ''34'' \<or> starts_with digits ''37'' then ''amex''
     else if is_discover digits then ''discover''
     else ''unknown'')"

definition describe_card :: "string \<Rightarrow> string \<times> string" where
  "describe_card pan = (last4 (digits_of pan), describe_brand (digits_of pan))"

subsection \<open>Errors and responses\<close>

datatype gateway_error =
  GwCircuitOpen
| GwTimeout
| GwProviderError nat
| GwConnectionRefused
| GwNetworkError
| GwNoAttempt \<comment> \<open>\<open>withRetry\<close> with \<open>maxAttempts\<close> zero\<close>

fun is_retryable :: "gateway_error + 'a \<Rightarrow> bool" where
  "is_retryable (Inl GwTimeout) = True"
| "is_retryable (Inl (GwProviderError n)) = True"
| "is_retryable (Inl GwConnectionRefused) = True"
| "is_retryable (Inl GwNetworkError) = True"
| "is_retryable _ = False"

record provider_response =
  http_status :: nat
  http_body :: "(string \<times> json) list option"

record gateway_options =
  timeout_ms :: nat
  max_attempts :: nat
  base_delay_ms :: int
  breaker_opts :: breaker_options

definition ATTEMPT_TIMEOUT_MS :: nat where
  "ATTEMPT_TIMEOUT_MS = 2000"

definition default_gateway_options :: gateway_options where
  "default_gateway_options = \<lparr>timeout_ms = ATTEMPT_TIMEOUT_MS, max_attempts = MAX_ATTEMPTS,
     base_delay_ms = BACKOFF_BASE_MS, breaker_opts = default_breaker_options\<rparr>"

definition classify_network_error :: "thrown \<Rightarrow> gateway_error" where
  "classify_network_error e = (case classify_fetch_error e of
     FetchTimeout \<Rightarrow> GwTimeout
   | FetchConnectionRefused \<Rightarrow> GwConnectionRefused
   | FetchNetworkError \<Rightarrow> GwNetworkError)"

definition as_record :: "json option \<Rightarrow> (string \<times> json) list option" where
  "as_record v = (case v of Some (JObj kvs) \<Rightarrow> Some kvs | _ \<Rightarrow> None)"

text \<open>\<open>fetchAttempt\<close> followed by \<open>toProviderResponse\<close>, as \<open>postCharge\<close> and \<open>getCharge\<close> compose them.\<close>

definition provider_call ::
  "gateway_options \<Rightarrow> 'p fetch \<Rightarrow> http_request \<Rightarrow> 'p net \<Rightarrow> (gateway_error + provider_response) \<times> 'p net" where
  "provider_call opts fetch req s =
    (case fetch_with_timeout (timeout_ms opts) fetch req s of
       (Inl e, s1) \<Rightarrow> (Inl (classify_network_error e), s1)
     | (Inr (ms, status, body_ms, body), s1) \<Rightarrow>
         if 500 \<le> status then (Inl (GwProviderError status), s1)
         else (case read_body (timeout_ms opts) ms body_ms body s1 of
           (b, s2) \<Rightarrow> (Inr \<lparr>http_status = status, http_body = as_record b\<rparr>, s2)))"

definition run_attempts ::
  "gateway_options \<Rightarrow> (rat \<Rightarrow> nat \<Rightarrow> rat) \<Rightarrow> ('p net \<Rightarrow> (gateway_error + provider_response) \<times> 'p net) \<Rightarrow>
   'p net \<Rightarrow> (gateway_error + provider_response) \<times> 'p net" where
  "run_attempts opts draw operation =
     with_retry (guarded (breaker_opts opts) GwCircuitOpen operation) is_retryable
       (sleep draw (base_delay_ms opts)) GwNoAttempt (max_attempts opts)"

subsection \<open>Requests\<close>

definition charge_payload :: "charge_command \<Rightarrow> json" where
  "charge_payload c = JObj [(''cardNumber'', JStr (cmd_card_number c)),
     (''amountCents'', JNum (js_int (cmd_amount_minor c))), (''currency'', JStr (cmd_currency c)),
     (''description'', JStr (cmd_description c))]"

definition post_charge_request :: "charge_command \<Rightarrow> http_request" where
  "post_charge_request c = \<lparr>rq_method = ''POST'', rq_path = ''/charge'',
     rq_key = Some (cmd_idempotency_key c), rq_body = Some (charge_payload c)\<rparr>"

text \<open>\<open>encodeURIComponent\<close> of code units below 256, which it writes as UTF-8.\<close>

definition hex_digit :: "nat \<Rightarrow> char" where
  "hex_digit n = (if n < 10 then char_of (48 + n) else char_of (55 + n))"

definition percent :: "nat \<Rightarrow> string" where
  "percent b = [CHR ''%'', hex_digit (b div 16), hex_digit (b mod 16)]"

definition is_uri_unreserved :: "char \<Rightarrow> bool" where
  "is_uri_unreserved c \<longleftrightarrow> is_digit c \<or> (65 \<le> code c \<and> code c \<le> 90) \<or> (97 \<le> code c \<and> code c \<le> 122) \<or>
     c \<in> set ''-_.!~*()'' \<or> code c = 39"

definition encode_uri_component :: "string \<Rightarrow> string" where
  "encode_uri_component s = concat (map (\<lambda>c.
     if is_uri_unreserved c then [c]
     else if code c < 128 then percent (code c)
     else percent (192 + code c div 64) @ percent (128 + code c mod 64)) s)"

definition get_charge_request :: "string \<Rightarrow> http_request" where
  "get_charge_request key = \<lparr>rq_method = ''GET'', rq_path = ''/charge/'' @ encode_uri_component key,
     rq_key = None, rq_body = None\<rparr>"

subsection \<open>Results\<close>

definition field :: "(string \<times> json) list option \<Rightarrow> string \<Rightarrow> json option" where
  "field body k = (case body of None \<Rightarrow> None | Some kvs \<Rightarrow> map_of kvs k)"

definition read_string_field :: "(string \<times> json) list option \<Rightarrow> string \<Rightarrow> string option" where
  "read_string_field body k = (case field body k of Some (JStr s) \<Rightarrow> Some s | _ \<Rightarrow> None)"

definition redacted_body :: "(string \<times> json) list option \<Rightarrow> json option" where
  "redacted_body body = map_option (\<lambda>kvs. redact (JObj kvs)) body"

definition map_charge_response :: "provider_response \<Rightarrow> string \<Rightarrow> string \<Rightarrow> charge_result" where
  "map_charge_response r l4 brand =
    (let raw = redacted_body (http_body r); pid = read_string_field (http_body r) ''id'' in
     if http_status r = 200 then
       \<lparr>res_status = PS_CAPTURED, res_provider_payment_id = pid, res_card_last4 = Some l4,
        res_card_brand = Some brand, res_failure_code = None, res_raw_response = raw\<rparr>
     else if http_status r = 402 then
       \<lparr>res_status = PS_DECLINED, res_provider_payment_id = pid, res_card_last4 = Some l4,
        res_card_brand = Some brand, res_failure_code = Some CARD_DECLINED, res_raw_response = raw\<rparr>
     else
       \<lparr>res_status = PS_UNKNOWN, res_provider_payment_id = pid, res_card_last4 = Some l4,
        res_card_brand = Some brand, res_failure_code = Some INVALID_REQUEST, res_raw_response = raw\<rparr>)"

definition map_status_response :: "provider_response \<Rightarrow> charge_result" where
  "map_status_response r =
    (let raw = redacted_body (http_body r) in
     if http_status r = 404 then
       \<lparr>res_status = PS_FAILED, res_provider_payment_id = None, res_card_last4 = None,
        res_card_brand = None, res_failure_code = Some NOT_FOUND, res_raw_response = raw\<rparr>
     else
       (let pid = read_string_field (http_body r) ''id'';
            l4 = read_string_field (http_body r) ''cardLast4'';
            provider_status = read_string_field (http_body r) ''status'';
            status = (if http_status r = 200 \<and> provider_status = Some ''approved'' then Some PS_CAPTURED
              else if http_status r = 200 \<and> provider_status = Some ''declined'' then Some PS_DECLINED
              else None)
        in case status of
             None \<Rightarrow>
               \<lparr>res_status = PS_UNKNOWN, res_provider_payment_id = pid, res_card_last4 = l4,
                res_card_brand = None, res_failure_code = Some INVALID_REQUEST, res_raw_response = raw\<rparr>
           | Some st \<Rightarrow>
               \<lparr>res_status = st, res_provider_payment_id = pid, res_card_last4 = l4,
                res_card_brand = None,
                res_failure_code = (if st = PS_DECLINED then Some CARD_DECLINED else None),
                res_raw_response = raw\<rparr>))"

fun classify_thrown_failure :: "gateway_error \<Rightarrow> payment_failure_code" where
  "classify_thrown_failure GwCircuitOpen = CIRCUIT_OPEN"
| "classify_thrown_failure GwTimeout = TIMEOUT"
| "classify_thrown_failure (GwProviderError n) = PROVIDER_ERROR"
| "classify_thrown_failure GwConnectionRefused = CONNECTION_REFUSED"
| "classify_thrown_failure _ = NETWORK_ERROR"

definition build_unknown_result :: "gateway_error \<Rightarrow> string option \<Rightarrow> string option \<Rightarrow> charge_result" where
  "build_unknown_result e l4 brand =
     \<lparr>res_status = PS_UNKNOWN, res_provider_payment_id = None, res_card_last4 = l4,
      res_card_brand = brand, res_failure_code = Some (classify_thrown_failure e), res_raw_response = None\<rparr>"

subsection \<open>The two operations of the port\<close>

definition gateway_charge ::
  "gateway_options \<Rightarrow> (rat \<Rightarrow> nat \<Rightarrow> rat) \<Rightarrow> 'p fetch \<Rightarrow> charge_command \<Rightarrow> 'p net \<Rightarrow> charge_result \<times> 'p net" where
  "gateway_charge opts draw fetch c s =
    (let (l4, brand) = describe_card (cmd_card_number c) in
     case run_attempts opts draw (provider_call opts fetch (post_charge_request c)) s of
       (Inr response, s') \<Rightarrow> (map_charge_response response l4 brand, s')
     | (Inl e, s') \<Rightarrow> (build_unknown_result e (Some l4) (Some brand), s'))"

definition gateway_get_status ::
  "gateway_options \<Rightarrow> (rat \<Rightarrow> nat \<Rightarrow> rat) \<Rightarrow> 'p fetch \<Rightarrow> string \<Rightarrow> 'p net \<Rightarrow> charge_result \<times> 'p net" where
  "gateway_get_status opts draw fetch key s =
    (case run_attempts opts draw (provider_call opts fetch (get_charge_request key)) s of
       (Inr response, s') \<Rightarrow> (map_status_response response, s')
     | (Inl e, s') \<Rightarrow> (build_unknown_result e None None, s'))"

subsection \<open>The port\<close>

locale payment_port =
  fixes charge :: "charge_command \<Rightarrow> 'g \<Rightarrow> charge_result \<times> 'g"
    and get_status :: "string \<Rightarrow> 'g \<Rightarrow> charge_result \<times> 'g"
    and clock :: "'g \<Rightarrow> rat"
    and bound_ms :: rat
  assumes charge_status: "res_status (fst (charge c g)) \<in> {PS_CAPTURED, PS_DECLINED, PS_UNKNOWN}"
    and get_status_status:
      "res_status (fst (get_status k g)) \<in> {PS_CAPTURED, PS_DECLINED, PS_UNKNOWN, PS_FAILED}"
    and charge_code: "res_status (fst (charge c g)) = PS_CAPTURED \<longleftrightarrow> res_failure_code (fst (charge c g)) = None"
    and charge_time: "clock (snd (charge c g)) \<le> clock g + bound_ms"
    and get_status_time: "clock (snd (get_status k g)) \<le> clock g + bound_ms"
begin

lemma charge_cases:
  obtains (captured) "res_status (fst (charge c g)) = PS_CAPTURED" "res_failure_code (fst (charge c g)) = None"
  | (declined) "res_status (fst (charge c g)) = PS_DECLINED" "res_failure_code (fst (charge c g)) \<noteq> None"
  | (unknown) "res_status (fst (charge c g)) = PS_UNKNOWN" "res_failure_code (fst (charge c g)) \<noteq> None"
  using charge_status[of c g] charge_code[of c g] by auto

lemma charge_never_pending: "res_status (fst (charge c g)) \<notin> {PS_PENDING, PS_FAILED, PS_REFUNDED, PS_AUTHORIZED}"
  using charge_status[of c g] by auto

lemma charge_then_status_time:
  "clock (snd (get_status k (snd (charge c g)))) \<le> clock g + 2 * bound_ms"
  using charge_time[of c g] get_status_time[of k "snd (charge c g)"] by linarith

end

subsection \<open>The adapter provides it\<close>

lemma provider_call_time:
  "net_clock (snd (provider_call opts fetch req s)) \<le> net_clock s + of_nat (timeout_ms opts)"
proof (cases "fetch_with_timeout (timeout_ms opts) fetch req s")
  case (Pair r s1)
  note t = fetch_with_timeout_time[OF Pair]
  show ?thesis
  proof (cases r)
    case (Inl e)
    with t(1) Pair show ?thesis by (simp add: provider_call_def)
  next
    case (Inr q)
    obtain ms status body_ms body where q: "q = (ms, status, body_ms, body)" by (cases q) auto
    from t(2)[of ms "(status, body_ms, body)"] Inr q
    have ms: "ms < timeout_ms opts" "net_clock s1 = net_clock s + of_nat ms" by auto
    obtain b s2 where b: "read_body (timeout_ms opts) ms body_ms body s1 = (b, s2)" by fastforce
    from read_body_time[OF b ms(1)] have "net_clock s2 \<le> net_clock s1 + of_nat (timeout_ms opts - ms)" .
    moreover have "(of_nat (timeout_ms opts - ms) :: rat) = of_nat (timeout_ms opts) - of_nat ms"
      using ms(1) by (simp add: of_nat_diff)
    ultimately show ?thesis
      using ms Inr q b Pair by (simp add: provider_call_def)
  qed
qed

interpretation gateway_retry:
  timed_retry "guarded (breaker_opts default_gateway_options) GwCircuitOpen (provider_call default_gateway_options fetch req)"
    "sleep draw (base_delay_ms default_gateway_options)" net_clock 2000 200
  for fetch :: "'p fetch" and req draw
proof
  fix s :: "'p net" and n
  have "net_clock (snd (provider_call default_gateway_options fetch req s)) \<le> net_clock s + 2000" for s :: "'p net"
    using provider_call_time[of default_gateway_options fetch req s]
    by (simp add: default_gateway_options_def ATTEMPT_TIMEOUT_MS_def)
  then show "net_clock (snd (guarded (breaker_opts default_gateway_options) GwCircuitOpen
      (provider_call default_gateway_options fetch req) s)) \<le> net_clock s + 2000"
    by (rule guarded_time) simp
  show "net_clock (sleep draw (base_delay_ms default_gateway_options) n s) \<le> net_clock s + 200 * 2 ^ (n - 1)"
    using sleep_time[of 200 draw n s] by (simp add: default_gateway_options_def BACKOFF_BASE_MS_def)
qed simp_all

text \<open>Three attempts of two seconds and two waits of at most 200 and 400 ms.\<close>

lemma run_attempts_time:
  "net_clock (snd (run_attempts default_gateway_options draw (provider_call default_gateway_options fetch req) s)) \<le>
     net_clock s + 6600"
proof -
  have max: "max_attempts default_gateway_options = 3"
    by (simp add: default_gateway_options_def MAX_ATTEMPTS_def)
  show ?thesis
    using gateway_retry.with_retry_time[where max_attempts = 3 and is_transient = is_retryable and
        no_attempt = GwNoAttempt and s = s and fetch = fetch and req = req and draw = draw]
    by (simp add: run_attempts_def max)
qed

lemma gateway_charge_snd:
  "snd (gateway_charge opts draw fetch c s) =
     snd (run_attempts opts draw (provider_call opts fetch (post_charge_request c)) s)"
  by (simp add: gateway_charge_def split: prod.splits sum.splits)

lemma gateway_get_status_snd:
  "snd (gateway_get_status opts draw fetch k s) =
     snd (run_attempts opts draw (provider_call opts fetch (get_charge_request k)) s)"
  by (simp add: gateway_get_status_def split: prod.splits sum.splits)

lemma map_charge_response_status:
  "res_status (map_charge_response r l4 b) =
     (if http_status r = 200 then PS_CAPTURED else if http_status r = 402 then PS_DECLINED else PS_UNKNOWN)"
  "res_failure_code (map_charge_response r l4 b) = None \<longleftrightarrow> http_status r = 200"
  by (simp_all add: map_charge_response_def Let_def)

lemma map_status_response_status:
  "res_status (map_status_response r) =
     (if http_status r = 404 then PS_FAILED
      else if http_status r = 200 \<and> read_string_field (http_body r) ''status'' = Some ''approved'' then PS_CAPTURED
      else if http_status r = 200 \<and> read_string_field (http_body r) ''status'' = Some ''declined'' then PS_DECLINED
      else PS_UNKNOWN)"
  by (simp add: map_status_response_def Let_def)

interpretation http_gateway:
  payment_port "gateway_charge default_gateway_options draw fetch"
    "gateway_get_status default_gateway_options draw fetch" net_clock 6600
  for draw and fetch :: "'p fetch"
proof
  fix c k and g :: "'p net"
  show "res_status (fst (gateway_charge default_gateway_options draw fetch c g)) \<in> {PS_CAPTURED, PS_DECLINED, PS_UNKNOWN}"
    by (auto simp: gateway_charge_def map_charge_response_status build_unknown_result_def split: prod.splits sum.splits)
  show "res_status (fst (gateway_get_status default_gateway_options draw fetch k g)) \<in>
      {PS_CAPTURED, PS_DECLINED, PS_UNKNOWN, PS_FAILED}"
    by (auto simp: gateway_get_status_def map_status_response_status build_unknown_result_def split: prod.splits sum.splits)
  show "res_status (fst (gateway_charge default_gateway_options draw fetch c g)) = PS_CAPTURED \<longleftrightarrow>
      res_failure_code (fst (gateway_charge default_gateway_options draw fetch c g)) = None"
    by (auto simp: gateway_charge_def map_charge_response_status build_unknown_result_def split: prod.splits sum.splits)
  show "net_clock (snd (gateway_charge default_gateway_options draw fetch c g)) \<le> net_clock g + 6600"
    by (simp add: gateway_charge_snd run_attempts_time)
  show "net_clock (snd (gateway_get_status default_gateway_options draw fetch k g)) \<le> net_clock g + 6600"
    by (simp add: gateway_get_status_snd run_attempts_time)
qed

subsection \<open>Where a status comes from\<close>

lemma guarded_Inr:
  assumes "guarded opts e operation s = (Inr r, s')"
  shows "\<exists>s1. operation s = (Inr r, s1)"
  using assms by (auto simp: guarded_def execute_def split: prod.splits option.splits)

lemma provider_call_Inr:
  assumes "provider_call opts fetch req s = (Inr r, s')"
  shows "\<exists>ms body_ms body. fst (fetch (net_now s) req (net_remote s)) = NetResponse ms (http_status r) body_ms body \<and>
    (http_body r = as_record body \<or> http_body r = None) \<and> http_status r < 500"
  using assms
  by (auto simp: provider_call_def fetch_with_timeout_def read_body_def as_record_def Let_def
      split: prod.splits sum.splits net_event.splits if_splits)

lemma run_attempts_Inr:
  assumes "run_attempts opts draw (provider_call opts fetch req) s = (Inr r, s')" and "0 < max_attempts opts"
  shows "\<exists>t remote ms body_ms body. fst (fetch t req remote) = NetResponse ms (http_status r) body_ms body \<and>
    (http_body r = as_record body \<or> http_body r = None) \<and> http_status r < 500"
proof -
  let ?op = "guarded (breaker_opts opts) GwCircuitOpen (provider_call opts fetch req)"
  from assms(2) have "1 \<le> max_attempts opts" by simp
  from with_retry_from_attempts[OF this, of ?op is_retryable "sleep draw (base_delay_ms opts)" GwNoAttempt s]
  obtain s0 where "run_attempts opts draw (provider_call opts fetch req) s = ?op s0"
    by (auto simp: run_attempts_def with_retry_def)
  with assms(1) guarded_Inr[of "breaker_opts opts" GwCircuitOpen "provider_call opts fetch req" s0 r]
  obtain s1 where "provider_call opts fetch req s0 = (Inr r, s1)" by metis
  from provider_call_Inr[OF this] show ?thesis by blast
qed

lemma default_attempts [simp]: "0 < max_attempts default_gateway_options"
  by (simp add: default_gateway_options_def MAX_ATTEMPTS_def)

lemma build_unknown_result_sel [simp]:
  "res_status (build_unknown_result e l4 brand) = PS_UNKNOWN"
  "res_failure_code (build_unknown_result e l4 brand) = Some (classify_thrown_failure e)"
  by (simp_all add: build_unknown_result_def)

lemma gateway_charge_source:
  "(\<exists>e l4 brand. fst (gateway_charge default_gateway_options draw fetch c s) = build_unknown_result e l4 brand) \<or>
   (\<exists>resp l4 brand t remote ms body_ms body. fst (gateway_charge default_gateway_options draw fetch c s) = map_charge_response resp l4 brand \<and>
      fst (fetch t (post_charge_request c) remote) = NetResponse ms (http_status resp) body_ms body)"
proof -
  obtain out s' where run: "run_attempts default_gateway_options draw
      (provider_call default_gateway_options fetch (post_charge_request c)) s = (out, s')" by fastforce
  show ?thesis
  proof (cases out)
    case (Inl e)
    with run show ?thesis by (auto simp: gateway_charge_def split: prod.splits)
  next
    case (Inr resp)
    with run have "fst (gateway_charge default_gateway_options draw fetch c s) =
        (case describe_card (cmd_card_number c) of (l4, brand) \<Rightarrow> map_charge_response resp l4 brand)"
      by (simp add: gateway_charge_def split: prod.splits)
    with run_attempts_Inr[OF run[unfolded Inr] default_attempts] show ?thesis
      by (cases "describe_card (cmd_card_number c)") fastforce
  qed
qed

lemma gateway_get_status_source:
  "(\<exists>e. fst (gateway_get_status default_gateway_options draw fetch k s) = build_unknown_result e None None) \<or>
   (\<exists>resp t remote ms body_ms body. fst (gateway_get_status default_gateway_options draw fetch k s) = map_status_response resp \<and>
      fst (fetch t (get_charge_request k) remote) = NetResponse ms (http_status resp) body_ms body \<and>
      (http_body resp = as_record body \<or> http_body resp = None))"
proof -
  obtain out s' where run: "run_attempts default_gateway_options draw
      (provider_call default_gateway_options fetch (get_charge_request k)) s = (out, s')" by fastforce
  show ?thesis
  proof (cases out)
    case (Inl e)
    with run show ?thesis by (simp add: gateway_get_status_def) blast
  next
    case (Inr resp)
    with run have "fst (gateway_get_status default_gateway_options draw fetch k s) = map_status_response resp"
      by (simp add: gateway_get_status_def)
    with run_attempts_Inr[OF run[unfolded Inr] default_attempts] show ?thesis by blast
  qed
qed

text \<open>What a response says of its own.\<close>

lemma map_charge_response_cases:
  "http_status resp = 200 \<and> res_status (map_charge_response resp l4 brand) = PS_CAPTURED \<and>
     res_failure_code (map_charge_response resp l4 brand) = None \<or>
   http_status resp = 402 \<and> res_status (map_charge_response resp l4 brand) = PS_DECLINED \<and>
     res_failure_code (map_charge_response resp l4 brand) = Some CARD_DECLINED \<or>
   res_status (map_charge_response resp l4 brand) = PS_UNKNOWN \<and> res_failure_code (map_charge_response resp l4 brand) \<noteq> None"
  by (auto simp: map_charge_response_def Let_def)

lemma map_status_response_cases:
  "http_status resp = 404 \<and> res_status (map_status_response resp) = PS_FAILED \<or>
   (\<exists>st text. (st, text) \<in> {(PS_CAPTURED, ''approved''), (PS_DECLINED, ''declined'')} \<and> http_status resp = 200 \<and>
      read_string_field (http_body resp) ''status'' = Some text \<and> res_status (map_status_response resp) = st) \<or>
   res_status (map_status_response resp) = PS_UNKNOWN \<and> res_failure_code (map_status_response resp) \<noteq> None"
  by (auto simp: map_status_response_def Let_def split: if_splits)

lemma read_string_field_named:
  "read_string_field (http_body resp) n = Some v \<Longrightarrow> http_body resp = as_record body \<or> http_body resp = None \<Longrightarrow>
    read_string_field (as_record body) n = Some v"
  by (auto simp: read_string_field_def field_def)

subsection \<open>Properties\<close>

text \<open>
  C16. A charge never reports a final outcome the provider did not give. Whatever the provider and
  the network do, \<open>charge\<close> returns \<open>CAPTURED\<close> only when the provider answered the charge request
  with status 200, \<open>DECLINED\<close> only when it answered 402, and otherwise \<open>UNKNOWN\<close> with a failure
  code (never \<open>FAILED\<close> or a throw).
\<close>

theorem charge_outcome_has_evidence:
  fixes fetch :: "'p fetch"
  shows "let r = fst (gateway_charge default_gateway_options draw fetch c s) in
    (res_status r = PS_CAPTURED \<and> res_failure_code r = None \<and>
      (\<exists>t remote ms body_ms body. fst (fetch t (post_charge_request c) remote) = NetResponse ms 200 body_ms body)) \<or>
    (res_status r = PS_DECLINED \<and> res_failure_code r = Some CARD_DECLINED \<and>
      (\<exists>t remote ms body_ms body. fst (fetch t (post_charge_request c) remote) = NetResponse ms 402 body_ms body)) \<or>
    (res_status r = PS_UNKNOWN \<and> res_failure_code r \<noteq> None)"
  using gateway_charge_source[of draw fetch c s]
proof (elim disjE exE conjE)
  fix resp l4 brand t remote ms body_ms body
  assume r: "fst (gateway_charge default_gateway_options draw fetch c s) = map_charge_response resp l4 brand"
    and ev: "fst (fetch t (post_charge_request c) remote) = NetResponse ms (http_status resp) body_ms body"
  have "\<exists>t remote ms body_ms body. fst (fetch t (post_charge_request c) remote) = NetResponse ms (http_status resp) body_ms body"
    using ev by blast
  with map_charge_response_cases[of resp l4 brand] show ?thesis unfolding r Let_def by metis
qed (simp add: Let_def)

text \<open>
  C17. A status query concludes ``never charged'' (\<open>FAILED\<close>) only from a 404 of the provider, and
  a final outcome only from a 200 whose body names it; everything else, an unreadable or
  unrecognised body included, stays \<open>UNKNOWN\<close>.
\<close>

theorem status_outcome_has_evidence:
  fixes fetch :: "'p fetch"
  shows "let r = fst (gateway_get_status default_gateway_options draw fetch k s) in
    (res_status r = PS_FAILED \<and>
      (\<exists>t remote ms body_ms body. fst (fetch t (get_charge_request k) remote) = NetResponse ms 404 body_ms body)) \<or>
    (\<exists>st text. res_status r = st \<and> (st, text) \<in> {(PS_CAPTURED, ''approved''), (PS_DECLINED, ''declined'')} \<and>
      (\<exists>t remote ms body_ms body. fst (fetch t (get_charge_request k) remote) = NetResponse ms 200 body_ms body \<and>
         read_string_field (as_record body) ''status'' = Some text)) \<or>
    (res_status r = PS_UNKNOWN \<and> res_failure_code r \<noteq> None)"
  using gateway_get_status_source[of draw fetch k s]
proof (elim disjE exE)
  fix resp t remote ms body_ms body
  assume source: "fst (gateway_get_status default_gateway_options draw fetch k s) = map_status_response resp \<and>
      fst (fetch t (get_charge_request k) remote) = NetResponse ms (http_status resp) body_ms body \<and>
      (http_body resp = as_record body \<or> http_body resp = None)"
  then have r: "fst (gateway_get_status default_gateway_options draw fetch k s) = map_status_response resp"
    and ev: "fst (fetch t (get_charge_request k) remote) = NetResponse ms (http_status resp) body_ms body"
    and named: "\<And>text. read_string_field (http_body resp) ''status'' = Some text \<Longrightarrow>
      read_string_field (as_record body) ''status'' = Some text"
    using read_string_field_named by auto
  from map_status_response_cases[of resp] show ?thesis
  proof (elim disjE exE conjE)
    fix st v
    assume st: "(st, v) \<in> {(PS_CAPTURED, ''approved''), (PS_DECLINED, ''declined'')}" "http_status resp = 200"
      "read_string_field (http_body resp) ''status'' = Some v" "res_status (map_status_response resp) = st"
    have "\<exists>t remote ms body_ms body. fst (fetch t (get_charge_request k) remote) = NetResponse ms 200 body_ms body \<and>
        read_string_field (as_record body) ''status'' = Some v"
      using ev[unfolded st(2)] named[OF st(3)] by blast
    with st(1,4) show ?thesis
      unfolding Let_def r by (intro disjI2[OF disjI1] exI[of _ st] exI[of _ v] conjI) simp_all
  next
    assume missing: "http_status resp = 404" "res_status (map_status_response resp) = PS_FAILED"
    have "\<exists>t remote ms body_ms body. fst (fetch t (get_charge_request k) remote) = NetResponse ms 404 body_ms body"
      using ev[unfolded missing(1)] by blast
    with missing(2) show ?thesis
      unfolding Let_def r by (intro disjI1[OF conjI])
  qed (simp add: Let_def r)
qed (simp add: Let_def)

end
