(* ===== verification/Create_Order.thy ===== *)
theory Create_Order
  imports Allocation Settlement Payment_Gateway
begin

section \<open>The order saga\<close>

text \<open>
  \<^verbatim>\<open>src/application/orders/create-order.use-case.ts\<close> with \<^verbatim>\<open>charge-idempotency-key.ts\<close> and
  \<^verbatim>\<open>helpers/order-number.helpers.ts\<close>: resolve, reserve, charge, settle. The geocoder and the
  gateway are ports, so they are arguments over an external state \<open>'g\<close>. Each phase is its own
  transaction; \<open>sg_others k\<close> is what other sessions commit before phase \<open>k\<close>, so that nothing is
  assumed about interleaving.
\<close>

subsection \<open>World and steps\<close>

record 'g world =
  w_db :: db
  w_ext :: 'g

definition in_transaction :: "(db \<Rightarrow> 'e + ('a \<times> db)) \<Rightarrow> 'g world \<Rightarrow> ('e + 'a) \<times> 'g world" where
  "in_transaction t w = (case t (w_db w) of Inl e \<Rightarrow> (Inl e, w) | Inr (a, d) \<Rightarrow> (Inr a, w\<lparr>w_db := d\<rparr>))"

definition meanwhile :: "(db \<Rightarrow> db) \<Rightarrow> 'g world \<Rightarrow> ('e + unit) \<times> 'g world" where
  "meanwhile f w = (Inr (), w\<lparr>w_db := f (w_db w)\<rparr>)"

subsection \<open>Command and environment\<close>

record create_order_command =
  co_customer :: uuid
  co_address :: address
  co_lines :: "order_line list"
  co_card_number :: string
  co_idempotency_key :: string

record saga_env =
  sg_now :: timestamp
  sg_year :: nat
  sg_alloc :: alloc_env
  sg_item_id :: "nat \<Rightarrow> uuid"
  sg_payment_id :: uuid
  sg_settle :: tx_env
  sg_others :: "nat \<Rightarrow> db \<Rightarrow> db"

record saga_result =
  sr_order :: order
  sr_items :: "order_item list"
  sr_allocation :: allocation_result
  sr_payment :: payment_row
  sr_charge :: charge_result

subsection \<open>Order numbers\<close>

text \<open>Postgres \<open>lpad(s, n, '0')\<close>: pads on the left, and cuts a longer text to its first \<open>n\<close> characters.\<close>

definition lpad0 :: "nat \<Rightarrow> string \<Rightarrow> string" where
  "lpad0 n s = (if n \<le> length s then take n s else replicate (n - length s) CHR ''0'' @ s)"

definition order_number :: "nat \<Rightarrow> nat \<Rightarrow> string" where
  "order_number year n = ''CNL-'' @ show_nat year @ ''-'' @ lpad0 6 (show_nat n)"

definition generate_order_number :: "nat \<Rightarrow> 'g world \<Rightarrow> (app_error + string) \<times> 'g world" where
  "generate_order_number year w =
    (let n = order_number_seq (w_db w) in
     (Inr (order_number year n), w\<lparr>w_db := (w_db w)\<lparr>order_number_seq := n + 1\<rparr>\<rparr>))"

subsection \<open>Resolving the command\<close>

definition sellable :: "product_row \<Rightarrow> bool" where
  "sellable p \<longleftrightarrow> prod_is_active p \<and> prod_deleted_at p = None"

definition product_by_id :: "product_row list \<Rightarrow> uuid \<Rightarrow> product_row option" where
  "product_by_id ps pid = find (\<lambda>p. prod_id p = pid) ps"

definition resolve_customer_and_products ::
  "create_order_command \<Rightarrow> db \<Rightarrow> app_error + product_row list" where
  "resolve_customer_and_products c d =
    (if \<not> (\<exists>k \<in> set (customers d). cust_id k = co_customer c \<and> cust_deleted_at k = None)
     then Inl (CustomerNotFoundError (co_customer c))
     else (let ids = map line_product (co_lines c);
               found = filter (\<lambda>p. prod_id p \<in> set ids \<and> sellable p) (products d);
               missing = filter (\<lambda>i. product_by_id found i = None) ids
           in if missing \<noteq> [] then Inl (ProductNotFoundError missing) else Inr found))"

text \<open>The price as the bigint transformer reads it.\<close>

definition read_price :: "product_row \<Rightarrow> js_num" where
  "read_price p = js_of_int (prod_unit_price_cents p)"

definition order_total :: "create_order_command \<Rightarrow> product_row list \<Rightarrow> app_error + money" where
  "order_total c found = total_of_lines (map (\<lambda>l.
     (js_to_int (read_price (the (product_by_id found (line_product l)))), line_quantity l)) (co_lines c))"

subsection \<open>Phase 1: reserve\<close>

definition new_order :: "saga_env \<Rightarrow> create_order_command \<Rightarrow> string \<Rightarrow> money \<Rightarrow> address \<Rightarrow> coordinates \<Rightarrow> uuid \<Rightarrow> uuid \<Rightarrow> order" where
  "new_order env c number tot a l oid w =
    \<lparr>ord_id = oid, ord_number = number, ord_customer = co_customer c, ord_warehouse = Some w,
     ord_status = PENDING_PAYMENT, ord_total = tot, ord_address = a, ord_location = l,
     ord_reservation_expires_at = None, ord_confirmed_at = None, ord_cancelled_at = None,
     ord_cancellation_reason = None, ord_created_at = sg_now env, ord_updated_at = sg_now env\<rparr>"

definition new_items ::
  "saga_env \<Rightarrow> create_order_command \<Rightarrow> product_row list \<Rightarrow> uuid \<Rightarrow> app_error + order_item list" where
  "new_items env c found oid = mapR (\<lambda>(k, l).
     (let p = the (product_by_id found (line_product l)) in
      bindR (money_of (read_price p) usd) (\<lambda>price.
      new_order_item (sg_item_id env k) oid (line_product l) (js_int (line_quantity l)) (prod_sku p)
        (prod_name p) price (sg_now env)))) (enumerate 0 (co_lines c))"

text \<open>\<open>onBeforeReserve\<close>.\<close>

definition place_order ::
  "saga_env \<Rightarrow> create_order_command \<Rightarrow> product_row list \<Rightarrow> string \<Rightarrow> money \<Rightarrow> address \<Rightarrow> coordinates \<Rightarrow>
   uuid \<Rightarrow> uuid \<Rightarrow> db \<Rightarrow> app_error + ((order \<times> order_item list) \<times> db)" where
  "place_order env c found number tot a l oid w d =
    (let o1 = new_order env c number tot a l oid w in
     bindR (save_order (order_to_persistence (sg_now env) o1) d) (\<lambda>d1.
     bindR (new_items env c found oid) (\<lambda>items.
     bindR (foldR insert_order_item (map order_item_to_persistence items) d1) (\<lambda>d2.
     Inr ((o1, items), d2)))))"

definition allocate_step ::
  "distance \<Rightarrow> distance \<Rightarrow> saga_env \<Rightarrow> (uuid \<Rightarrow> uuid \<Rightarrow> db \<Rightarrow> app_error + ('x \<times> db)) \<Rightarrow> coordinates \<Rightarrow>
   order_line list \<Rightarrow> 'g world \<Rightarrow> (app_error + (allocation_result \<times> 'x)) \<times> 'g world" where
  "allocate_step knn st_distance env prepare point ls w =
    (case allocate_inventory knn st_distance (sg_alloc env) prepare point ls (w_db w) of
       (r, d) \<Rightarrow> (r, w\<lparr>w_db := d\<rparr>))"

text \<open>The geocoding port as a step.\<close>

definition geocode_step ::
  "(address \<Rightarrow> 'g \<Rightarrow> (app_error + coordinates) \<times> 'g) \<Rightarrow> address \<Rightarrow> 'g world \<Rightarrow> (app_error + coordinates) \<times> 'g world" where
  "geocode_step geocode a w = (case geocode a (w_ext w) of (r, g) \<Rightarrow> (r, w\<lparr>w_ext := g\<rparr>))"

definition reserve_order ::
  "(address \<Rightarrow> 'g \<Rightarrow> (app_error + coordinates) \<times> 'g) \<Rightarrow> distance \<Rightarrow> distance \<Rightarrow> saga_env \<Rightarrow> create_order_command \<Rightarrow>
   product_row list \<Rightarrow> 'g world \<Rightarrow> (app_error + (order \<times> order_item list \<times> allocation_result)) \<times> 'g world" where
  "reserve_order geocode knn st_distance env c found =
    bindE (\<lambda>w. (shipping_address_of (co_address c), w)) (\<lambda>a.
    bindE (geocode_step geocode a) (\<lambda>l.
    bindE (meanwhile (sg_others env 1)) (\<lambda>_.
    bindE (generate_order_number (sg_year env)) (\<lambda>number.
    bindE (\<lambda>w. (order_total c found, w)) (\<lambda>tot.
    bindE (allocate_step knn st_distance env (place_order env c found number tot a l) l (co_lines c))
      (\<lambda>(alloc, (o1, items)). returnE (o1, items, alloc)))))))"

subsection \<open>Phase 2: charge\<close>

definition FIRST_PAYMENT_ATTEMPT :: nat where
  "FIRST_PAYMENT_ATTEMPT = 1"

definition build_charge_idempotency_key :: "uuid \<Rightarrow> nat \<Rightarrow> string" where
  "build_charge_idempotency_key oid attempt_no = ''order:'' @ oid @ '':attempt:'' @ show_nat attempt_no"

definition is_definitive_outcome :: "payment_status \<Rightarrow> bool" where
  "is_definitive_outcome s \<longleftrightarrow> s = PS_CAPTURED \<or> s = PS_DECLINED"

definition initial_payment :: "saga_env \<Rightarrow> order \<Rightarrow> payment_row" where
  "initial_payment env o1 =
    \<lparr>pay_id = sg_payment_id env, pay_order = ord_id o1, pay_attempt = int FIRST_PAYMENT_ATTEMPT,
     pay_provider = ''mock-gateway'', pay_provider_payment_id = None,
     pay_idempotency_key = build_charge_idempotency_key (ord_id o1) FIRST_PAYMENT_ATTEMPT,
     pay_status = PS_PENDING, pay_amount_cents = amount_cents (ord_total o1),
     pay_currency = currency (ord_total o1), pay_card_last4 = None, pay_card_brand = None,
     pay_failure_code = None, pay_raw_response = None, pay_settled_at = None,
     pay_created_at = sg_now env, pay_updated_at = sg_now env\<rparr>"

definition charged_payment :: "saga_env \<Rightarrow> charge_result \<Rightarrow> payment_row \<Rightarrow> payment_row" where
  "charged_payment env r p = p\<lparr>pay_status := res_status r,
     pay_provider_payment_id := res_provider_payment_id r, pay_card_last4 := res_card_last4 r,
     pay_card_brand := res_card_brand r, pay_failure_code := res_failure_code r,
     pay_raw_response := res_raw_response r,
     pay_settled_at := (if is_definitive_outcome (res_status r) then Some (sg_now env) else None),
     pay_updated_at := sg_now env\<rparr>"

definition charge_command_of :: "create_order_command \<Rightarrow> order \<Rightarrow> charge_command" where
  "charge_command_of c o1 = \<lparr>cmd_card_number = co_card_number c,
     cmd_amount_minor = amount_cents (ord_total o1), cmd_currency = currency (ord_total o1),
     cmd_description = ''Order '' @ ord_number o1,
     cmd_idempotency_key = build_charge_idempotency_key (ord_id o1) FIRST_PAYMENT_ATTEMPT\<rparr>"

definition save_payment_step :: "payment_row \<Rightarrow> 'g world \<Rightarrow> (app_error + payment_row) \<times> 'g world" where
  "save_payment_step p = in_transaction (\<lambda>d. bindR (save_payment p d) (\<lambda>d1. Inr (p, d1)))"

definition charge_step ::
  "(charge_command \<Rightarrow> 'g \<Rightarrow> charge_result \<times> 'g) \<Rightarrow> charge_command \<Rightarrow> 'g world \<Rightarrow> (app_error + charge_result) \<times> 'g world" where
  "charge_step charge cmd w = (case charge cmd (w_ext w) of (r, g) \<Rightarrow> (Inr r, w\<lparr>w_ext := g\<rparr>))"

definition charge_order ::
  "(charge_command \<Rightarrow> 'g \<Rightarrow> charge_result \<times> 'g) \<Rightarrow> saga_env \<Rightarrow> create_order_command \<Rightarrow> order \<Rightarrow>
   'g world \<Rightarrow> (app_error + (payment_row \<times> charge_result)) \<times> 'g world" where
  "charge_order charge env c o1 =
    bindE (save_payment_step (initial_payment env o1)) (\<lambda>pending.
    bindE (charge_step charge (charge_command_of c o1)) (\<lambda>r.
    bindE (meanwhile (sg_others env 3)) (\<lambda>_.
    bindE (save_payment_step (charged_payment env r pending)) (\<lambda>payment.
    returnE (payment, r)))))"

subsection \<open>Phase 3: settle\<close>

definition settle_step ::
  "(db \<Rightarrow> app_error + (settlement_outcome \<times> order \<times> db)) \<Rightarrow> 'g world \<Rightarrow> (app_error + order) \<times> 'g world" where
  "settle_step call = in_transaction (\<lambda>d. bindR (call d) (\<lambda>(outcome, o1, d1). Inr (o1, d1)))"

definition settle_saga ::
  "saga_env \<Rightarrow> order \<Rightarrow> order_item list \<Rightarrow> allocation_result \<Rightarrow> payment_row \<Rightarrow> charge_result \<Rightarrow>
   'g world \<Rightarrow> (app_error + saga_result) \<times> 'g world" where
  "settle_saga env o1 items alloc payment r =
    (if res_status r = PS_CAPTURED then
       bindE (settle_step (confirm_captured (sg_settle env) (ord_id o1) None)) (\<lambda>settled.
         returnE \<lparr>sr_order = settled, sr_items = items, sr_allocation = alloc, sr_payment = payment, sr_charge = r\<rparr>)
     else if res_status r = PS_DECLINED then
       bindE (settle_step (fail_declined (sg_settle env) (ord_id o1) None)) (\<lambda>_.
         throwE (PaymentDeclinedError (ord_id o1) (map_option failure_code_text (res_failure_code r))))
     else
       throwE (PaymentProviderUnavailableError (ord_id o1) (map_option failure_code_text (res_failure_code r))))"

subsection \<open>The use case\<close>

definition create_order ::
  "(address \<Rightarrow> 'g \<Rightarrow> (app_error + coordinates) \<times> 'g) \<Rightarrow> (charge_command \<Rightarrow> 'g \<Rightarrow> charge_result \<times> 'g) \<Rightarrow>
   distance \<Rightarrow> distance \<Rightarrow> saga_env \<Rightarrow> create_order_command \<Rightarrow> 'g world \<Rightarrow> (app_error + saga_result) \<times> 'g world" where
  "create_order geocode charge knn st_distance env c =
    bindE (\<lambda>w. (resolve_customer_and_products c (w_db w), w)) (\<lambda>found.
    bindE (reserve_order geocode knn st_distance env c found) (\<lambda>(o1, items, alloc).
    bindE (meanwhile (sg_others env 2)) (\<lambda>_.
    bindE (charge_order charge env c o1) (\<lambda>(payment, r).
    bindE (meanwhile (sg_others env 4)) (\<lambda>_.
    settle_saga env o1 items alloc payment r)))))"

end
