(* ===== verification/Js_Double.thy ===== *)
theory Js_Double
  imports Js_Number
begin

section \<open>Double division and fixed-point text\<close>

text \<open>
  The places where the program divides: the dollars and the distances of its responses. A quotient
  of doubles is the exact quotient rounded to 53 significant bits, ties to even (subnormal results
  do not occur: the smallest non-zero quotient here is a hundredth). \<open>to_fixed2\<close> is \<open>toFixed(2)\<close>,
  which picks the number of hundredths nearest to the double, the larger one on a tie.
\<close>

definition round_half_even :: "rat \<Rightarrow> int" where
  "round_half_even q = (let f = \<lfloor>q\<rfloor>; r = q - of_int f in
     if r < 1 / 2 then f else if r > 1 / 2 then f + 1 else if even f then f else f + 1)"

definition ulp_exponent :: "rat \<Rightarrow> int" where
  "ulp_exponent q = (let (a, b) = quotient_of q;
       e = int (bit_length (nat a)) - int (bit_length (nat b)) - 53
     in if 2 ^ 53 \<le> q / 2 powi e then e + 1 else e)"

definition double_of :: "rat \<Rightarrow> rat" where
  "double_of q = (if q = 0 then 0 else
     (let u = 2 powi ulp_exponent \<bar>q\<bar> in sgn q * (of_int (round_half_even (\<bar>q\<bar> / u)) * u)))"

lemma round_half_even_error: "\<bar>of_int (round_half_even q) - q\<bar> \<le> 1 / 2"
proof -
  have "of_int \<lfloor>q\<rfloor> \<le> q" "q < of_int \<lfloor>q\<rfloor> + 1" by (rule of_int_floor_le) linarith
  then show ?thesis by (auto simp: round_half_even_def Let_def)
qed

lemma bit_length_bounds:
  assumes "0 < n"
  shows "2 ^ (bit_length n - 1) \<le> n" and "n < 2 ^ bit_length n" and "0 < bit_length n"
proof -
  have "n < 2 ^ n" by (rule less_exp)
  then obtain k where k: "n < 2 ^ k" by blast
  show "n < 2 ^ bit_length n"
  proof (rule ccontr)
    assume "\<not> n < 2 ^ bit_length n"
    then show False using bit_length_ge[of "bit_length n" n] by simp
  qed
  show pos: "0 < bit_length n" using assms by (subst bit_length.simps) simp
  show "2 ^ (bit_length n - 1) \<le> n"
  proof (rule ccontr)
    assume "\<not> 2 ^ (bit_length n - 1) \<le> n"
    then have "bit_length n \<le> bit_length n - 1" by (intro bit_length_le) simp
    with pos show False by simp
  qed
qed

lemma ulp_small:
  assumes "0 < q"
  shows "2 ^ 52 \<le> q / 2 powi ulp_exponent q"
proof -
  obtain a b where ab: "quotient_of q = (a, b)" by fastforce
  then have b: "0 < b" "q = of_int a / of_int b" using quotient_of_denom_pos quotient_of_div by auto
  with assms have a: "0 < a" by (simp add: zero_less_divide_iff)
  let ?la = "bit_length (nat a)" and ?lb = "bit_length (nat b)"
  let ?e = "int ?la - int ?lb - 53"
  from a b(1) have pos: "0 < nat a" "0 < nat b" by simp_all
  have n: "2 ^ (?la - 1) \<le> nat a" "nat b \<le> 2 ^ ?lb" "0 < ?la"
    by (rule bit_length_bounds(1)[OF pos(1)])
      (rule less_imp_le, rule bit_length_bounds(2)[OF pos(2)], rule bit_length_bounds(3)[OF pos(1)])
  have "(of_nat (2 ^ (?la - 1)) :: rat) \<le> of_nat (nat a)" by (rule of_nat_mono) (rule n(1))
  moreover have "(of_nat (nat b) :: rat) \<le> of_nat (2 ^ ?lb)" by (rule of_nat_mono) (rule n(2))
  moreover have "(of_nat (nat a) :: rat) = of_int a" "(of_nat (nat b) :: rat) = of_int b" using a b(1) by auto
  ultimately have bounds: "(2::rat) ^ (?la - 1) \<le> of_int a" "of_int b \<le> (2::rat) ^ ?lb" "0 < ?la"
    using n(3) by (simp_all only: of_nat_power of_nat_numeral)
  have "(2::rat) powi (?e + 52) = 2 powi ?e * 2 powi 52" by (rule power_int_add) simp
  then have "(2::rat) powi ?e * 2 ^ 52 = 2 powi (?e + 52)" by (simp only: power_int_numeral)
  also have "?e + 52 = int (?la - 1) - int ?lb" using bounds(3) by (simp add: of_nat_diff)
  also have "(2::rat) powi (int (?la - 1) - int ?lb) = 2 ^ (?la - 1) / 2 ^ ?lb"
    by (subst power_int_diff) simp_all
  also have "\<dots> \<le> of_int a / of_int b" using bounds a b(1) by (intro frac_le) simp_all
  finally have "2 powi ?e * 2 ^ 52 \<le> q" by (simp only: b(2))
  moreover have "(0::rat) < 2 powi ?e" by simp
  ultimately have low: "2 ^ 52 \<le> q / 2 powi ?e" by (simp only: pos_le_divide_eq mult.commute)
  show ?thesis
  proof (cases "2 ^ 53 \<le> q / 2 powi ?e")
    case True
    then have e: "ulp_exponent q = ?e + 1" by (simp add: ulp_exponent_def ab)
    have "(2::rat) powi (?e + 1) = 2 powi ?e * 2" by (rule power_int_add_1) simp
    then have "q / 2 powi ulp_exponent q = q / 2 powi ?e / 2" by (simp only: e divide_divide_eq_left)
    moreover have "2 ^ 53 / 2 \<le> q / 2 powi ?e / 2" by (rule divide_right_mono[OF True]) simp
    moreover have "(2 ^ 53 :: rat) / 2 = 2 ^ 52" by simp
    ultimately show ?thesis by (simp only:)
  next
    case False
    then have "ulp_exponent q = ?e" by (simp add: ulp_exponent_def ab)
    with low show ?thesis by simp
  qed
qed

lemma double_of_error:
  assumes "0 < q"
  shows "\<bar>double_of q - q\<bar> \<le> q / 2 ^ 53"
proof -
  define u where "u = (2::rat) powi ulp_exponent q"
  define m where "m = (of_int (round_half_even (q / u)) :: rat)"
  have u: "0 < u" by (simp add: u_def)
  have "u * 2 ^ 52 \<le> q" using ulp_small[OF assms] u unfolding u_def by (simp only: le_divide_eq mult.commute if_True)
  then have half: "1 / 2 * u \<le> q / 2 ^ 53" by simp
  have "double_of q = m * u"
    using assms by (simp add: double_of_def u_def m_def Let_def)
  moreover have "m * u - q = (m - q / u) * u" using u by (simp add: left_diff_distrib)
  then have "\<bar>m * u - q\<bar> = \<bar>m - q / u\<bar> * u" using u by (simp only: abs_mult abs_of_pos)
  moreover have "\<bar>m - q / u\<bar> * u \<le> 1 / 2 * u"
    using round_half_even_error[of "q / u"] u unfolding m_def by (intro mult_right_mono) simp_all
  ultimately show ?thesis using half by simp
qed

subsection \<open>Text with two decimals\<close>

definition to_fixed2 :: "rat \<Rightarrow> string" where
  "to_fixed2 q = (let n = nat \<lfloor>\<bar>q\<bar> * 100 + 1 / 2\<rfloor> in
     (if q < 0 then ''-'' else []) @ show_nat (n div 100) @ ''.'' @
     [digit_char (n div 10 mod 10), digit_char (n mod 10)])"

lemma to_fixed2_near:
  assumes "\<bar>q - of_nat n / 100\<bar> < 1 / 200" and "0 \<le> q"
  shows "to_fixed2 q = show_nat (n div 100) @ ''.'' @ [digit_char (n div 10 mod 10), digit_char (n mod 10)]"
proof -
  have "\<bar>q * 100 - of_nat n\<bar> < 1 / 2" using assms(1) by (simp add: abs_if split: if_splits)
  then have "\<lfloor>q * 100 + 1 / 2\<rfloor> = int n" by (intro floor_unique) (simp_all add: abs_if split: if_splits)
  with assms(2) show ?thesis by (simp add: to_fixed2_def Let_def)
qed

text \<open>\<open>Math.round\<close>: the nearest integer, the larger one on a tie.\<close>

definition math_round :: "rat \<Rightarrow> int" where
  "math_round q = \<lfloor>q + 1 / 2\<rfloor>"

end
