(* ===== verification/Js_Date.thy ===== *)
theory Js_Date
  imports Js_Number
begin

section \<open>Dates as text\<close>

text \<open>
  \<open>Date.prototype.toISOString\<close> of the standard library, which the mock provider's records, the
  published envelopes and the paging cursor go through: proleptic Gregorian date and time of a
  number of milliseconds since 1970, UTC. Years outside 0 to 9999 get a sign and six digits.
\<close>

definition ms_per_day :: int where
  "ms_per_day = 86400000"

text \<open>
  Days since 1970-01-01 to a civil date. Days are counted from 1 March of year 0 in eras of 400
  years (146097 days), so that the leap day is the last day of a year that starts in March.
\<close>

definition year_of_era :: "int \<Rightarrow> int" where
  "year_of_era doe = (doe - doe div 1460 + doe div 36524 - doe div 146096) div 365"

definition civil_of_days :: "int \<Rightarrow> int \<times> int \<times> int" where
  "civil_of_days days =
    (let z = days + 719468; era = z div 146097; doe = z mod 146097; yoe = year_of_era doe;
         doy = doe - (365 * yoe + yoe div 4 - yoe div 100);
         mp = (5 * doy + 2) div 153;
         month = (if mp < 10 then mp + 3 else mp - 9)
     in (yoe + era * 400 + (if month \<le> 2 then 1 else 0), month, doy - (153 * mp + 2) div 5 + 1))"

definition pad_nat :: "nat \<Rightarrow> nat \<Rightarrow> string" where
  "pad_nat k n = replicate (k - length (show_nat n)) CHR ''0'' @ show_nat n"

definition show_year :: "int \<Rightarrow> string" where
  "show_year y =
    (if 0 \<le> y \<and> y \<le> 9999 then pad_nat 4 (nat y)
     else (if y < 0 then ''-'' else ''+'') @ pad_nat 6 (nat \<bar>y\<bar>))"

definition iso_string :: "timestamp \<Rightarrow> string" where
  "iso_string t =
    (let (y, month, day) = civil_of_days (t div ms_per_day); ms = nat (t mod ms_per_day)
     in show_year y @ ''-'' @ pad_nat 2 (nat month) @ ''-'' @ pad_nat 2 (nat day) @ ''T'' @
        pad_nat 2 (ms div 3600000) @ '':'' @ pad_nat 2 (ms div 60000 mod 60) @ '':'' @
        pad_nat 2 (ms div 1000 mod 60) @ ''.'' @ pad_nat 3 (ms mod 1000) @ ''Z'')"

lemma civil_samples:
  "civil_of_days 0 = (1970, 1, 1)" "civil_of_days 59 = (1970, 3, 1)"
  "civil_of_days 11016 = (2000, 2, 29)" "civil_of_days 20513 = (2026, 3, 1)"
  "civil_of_days (- 1) = (1969, 12, 31)" "civil_of_days 47540 = (2100, 2, 28)"
  "civil_of_days 47541 = (2100, 3, 1)"
  by code_simp+

end
