(* ===== verification/Order_Views.thy ===== *)
theory Order_Views
  imports Create_Order Js_Double Js_Date
begin

section \<open>Response bodies\<close>

text \<open>
  \<^verbatim>\<open>infrastructure/http/dto/\<close>: the response of \<open>POST /orders\<close> and the money and distance texts all
  responses share. A body is the JSON value that \<open>JSON.stringify\<close> prints, its fields in the order the
  object literal has them.
\<close>

definition METERS_PER_KILOMETER :: rat where "METERS_PER_KILOMETER = 1000"
definition METERS_PER_MILE :: rat where "METERS_PER_MILE = 1609344 / 1000"

text \<open>\<open>Math.round(q * 100) / 100\<close>, every step a double.\<close>

definition two_decimals :: "rat \<Rightarrow> rat" where
  "two_decimals q = double_of (of_int (math_round (double_of (q * 100))) / 100)"

definition format_distance :: "rat \<Rightarrow> json" where
  "format_distance meters = JObj [(''meters'', JNum (Num meters)),
     (''kilometers'', JNum (Num (two_decimals (double_of (meters / METERS_PER_KILOMETER))))),
     (''miles'', JNum (Num (two_decimals (double_of (meters / double_of METERS_PER_MILE)))))]"

definition format_cents_as_dollars :: "int \<Rightarrow> string" where
  "format_cents_as_dollars cents = to_fixed2 (double_of (of_int cents / 100))"

fun payment_status_text :: "payment_status \<Rightarrow> string" where
  "payment_status_text PS_PENDING = ''PENDING''"
| "payment_status_text PS_AUTHORIZED = ''AUTHORIZED''"
| "payment_status_text PS_CAPTURED = ''CAPTURED''"
| "payment_status_text PS_DECLINED = ''DECLINED''"
| "payment_status_text PS_FAILED = ''FAILED''"
| "payment_status_text PS_UNKNOWN = ''UNKNOWN''"
| "payment_status_text PS_REFUNDED = ''REFUNDED''"

definition json_int :: "int \<Rightarrow> json" where
  "json_int i = JNum (js_int i)"

definition order_response_item :: "uuid \<Rightarrow> string \<Rightarrow> string \<Rightarrow> int \<Rightarrow> int \<Rightarrow> json" where
  "order_response_item product sku name quantity cents = JObj [(''productId'', JStr product), (''sku'', JStr sku),
     (''name'', JStr name), (''quantity'', json_int quantity), (''unitPriceCents'', json_int cents),
     (''unitPriceDollars'', JStr (format_cents_as_dollars cents))]"

definition to_order_response :: "order \<Rightarrow> order_item list \<Rightarrow> allocation_result \<Rightarrow> payment_status \<Rightarrow> json" where
  "to_order_response o1 items alloc st = JObj
    [(''id'', JStr (ord_id o1)), (''orderNumber'', JStr (ord_number o1)),
     (''status'', JStr (order_status_text (ord_status o1))),
     (''warehouse'', JObj [(''id'', JStr (alloc_warehouse alloc)), (''name'', JStr (alloc_name alloc)),
        (''distance'', format_distance (alloc_distance alloc))]),
     (''items'', JArr (map (\<lambda>i. order_response_item (item_product i) (item_sku i) (item_name i) (item_quantity i)
        (amount_cents (item_unit_price i))) items)),
     (''totalCents'', json_int (amount_cents (ord_total o1))),
     (''totalDollars'', JStr (format_cents_as_dollars (amount_cents (ord_total o1)))),
     (''currency'', JStr (currency (ord_total o1))), (''paymentStatus'', JStr (payment_status_text st))]"

subsection \<open>Money as text\<close>

lemma parse_digits_append: "parse_digits (xs @ [c]) = 10 * parse_digits xs + digit_val c"
  by (simp add: parse_digits_def)

text \<open>
  The dollars a client sees are the cents the order has: below \<open>2 ^ 52\<close> cents, the text has the
  whole dollars, a point and two digits, and its digits read back as the number of cents, although
  the division by 100 is one of doubles.
\<close>

lemma dollars_show_the_cents:
  assumes "c < 2 ^ 52"
  shows "format_cents_as_dollars (int c) =
      show_nat (c div 100) @ ''.'' @ [digit_char (c div 10 mod 10), digit_char (c mod 10)] \<and>
    parse_digits (filter is_digit (format_cents_as_dollars (int c))) = c"
proof -
  let ?q = "of_nat c / 100 :: rat"
  have near: "\<bar>double_of ?q - of_nat c / 100\<bar> < 1 / 200 \<and> 0 \<le> double_of ?q"
  proof (cases "c = 0")
    case True
    then show ?thesis by (simp add: double_of_def)
  next
    case False
    then have pos: "0 < ?q" by simp
    have "(of_nat c :: rat) < of_nat (2 ^ 52)" using assms by (simp only: of_nat_less_iff)
    then have small: "?q / 2 ^ 53 < 1 / 200" by simp
    have "?q / 2 ^ 53 \<le> ?q" using pos by simp
    with double_of_error[OF pos] have "\<bar>double_of ?q - ?q\<bar> \<le> ?q" by (rule order_trans)
    then have "0 \<le> double_of ?q" by (simp only: abs_le_iff) linarith
    moreover from double_of_error[OF pos] small have "\<bar>double_of ?q - ?q\<bar> < 1 / 200"
      by (rule order.strict_trans1)
    ultimately show ?thesis by simp
  qed
  then have shown: "format_cents_as_dollars (int c) =
      show_nat (c div 100) @ ''.'' @ [digit_char (c div 10 mod 10), digit_char (c mod 10)]"
    using to_fixed2_near[of "double_of ?q" c] by (simp add: format_cents_as_dollars_def)
  have "filter is_digit (show_nat (c div 100)) = show_nat (c div 100)"
    using show_nat_digits by (auto simp: filter_id_conv)
  moreover have "\<not> is_digit CHR ''.''" by (simp add: is_digit_def)
  ultimately have "filter is_digit (format_cents_as_dollars (int c)) =
      (show_nat (c div 100) @ [digit_char (c div 10 mod 10)]) @ [digit_char (c mod 10)]"
    by (simp add: shown)
  then have "parse_digits (filter is_digit (format_cents_as_dollars (int c))) =
      10 * (10 * (c div 100) + c div 10 mod 10) + c mod 10"
    by (simp only: parse_digits_append) simp
  also have "c div 100 = c div 10 div 10" by (simp flip: div_mult2_eq)
  also have "10 * (c div 10 div 10) + c div 10 mod 10 = c div 10" by (rule mult_div_mod_eq)
  also have "10 * (c div 10) + c mod 10 = c" by (rule mult_div_mod_eq)
  finally show ?thesis using shown by simp
qed

end
