(* ===== verification/Problem_Details.thy ===== *)
theory Problem_Details
  imports Domain_Types Ports
begin

section \<open>Errors as problem documents\<close>

text \<open>
  \<^verbatim>\<open>infrastructure/http/filters/problem-details.filter.ts\<close>: the RFC 9457 body of every error. An error
  of the driver or a plain \<open>Error\<close> is none of the classes the filter names, so it is an internal
  server error. \<open>BadRequestException\<close> built from a text carries it as the \<open>message\<close> of its response,
  and the validation pipe's carries the list of its messages.
\<close>

record problem =
  prob_status :: nat
  prob_type :: string
  prob_title :: string
  prob_detail :: string
  prob_errors :: "(string \<times> string) list option" \<comment> \<open>field and message\<close>
  prob_order_id :: "uuid option"

definition plain_problem :: "nat \<Rightarrow> string \<Rightarrow> string \<Rightarrow> string \<Rightarrow> problem" where
  "plain_problem status ty title detail = \<lparr>prob_status = status, prob_type = ty, prob_title = title,
     prob_detail = detail, prob_errors = None, prob_order_id = None\<rparr>"

subsection \<open>Validation messages\<close>

definition whitelist_prefix :: string where "whitelist_prefix = ''property ''"
definition whitelist_suffix :: string where "whitelist_suffix = '' should not exist''"

definition line_break :: "char \<Rightarrow> bool" where
  "line_break c \<longleftrightarrow> (of_char c :: nat) = 10 \<or> (of_char c :: nat) = 13"

text \<open>\<open>/^property (.+) should not exist$/\<close> on texts of code units below 256.\<close>

definition whitelist_match :: "string \<Rightarrow> string option" where
  "whitelist_match t =
    (let m = take (length t - length whitelist_prefix - length whitelist_suffix) (drop (length whitelist_prefix) t)
     in if m \<noteq> [] \<and> t = whitelist_prefix @ m @ whitelist_suffix \<and> \<not> list_ex line_break m then Some m else None)"

definition validation_error :: "string \<Rightarrow> string \<times> string" where
  "validation_error t = (case whitelist_match t of
     Some f \<Rightarrow> (f, t)
   | None \<Rightarrow> (takeWhile (\<lambda>c. c \<noteq> CHR '' '') t, t))"

fun extract_validation_errors :: "response_message \<Rightarrow> (string \<times> string) list option" where
  "extract_validation_errors (MsgText m) = None"
| "extract_validation_errors (MsgList ms) = Some (map validation_error ms)"

subsection \<open>The mapping\<close>

text \<open>The dash of the detail is written as its three UTF-8 bytes.\<close>

definition unavailable_detail :: "uuid \<Rightarrow> string option \<Rightarrow> string" where
  "unavailable_detail oid c = ''Payment outcome unknown'' @ in_parens c @ ''. Order '' @ oid @
     '' is pending confirmation '' @ [char_of (226 :: nat), char_of (128 :: nat), char_of (148 :: nat)] @
     '' poll GET /orders/'' @ oid @ ''; do not retry with a new Idempotency-Key.''"

fun build_problem :: "app_error \<Rightarrow> problem" where
  "build_problem (BadRequestException m) = \<lparr>prob_status = 400, prob_type = ''urn:problem-type:invalid-payload'',
     prob_title = ''Invalid payload'', prob_detail = ''The request body or headers failed validation.'',
     prob_errors = extract_validation_errors m, prob_order_id = None\<rparr>"
| "build_problem (CustomerNotFoundError i) = plain_problem 404 ''urn:problem-type:not-found''
     ''Resource not found'' (error_message (CustomerNotFoundError i))"
| "build_problem (ProductNotFoundError ids) = plain_problem 404 ''urn:problem-type:not-found''
     ''Resource not found'' (error_message (ProductNotFoundError ids))"
| "build_problem (OrderNotFoundError i) = plain_problem 404 ''urn:problem-type:not-found''
     ''Resource not found'' (error_message (OrderNotFoundError i))"
| "build_problem (NoFulfilmentPossibleError ids r) =
     (if r = RESERVATION_RACE_LOST
      then plain_problem 409 ''urn:problem-type:inventory-reservation-conflict'' ''Inventory reservation conflict''
        (error_message (NoFulfilmentPossibleError ids r))
      else plain_problem 422 ''urn:problem-type:no-fulfilment-possible'' ''No fulfilment possible''
        (error_message (NoFulfilmentPossibleError ids r)))"
| "build_problem (GeocodingFailedError r m) = plain_problem 422 ''urn:problem-type:geocoding-failed''
     ''Geocoding failed'' (error_message (GeocodingFailedError r m))"
| "build_problem (PaymentDeclinedError oid c) = plain_problem 402 ''urn:problem-type:payment-declined''
     ''Payment declined'' (error_message (PaymentDeclinedError oid c))"
| "build_problem (PaymentProviderUnavailableError oid c) =
     (plain_problem 502 ''urn:problem-type:payment-provider-unavailable'' ''Payment provider unavailable''
        (unavailable_detail oid c))\<lparr>prob_order_id := Some oid\<rparr>"
| "build_problem (HttpException st n m) = plain_problem st ''about:blank'' n m"
| "build_problem (ExposedHttpError st n m) = plain_problem st ''about:blank'' n m"
| "build_problem _ = plain_problem 500 ''about:blank'' ''Internal server error'' ''An unexpected error occurred.''"

subsection \<open>The document and the filter\<close>

definition error_item :: "string \<times> string \<Rightarrow> json" where
  "error_item e = JObj [(''field'', JStr (fst e)), (''message'', JStr (snd e))]"

text \<open>The correlation id is the empty text outside a request context; an empty \<open>orderId\<close> is left out.\<close>

definition problem_details :: "problem \<Rightarrow> string \<Rightarrow> string option \<Rightarrow> json" where
  "problem_details p instance_path correlation = JObj
    ([(''type'', JStr (prob_type p)), (''title'', JStr (prob_title p)), (''status'', JNum (js_int (int (prob_status p)))),
      (''detail'', JStr (prob_detail p)), (''instance'', JStr instance_path),
      (''correlationId'', JStr (case correlation of None \<Rightarrow> [] | Some c \<Rightarrow> c))] @
     (case prob_errors p of None \<Rightarrow> [] | Some es \<Rightarrow> [(''errors'', JArr (map error_item es))]) @
     (case prob_order_id p of None \<Rightarrow> [] | Some i \<Rightarrow> if i = [] then [] else [(''orderId'', JStr i)]))"

record http_reply =
  rp_status :: nat
  rp_media_type :: string
  rp_body :: json

text \<open>\<open>ProblemDetailsFilter.catch\<close>: the reply, and the error when it is logged.\<close>

definition catch_exception :: "app_error \<Rightarrow> string \<Rightarrow> string option \<Rightarrow> http_reply \<times> app_error option" where
  "catch_exception e url correlation =
    (let p = build_problem e in
     (\<lparr>rp_status = prob_status p, rp_media_type = ''application/problem+json'',
       rp_body = problem_details p url correlation\<rparr>,
      if 500 \<le> prob_status p then Some e else None))"

subsection \<open>Properties\<close>

text \<open>Errors the filter does not name: they reach the client as one fixed document.\<close>

fun internal_error :: "app_error \<Rightarrow> bool" where
  "internal_error (JsError m) = True"
| "internal_error (InsufficientStockError ids) = True"
| "internal_error (InvalidCursorError c) = True"
| "internal_error (UnroutedEventError t) = True"
| "internal_error (QueryFailedError c) = True"
| "internal_error EntityNotFoundError = True"
| "internal_error _ = False"

lemma build_problem_internal:
  "internal_error e \<Longrightarrow> build_problem e = plain_problem 500 ''about:blank'' ''Internal server error'' ''An unexpected error occurred.''"
  by (cases e) simp_all

lemma takeWhile_path: "CHR '' '' \<notin> set path \<Longrightarrow> takeWhile (\<lambda>c. c \<noteq> CHR '' '') (path @ CHR '' '' # rest) = path"
  by (induction path) auto

lemma whitelist_matched:
  assumes "f \<noteq> []" and "\<not> list_ex line_break f"
  shows "whitelist_match (whitelist_prefix @ f @ whitelist_suffix) = Some f"
  using assms by (simp add: whitelist_match_def Let_def)

text \<open>
  C26. What a client learns from an error. A failure the API has no class for (a driver error, a
  broken invariant, a plain \<open>Error\<close>) becomes the same 500 document whatever it says, so nothing
  internal leaks, and exactly errors of status 500 or more are logged. A rejected property is
  reported under its own name, and every other validation message under the path it starts with.
  Only an unavailable payment provider's document carries an order id.
\<close>

theorem problem_document_shape:
  "(internal_error e \<and> internal_error e' \<longrightarrow>
      fst (catch_exception e url correlation) = fst (catch_exception e' url correlation) \<and>
      rp_status (fst (catch_exception e url correlation)) = 500) \<and>
   (snd (catch_exception e url correlation) = (if 500 \<le> rp_status (fst (catch_exception e url correlation))
      then Some e else None)) \<and>
   (f \<noteq> [] \<and> \<not> list_ex line_break f \<longrightarrow>
      validation_error (whitelist_prefix @ f @ whitelist_suffix) = (f, whitelist_prefix @ f @ whitelist_suffix)) \<and>
   (CHR '' '' \<notin> set path \<and> path \<noteq> ''property'' \<longrightarrow>
      validation_error (path @ CHR '' '' # rest) = (path, path @ CHR '' '' # rest)) \<and>
   (prob_order_id (build_problem e) \<noteq> None \<longleftrightarrow> (\<exists>oid c. e = PaymentProviderUnavailableError oid c))"
proof (intro conjI impI)
  assume i: "internal_error e \<and> internal_error e'"
  then show "fst (catch_exception e url correlation) = fst (catch_exception e' url correlation)"
    "rp_status (fst (catch_exception e url correlation)) = 500"
    by (simp_all add: catch_exception_def build_problem_internal plain_problem_def)
next
  show "snd (catch_exception e url correlation) = (if 500 \<le> rp_status (fst (catch_exception e url correlation))
      then Some e else None)"
    by (simp add: catch_exception_def Let_def)
next
  assume "f \<noteq> [] \<and> \<not> list_ex line_break f"
  then show "validation_error (whitelist_prefix @ f @ whitelist_suffix) = (f, whitelist_prefix @ f @ whitelist_suffix)"
    by (simp add: validation_error_def whitelist_matched)
next
  assume p: "CHR '' '' \<notin> set path \<and> path \<noteq> ''property''"
  have "whitelist_match (path @ CHR '' '' # rest) = None"
  proof (rule ccontr)
    assume "whitelist_match (path @ CHR '' '' # rest) \<noteq> None"
    then obtain m where "path @ CHR '' '' # rest = whitelist_prefix @ m"
      by (auto simp: whitelist_match_def Let_def split: if_splits)
    then have "takeWhile (\<lambda>c. c \<noteq> CHR '' '') (path @ CHR '' '' # rest) = ''property''"
      by (simp add: whitelist_prefix_def)
    moreover have "takeWhile (\<lambda>c. c \<noteq> CHR '' '') (path @ CHR '' '' # rest) = path"
      by (rule takeWhile_path) (use p in simp)
    ultimately show False using p by simp
  qed
  then show "validation_error (path @ CHR '' '' # rest) = (path, path @ CHR '' '' # rest)"
    using p by (simp add: validation_error_def takeWhile_path)
next
  show "prob_order_id (build_problem e) \<noteq> None \<longleftrightarrow> (\<exists>oid c. e = PaymentProviderUnavailableError oid c)"
    by (cases e) (simp_all add: plain_problem_def)
qed

theorem problem_document_shape_witness:
  "validation_error ''property card should not exist'' = (''card'', ''property card should not exist'') \<and>
   validation_error ''items.0.quantity must not be less than 1'' =
     (''items.0.quantity'', ''items.0.quantity must not be less than 1'') \<and>
   rp_status (fst (catch_exception (QueryFailedError SQL_UNIQUE_23505) ''/orders'' None)) = 500"
proof -
  have "validation_error (whitelist_prefix @ ''card'' @ whitelist_suffix) = (''card'', whitelist_prefix @ ''card'' @ whitelist_suffix)"
    "validation_error (''items.0.quantity'' @ CHR '' '' # ''must not be less than 1'') =
      (''items.0.quantity'', ''items.0.quantity'' @ CHR '' '' # ''must not be less than 1'')"
    "rp_status (fst (catch_exception (QueryFailedError SQL_UNIQUE_23505) ''/orders'' None)) = 500"
    using problem_document_shape[where e = "QueryFailedError SQL_UNIQUE_23505" and e' = EntityNotFoundError and
        url = "''/orders''" and correlation = None and f = "''card''" and path = "''items.0.quantity''" and
        rest = "''must not be less than 1''"]
    by (auto simp: line_break_def)
  then show ?thesis by (simp add: whitelist_prefix_def whitelist_suffix_def)
qed

end
