(* ===== verification/Json_Text.thy ===== *)
theory Json_Text
  imports Ports "HOL-Library.Multiset" "HOL-Library.List_Lexorder" "HOL-Library.Char_ord"
begin

section \<open>JSON as text, canonical JSON and JSON in the database\<close>

text \<open>
  \<open>JSON.stringify\<close> and \<open>String(n)\<close> of the standard library (the text of a fraction is the argument
  \<open>fraction_text\<close>), the key sorting of \<^verbatim>\<open>application/orders/idempotency.repository.ts\<close>, and what a
  Postgres \<open>jsonb\<close> column gives back: the same value with the entries of every object ordered by the
  length of their names and then by their bytes. \<open>localeCompare\<close> compares collation keys, which are
  the argument \<open>collate\<close>.
\<close>

subsection \<open>Text\<close>

definition js_num_text :: "(rat \<Rightarrow> string) \<Rightarrow> js_num \<Rightarrow> string" where
  "js_num_text fraction_text n = (case n of
     Num q \<Rightarrow> if of_int \<lfloor>q\<rfloor> = q \<and> \<bar>q\<bar> < 10 ^ 21 then show_int \<lfloor>q\<rfloor> else fraction_text q
   | NaN \<Rightarrow> ''NaN'' | PosInf \<Rightarrow> ''Infinity'' | NegInf \<Rightarrow> ''-Infinity'')"

definition hex_lower :: "nat \<Rightarrow> char" where
  "hex_lower n = (if n < 10 then char_of (48 + n) else char_of (87 + n))"

definition json_char :: "char \<Rightarrow> string" where
  "json_char c = (let n = (of_char c :: nat) in
     if n = 34 then [CHR 0x5C, CHR 0x22]
     else if n = 92 then [CHR 0x5C, CHR 0x5C]
     else if n = 8 then CHR 0x5C # ''b''
     else if n = 12 then CHR 0x5C # ''f''
     else if n = 10 then CHR 0x5C # ''n''
     else if n = 13 then CHR 0x5C # ''r''
     else if n = 9 then CHR 0x5C # ''t''
     else if n < 32 then CHR 0x5C # ''u00'' @ [hex_lower (n div 16), hex_lower (n mod 16)]
     else [c])"

definition json_string :: "string \<Rightarrow> string" where
  "json_string s = CHR 0x22 # concat (map json_char s) @ [CHR 0x22]"

fun json_text :: "(rat \<Rightarrow> string) \<Rightarrow> json \<Rightarrow> string" where
  "json_text ft JNull = ''null''"
| "json_text ft (JBool b) = (if b then ''true'' else ''false'')"
| "json_text ft (JNum n) = (if is_finite n then js_num_text ft n else ''null'')"
| "json_text ft (JStr s) = json_string s"
| "json_text ft (JArr xs) = ''['' @ js_join '','' (map (json_text ft) xs) @ '']''"
| "json_text ft (JObj kvs) = ''{'' @ js_join '','' (map (\<lambda>(k, v). json_string k @ '':'' @ json_text ft v) kvs) @ ''}''"

subsection \<open>Canonical JSON\<close>

function canonicalize :: "(string \<Rightarrow> string) \<Rightarrow> json \<Rightarrow> json" where
  "canonicalize collate (JArr xs) = JArr (map (canonicalize collate) xs)"
| "canonicalize collate (JObj kvs) = JObj (map (\<lambda>(k, v). (k, canonicalize collate v))
     (sort_key (\<lambda>e. collate (fst e)) kvs))"
| "canonicalize collate JNull = JNull"
| "canonicalize collate (JBool b) = JBool b"
| "canonicalize collate (JNum n) = JNum n"
| "canonicalize collate (JStr s) = JStr s"
  by pat_completeness auto

lemma json_entry_size: "(k, v) \<in> set kvs \<Longrightarrow> size v < Suc (size_list (size_prod (\<lambda>x. 0) size) kvs)"
  by (induction kvs) auto

lemma json_element_size: "v \<in> set xs \<Longrightarrow> size v < Suc (size_list size xs)"
  by (induction xs) auto

termination canonicalize
  by (relation "measure (\<lambda>(c, j). size j)") (auto dest: json_entry_size json_element_size)

text \<open>Two JSON values that differ only in the order of object entries.\<close>

inductive same_fields :: "json \<Rightarrow> json \<Rightarrow> bool" where
  atom: "same_fields j j"
| arrays: "list_all2 same_fields xs ys \<Longrightarrow> same_fields (JArr xs) (JArr ys)"
| objects: "list_all2 (\<lambda>e e'. fst e = fst e' \<and> same_fields (snd e) (snd e')) kvs kvs1 \<Longrightarrow>
    mset kvs1 = mset kvs2 \<Longrightarrow> distinct (map fst kvs) \<Longrightarrow> same_fields (JObj kvs) (JObj kvs2)"

lemma sort_key_inj:
  assumes "mset xs = mset ys" and "distinct (map fst xs)" and "inj_on c (fst ` set xs)"
  shows "sort_key (\<lambda>e. c (fst e)) xs = sort_key (\<lambda>e. c (fst e)) ys"
proof (rule sort_key_inj_key_eq)
  show "mset xs = mset (sort_key (\<lambda>e. c (fst e)) ys)" using assms(1) by simp
  show "inj_on (\<lambda>e. c (fst e)) (set xs)"
  proof (rule inj_onI)
    fix x y
    assume xy: "x \<in> set xs" "y \<in> set xs" "c (fst x) = c (fst y)"
    then have "fst x = fst y" using assms(3) by (auto dest: inj_onD)
    with xy assms(2) show "x = y" by (auto simp: distinct_map dest: inj_onD)
  qed
qed simp

lemma sort_key_list_all2:
  assumes "list_all2 P xs ys" and "\<And>x y. P x y \<Longrightarrow> f x = g y"
  shows "list_all2 P (sort_key f xs) (sort_key g ys)"
proof -
  have insort: "list_all2 P (insort_key f x as) (insort_key g y bs)"
    if "P x y" "list_all2 P as bs" for x y as bs
    using that(2,1) assms(2) by (induction rule: list_all2_induct) auto
  show ?thesis using assms(1) by (induction rule: list_all2_induct) (auto intro: insort)
qed

lemma canonicalize_same_fields:
  assumes "inj collate" and "same_fields a b"
  shows "canonicalize collate a = canonicalize collate b"
  using assms(2)
proof (induction rule: same_fields.induct)
  case (atom j)
  then show ?case by simp
next
  case (arrays xs ys)
  from arrays.IH have "map (canonicalize collate) xs = map (canonicalize collate) ys"
    by (induction rule: list_all2_induct) auto
  then show ?case by simp
next
  case (objects kvs kvs1 kvs2)
  let ?s = "sort_key (\<lambda>e. collate (fst e))" and ?c = "\<lambda>(k, v). (k, canonicalize collate v)"
  from objects.IH have "list_all2 (\<lambda>e e'. fst e = fst e' \<and> canonicalize collate (snd e) = canonicalize collate (snd e'))
      kvs kvs1"
    by (auto elim!: list_all2_mono)
  then have sorted: "list_all2 (\<lambda>e e'. fst e = fst e' \<and> canonicalize collate (snd e) = canonicalize collate (snd e'))
      (?s kvs) (?s kvs1)" by (rule sort_key_list_all2) simp
  have "map ?c (?s kvs) = map ?c (?s kvs1)"
    using sorted by (induction rule: list_all2_induct) auto
  moreover have "map fst kvs = map fst kvs1"
    using objects.IH by (induction rule: list_all2_induct) auto
  with objects.hyps(2) have "distinct (map fst kvs1)" by simp
  then have "?s kvs1 = ?s kvs2"
    using objects.hyps(1) assms(1) by (intro sort_key_inj) (auto intro: inj_on_subset)
  ultimately show ?case by simp
qed

subsection \<open>A jsonb column\<close>

function jsonb_value :: "json \<Rightarrow> json" where
  "jsonb_value (JArr xs) = JArr (map jsonb_value xs)"
| "jsonb_value (JObj kvs) = JObj (map (\<lambda>(k, v). (k, jsonb_value v))
     (sort_key (\<lambda>e. length (fst e)) (sort_key fst kvs)))"
| "jsonb_value (JNum n) = (if is_finite n then JNum n else JNull)"
| "jsonb_value JNull = JNull"
| "jsonb_value (JBool b) = JBool b"
| "jsonb_value (JStr s) = JStr s"
  by pat_completeness auto

termination jsonb_value
  by (relation "measure size") (auto dest: json_entry_size json_element_size)

end
