(* ===== verification/Idempotency.thy ===== *)
theory Idempotency
  imports Create_Order Order_Views Problem_Details Json_Text
begin

section \<open>Idempotent order creation\<close>

text \<open>
  \<^verbatim>\<open>application/orders/create-order-idempotent.service.ts\<close>, \<^verbatim>\<open>idempotency.repository.ts\<close> and the
  \<open>POST /orders\<close> action of \<^verbatim>\<open>http/controllers/orders.controller.ts\<close>. The key table stands beside the
  database of the saga. Every statement on it is its own transaction, so another request can run
  between any two; the statements are functions on the table. A response body is stored in a
  \<open>jsonb\<close> column. \<open>isUUID\<close> of class-validator, SHA-256, collation keys and the text of fractions are
  arguments; \<open>id_write_fails k\<close> is the driver error of the \<open>k\<close>-th write of a response, if it has one.
\<close>

subsection \<open>The table\<close>

datatype idempotency_state = IN_PROGRESS | COMPLETED

record key_row =
  key_id :: uuid
  key_scope :: string
  key_text :: string
  key_fingerprint :: string
  key_state :: idempotency_state
  key_order :: "uuid option"
  key_status :: "nat option"
  key_body :: "json option"
  key_created_at :: timestamp
  key_expires_at :: timestamp

definition SCOPE :: string where "SCOPE = ''POST /orders''"
definition IDEMPOTENCY_KEY_TTL_HOURS :: int where "IDEMPOTENCY_KEY_TTL_HOURS = 24"

record idem_env =
  id_saga :: saga_env
  id_is_uuid :: "string \<Rightarrow> bool"
  id_sha256 :: "string \<Rightarrow> string"
  id_collate :: "string \<Rightarrow> string"
  id_fraction_text :: "rat \<Rightarrow> string"
  id_row_id :: uuid
  id_clock :: timestamp \<comment> \<open>\<open>Date.now()\<close>\<close>
  id_now :: timestamp \<comment> \<open>Postgres \<open>now()\<close>\<close>
  id_correlation :: "string option"
  id_write_fails :: "nat \<Rightarrow> app_error option"

definition compute_request_fingerprint :: "idem_env \<Rightarrow> json \<Rightarrow> string" where
  "compute_request_fingerprint env body =
     id_sha256 env (json_text (id_fraction_text env) (canonicalize (id_collate env) body))"

definition insert_in_progress ::
  "idem_env \<Rightarrow> string \<Rightarrow> string \<Rightarrow> key_row list \<Rightarrow> app_error + (uuid \<times> key_row list)" where
  "insert_in_progress env key fp ks =
    (if (\<exists>r \<in> set ks. (key_scope r = SCOPE \<and> key_text r = key) \<or> key_id r = id_row_id env)
     then Inl (QueryFailedError SQL_UNIQUE_23505)
     else Inr (id_row_id env, ks @ [\<lparr>key_id = id_row_id env, key_scope = SCOPE, key_text = key,
       key_fingerprint = fp, key_state = IN_PROGRESS, key_order = None, key_status = None, key_body = None,
       key_created_at = id_now env,
       key_expires_at = id_clock env + IDEMPOTENCY_KEY_TTL_HOURS * 60 * 60 * 1000\<rparr>]))"

definition find_active_by_key :: "idem_env \<Rightarrow> string \<Rightarrow> key_row list \<Rightarrow> key_row option" where
  "find_active_by_key env key ks =
     find (\<lambda>r. key_scope r = SCOPE \<and> key_text r = key \<and> id_now env < key_expires_at r) ks"

definition completed_row :: "uuid option \<Rightarrow> nat \<Rightarrow> json \<Rightarrow> key_row \<Rightarrow> key_row" where
  "completed_row oid status body r = r\<lparr>key_state := COMPLETED, key_order := oid, key_status := Some status,
     key_body := Some (jsonb_value body)\<rparr>"

definition mark_completed ::
  "idem_env \<Rightarrow> nat \<Rightarrow> uuid \<Rightarrow> uuid option \<Rightarrow> nat \<Rightarrow> json \<Rightarrow> db \<Rightarrow> key_row list \<Rightarrow> app_error + key_row list" where
  "mark_completed env k i oid status body d ks =
    (case id_write_fails env k of Some e \<Rightarrow> Inl e
     | None \<Rightarrow>
         if i \<in> key_id ` set ks \<and> (case oid of None \<Rightarrow> False | Some x \<Rightarrow> \<not> order_exists d x)
         then Inl (QueryFailedError SQL_FK_23503)
         else Inr (update_rows (\<lambda>r. key_id r = i) (completed_row oid status body) ks))"

subsection \<open>Beginning a request\<close>

datatype begun = NewRequest uuid | ReplayedRequest nat json

definition is_unique_violation :: "app_error \<Rightarrow> bool" where
  "is_unique_violation e \<longleftrightarrow> e = QueryFailedError SQL_UNIQUE_23505"

definition assert_valid_idempotency_key :: "idem_env \<Rightarrow> string option \<Rightarrow> app_error + string" where
  "assert_valid_idempotency_key env key = (case key of
     None \<Rightarrow> Inl (BadRequestException (MsgText ''Idempotency-Key header is required''))
   | Some t \<Rightarrow>
       if t = [] then Inl (BadRequestException (MsgText ''Idempotency-Key header is required''))
       else if \<not> id_is_uuid env t then Inl (BadRequestException (MsgText ''Idempotency-Key header must be a UUID''))
       else Inr t)"

text \<open>\<open>responseBody\<close> is cast to the response type, so a null body is sent as it is.\<close>

definition begin_idempotent_request ::
  "idem_env \<Rightarrow> string \<Rightarrow> string \<Rightarrow> key_row list \<Rightarrow> (app_error + begun) \<times> key_row list" where
  "begin_idempotent_request env key fp ks =
    (case insert_in_progress env key fp ks of
       Inr (i, ks1) \<Rightarrow> (Inr (NewRequest i), ks1)
     | Inl e \<Rightarrow>
         if \<not> is_unique_violation e then (Inl e, ks)
         else (case find_active_by_key env key ks of
             None \<Rightarrow> (Inl e, ks)
           | Some r \<Rightarrow>
               if key_fingerprint r \<noteq> fp
               then (Inl (UnprocessableEntityException
                 ''Idempotency-Key was already used with a different request body''), ks)
               else if key_state r = IN_PROGRESS
               then (Inl (ConflictException ''A request with this Idempotency-Key is still being processed''), ks)
               else (Inr (ReplayedRequest (case key_status r of None \<Rightarrow> 200 | Some s \<Rightarrow> s)
                 (case key_body r of None \<Rightarrow> JNull | Some b \<Rightarrow> b)), ks)))"

subsection \<open>Running the saga and recording its outcome\<close>

record create_order_dto =
  dto_json :: json \<comment> \<open>the validated body as a JSON value\<close>
  dto_customer :: uuid
  dto_address :: address
  dto_items :: "order_line list"
  dto_card_number :: string

definition command_of_dto :: "create_order_dto \<Rightarrow> string \<Rightarrow> create_order_command" where
  "command_of_dto dto key = \<lparr>co_customer = dto_customer dto, co_address = dto_address dto,
     co_lines = dto_items dto, co_card_number = dto_card_number dto, co_idempotency_key = key\<rparr>"

record 'g api =
  ap_world :: "'g world"
  ap_keys :: "key_row list"

definition mark_step ::
  "idem_env \<Rightarrow> nat \<Rightarrow> uuid \<Rightarrow> uuid option \<Rightarrow> nat \<Rightarrow> json \<Rightarrow> 'g api \<Rightarrow> (app_error + unit) \<times> 'g api" where
  "mark_step env k i oid status body s =
    (case mark_completed env k i oid status body (w_db (ap_world s)) (ap_keys s) of
       Inl e \<Rightarrow> (Inl e, s) | Inr ks \<Rightarrow> (Inr (), s\<lparr>ap_keys := ks\<rparr>))"

text \<open>The order of a 402 or 502 exists by the time it is thrown.\<close>

fun recorded_order :: "app_error \<Rightarrow> uuid option" where
  "recorded_order (PaymentDeclinedError oid c) = Some oid"
| "recorded_order (PaymentProviderUnavailableError oid c) = Some oid"
| "recorded_order _ = None"

definition record_failure ::
  "idem_env \<Rightarrow> uuid \<Rightarrow> string \<Rightarrow> app_error \<Rightarrow> 'g api \<Rightarrow> (app_error + (nat \<times> json)) \<times> 'g api" where
  "record_failure env i url e =
    (let p = build_problem e in
     bindE (mark_step env 1 i (recorded_order e) (prob_status p) (problem_details p url (id_correlation env)))
       (\<lambda>_. throwE e))"

definition saga_step ::
  "('g world \<Rightarrow> (app_error + saga_result) \<times> 'g world) \<Rightarrow> 'g api \<Rightarrow> (app_error + saga_result) \<times> 'g api" where
  "saga_step m s = (case m (ap_world s) of (r, w) \<Rightarrow> (r, s\<lparr>ap_world := w\<rparr>))"

definition order_response_of :: "saga_result \<Rightarrow> json" where
  "order_response_of r = to_order_response (sr_order r) (sr_items r) (sr_allocation r) (pay_status (sr_payment r))"

text \<open>The \<open>try\<close> block covers the write of the success, so its failure is recorded as an error too.\<close>

definition run_and_record ::
  "(create_order_command \<Rightarrow> 'g world \<Rightarrow> (app_error + saga_result) \<times> 'g world) \<Rightarrow> idem_env \<Rightarrow> uuid \<Rightarrow> string \<Rightarrow>
   create_order_dto \<Rightarrow> string \<Rightarrow> 'g api \<Rightarrow> (app_error + (nat \<times> json)) \<times> 'g api" where
  "run_and_record saga env i key dto url s =
    (case bindE (saga_step (saga (command_of_dto dto key))) (\<lambda>r.
         bindE (mark_step env 0 i (Some (ord_id (sr_order r))) 201 (order_response_of r)) (\<lambda>_.
         returnE (201, order_response_of r))) s of
       (Inr reply, s1) \<Rightarrow> (Inr reply, s1)
     | (Inl e, s1) \<Rightarrow> record_failure env i url e s1)"

definition begin_step ::
  "idem_env \<Rightarrow> string \<Rightarrow> json \<Rightarrow> 'g api \<Rightarrow> (app_error + begun) \<times> 'g api" where
  "begin_step env key body s =
    (case begin_idempotent_request env key (compute_request_fingerprint env body) (ap_keys s) of
       (r, ks) \<Rightarrow> (r, s\<lparr>ap_keys := ks\<rparr>))"

definition execute_idempotent ::
  "(create_order_command \<Rightarrow> 'g world \<Rightarrow> (app_error + saga_result) \<times> 'g world) \<Rightarrow> idem_env \<Rightarrow> string option \<Rightarrow>
   create_order_dto \<Rightarrow> string \<Rightarrow> 'g api \<Rightarrow> (app_error + (nat \<times> json)) \<times> 'g api" where
  "execute_idempotent saga env header dto url =
    bindE (\<lambda>s. (assert_valid_idempotency_key env header, s)) (\<lambda>key.
    bindE (begin_step env key (dto_json dto)) (\<lambda>b. case b of
        ReplayedRequest st body \<Rightarrow> returnE (st, body)
      | NewRequest i \<Rightarrow> run_and_record saga env i key dto url))"

text \<open>\<open>OrdersController.create\<close> under the filter: a returned body is plain JSON, a throw a problem document.\<close>

definition post_orders ::
  "(create_order_command \<Rightarrow> 'g world \<Rightarrow> (app_error + saga_result) \<times> 'g world) \<Rightarrow> idem_env \<Rightarrow> string option \<Rightarrow>
   create_order_dto \<Rightarrow> string \<Rightarrow> 'g api \<Rightarrow> http_reply \<times> 'g api" where
  "post_orders saga env header dto url s =
    (case execute_idempotent saga env header dto url s of
       (Inr (st, body), s1) \<Rightarrow> (\<lparr>rp_status = st, rp_media_type = ''application/json'', rp_body = body\<rparr>, s1)
     | (Inl e, s1) \<Rightarrow> (fst (catch_exception e url (id_correlation env)), s1))"

subsection \<open>Facts on the table\<close>

definition row_of_key :: "string \<Rightarrow> key_row list \<Rightarrow> key_row option" where
  "row_of_key key ks = find (\<lambda>r. key_scope r = SCOPE \<and> key_text r = key) ks"

definition keys_distinct :: "key_row list \<Rightarrow> bool" where
  "keys_distinct ks \<longleftrightarrow> distinct (map (\<lambda>r. (key_scope r, key_text r)) ks) \<and> distinct (map key_id ks)"

lemma find_active_row:
  assumes "keys_distinct ks" and "row_of_key key ks = Some r"
  shows "find_active_by_key env key ks = (if id_now env < key_expires_at r then Some r else None)"
proof -
  have r: "r \<in> set ks" "key_scope r = SCOPE" "key_text r = key"
    using assms(2) by (auto simp: row_of_key_def find_Some_iff)
  have only: "x = r" if "x \<in> set ks" "key_scope x = SCOPE" "key_text x = key" for x
  proof -
    have "inj_on (\<lambda>r. (key_scope r, key_text r)) (set ks)"
      using assms(1) by (simp add: keys_distinct_def distinct_map)
    from inj_onD[OF this _ that(1) r(1)] that r show ?thesis by simp
  qed
  show ?thesis
  proof (cases "id_now env < key_expires_at r")
    case True
    then have "find_active_by_key env key ks \<noteq> None"
      using r by (auto simp: find_active_by_key_def find_None_iff)
    then obtain x where x: "find_active_by_key env key ks = Some x" by blast
    then have "x \<in> set ks \<and> key_scope x = SCOPE \<and> key_text x = key"
      by (auto simp: find_active_by_key_def find_Some_iff)
    with only x True show ?thesis by simp
  next
    case False
    then show ?thesis using only by (auto simp: find_active_by_key_def find_None_iff)
  qed
qed

lemma begin_existing:
  assumes "keys_distinct ks" and "row_of_key key ks = Some r"
  shows "begin_idempotent_request env key fp ks =
    ((if \<not> id_now env < key_expires_at r then Inl (QueryFailedError SQL_UNIQUE_23505)
      else if key_fingerprint r \<noteq> fp then Inl (UnprocessableEntityException
        ''Idempotency-Key was already used with a different request body'')
      else if key_state r = IN_PROGRESS
      then Inl (ConflictException ''A request with this Idempotency-Key is still being processed'')
      else Inr (ReplayedRequest (case key_status r of None \<Rightarrow> 200 | Some s \<Rightarrow> s)
        (case key_body r of None \<Rightarrow> JNull | Some b \<Rightarrow> b))), ks)"
proof -
  have "r \<in> set ks \<and> key_scope r = SCOPE \<and> key_text r = key"
    using assms(2) by (auto simp: row_of_key_def find_Some_iff)
  then have "insert_in_progress env key fp ks = Inl (QueryFailedError SQL_UNIQUE_23505)"
    by (auto simp: insert_in_progress_def)
  then show ?thesis
    by (simp add: begin_idempotent_request_def find_active_row[OF assms] is_unique_violation_def)
qed

lemma begin_new:
  assumes "row_of_key key ks = None" and "id_row_id env \<notin> key_id ` set ks"
  shows "\<exists>r. begin_idempotent_request env key fp ks = (Inr (NewRequest (id_row_id env)), ks @ [r]) \<and>
    key_id r = id_row_id env \<and> key_scope r = SCOPE \<and> key_text r = key \<and> key_fingerprint r = fp \<and>
    key_state r = IN_PROGRESS \<and> key_expires_at r = id_clock env + 86400000"
  using assms
  by (auto simp: begin_idempotent_request_def insert_in_progress_def row_of_key_def find_None_iff image_iff
      IDEMPOTENCY_KEY_TTL_HOURS_def)

lemma execute_begins:
  assumes "key \<noteq> []" and "id_is_uuid env key"
  shows "execute_idempotent saga env (Some key) dto url s =
    bindE (begin_step env key (dto_json dto)) (\<lambda>b. case b of
        ReplayedRequest st body \<Rightarrow> returnE (st, body)
      | NewRequest i \<Rightarrow> run_and_record saga env i key dto url) s"
  using assms by (simp add: execute_idempotent_def assert_valid_idempotency_key_def bindE_def[of "\<lambda>s. (Inr key, s)"])

subsection \<open>One run per key\<close>

text \<open>
  The table under any interleaving of requests: a begin, whatever its result, and the writes of the
  requests that were told to run. \<open>started\<close> lists the keys and row ids of those requests.
\<close>

inductive key_step :: "key_row list \<times> (string \<times> uuid) list \<Rightarrow> key_row list \<times> (string \<times> uuid) list \<Rightarrow> bool" where
  begins: "begin_idempotent_request env key fp ks = (Inr (NewRequest i), ks') \<Longrightarrow>
    key_step (ks, started) (ks', started @ [(key, i)])"
| refused: "begin_idempotent_request env key fp ks = (r, ks') \<Longrightarrow> (\<forall>i. r \<noteq> Inr (NewRequest i)) \<Longrightarrow>
    key_step (ks, started) (ks', started)"
| records: "(key, i) \<in> set started \<Longrightarrow> mark_completed env k i oid status body d ks = Inr ks' \<Longrightarrow>
    key_step (ks, started) (ks', started)"

fun started_ok :: "key_row list \<times> (string \<times> uuid) list \<Rightarrow> bool" where
  "started_ok (ks, started) \<longleftrightarrow> distinct (map fst started) \<and> distinct (map snd started) \<and>
     (\<forall>key i. (key, i) \<in> set started \<longrightarrow>
        (\<exists>r \<in> set ks. key_scope r = SCOPE \<and> key_text r = key \<and> key_id r = i))"

lemma begin_new_row:
  assumes "begin_idempotent_request env key fp ks = (Inr (NewRequest i), ks')"
  shows "\<exists>r. ks' = ks @ [r] \<and> key_scope r = SCOPE \<and> key_text r = key \<and> key_id r = i \<and>
    (\<forall>x \<in> set ks. \<not> (key_scope x = SCOPE \<and> key_text x = key) \<and> key_id x \<noteq> i)"
  using assms by (auto simp: begin_idempotent_request_def insert_in_progress_def split: sum.splits if_splits
      option.splits)

lemma begin_refused_same:
  assumes "begin_idempotent_request env key fp ks = (r, ks')" and "\<forall>i. r \<noteq> Inr (NewRequest i)"
  shows "ks' = ks"
  using assms by (auto simp: begin_idempotent_request_def split: sum.splits if_splits option.splits)

lemma key_step_ok:
  assumes "key_step a b" and "started_ok a"
  shows "started_ok b"
  using assms(1)
proof cases
  case (begins env key fp ks i ks' started)
  from begin_new_row[OF begins(3)] obtain r where r: "ks' = ks @ [r]" "key_scope r = SCOPE" "key_text r = key"
    "key_id r = i" "\<forall>x \<in> set ks. \<not> (key_scope x = SCOPE \<and> key_text x = key) \<and> key_id x \<noteq> i" by blast
  have old: "\<exists>x \<in> set ks. key_scope x = SCOPE \<and> key_text x = k0 \<and> key_id x = i0" if "(k0, i0) \<in> set started" for k0 i0
    using assms(2) that by (auto simp: begins(1))
  have "key \<notin> fst ` set started" "i \<notin> snd ` set started"
    using old r(5) by fastforce+
  with assms(2) old r show ?thesis by (auto simp: begins(1,2))
next
  case (refused env key fp ks r ks' started)
  with begin_refused_same[OF refused(3,4)] assms(2) show ?thesis by simp
next
  case (records key i started env k oid status body d ks ks')
  then have ks': "ks' = update_rows (\<lambda>r. key_id r = i) (completed_row oid status body) ks"
    by (auto simp: mark_completed_def split: option.splits if_splits)
  have "\<exists>x \<in> set ks'. key_scope x = SCOPE \<and> key_text x = k0 \<and> key_id x = i0"
    if "\<exists>x \<in> set ks. key_scope x = SCOPE \<and> key_text x = k0 \<and> key_id x = i0" for k0 i0
  proof -
    from that obtain x where x: "x \<in> set ks" "key_scope x = SCOPE \<and> key_text x = k0 \<and> key_id x = i0" by blast
    let ?y = "if key_id x = i then completed_row oid status body x else x"
    have "?y \<in> set ks'" using x(1) by (auto simp: ks' update_rows_def)
    moreover have "key_scope ?y = SCOPE \<and> key_text ?y = k0 \<and> key_id ?y = i0"
      using x(2) by (simp add: completed_row_def)
    ultimately show ?thesis by blast
  qed
  with assms(2) show ?thesis by (auto simp: records(1,2))
qed

end
