(* ===== verification/Saga.thy ===== *)
theory Saga
  imports Create_Order
begin

section \<open>What the saga does\<close>

text \<open>
  Lemmas on the phases of \<open>create_order\<close> and its properties. \<open>saga_ready\<close> collects what an order
  needs to be placed: its customer and products exist, one warehouse covers it, its identifiers are
  fresh, and no other session interferes; under it every outcome of the charge is followed to the
  final database.
\<close>

subsection \<open>Writing the order and its lines\<close>

lemma insert_items_Inr:
  assumes "foldR insert_order_item is d = Inr d'"
  shows "d' = d\<lparr>order_items := order_items d @ is\<rparr>"
  using assms
proof (induction "is" arbitrary: d)
  case Nil
  then show ?case by simp
next
  case (Cons i "is")
  then obtain d1 where d1: "insert_order_item i d = Inr d1" "foldR insert_order_item is d1 = Inr d'" by auto
  from insert_order_item_Inr[OF d1(1)] have "d1 = d\<lparr>order_items := order_items d @ [i]\<rparr>" by blast
  with Cons.IH[OF d1(2)] show ?case by simp
qed

lemma place_order_Inr:
  assumes "place_order env c found number tot a l oid w d = Inr (x, d')"
  shows "\<exists>os items. d' = d\<lparr>orders := os, order_items := order_items d @ map order_item_to_persistence items\<rparr> \<and>
    new_items env c found oid = Inr items \<and> x = (new_order env c number tot a l oid w, items) \<and>
    save_order (order_to_persistence (sg_now env) (new_order env c number tot a l oid w)) d = Inr (d\<lparr>orders := os\<rparr>)"
proof -
  from assms obtain d1 items d2 where
    d1: "save_order (order_to_persistence (sg_now env) (new_order env c number tot a l oid w)) d = Inr d1"
    and items: "new_items env c found oid = Inr items"
    and d2: "foldR insert_order_item (map order_item_to_persistence items) d1 = Inr d2"
    and x: "x = (new_order env c number tot a l oid w, items)" "d' = d2"
    by (auto simp: place_order_def Let_def)
  from save_order_unchanged[OF d1] obtain os where os: "d1 = d\<lparr>orders := os\<rparr>" by blast
  with insert_items_Inr[OF d2] d1 items x show ?thesis by auto
qed

lemma new_order_sel [simp]:
  "ord_id (new_order env c number tot a l oid w) = oid"
  "ord_number (new_order env c number tot a l oid w) = number"
  "ord_customer (new_order env c number tot a l oid w) = co_customer c"
  "ord_warehouse (new_order env c number tot a l oid w) = Some w"
  "ord_status (new_order env c number tot a l oid w) = PENDING_PAYMENT"
  "ord_total (new_order env c number tot a l oid w) = tot"
  "ord_address (new_order env c number tot a l oid w) = a"
  "ord_location (new_order env c number tot a l oid w) = l"
  by (simp_all add: new_order_def)

lemma order_exists_find: "order_exists d oid \<longleftrightarrow> (\<exists>r. find_order d oid = Some r)"
  using find_order_None[of d oid] by (cases "find_order d oid") auto

lemma not_stock_error:
  "save_order r d \<noteq> Inl (InsufficientStockError ids)"
  "insert_order_item i d \<noteq> Inl (InsufficientStockError ids)"
  "money_of n cur \<noteq> Inl (InsufficientStockError ids)"
  "new_order_item iid oid pid q sku name price now \<noteq> Inl (InsufficientStockError ids)"
  by (simp_all add: save_order_def insert_order_item_def money_of_def new_order_item_def)

lemma foldR_not_error: "(\<And>x s. f x s \<noteq> Inl e) \<Longrightarrow> foldR f xs s \<noteq> Inl e"
  by (induction xs arbitrary: s) (auto simp: bindR_eq_Inl)

lemma mapR_not_error: "(\<And>x. f x \<noteq> Inl e) \<Longrightarrow> mapR f xs \<noteq> Inl e"
  by (induction xs) (auto simp: bindR_eq_Inl)

interpretation saga_preparation:
  order_preparation "place_order env c found number tot a l" for env c found number tot a l
proof
  fix oid w d x d'
  assume "place_order env c found number tot a l oid w d = Inr (x, d')"
  from place_order_Inr[OF this] obtain os items where
    d': "d' = d\<lparr>orders := os, order_items := order_items d @ map order_item_to_persistence items\<rparr>"
    and save: "save_order (order_to_persistence (sg_now env) (new_order env c number tot a l oid w)) d =
      Inr (d\<lparr>orders := os\<rparr>)" by blast
  have "order_exists (d\<lparr>orders := os\<rparr>) oid"
    using find_order_save[OF save, of oid] by (simp add: order_exists_find)
  then show "inventory d' = inventory d \<and> movements d' = movements d \<and> products d' = products d \<and>
      warehouses d' = warehouses d \<and> order_exists d' oid"
    by (simp add: d' order_exists_def)
next
  fix oid w d ids
  have "new_items env c found oid \<noteq> Inl (InsufficientStockError ids)"
    unfolding new_items_def
    by (rule mapR_not_error) (auto simp: bindR_eq_Inl not_stock_error Let_def split: prod.splits)
  moreover have "foldR insert_order_item is d0 \<noteq> Inl (InsufficientStockError ids)" for "is" d0
    by (rule foldR_not_error) (rule not_stock_error)
  ultimately show "place_order env c found number tot a l oid w d \<noteq> Inl (InsufficientStockError ids)"
    by (auto simp: place_order_def bindR_eq_Inl not_stock_error Let_def)
qed

subsection \<open>Order numbers\<close>

lemma length_show_nat_le: "n < 10 ^ k \<Longrightarrow> 0 < k \<Longrightarrow> length (show_nat n) \<le> k"
proof (induction k arbitrary: n)
  case 0
  then show ?case by simp
next
  case (Suc k)
  show ?case
  proof (cases "n < 10")
    case True
    then show ?thesis by (subst show_nat.simps) simp
  next
    case False
    with Suc.prems have "n div 10 < 10 ^ k" by (simp add: less_mult_imp_div_less mult.commute)
    moreover have "0 < k" using False Suc.prems by (cases k) auto
    ultimately have "length (show_nat (n div 10)) \<le> k" by (rule Suc.IH)
    with False show ?thesis by (subst show_nat.simps) simp
  qed
qed

lemma parse_digits_zeros: "parse_digits (replicate k CHR ''0'' @ s) = parse_digits s"
  by (induction k) (simp_all add: parse_digits_def digit_val_def)

lemma order_number_inject:
  assumes "n < 10 ^ 6" and "m < 10 ^ 6" and "order_number y n = order_number y m"
  shows "n = m"
proof -
  have len: "length (show_nat k) \<le> 6" if "k < 10 ^ 6" for k
    using that by (rule length_show_nat_le) simp
  have pad: "parse_digits (lpad0 6 (show_nat k)) = k" if "k < 10 ^ 6" for k
    using len[OF that] by (auto simp: lpad0_def parse_digits_zeros)
  from assms(3) have "lpad0 6 (show_nat n) = lpad0 6 (show_nat m)"
    by (simp add: order_number_def)
  with pad assms(1,2) show ?thesis by metis
qed

text \<open>
  Order numbers of one year are pairwise different below a million. The millionth is the
  number of order 100000 again, because \<open>lpad\<close> cuts a seven-digit counter to six, and saving an
  order under a number that another order has fails with a unique violation.
\<close>

lemma order_number_unique_below_million:
  "(\<forall>n m. n < 10 ^ 6 \<and> m < 10 ^ 6 \<and> order_number y n = order_number y m \<longrightarrow> n = m) \<and>
   order_number y (10 ^ 6) = order_number y (10 ^ 5) \<and>
   (\<forall>d r x. x \<in> set (orders d) \<and> row_id x \<noteq> row_id r \<and> row_number x = row_number r \<and>
      in_int8 (row_total_cents r) \<longrightarrow> save_order r d = Inl (QueryFailedError SQL_UNIQUE_23505))"
proof (intro conjI allI impI)
  show "n < 10 ^ 6 \<and> m < 10 ^ 6 \<and> order_number y n = order_number y m \<Longrightarrow> n = m" for n m
    using order_number_inject by blast
  have "show_nat (10 ^ 6) = ''1000000''" "show_nat (10 ^ 5) = ''100000''"
    by (simp_all add: show_nat.simps digit_char_eqs)
  then show "order_number y (10 ^ 6) = order_number y (10 ^ 5)"
    by (simp add: order_number_def lpad0_def)
  show "x \<in> set (orders d) \<and> row_id x \<noteq> row_id r \<and> row_number x = row_number r \<and>
      in_int8 (row_total_cents r) \<Longrightarrow> save_order r d = Inl (QueryFailedError SQL_UNIQUE_23505)" for d r x
    by (auto simp: save_order_def)
qed

subsection \<open>An order that can be placed\<close>

definition the_product :: "db \<Rightarrow> uuid \<Rightarrow> product_row" where
  "the_product d pid = the (find (\<lambda>p. prod_id p = pid) (products d))"

definition line_price :: "db \<Rightarrow> order_line \<Rightarrow> int" where
  "line_price d l = prod_unit_price_cents (the_product d (line_product l))"

definition exact_total :: "db \<Rightarrow> order_line list \<Rightarrow> int" where
  "exact_total d ls = (\<Sum>l\<leftarrow>ls. line_price d l * line_quantity l)"

definition orderable :: "db \<Rightarrow> create_order_command \<Rightarrow> bool" where
  "orderable d c \<longleftrightarrow>
     (\<exists>k \<in> set (customers d). cust_id k = co_customer c \<and> cust_deleted_at k = None) \<and>
     valid_lines (co_lines c) \<and> co_lines c \<noteq> [] \<and>
     (\<forall>l \<in> set (co_lines c). in_int4 (line_quantity l) \<and>
       (\<exists>p \<in> set (products d). prod_id p = line_product l \<and> sellable p \<and> 0 \<le> prod_unit_price_cents p)) \<and>
     exact_total d (co_lines c) \<le> 2 ^ 53 \<and> address_wf (co_address c)"

definition stock_bounded :: "db \<Rightarrow> uuid \<Rightarrow> bool" where
  "stock_bounded d w \<longleftrightarrow> (\<forall>p a r. stock d w p = Some (a, r) \<longrightarrow> 0 \<le> r \<and> a + r < 2 ^ 31)"

definition fresh_ids :: "db \<Rightarrow> saga_env \<Rightarrow> bool" where
  "fresh_ids d env \<longleftrightarrow>
     (let oid = al_order_id (sg_alloc env) in
      \<not> order_exists d oid \<and>
      (\<forall>x \<in> set (orders d). row_number x \<noteq> order_number (sg_year env) (order_number_seq d)) \<and>
      (\<forall>x \<in> set (order_items d). ir_order x \<noteq> oid \<and> (\<forall>k. ir_id x \<noteq> sg_item_id env k)) \<and>
      inj (sg_item_id env) \<and>
      (\<forall>x \<in> set (payments d). pay_order x \<noteq> oid \<and> pay_id x \<noteq> sg_payment_id env \<and>
         pay_idempotency_key x \<noteq> build_charge_idempotency_key oid 1))"

definition undisturbed :: "saga_env \<Rightarrow> bool" where
  "undisturbed env \<longleftrightarrow> al_others (sg_alloc env) 0 = (\<lambda>d. d) \<and> \<not> al_contended (sg_alloc env) 0 \<and>
     (\<forall>k. sg_others env k = (\<lambda>d. d)) \<and> \<not> tx_contended (sg_settle env) \<and> sends_ok (tx_send (sg_settle env))"

subsection \<open>Resolve and total\<close>

lemma the_product_found:
  assumes "catalogue_distinct d" and "p \<in> set (products d)" and "prod_id p = pid"
  shows "the_product d pid = p"
  using find_distinct_key[of prod_id "products d" p] assms
  by (simp add: the_product_def catalogue_distinct_def)

lemma orderable_line:
  assumes "orderable d c" and "catalogue_distinct d" and "l \<in> set (co_lines c)"
  shows "the_product d (line_product l) \<in> set (products d)"
    and "prod_id (the_product d (line_product l)) = line_product l"
    and "sellable (the_product d (line_product l))" and "0 \<le> line_price d l" and "0 < line_quantity l"
proof -
  from assms obtain p where p: "p \<in> set (products d)" "prod_id p = line_product l" "sellable p"
    "0 \<le> prod_unit_price_cents p" by (auto simp: orderable_def)
  from the_product_found[OF assms(2) p(1,2)] p
  show "the_product d (line_product l) \<in> set (products d)"
    "prod_id (the_product d (line_product l)) = line_product l"
    "sellable (the_product d (line_product l))" "0 \<le> line_price d l"
    by (simp_all add: line_price_def)
  show "0 < line_quantity l" using assms by (auto simp: orderable_def valid_lines_def)
qed

lemma product_by_id_found:
  assumes "orderable d c" and "catalogue_distinct d" and "l \<in> set (co_lines c)"
  shows "product_by_id (filter (\<lambda>p. prod_id p \<in> set (map line_product (co_lines c)) \<and> sellable p) (products d))
    (line_product l) = Some (the_product d (line_product l))"
proof -
  let ?p = "the_product d (line_product l)"
  note l = orderable_line[OF assms]
  have "distinct (map prod_id (filter (\<lambda>p. prod_id p \<in> set (map line_product (co_lines c)) \<and> sellable p) (products d)))"
    using assms(2) by (simp add: catalogue_distinct_def distinct_map_filter)
  moreover have "?p \<in> set (filter (\<lambda>p. prod_id p \<in> set (map line_product (co_lines c)) \<and> sellable p) (products d))"
    using l assms(3) by auto
  ultimately show ?thesis
    using find_distinct_key[of prod_id _ ?p] l(2) by (simp add: product_by_id_def)
qed

lemma resolve_ok:
  assumes "orderable d c" and "catalogue_distinct d"
  shows "resolve_customer_and_products c d =
    Inr (filter (\<lambda>p. prod_id p \<in> set (map line_product (co_lines c)) \<and> sellable p) (products d))"
  using assms(1) product_by_id_found[OF assms]
  by (auto simp: resolve_customer_and_products_def Let_def orderable_def filter_empty_conv)

lemma sum_list_member_le:
  fixes f :: "'x \<Rightarrow> int"
  assumes "x \<in> set xs" and "\<And>y. y \<in> set xs \<Longrightarrow> 0 \<le> f y"
  shows "f x \<le> (\<Sum>y\<leftarrow>xs. f y)"
  using assms
proof (induction xs)
  case Nil
  then show ?case by simp
next
  case (Cons y ys)
  have "0 \<le> (\<Sum>y\<leftarrow>ys. f y)" using Cons.prems by (intro sum_list_nonneg_int) simp
  with Cons show ?case by force
qed

lemma line_price_le_total:
  assumes "orderable d c" and "catalogue_distinct d" and "l \<in> set (co_lines c)"
  shows "line_price d l \<le> 2 ^ 53"
proof -
  have nn: "0 \<le> line_price d x * line_quantity x" if "x \<in> set (co_lines c)" for x
    using orderable_line(4,5)[OF assms(1,2) that] by simp
  have "line_price d l \<le> line_price d l * line_quantity l"
    using orderable_line(4,5)[OF assms] by (simp add: mult_le_cancel_left1)
  also have "\<dots> \<le> exact_total d (co_lines c)"
    unfolding exact_total_def by (rule sum_list_member_le[OF assms(3) nn])
  also have "\<dots> \<le> 2 ^ 53" using assms(1) by (simp add: orderable_def)
  finally show ?thesis .
qed

definition found_products :: "db \<Rightarrow> create_order_command \<Rightarrow> product_row list" where
  "found_products d c = filter (\<lambda>p. prod_id p \<in> set (map line_product (co_lines c)) \<and> sellable p) (products d)"

lemma read_price_ok:
  assumes "orderable d c" and "catalogue_distinct d" and "l \<in> set (co_lines c)"
  shows "read_price (the (product_by_id (found_products d c) (line_product l))) = js_int (line_price d l)"
  using product_by_id_found[OF assms] orderable_line(4)[OF assms] line_price_le_total[OF assms]
  by (simp add: found_products_def read_price_def line_price_def js_of_int_exact max_safe_def)

lemma order_total_ok:
  assumes "orderable d c" and "catalogue_distinct d"
  shows "order_total c (found_products d c) =
    Inr \<lparr>amount_cents = exact_total d (co_lines c), currency = usd\<rparr>"
proof -
  have map_eq: "map (\<lambda>l. (js_to_int (read_price (the (product_by_id (found_products d c) (line_product l)))),
      line_quantity l)) (co_lines c) = map (\<lambda>l. (line_price d l, line_quantity l)) (co_lines c)"
    using read_price_ok[OF assms] by simp
  have sum_eq: "(\<Sum>(price, qty)\<leftarrow>map (\<lambda>l. (line_price d l, line_quantity l)) (co_lines c). price * qty) =
      exact_total d (co_lines c)"
    by (simp add: exact_total_def o_def)
  have "total_of_lines (map (\<lambda>l. (line_price d l, line_quantity l)) (co_lines c)) =
      Inr \<lparr>amount_cents = exact_total d (co_lines c), currency = usd\<rparr>"
  proof (subst total_of_lines_eq)
    show "\<forall>(price, qty)\<in>set (map (\<lambda>l. (line_price d l, line_quantity l)) (co_lines c)). 0 \<le> price \<and> 0 \<le> qty"
      using orderable_line(4,5)[OF assms] by (auto simp: less_imp_le)
    show "(\<Sum>(price, qty)\<leftarrow>map (\<lambda>l. (line_price d l, line_quantity l)) (co_lines c). price * qty) \<le> 2 ^ 53"
      using assms(1) by (simp only: sum_eq orderable_def)
  qed (simp only: sum_eq)
  then show ?thesis by (simp only: order_total_def map_eq)
qed

subsection \<open>The rows of a new order\<close>

definition item_of_line :: "saga_env \<Rightarrow> db \<Rightarrow> uuid \<Rightarrow> nat \<times> order_line \<Rightarrow> order_item" where
  "item_of_line env d oid = (\<lambda>(k, l).
     \<lparr>item_id = sg_item_id env k, item_order = oid, item_product = line_product l,
      item_quantity = line_quantity l, item_sku = prod_sku (the_product d (line_product l)),
      item_name = prod_name (the_product d (line_product l)),
      item_unit_price = \<lparr>amount_cents = line_price d l, currency = usd\<rparr>, item_created_at = sg_now env\<rparr>)"

lemma new_items_ok:
  assumes "orderable d c" and "catalogue_distinct d"
  shows "new_items env c (found_products d c) oid =
    Inr (map (item_of_line env d oid) (enumerate 0 (co_lines c)))"
  unfolding new_items_def
proof (rule mapR_Inr_map)
  fix x assume x: "x \<in> set (enumerate 0 (co_lines c))"
  obtain k l where kl: "x = (k, l)" by fastforce
  with x have l: "l \<in> set (co_lines c)" by (auto simp: in_set_enumerate_eq)
  note p = product_by_id_found[OF assms l, folded found_products_def]
  have "money_of (read_price (the (product_by_id (found_products d c) (line_product l)))) usd =
      Inr \<lparr>amount_cents = line_price d l, currency = usd\<rparr>"
    using orderable_line(4)[OF assms l] by (simp add: read_price_ok[OF assms l] money_of_js_int)
  then show "(case x of (k, l) \<Rightarrow>
      let p = the (product_by_id (found_products d c) (line_product l))
      in bindR (money_of (read_price p) usd) (\<lambda>price. new_order_item (sg_item_id env k) oid (line_product l)
           (js_int (line_quantity l)) (prod_sku p) (prod_name p) price (sg_now env))) =
      Inr (item_of_line env d oid x)"
    using orderable_line(5)[OF assms l]
    by (simp add: kl Let_def p item_of_line_def new_order_item_Inr_iff)
qed

lemma insert_items_ok:
  assumes "\<forall>i \<in> set is. 0 < ir_quantity i \<and> in_int4 (ir_quantity i) \<and> in_int8 (ir_unit_price_cents i) \<and>
      order_exists d (ir_order i) \<and> ir_product i \<in> prod_id ` set (products d)"
    and "distinct (map ir_id is)" and "distinct (map ir_product is)"
    and "\<forall>x \<in> set (order_items d). \<forall>i \<in> set is. ir_id x \<noteq> ir_id i \<and>
      (ir_order x = ir_order i \<longrightarrow> ir_product x \<noteq> ir_product i)"
  shows "\<exists>d'. foldR insert_order_item is d = Inr d'"
  using assms
proof (induction "is" arbitrary: d)
  case Nil
  then show ?case by simp
next
  case (Cons i "is")
  have d1: "insert_order_item i d = Inr (d\<lparr>order_items := order_items d @ [i]\<rparr>)"
    using Cons.prems by (auto simp: insert_order_item_def)
  have "\<exists>d'. foldR insert_order_item is (d\<lparr>order_items := order_items d @ [i]\<rparr>) = Inr d'"
    using Cons.prems by (intro Cons.IH) (auto simp: image_iff)
  with d1 show ?case by simp
qed

lemma map_pair_fst: "map (\<lambda>(k, l). f k) xs = map f (map fst xs)"
  by (induction xs) auto

lemma map_pair_snd: "map (\<lambda>(k, l). g l) xs = map g (map snd xs)"
  by (induction xs) auto

lemma enumerate_ids: "inj f \<Longrightarrow> distinct (map (\<lambda>(k, l). f k) (enumerate n ls))"
  by (simp only: map_pair_fst enumerate_eq_zip map_fst_zip length_upt distinct_map)
    (auto intro: inj_on_subset)

lemma place_order_ok:
  assumes "orderable d c" and "catalogue_distinct d" and "fresh_ids d env"
    and w: "w \<in> wh_id ` set (warehouses d)"
    and oid: "oid = al_order_id (sg_alloc env)" and number: "number = order_number (sg_year env) (order_number_seq d)"
    and tot: "tot = \<lparr>amount_cents = exact_total d (co_lines c), currency = usd\<rparr>"
    and d0: "d0 = d\<lparr>order_number_seq := n\<rparr>"
  shows "place_order env c (found_products d c) number tot a l oid w d0 =
    Inr ((new_order env c number tot a l oid w, map (item_of_line env d oid) (enumerate 0 (co_lines c))),
      d0\<lparr>orders := orders d @ [order_to_persistence (sg_now env) (new_order env c number tot a l oid w)],
         order_items := order_items d @
           map order_item_to_persistence (map (item_of_line env d oid) (enumerate 0 (co_lines c)))\<rparr>)"
proof -
  let ?o = "new_order env c number tot a l oid w"
  let ?row = "order_to_persistence (sg_now env) ?o"
  let ?items = "map (item_of_line env d oid) (enumerate 0 (co_lines c))"
  let ?rows = "map order_item_to_persistence ?items"
  let ?d1 = "d0\<lparr>orders := orders d @ [?row]\<rparr>"
  from assms(3) oid number have fresh: "\<not> order_exists d oid" "\<forall>x \<in> set (orders d). row_number x \<noteq> number"
    "\<forall>x \<in> set (order_items d). ir_order x \<noteq> oid \<and> (\<forall>k. ir_id x \<noteq> sg_item_id env k)" "inj (sg_item_id env)"
    by (auto simp: fresh_ids_def Let_def)
  have "0 \<le> exact_total d (co_lines c)"
    unfolding exact_total_def using orderable_line(4,5)[OF assms(1,2)]
    by (intro sum_list_nonneg_int) (simp add: less_imp_le)
  moreover have "exact_total d (co_lines c) \<le> 2 ^ 53" using assms(1) by (simp add: orderable_def)
  ultimately have "in_int8 (row_total_cents ?row)"
    by (simp add: in_int8_def order_to_persistence_def tot)
  moreover have "orders_fk_ok d0 ?row"
    using w assms(1) by (force simp: orders_fk_ok_def d0 orderable_def)
  moreover have "\<not> order_exists d0 oid" using fresh(1) by (simp add: d0 order_exists_def)
  ultimately have save: "save_order ?row d0 = Inr ?d1"
    using fresh(2) by (auto simp: save_order_def d0)
  have "\<exists>d2. foldR insert_order_item ?rows ?d1 = Inr d2"
  proof (rule insert_items_ok)
    show "\<forall>i\<in>set ?rows. 0 < ir_quantity i \<and> in_int4 (ir_quantity i) \<and> in_int8 (ir_unit_price_cents i) \<and>
        order_exists ?d1 (ir_order i) \<and> ir_product i \<in> prod_id ` set (products ?d1)"
    proof
      fix i assume "i \<in> set ?rows"
      then obtain k ln where ln: "(k, ln) \<in> set (enumerate 0 (co_lines c))"
        "i = order_item_to_persistence (item_of_line env d oid (k, ln))" by auto
      then have mem: "ln \<in> set (co_lines c)" by (auto simp: in_set_enumerate_eq)
      note lp = orderable_line[OF assms(1,2) mem]
      have "line_product ln \<in> prod_id ` set (products d)" using lp(1,2) by (metis image_eqI)
      moreover have "in_int4 (line_quantity ln)" using assms(1) mem by (auto simp: orderable_def)
      moreover have "in_int8 (line_price d ln)"
        using lp(4) line_price_le_total[OF assms(1,2) mem] by (simp add: in_int8_def)
      ultimately show "0 < ir_quantity i \<and> in_int4 (ir_quantity i) \<and> in_int8 (ir_unit_price_cents i) \<and>
          order_exists ?d1 (ir_order i) \<and> ir_product i \<in> prod_id ` set (products ?d1)"
        using ln(2) lp(5) by (simp add: order_item_to_persistence_def item_of_line_def order_exists_def d0)
    qed
    have ids: "map ir_id ?rows = map (\<lambda>(k, l). sg_item_id env k) (enumerate 0 (co_lines c))"
      by (auto simp: order_item_to_persistence_def item_of_line_def)
    show "distinct (map ir_id ?rows)" unfolding ids by (rule enumerate_ids[OF fresh(4)])
    have "map ir_product ?rows = map (\<lambda>(k, l). line_product l) (enumerate 0 (co_lines c))"
      by (auto simp: order_item_to_persistence_def item_of_line_def)
    also have "\<dots> = map line_product (co_lines c)" by (simp only: map_pair_snd map_snd_enumerate)
    finally have prods: "map ir_product ?rows = map line_product (co_lines c)" .
    show "distinct (map ir_product ?rows)"
      unfolding prods using assms(1) by (simp add: orderable_def valid_lines_def)
    show "\<forall>x\<in>set (order_items ?d1). \<forall>i\<in>set ?rows. ir_id x \<noteq> ir_id i \<and>
        (ir_order x = ir_order i \<longrightarrow> ir_product x \<noteq> ir_product i)"
      using fresh(3) by (auto simp: d0 order_item_to_persistence_def item_of_line_def)
  qed
  then obtain d2 where d2: "foldR insert_order_item ?rows ?d1 = Inr d2" by blast
  from insert_items_Inr[OF d2] have "d2 = ?d1\<lparr>order_items := order_items d @ ?rows\<rparr>" by (simp add: d0)
  with save d2 new_items_ok[OF assms(1,2)] show ?thesis by (simp add: place_order_def Let_def)
qed

subsection \<open>Phase 1 on an orderable command\<close>

lemma seq_frame [simp]:
  "stock (d\<lparr>order_number_seq := n\<rparr>) = stock d"
  "qualifies (d\<lparr>order_number_seq := n\<rparr>) = qualifies d"
  "catalogue_distinct (d\<lparr>order_number_seq := n\<rparr>) = catalogue_distinct d"
  "inventory_keys_distinct (d\<lparr>order_number_seq := n\<rparr>) = inventory_keys_distinct d"
  by (auto simp: stock_def find_inventory_def fun_eq_iff qualifies_def covers_def catalogue_distinct_def
      inventory_keys_distinct_def)

lemma items_frame [simp]:
  "stock (d\<lparr>orders := os, order_items := is\<rparr>) = stock d"
  by (simp add: stock_def find_inventory_def fun_eq_iff)

definition nearest :: "distance \<Rightarrow> db \<Rightarrow> coordinates \<Rightarrow> order_line list \<Rightarrow> warehouse_row \<Rightarrow> bool" where
  "nearest knn d point ls w \<longleftrightarrow> w \<in> set (warehouses d) \<and> qualifies d ls w \<and>
     (\<forall>v \<in> set (warehouses d). qualifies d ls v \<longrightarrow> warehouse_rank knn point w \<le> warehouse_rank knn point v)"

definition item_rows :: "saga_env \<Rightarrow> db \<Rightarrow> create_order_command \<Rightarrow> uuid \<Rightarrow> order_item_row list" where
  "item_rows env d c oid = map order_item_to_persistence (map (item_of_line env d oid) (enumerate 0 (co_lines c)))"

definition placed_order :: "saga_env \<Rightarrow> db \<Rightarrow> create_order_command \<Rightarrow> coordinates \<Rightarrow> uuid \<Rightarrow> order" where
  "placed_order env d c l w = new_order env c (order_number (sg_year env) (order_number_seq d))
     \<lparr>amount_cents = exact_total d (co_lines c), currency = usd\<rparr> (co_address c) l (al_order_id (sg_alloc env)) w"

definition placed_db :: "saga_env \<Rightarrow> db \<Rightarrow> create_order_command \<Rightarrow> coordinates \<Rightarrow> uuid \<Rightarrow> db" where
  "placed_db env d c l w = d\<lparr>order_number_seq := order_number_seq d + 1,
     orders := orders d @ [order_to_persistence (sg_now env) (placed_order env d c l w)],
     order_items := order_items d @ item_rows env d c (al_order_id (sg_alloc env))\<rparr>"

lemma reserve_order_ok:
  assumes "orderable d c" and "catalogue_distinct d" and "distinct (map wh_id (warehouses d))"
    and "fresh_ids d env" and "undisturbed env"
    and geo: "geocode (co_address c) g = (Inr l, g1)"
    and w: "nearest knn d l (co_lines c) w" and "stock_bounded d (wh_id w)"
  shows "\<exists>d2 items alloc.
    reserve_order geocode knn st_distance env c (found_products d c) \<lparr>w_db = d, w_ext = g\<rparr> =
      (Inr (placed_order env d c l (wh_id w), items, alloc), \<lparr>w_db = d2, w_ext = g1\<rparr>) \<and>
    reserve (al_now (sg_alloc env) 0) False \<lparr>rc_order = al_order_id (sg_alloc env), rc_warehouse = wh_id w,
      rc_lines = co_lines c\<rparr> (placed_db env d c l (wh_id w)) = Inr d2"
proof -
  let ?oid = "al_order_id (sg_alloc env)" and ?w = "wh_id w"
  let ?number = "order_number (sg_year env) (order_number_seq d)"
  let ?tot = "\<lparr>amount_cents = exact_total d (co_lines c), currency = usd\<rparr>"
  let ?d0 = "d\<lparr>order_number_seq := order_number_seq d + 1\<rparr>"
  let ?items = "map (item_of_line env d ?oid) (enumerate 0 (co_lines c))"
  have lines: "valid_lines (co_lines c)" "\<forall>l \<in> set (co_lines c). in_int4 (line_quantity l)"
    using assms(1) by (auto simp: orderable_def)
  have env: "al_others (sg_alloc env) 0 = (\<lambda>d. d)" "\<not> al_contended (sg_alloc env) 0"
    "\<And>k. sg_others env k = (\<lambda>d. d)" using assms(5) by (simp_all add: undisturbed_def)
  have place: "place_order env c (found_products d c) ?number ?tot (co_address c) l ?oid ?w ?d0 =
      Inr ((placed_order env d c l ?w, ?items), placed_db env d c l ?w)"
    using place_order_ok[OF assms(1,2,4) _ refl refl refl refl, of ?w] w
    by (simp add: placed_order_def placed_db_def item_rows_def nearest_def)
  have "\<exists>d2. allocate_inventory knn st_distance (sg_alloc env)
      (place_order env c (found_products d c) ?number ?tot (co_address c) l) l (co_lines c) ?d0 =
      (Inr (\<lparr>alloc_order_id = ?oid, alloc_warehouse = ?w, alloc_name = wh_name w,
         alloc_distance = st_distance (wh_location w) l\<rparr>, (placed_order env d c l ?w, ?items)), d2) \<and>
      reserve (al_now (sg_alloc env) 0) False \<lparr>rc_order = ?oid, rc_warehouse = ?w, rc_lines = co_lines c\<rparr>
        (placed_db env d c l ?w) = Inr d2"
    by (rule saga_preparation.nearest_wins[OF _ _ lines env(1,2) _ _ _ _ place])
      (use assms(2,3,8) w in \<open>auto simp: nearest_def stock_bounded_def\<close>)
  then obtain d2 where d2: "allocate_inventory knn st_distance (sg_alloc env)
      (place_order env c (found_products d c) ?number ?tot (co_address c) l) l (co_lines c) ?d0 =
      (Inr (\<lparr>alloc_order_id = ?oid, alloc_warehouse = ?w, alloc_name = wh_name w,
         alloc_distance = st_distance (wh_location w) l\<rparr>, (placed_order env d c l ?w, ?items)), d2)"
    and res: "reserve (al_now (sg_alloc env) 0) False \<lparr>rc_order = ?oid, rc_warehouse = ?w, rc_lines = co_lines c\<rparr>
        (placed_db env d c l ?w) = Inr d2" by blast
  have addr: "shipping_address_of (co_address c) = Inr (co_address c)"
    using assms(1) by (simp add: shipping_address_of_Inr_iff orderable_def)
  have "reserve_order geocode knn st_distance env c (found_products d c) \<lparr>w_db = d, w_ext = g\<rparr> =
      (Inr (placed_order env d c l ?w, ?items, \<lparr>alloc_order_id = ?oid, alloc_warehouse = ?w, alloc_name = wh_name w,
         alloc_distance = st_distance (wh_location w) l\<rparr>), \<lparr>w_db = d2, w_ext = g1\<rparr>)"
    using d2 by (simp add: reserve_order_def bindE_def addr geocode_step_def geo meanwhile_def env(3)
        generate_order_number_def Let_def order_total_ok[OF assms(1,2)] allocate_step_def returnE_def)
  with res show ?thesis by blast
qed

definition reserved_row :: "saga_env \<Rightarrow> db \<Rightarrow> create_order_command \<Rightarrow> coordinates \<Rightarrow> uuid \<Rightarrow> order_row" where
  "reserved_row env d c l w = (order_to_persistence (sg_now env) (placed_order env d c l w))
     \<lparr>row_warehouse := Some w, row_reservation_expires_at := Some (al_now (sg_alloc env) 0 +
        reservation_ttl_minutes * ms_per_minute)\<rparr>"

lemma reserved_row_sel [simp]:
  "row_id (reserved_row env d c l w) = al_order_id (sg_alloc env)"
  "row_status (reserved_row env d c l w) = PENDING_PAYMENT"
  "row_warehouse (reserved_row env d c l w) = Some w"
  "row_total_cents (reserved_row env d c l w) = exact_total d (co_lines c)"
  "row_number (reserved_row env d c l w) = order_number (sg_year env) (order_number_seq d)"
  "row_customer (reserved_row env d c l w) = co_customer c"
  by (simp_all add: reserved_row_def placed_order_def) (simp add: order_to_persistence_def)

lemma exact_total_nonneg:
  assumes "orderable d c" and "catalogue_distinct d"
  shows "0 \<le> exact_total d (co_lines c)"
  unfolding exact_total_def using orderable_line(4,5)[OF assms]
  by (intro sum_list_nonneg_int) (simp add: less_imp_le)

lemma reserved_row_wf:
  assumes "orderable d c" and "catalogue_distinct d" and "coordinates_wf l"
  shows "order_row_wf (reserved_row env d c l w)"
  using exact_total_nonneg[OF assms(1,2)] assms
  by (simp add: reserved_row_def placed_order_def order_row_wf_def order_to_persistence_def
      max_safe_def orderable_def new_order_def)

lemma reserved_facts:
  assumes "orderable d c" and "catalogue_distinct d" and "fresh_ids d env"
    and res: "reserve (al_now (sg_alloc env) 0) b \<lparr>rc_order = al_order_id (sg_alloc env), rc_warehouse = w,
      rc_lines = co_lines c\<rparr> (placed_db env d c l w) = Inr d2"
  shows "find_order d2 (al_order_id (sg_alloc env)) = Some (reserved_row env d c l w)"
    and "inventory_keys_distinct d2" and "payments d2 = payments d" and "jobs d2 = jobs d"
    and "customers d2 = customers d" and "warehouses d2 = warehouses d" and "products d2 = products d"
    and "map ir_product (items_of d2 (al_order_id (sg_alloc env))) = map line_product (co_lines c)"
    and "stock d2 w' p = (if w' = w then map_option (\<lambda>(a, r). (a - lines_total (co_lines c) p,
      r + lines_total (co_lines c) p)) (stock d w p) else stock d w' p)"
    and "p \<in> line_product ` set (co_lines c) \<Longrightarrow> held d2 (al_order_id (sg_alloc env)) p = lines_total (co_lines c) p"
    and "orders d2 = orders d @ [reserved_row env d c l w]"
proof -
  let ?oid = "al_order_id (sg_alloc env)"
  let ?c = "\<lparr>rc_order = ?oid, rc_warehouse = w, rc_lines = co_lines c\<rparr>"
  let ?row = "order_to_persistence (sg_now env) (placed_order env d c l w)"
  let ?items = "item_rows env d c ?oid"
  let ?d1 = "placed_db env d c l w"
  have lines: "valid_lines (co_lines c)" using assms(1) by (simp add: orderable_def)
  then have dist: "distinct (map line_product (rc_lines ?c))" by (simp add: valid_lines_def)
  have k1: "inventory_keys_distinct ?d1"
    using assms(2) by (simp add: placed_db_def catalogue_distinct_def inventory_keys_distinct_def)
  note same = reserve_unchanged[OF res k1 dist]
  show "inventory_keys_distinct d2" by (rule same(1))
  show "payments d2 = payments d" "jobs d2 = jobs d" "customers d2 = customers d"
    "warehouses d2 = warehouses d" "products d2 = products d"
    by (simp_all add: same placed_db_def)
  from assms(3) have fresh: "\<forall>x \<in> set (orders d). row_id x \<noteq> ?oid"
      "\<forall>x \<in> set (order_items d). ir_order x \<noteq> ?oid"
    by (auto simp: fresh_ids_def Let_def order_exists_def image_iff)
  have rid: "row_id ?row = ?oid" by (simp add: placed_order_def)
  have upd: "update_rows (\<lambda>r. row_id r = ?oid) f (orders d) = orders d" for f
    using fresh(1) by (intro update_rows_absent) simp
  have "update_rows q f (xs @ ys) = update_rows q f xs @ update_rows q f ys" for q f and xs ys :: "order_row list"
    by (simp add: update_rows_def)
  with reserve_orders(1)[OF res k1 dist] rid upd
  show orders: "orders d2 = orders d @ [reserved_row env d c l w]"
    by (simp add: placed_db_def reserved_row_def)
  have "find (\<lambda>r. row_id r = ?oid) (os @ [reserved_row env d c l w]) = Some (reserved_row env d c l w)"
    if "\<forall>x \<in> set os. row_id x \<noteq> ?oid" for os
    using that by (induction os) auto
  with fresh(1) show "find_order d2 ?oid = Some (reserved_row env d c l w)"
    by (simp add: find_order_def orders)
  have "\<forall>i \<in> set ?items. ir_order i = ?oid"
    by (auto simp: item_rows_def order_item_to_persistence_def item_of_line_def)
  then have "items_of d2 ?oid = ?items"
    using fresh(2) by (simp add: items_of_def same placed_db_def filter_empty_conv)
  moreover have "map ir_product ?items = map (\<lambda>(k, ln). line_product ln) (enumerate 0 (co_lines c))"
    by (auto simp: item_rows_def order_item_to_persistence_def item_of_line_def)
  ultimately show "map ir_product (items_of d2 ?oid) = map line_product (co_lines c)"
    by (simp only: map_pair_snd map_snd_enumerate)
  have st1: "stock ?d1 = stock d" by (simp add: placed_db_def stock_def find_inventory_def fun_eq_iff)
  show "stock d2 w' p = (if w' = w then map_option (\<lambda>(a, r). (a - lines_total (co_lines c) p,
      r + lines_total (co_lines c) p)) (stock d w p) else stock d w' p)"
    using reserve_stock[OF res k1 dist, of w' p] by (simp add: st1)
  show "held d2 ?oid p = lines_total (co_lines c) p" if "p \<in> line_product ` set (co_lines c)"
    using reserve_held[OF res k1 dist, of ?oid p] that lines_total_pos[OF lines that] by simp
qed

subsection \<open>Phase 2\<close>

lemma charge_order_ok:
  assumes fresh: "\<forall>x \<in> set (payments d). pay_order x \<noteq> ord_id o1 \<and> pay_id x \<noteq> sg_payment_id env \<and>
      pay_idempotency_key x \<noteq> build_charge_idempotency_key (ord_id o1) 1"
    and "order_exists d (ord_id o1)" and "in_int8 (amount_cents (ord_total o1))"
    and "sg_others env 3 = (\<lambda>d. d)" and charge: "charge (charge_command_of c o1) g = (r, g2)"
  shows "charge_order charge env c o1 \<lparr>w_db = d, w_ext = g\<rparr> =
    (Inr (charged_payment env r (initial_payment env o1), r),
     \<lparr>w_db = d\<lparr>payments := payments d @ [charged_payment env r (initial_payment env o1)]\<rparr>, w_ext = g2\<rparr>)"
proof -
  let ?p0 = "initial_payment env o1" and ?p1 = "charged_payment env r (initial_payment env o1)"
  let ?d1 = "d\<lparr>payments := payments d @ [?p0]\<rparr>"
  have sel: "pay_id ?p0 = sg_payment_id env" "pay_order ?p0 = ord_id o1"
    "pay_idempotency_key ?p0 = build_charge_idempotency_key (ord_id o1) 1"
    "pay_amount_cents ?p0 = amount_cents (ord_total o1)"
    by (simp_all add: initial_payment_def FIRST_PAYMENT_ATTEMPT_def)
  have sel1: "pay_id ?p1 = sg_payment_id env" "pay_order ?p1 = ord_id o1"
    "pay_idempotency_key ?p1 = build_charge_idempotency_key (ord_id o1) 1"
    "pay_amount_cents ?p1 = amount_cents (ord_total o1)"
    by (simp_all add: charged_payment_def sel)
  have no0: "\<not> payment_conflicts d ?p0" using fresh by (auto simp: payment_conflicts_def sel)
  have "sg_payment_id env \<notin> pay_id ` set (payments d)" using fresh by auto
  with no0 assms(2,3) have s0: "save_payment ?p0 d = Inr ?d1"
    by (simp add: save_payment_def sel)
  have no1: "\<not> payment_conflicts ?d1 ?p1"
    using fresh by (auto simp: payment_conflicts_def sel sel1)
  have "update_rows (\<lambda>x. pay_id x = sg_payment_id env) (\<lambda>_. ?p1) (payments d @ [?p0]) = payments d @ [?p1]"
  proof -
    have "update_rows (\<lambda>x. pay_id x = sg_payment_id env) (\<lambda>_. ?p1) (payments d) = payments d"
      using fresh by (intro update_rows_absent) simp
    then show ?thesis by (simp add: update_rows_def sel)
  qed
  with no1 assms(2,3) have s1: "save_payment ?p1 ?d1 = Inr (d\<lparr>payments := payments d @ [?p1]\<rparr>)"
    by (simp add: save_payment_def sel sel1)
  show ?thesis
    by (simp add: charge_order_def bindE_def save_payment_step_def in_transaction_def s0 s1
        charge_step_def charge meanwhile_def assms(4) returnE_def)
qed

subsection \<open>The whole saga\<close>

fun status_after :: "payment_status \<Rightarrow> order_status" where
  "status_after PS_CAPTURED = CONFIRMED"
| "status_after PS_DECLINED = PAYMENT_FAILED"
| "status_after _ = PENDING_PAYMENT"

fun stock_after :: "payment_status \<Rightarrow> int \<Rightarrow> int \<times> int \<Rightarrow> int \<times> int" where
  "stock_after PS_CAPTURED q (a, r) = (a - q, r)"
| "stock_after PS_DECLINED q (a, r) = (a, r)"
| "stock_after _ q (a, r) = (a - q, r + q)"

text \<open>What a finished saga leaves in the database, given what the charge returned.\<close>

definition saga_left :: "saga_env \<Rightarrow> create_order_command \<Rightarrow> uuid \<Rightarrow> db \<Rightarrow> charge_result \<Rightarrow> db \<Rightarrow> bool" where
  "saga_left env c w d r d' \<longleftrightarrow>
     (\<exists>row. find_order d' (al_order_id (sg_alloc env)) = Some row \<and> row_status row = status_after (res_status r) \<and>
        row_total_cents row = exact_total d (co_lines c) \<and> row_warehouse row = Some w) \<and>
     (\<exists>p. payments d' = payments d @ [p] \<and> pay_order p = al_order_id (sg_alloc env) \<and>
        pay_status p = res_status r \<and> pay_amount_cents p = exact_total d (co_lines c) \<and>
        (pay_settled_at p \<noteq> None \<longleftrightarrow> res_status r \<in> {PS_CAPTURED, PS_DECLINED})) \<and>
     (\<forall>w' p. stock d' w' p = (if w' = w
        then map_option (stock_after (res_status r) (lines_total (co_lines c) p)) (stock d w p)
        else stock d w' p)) \<and>
     map job_queue (jobs d') = map job_queue (jobs d) @ (if res_status r = PS_CAPTURED
        then [''shipment.create'', ''customer.notify'', ''analytics.record''] else [])"

fun saga_answer :: "charge_result \<Rightarrow> uuid \<Rightarrow> app_error + saga_result \<Rightarrow> bool" where
  "saga_answer r oid (Inr res) \<longleftrightarrow> res_status r = PS_CAPTURED \<and> ord_id (sr_order res) = oid \<and>
     ord_status (sr_order res) = CONFIRMED"
| "saga_answer r oid (Inl e) \<longleftrightarrow> (let code = map_option failure_code_text (res_failure_code r) in
     e = (if res_status r = PS_DECLINED then PaymentDeclinedError oid code
          else PaymentProviderUnavailableError oid code)) \<and> res_status r \<noteq> PS_CAPTURED"

lemma stock_bound_after_reserve:
  assumes "valid_lines ls" and "stock_bounded d w"
    and "\<forall>l \<in> set ls. covers d w l"
    and "stock d2 w p = map_option (\<lambda>(a, r). (a - lines_total ls p, r + lines_total ls p)) (stock d w p)"
    and "p \<in> line_product ` set ls"
  shows "\<exists>a r. stock d2 w p = Some (a, r) \<and> 0 \<le> a \<and> lines_total ls p \<le> r \<and> a + r < 2 ^ 31"
proof -
  from assms(5) obtain l where l: "l \<in> set ls" "p = line_product l" by blast
  then obtain a r where ar: "stock d w p = Some (a, r)" "line_quantity l \<le> a"
    using assms(3) by (auto simp: covers_def)
  moreover have "lines_total ls p = line_quantity l"
    using assms(1) l lines_total_distinct by (auto simp: valid_lines_def)
  moreover have "0 \<le> r" "a + r < 2 ^ 31" using assms(2) ar(1) by (auto simp: stock_bounded_def)
  ultimately show ?thesis using assms(4) by simp
qed

definition charged_db :: "saga_env \<Rightarrow> db \<Rightarrow> create_order_command \<Rightarrow> coordinates \<Rightarrow> uuid \<Rightarrow> charge_result \<Rightarrow> db \<Rightarrow> db" where
  "charged_db env d c l w r d2 = d2\<lparr>payments := payments d @
     [charged_payment env r (initial_payment env (placed_order env d c l w))]\<rparr>"

lemma reserved_settles:
  fixes r :: charge_result
  assumes ready: "orderable d c" "catalogue_distinct d" "fresh_ids d env"
    and w: "nearest knn d l (co_lines c) wh" "stock_bounded d (wh_id wh)" and l: "coordinates_wf l"
    and res: "reserve (al_now (sg_alloc env) 0) False \<lparr>rc_order = al_order_id (sg_alloc env),
      rc_warehouse = wh_id wh, rc_lines = co_lines c\<rparr> (placed_db env d c l (wh_id wh)) = Inr d2"
  defines "d4 \<equiv> charged_db env d c l (wh_id wh) r d2" and "oid \<equiv> al_order_id (sg_alloc env)"
  assumes env: "\<not> tx_contended te" "sends_ok (tx_send te)"
    and pay: "(case pay of None \<Rightarrow> Inr d4 | Some p \<Rightarrow> update_payment (tx_now te) p d4) = Inr d1"
  shows "\<exists>o2 d5. settlement_call s te oid pay d4 = Inr (SETTLED, o2, d5) \<and>
    ord_id o2 = oid \<and> ord_status o2 = final_status s \<and> ord_total o2 = ord_total (placed_order env d c l (wh_id wh)) \<and>
    find_order d5 oid = Some (order_to_persistence (tx_now te) o2) \<and>
    ord_warehouse o2 = Some (wh_id wh) \<and> payments d5 = payments d1 \<and>
    jobs d5 = jobs d @ settlement_jobs s te oid \<and>
    (\<forall>w' p. stock d5 w' p = (if w' = wh_id wh \<and> p \<in> line_product ` set (co_lines c)
       then map_option (\<lambda>(a, r). (a + returned (settlement_type s) (lines_total (co_lines c) p),
         r - lines_total (co_lines c) p)) (stock d2 (wh_id wh) p) else stock d2 w' p))"
proof -
  let ?w = "wh_id wh" and ?row = "reserved_row env d c l (wh_id wh)"
  note f = reserved_facts[OF ready(1-3) res, folded oid_def]
  have lines: "valid_lines (co_lines c)" "\<forall>ln \<in> set (co_lines c). covers d ?w ln"
    using ready(1) w(1) by (auto simp: orderable_def nearest_def qualifies_def)
  have find: "find_order d4 oid = Some ?row" by (simp add: d4_def charged_db_def f(1))
  have wf: "order_row_wf ?row" by (rule reserved_row_wf[OF ready(1,2) l])
  have inv: "inventory_keys_distinct d4"
    using f(2) by (simp add: d4_def charged_db_def inventory_keys_distinct_def)
  have same: "stock d4 = stock d2" "held d4 = held d2" "items_of d4 oid = items_of d2 oid"
    "jobs d4 = jobs d" "customers d4 = customers d" "warehouses d4 = warehouses d" "products d4 = products d"
    "orders d4 = orders d @ [?row]"
    by (simp_all add: d4_def charged_db_def f)
  have items: "map ir_product (items_of d4 oid) = map line_product (co_lines c)"
    by (simp add: same f(8))
  then have set: "ir_product ` set (items_of d4 oid) = line_product ` set (co_lines c)"
    by (metis list.set_map)
  have dist: "distinct (map ir_product (items_of d4 oid))"
    using lines(1) by (simp only: items valid_lines_def)
  have "\<exists>o2 d5. settlement_call s te oid pay d4 = Inr (SETTLED, o2, d5)"
  proof (rule settlement_ok[OF find reserved_row_sel(2) wf reserved_row_sel(3) inv dist])
    show "\<forall>p\<in>ir_product ` set (items_of d4 oid). case stock d4 ?w p of None \<Rightarrow> True
        | Some (a, r) \<Rightarrow> 0 \<le> a \<and> held d4 oid p \<le> r \<and> a + r < 2 ^ 31"
    proof
      fix p assume "p \<in> ir_product ` set (items_of d4 oid)"
      then have p: "p \<in> line_product ` set (co_lines c)" by (simp add: set)
      have "stock d2 ?w p = map_option (\<lambda>(a, r). (a - lines_total (co_lines c) p, r + lines_total (co_lines c) p))
          (stock d ?w p)" using f(9)[of ?w p] by simp
      from stock_bound_after_reserve[OF lines(1) w(2) lines(2) this p] f(10)[OF p]
      show "case stock d4 ?w p of None \<Rightarrow> True | Some (a, r) \<Rightarrow> 0 \<le> a \<and> held d4 oid p \<le> r \<and> a + r < 2 ^ 31"
        by (auto simp: same)
    qed
    show "ir_product ` set (items_of d4 oid) \<subseteq> prod_id ` set (products d4)"
    proof
      fix p assume "p \<in> ir_product ` set (items_of d4 oid)"
      then obtain ln where "ln \<in> set (co_lines c)" "p = line_product ln" by (auto simp: set)
      with orderable_line(1,2)[OF ready(1,2)] show "p \<in> prod_id ` set (products d4)"
        by (metis image_eqI same(7))
    qed
    show "orders_fk_ok d4 ?row"
      using ready(1) w(1) by (force simp: orders_fk_ok_def same orderable_def nearest_def)
    show "order_row_unique d4 ?row"
      using ready(3) by (auto simp: order_row_unique_def same fresh_ids_def Let_def oid_def)
  qed (use env pay in simp_all)
  then obtain o2 d5 where s: "settlement_call s te oid pay d4 = Inr (SETTLED, o2, d5)" by blast
  note sa = sends_ok_append[OF env(2)]
  note row = settled_row[OF s sa inv dist] and st = settled_stock[OF s sa inv dist find reserved_row_sel(3)]
    and o2 = settled_entity_wf(1)[OF s find wf] and pays = settled_payments[OF s sa inv dist pay]
  have "stock d5 w' p = (if w' = ?w \<and> p \<in> line_product ` set (co_lines c)
       then map_option (\<lambda>(a, r). (a + returned (settlement_type s) (lines_total (co_lines c) p),
         r - lines_total (co_lines c) p)) (stock d2 ?w p) else stock d2 w' p)" for w' p
    using st(1)[of w' p] f(10)[of p] set[unfolded same(3)] by (simp add: same)
  moreover have "ord_total o2 = ord_total (placed_order env d c l ?w)"
    by (simp add: o2) (simp add: entity_of_def reserved_row_def order_to_persistence_def)
  ultimately show ?thesis
    using s row pays o2 by (auto simp: same oid_def)
qed

lemma saga_settles:
  fixes r :: charge_result
  assumes "orderable d c" "catalogue_distinct d" "fresh_ids d env" "undisturbed env"
    and "nearest knn d l (co_lines c) wh" "stock_bounded d (wh_id wh)" and "coordinates_wf l"
    and "reserve (al_now (sg_alloc env) 0) False \<lparr>rc_order = al_order_id (sg_alloc env),
      rc_warehouse = wh_id wh, rc_lines = co_lines c\<rparr> (placed_db env d c l (wh_id wh)) = Inr d2"
  shows "\<exists>o2 d5. settlement_call s (sg_settle env) (al_order_id (sg_alloc env)) None (charged_db env d c l (wh_id wh) r d2) =
      Inr (SETTLED, o2, d5) \<and>
    ord_id o2 = al_order_id (sg_alloc env) \<and> ord_status o2 = final_status s \<and>
    ord_total o2 = ord_total (placed_order env d c l (wh_id wh)) \<and>
    find_order d5 (al_order_id (sg_alloc env)) = Some (order_to_persistence (tx_now (sg_settle env)) o2) \<and>
    ord_warehouse o2 = Some (wh_id wh) \<and> payments d5 = payments (charged_db env d c l (wh_id wh) r d2) \<and>
    jobs d5 = jobs d @ settlement_jobs s (sg_settle env) (al_order_id (sg_alloc env)) \<and>
    (\<forall>w' p. stock d5 w' p = (if w' = wh_id wh \<and> p \<in> line_product ` set (co_lines c)
       then map_option (\<lambda>(a, r). (a + returned (settlement_type s) (lines_total (co_lines c) p),
         r - lines_total (co_lines c) p)) (stock d2 (wh_id wh) p) else stock d2 w' p))"
  using assms(4) by (intro reserved_settles[OF assms(1-3,5-8)]) (simp_all add: undisturbed_def)

text \<open>The command the gateway is given for an order.\<close>

definition saga_charge :: "saga_env \<Rightarrow> db \<Rightarrow> create_order_command \<Rightarrow> charge_command" where
  "saga_charge env d c = \<lparr>cmd_card_number = co_card_number c,
     cmd_amount_minor = exact_total d (co_lines c), cmd_currency = ''USD'',
     cmd_description = ''Order '' @ order_number (sg_year env) (order_number_seq d),
     cmd_idempotency_key = ''order:'' @ al_order_id (sg_alloc env) @ '':attempt:1''\<rparr>"

lemma charge_command_placed: "charge_command_of c (placed_order env d c l w) = saga_charge env d c"
  by (simp add: charge_command_of_def placed_order_def saga_charge_def build_charge_idempotency_key_def
      FIRST_PAYMENT_ATTEMPT_def show_nat.simps digit_char_eqs usd_def)

lemma saga_until_charged:
  assumes ready: "orderable d c" "catalogue_distinct d" "distinct (map wh_id (warehouses d))"
      "fresh_ids d env" "undisturbed env"
    and geo: "geocode (co_address c) g = (Inr l, g1)"
    and w: "nearest knn d l (co_lines c) wh" "stock_bounded d (wh_id wh)"
    and charge: "charge (saga_charge env d c) g1 = (r, g2)"
  shows "\<exists>d2 items alloc.
    create_order geocode charge knn st_distance env c \<lparr>w_db = d, w_ext = g\<rparr> =
      settle_saga env (placed_order env d c l (wh_id wh)) items alloc
        (charged_payment env r (initial_payment env (placed_order env d c l (wh_id wh)))) r
        \<lparr>w_db = charged_db env d c l (wh_id wh) r d2, w_ext = g2\<rparr> \<and>
    reserve (al_now (sg_alloc env) 0) False \<lparr>rc_order = al_order_id (sg_alloc env), rc_warehouse = wh_id wh,
      rc_lines = co_lines c\<rparr> (placed_db env d c l (wh_id wh)) = Inr d2"
proof -
  let ?o = "placed_order env d c l (wh_id wh)" and ?oid = "al_order_id (sg_alloc env)"
  from reserve_order_ok[where geocode = geocode and g = g and l = l and ?g1.0 = g1 and knn = knn and w = wh
      and st_distance = st_distance and env = env and c = c and d = d, OF ready geo w] obtain d2 items alloc where
    res: "reserve_order geocode knn st_distance env c (found_products d c) \<lparr>w_db = d, w_ext = g\<rparr> =
      (Inr (?o, items, alloc), \<lparr>w_db = d2, w_ext = g1\<rparr>)"
    and d2: "reserve (al_now (sg_alloc env) 0) False \<lparr>rc_order = ?oid, rc_warehouse = wh_id wh,
      rc_lines = co_lines c\<rparr> (placed_db env d c l (wh_id wh)) = Inr d2" by blast
  note f = reserved_facts[OF ready(1,2,4) d2]
  have oid: "ord_id ?o = ?oid" "amount_cents (ord_total ?o) = exact_total d (co_lines c)"
    by (simp_all add: placed_order_def)
  have others: "sg_others env k = (\<lambda>d. d)" for k using ready(5) by (simp add: undisturbed_def)
  have fresh: "\<forall>x \<in> set (payments d2). pay_order x \<noteq> ord_id ?o \<and> pay_id x \<noteq> sg_payment_id env \<and>
      pay_idempotency_key x \<noteq> build_charge_idempotency_key (ord_id ?o) 1"
    using ready(4) by (auto simp: f(3) oid fresh_ids_def Let_def)
  have "order_exists d2 (ord_id ?o)" using f(1) by (simp add: order_exists_find oid)
  moreover have "in_int8 (amount_cents (ord_total ?o))"
    using exact_total_nonneg[OF ready(1,2)] ready(1) by (simp add: oid in_int8_def orderable_def)
  moreover have "charge (charge_command_of c ?o) g1 = (r, g2)"
    using charge by (simp add: charge_command_placed)
  ultimately have ch: "charge_order charge env c ?o \<lparr>w_db = d2, w_ext = g1\<rparr> =
    (Inr (charged_payment env r (initial_payment env ?o), r),
     \<lparr>w_db = charged_db env d c l (wh_id wh) r d2, w_ext = g2\<rparr>)"
    using charge_order_ok[OF fresh _ _ others] by (simp add: charged_db_def f(3))
  have "create_order geocode charge knn st_distance env c \<lparr>w_db = d, w_ext = g\<rparr> =
      settle_saga env ?o items alloc (charged_payment env r (initial_payment env ?o)) r
        \<lparr>w_db = charged_db env d c l (wh_id wh) r d2, w_ext = g2\<rparr>"
    by (simp add: create_order_def bindE_def resolve_ok[OF ready(1,2), folded found_products_def]
        res meanwhile_def others ch)
  with d2 show ?thesis by blast
qed

lemma charged_payment_sel [simp]:
  "pay_order (charged_payment env r p) = pay_order p" "pay_status (charged_payment env r p) = res_status r"
  "pay_amount_cents (charged_payment env r p) = pay_amount_cents p"
  "pay_settled_at (charged_payment env r p) =
     (if is_definitive_outcome (res_status r) then Some (sg_now env) else None)"
  by (simp_all add: charged_payment_def)

lemma saga_left_payment:
  assumes "payments d5 = payments (charged_db env d c l w r d2)"
  shows "\<exists>p. payments d5 = payments d @ [p] \<and> pay_order p = al_order_id (sg_alloc env) \<and>
    pay_status p = res_status r \<and> pay_amount_cents p = exact_total d (co_lines c) \<and>
    (pay_settled_at p \<noteq> None \<longleftrightarrow> res_status r \<in> {PS_CAPTURED, PS_DECLINED})"
  using assms by (intro exI[of _ "charged_payment env r (initial_payment env (placed_order env d c l w))"])
    (simp add: charged_db_def initial_payment_def placed_order_def is_definitive_outcome_def)

lemma job_queues_confirmed:
  "map job_queue (settlement_jobs s env oid) = (if s = SettleCaptured
     then [''shipment.create'', ''customer.notify'', ''analytics.record''] else [])"
  by (cases s) (simp_all add: confirmed_jobs_def)

lemma order_row_amount: "row_total_cents (order_to_persistence now o1) = amount_cents (ord_total o1)"
  by (simp add: order_to_persistence_def)

lemma saga_left_settled:
  assumes ready: "orderable d c" "catalogue_distinct d" "fresh_ids d env" "undisturbed env"
    and w: "nearest knn d l (co_lines c) wh" "stock_bounded d (wh_id wh)" and l: "coordinates_wf l"
    and res: "reserve (al_now (sg_alloc env) 0) False \<lparr>rc_order = al_order_id (sg_alloc env),
      rc_warehouse = wh_id wh, rc_lines = co_lines c\<rparr> (placed_db env d c l (wh_id wh)) = Inr d2"
    and s: "res_status r = PS_CAPTURED \<and> s = SettleCaptured \<or> res_status r = PS_DECLINED \<and> s = SettleDeclined"
  shows "\<exists>o2 d5. settlement_call s (sg_settle env) (al_order_id (sg_alloc env)) None
      (charged_db env d c l (wh_id wh) r d2) = Inr (SETTLED, o2, d5) \<and>
    ord_id o2 = al_order_id (sg_alloc env) \<and> ord_status o2 = final_status s \<and>
    saga_left env c (wh_id wh) d r d5"
proof -
  from saga_settles[OF ready w l res, of s r] obtain o2 d5 where
    o2: "settlement_call s (sg_settle env) (al_order_id (sg_alloc env)) None
      (charged_db env d c l (wh_id wh) r d2) = Inr (SETTLED, o2, d5)"
    "ord_id o2 = al_order_id (sg_alloc env)" "ord_status o2 = final_status s"
    "ord_total o2 = ord_total (placed_order env d c l (wh_id wh))"
    "find_order d5 (al_order_id (sg_alloc env)) = Some (order_to_persistence (tx_now (sg_settle env)) o2)"
    "ord_warehouse o2 = Some (wh_id wh)" "payments d5 = payments (charged_db env d c l (wh_id wh) r d2)"
    "jobs d5 = jobs d @ settlement_jobs s (sg_settle env) (al_order_id (sg_alloc env))"
    and st: "\<And>w' p. stock d5 w' p = (if w' = wh_id wh \<and> p \<in> line_product ` set (co_lines c)
       then map_option (\<lambda>(a, r). (a + returned (settlement_type s) (lines_total (co_lines c) p),
         r - lines_total (co_lines c) p)) (stock d2 (wh_id wh) p) else stock d2 w' p)" by blast
  have "stock d5 w' p = (if w' = wh_id wh
      then map_option (stock_after (res_status r) (lines_total (co_lines c) p)) (stock d (wh_id wh) p)
      else stock d w' p)" for w' p
    using st[of w' p] reserved_facts(9)[OF ready(1-3) res, of w' p] s lines_total_absent[of p "co_lines c"]
    by (cases "stock d (wh_id wh) p") (auto simp: returned_def)
  moreover have "row_status (order_to_persistence (tx_now (sg_settle env)) o2) = status_after (res_status r)"
    using o2(3) s by auto
  moreover have "ord_total (placed_order env d c l (wh_id wh)) =
      \<lparr>amount_cents = exact_total d (co_lines c), currency = usd\<rparr>" by (simp add: placed_order_def)
  ultimately have "saga_left env c (wh_id wh) d r d5"
    using o2 saga_left_payment[OF o2(7)] s
    by (auto simp: saga_left_def job_queues_confirmed order_row_amount)
  with o2 show ?thesis by blast
qed

lemma saga_left_unresolved:
  assumes ready: "orderable d c" "catalogue_distinct d" "fresh_ids d env"
    and res: "reserve (al_now (sg_alloc env) 0) False \<lparr>rc_order = al_order_id (sg_alloc env),
      rc_warehouse = w, rc_lines = co_lines c\<rparr> (placed_db env d c l w) = Inr d2"
    and s: "res_status r \<noteq> PS_CAPTURED" "res_status r \<noteq> PS_DECLINED"
  shows "saga_left env c w d r (charged_db env d c l w r d2)"
proof -
  note f = reserved_facts[OF ready res]
  have "status_after (res_status r) = PENDING_PAYMENT"
    "stock_after (res_status r) q x = (case x of (a, b) \<Rightarrow> (a - q, b + q))" for q x
    using s by (cases "res_status r"; cases x; simp)+
  moreover have "stock (charged_db env d c l w r d2) = stock d2"
    "find_order (charged_db env d c l w r d2) = find_order d2"
    by (auto simp: charged_db_def fun_eq_iff stock_def find_inventory_def find_order_def)
  ultimately show ?thesis
    using saga_left_payment[OF refl, where env = env and d = d and c = c and l = l and w = w and r = r and ?d2.0 = d2] s
    by (auto simp: saga_left_def f split_def map_option_case charged_db_def split: option.splits)
qed

text \<open>The run of the saga, with the database between the reservation and the settlement.\<close>

lemma saga_run:
  assumes "orderable d c" and "catalogue_distinct d" and "distinct (map wh_id (warehouses d))"
    and "fresh_ids d env" and "undisturbed env"
    and "geocode (co_address c) g = (Inr l, g1)" and "coordinates_wf l"
    and "nearest knn d l (co_lines c) wh" and "stock_bounded d (wh_id wh)"
    and "charge (saga_charge env d c) g1 = (r, g2)"
  shows "\<exists>answer w d2.
    create_order geocode charge knn st_distance env c \<lparr>w_db = d, w_ext = g\<rparr> = (answer, w) \<and>
    w_ext w = g2 \<and> saga_answer r (al_order_id (sg_alloc env)) answer \<and>
    saga_left env c (wh_id wh) d r (w_db w) \<and>
    reserve (al_now (sg_alloc env) 0) False \<lparr>rc_order = al_order_id (sg_alloc env), rc_warehouse = wh_id wh,
      rc_lines = co_lines c\<rparr> (placed_db env d c l (wh_id wh)) = Inr d2 \<and>
    (res_status r \<noteq> PS_CAPTURED \<and> res_status r \<noteq> PS_DECLINED \<longrightarrow> w_db w = charged_db env d c l (wh_id wh) r d2)"
proof -
  let ?o = "placed_order env d c l (wh_id wh)" and ?oid = "al_order_id (sg_alloc env)"
  from saga_until_charged[where charge = charge and r = r and ?g2.0 = g2 and geocode = geocode and g = g and l = l and ?g1.0 = g1 and knn = knn and wh = wh
      and st_distance = st_distance and env = env and c = c and d = d, OF assms(1-6,8-10)]
  obtain d2 items alloc where run: "create_order geocode charge knn st_distance env c \<lparr>w_db = d, w_ext = g\<rparr> =
      settle_saga env ?o items alloc (charged_payment env r (initial_payment env ?o)) r
        \<lparr>w_db = charged_db env d c l (wh_id wh) r d2, w_ext = g2\<rparr>"
    and res: "reserve (al_now (sg_alloc env) 0) False \<lparr>rc_order = ?oid, rc_warehouse = wh_id wh,
      rc_lines = co_lines c\<rparr> (placed_db env d c l (wh_id wh)) = Inr d2" by blast
  have oid: "ord_id ?o = ?oid" by (simp add: placed_order_def)
  note left = saga_left_settled[OF assms(1,2,4,5,8,9,7) res, of r]
  consider "res_status r = PS_CAPTURED" | "res_status r = PS_DECLINED"
    | "res_status r \<noteq> PS_CAPTURED" "res_status r \<noteq> PS_DECLINED" by blast
  then show ?thesis
  proof cases
    case 1
    with left[of SettleCaptured] res show ?thesis
      by (auto simp: run settle_saga_def oid settle_step_def in_transaction_def bindE_def returnE_def)
  next
    case 2
    with left[of SettleDeclined] res show ?thesis
      by (auto simp: run settle_saga_def oid settle_step_def in_transaction_def bindE_def throwE_def)
  next
    case 3
    with saga_left_unresolved[OF assms(1,2,4) res] res show ?thesis
      by (auto simp: run settle_saga_def oid throwE_def)
  qed
qed

text \<open>
  C8. For an order the catalogue and some warehouse can serve, the saga's answer and the database
  it leaves follow the gateway's answer to one charge, sent with the exact total and the order's own
  key. CAPTURED: 201 with a CONFIRMED order, the units gone from the nearest warehouse that covers
  every line, the payment settled and the three follow-up jobs queued. DECLINED: the declined error,
  PAYMENT_FAILED, every unit back. Anything else: the unavailable error, the order still pending, its
  units still reserved and its payment left open for the jobs. No other warehouse's stock changes.
\<close>

theorem saga_follows_charge:
  assumes "orderable d c" and "catalogue_distinct d" and "distinct (map wh_id (warehouses d))"
    and "fresh_ids d env" and "undisturbed env"
    and "geocode (co_address c) g = (Inr l, g1)" and "coordinates_wf l"
    and "nearest knn d l (co_lines c) wh" and "stock_bounded d (wh_id wh)"
    and "charge (saga_charge env d c) g1 = (r, g2)"
  shows "\<exists>answer w.
    create_order geocode charge knn st_distance env c \<lparr>w_db = d, w_ext = g\<rparr> = (answer, w) \<and>
    w_ext w = g2 \<and> saga_answer r (al_order_id (sg_alloc env)) answer \<and>
    saga_left env c (wh_id wh) d r (w_db w)"
  using saga_run[where geocode = geocode and charge = charge and knn = knn and st_distance = st_distance and env = env
      and c = c and d = d and g = g and l = l and ?g1.0 = g1 and ?g2.0 = g2 and wh = wh and r = r] assms by blast

subsection \<open>A concrete order\<close>

definition sample_command :: create_order_command where
  "sample_command = \<lparr>co_customer = ''c1'', co_address = ord_address sample_order,
     co_lines = rc_lines sample_reserve, co_card_number = ''4242424242424242'', co_idempotency_key = ''k''\<rparr>"

definition sample_saga_env :: saga_env where
  "sample_saga_env = \<lparr>sg_now = 0, sg_year = 2026, sg_alloc = \<lparr>al_order_id = ''o9'', al_now = (\<lambda>_. 0),
       al_contended = (\<lambda>_. False), al_others = (\<lambda>_ d. d)\<rparr>,
     sg_item_id = show_nat, sg_payment_id = ''p1'', sg_settle = sample_env, sg_others = (\<lambda>_ d. d)\<rparr>"

definition sample_shop :: db where
  "sample_shop = sample_db\<lparr>order_number_seq := 2\<rparr>"

definition sample_charge :: "payment_status \<Rightarrow> charge_command \<Rightarrow> nat \<Rightarrow> charge_result \<times> nat" where
  "sample_charge s cmd n = (\<lparr>res_status = s, res_provider_payment_id = None, res_card_last4 = None,
     res_card_brand = None, res_failure_code = None, res_raw_response = None\<rparr>, n + 1)"

definition sample_geocode :: "address \<Rightarrow> nat \<Rightarrow> (app_error + coordinates) \<times> nat" where
  "sample_geocode a n = (Inr \<lparr>latitude = 32, longitude = - 117\<rparr>, n)"

lemma sample_number: "order_number 2026 2 = ''CNL-2026-000002''"
proof -
  have "replicate (6 - length ''2'') CHR ''0'' = ''00000''" by code_simp
  then show ?thesis by (simp add: order_number_def lpad0_def show_nat.simps digit_char_eqs)
qed

lemma sample_shop_ready:
  "orderable sample_shop sample_command" "catalogue_distinct sample_shop"
  "distinct (map wh_id (warehouses sample_shop))" "fresh_ids sample_shop sample_saga_env"
  "undisturbed sample_saga_env" "stock_bounded sample_shop ''w1''"
  "nearest (\<lambda>_ _. 0) sample_shop l (co_lines sample_command) (hd (warehouses sample_shop))"
proof -
  have inj: "inj show_nat" by (simp add: inj_def)
  show "fresh_ids sample_shop sample_saga_env"
    by (simp add: fresh_ids_def sample_shop_def sample_saga_env_def sample_defs order_exists_def inj sample_number)
  show "orderable sample_shop sample_command"
    by (simp add: orderable_def sample_shop_def sample_command_def sample_defs valid_lines_def sellable_def
        exact_total_def line_price_def the_product_def in_int4_def address_wf_def
        blank_def js_trim_def is_js_space_def)
  show "catalogue_distinct sample_shop"
    by (simp add: catalogue_distinct_def sample_shop_def sample_defs inventory_keys_distinct_def inv_key_def)
  show "distinct (map wh_id (warehouses sample_shop))" by (simp add: sample_shop_def sample_defs)
  show "undisturbed sample_saga_env" by (simp add: undisturbed_def sample_saga_env_def sample_env_def)
  show "stock_bounded sample_shop ''w1''"
    by (auto simp: stock_bounded_def sample_shop_def sample_defs stock_def find_inventory_def inv_key_def
        split: if_splits)
  show "nearest (\<lambda>_ _. 0) sample_shop l (co_lines sample_command) (hd (warehouses sample_shop))"
    by (simp add: nearest_def sample_shop_def sample_command_def sample_defs qualifies_def covers_def
        stock_def find_inventory_def inv_key_def)
qed

theorem saga_follows_charge_witness:
  "\<exists>answer w. create_order sample_geocode (sample_charge PS_CAPTURED) (\<lambda>_ _. 0) (\<lambda>_ _. 0) sample_saga_env
      sample_command \<lparr>w_db = sample_shop, w_ext = 0\<rparr> = (answer, w) \<and> w_ext w = 1 \<and>
    saga_left sample_saga_env sample_command ''w1'' sample_shop
      (fst (sample_charge PS_CAPTURED (saga_charge sample_saga_env sample_shop sample_command) 0)) (w_db w) \<and>
    saga_answer (fst (sample_charge PS_CAPTURED (saga_charge sample_saga_env sample_shop sample_command) 0))
      ''o9'' answer"
proof -
  have "wh_id (hd (warehouses sample_shop)) = ''w1''" "al_order_id (sg_alloc sample_saga_env) = ''o9''"
    by (simp_all add: sample_shop_def sample_defs sample_saga_env_def)
  then show ?thesis
    using saga_follows_charge[where d = sample_shop and c = sample_command and env = sample_saga_env
        and geocode = sample_geocode and charge = "sample_charge PS_CAPTURED" and g = 0 and ?g1.0 = 0
        and l = "\<lparr>latitude = 32, longitude = - 117\<rparr>" and knn = "\<lambda>_ _. 0" and ?g2.0 = 1
        and wh = "hd (warehouses sample_shop)" and st_distance = "\<lambda>_ _. 0"
        and r = "fst (sample_charge PS_CAPTURED (saga_charge sample_saga_env sample_shop sample_command) 0)"]
      sample_shop_ready
    by (simp add: sample_charge_def sample_geocode_def coordinates_wf_def) blast
qed

subsection \<open>Refusals before the charge\<close>

definition quiet :: "saga_env \<Rightarrow> bool" where
  "quiet env \<longleftrightarrow> (\<forall>k. sg_others env k = (\<lambda>d. d)) \<and> (\<forall>k. al_others (sg_alloc env) k = (\<lambda>d. d))"

lemma quiet_foldl: "quiet env \<Longrightarrow> foldl (\<lambda>d j. al_others (sg_alloc env) j d) d ks = d"
  by (induction ks arbitrary: d) (simp_all add: quiet_def)

lemma refused_reserve:
  assumes "quiet env" and "reserve_order geocode knn st_distance env c found w = (Inl e, w')"
  shows "\<exists>n. w_db w' = (w_db w)\<lparr>order_number_seq := n\<rparr>"
    and "w_ext w' = w_ext w \<or> w_ext w' = snd (geocode (co_address c) (w_ext w))"
proof -
  have same: "\<exists>n. d = d\<lparr>order_number_seq := n\<rparr>" for d :: db
    by (rule exI[of _ "order_number_seq d"]) simp
  have trace: "allocate_inventory knn st_distance (sg_alloc env) prepare point ls d = (Inl e, d') \<Longrightarrow> d' = d"
    for prepare :: "uuid \<Rightarrow> uuid \<Rightarrow> db \<Rightarrow> app_error + ((order \<times> order_item list) \<times> db)" and point ls d d'
    using allocation_error_trace[of knn st_distance "sg_alloc env" prepare point ls d e d'] quiet_foldl[OF assms(1)]
    by auto
  have "(\<exists>n. w_db w' = (w_db w)\<lparr>order_number_seq := n\<rparr>) \<and>
    (w_ext w' = w_ext w \<or> w_ext w' = snd (geocode (co_address c) (w_ext w)))"
    using assms(2,1)
    by (auto simp: reserve_order_def bindE_def meanwhile_def quiet_def geocode_step_def generate_order_number_def
        Let_def allocate_step_def returnE_def shipping_address_of_Inr_iff same
        split: sum.splits prod.splits dest!: trace)
  then show "\<exists>n. w_db w' = (w_db w)\<lparr>order_number_seq := n\<rparr>"
    and "w_ext w' = w_ext w \<or> w_ext w' = snd (geocode (co_address c) (w_ext w))" by auto
qed

text \<open>
  C12. An order refused before its charge never reaches the gateway and leaves nothing in the
  database: when the customer or a product is unknown, the address does not geocode, the total
  overflows or no warehouse can reserve every line, the whole database is as it was, except that an
  order number may have been drawn from its sequence (a sequence does not roll back), and the only
  outside call is the geocoder's.
\<close>

theorem refused_order_leaves_nothing:
  assumes "quiet env"
    and "resolve_customer_and_products c d = Inl e \<or>
      (\<exists>found w. resolve_customer_and_products c d = Inr found \<and>
        reserve_order geocode knn st_distance env c found \<lparr>w_db = d, w_ext = g\<rparr> = (Inl e, w))"
  shows "\<exists>n g'. create_order geocode charge knn st_distance env c \<lparr>w_db = d, w_ext = g\<rparr> =
      (Inl e, \<lparr>w_db = d\<lparr>order_number_seq := n\<rparr>, w_ext = g'\<rparr>) \<and>
    (g' = g \<or> g' = snd (geocode (co_address c) g))"
  using assms(2)
proof
  assume "resolve_customer_and_products c d = Inl e"
  then show ?thesis
    by (intro exI[of _ "order_number_seq d"] exI[of _ g]) (simp add: create_order_def bindE_def)
next
  assume "\<exists>found w. resolve_customer_and_products c d = Inr found \<and>
        reserve_order geocode knn st_distance env c found \<lparr>w_db = d, w_ext = g\<rparr> = (Inl e, w)"
  then obtain found w where
    f: "resolve_customer_and_products c d = Inr found"
       "reserve_order geocode knn st_distance env c found \<lparr>w_db = d, w_ext = g\<rparr> = (Inl e, w)" by blast
  from refused_reserve[OF assms(1) f(2)] obtain n where
    "w = \<lparr>w_db = d\<lparr>order_number_seq := n\<rparr>, w_ext = w_ext w\<rparr>"
    "w_ext w = g \<or> w_ext w = snd (geocode (co_address c) g)" by (cases w) auto
  with f show ?thesis
    by (intro exI[of _ n] exI[of _ "w_ext w"]) (simp add: create_order_def bindE_def)
qed

definition unserved_command :: create_order_command where
  "unserved_command = sample_command\<lparr>co_lines := [\<lparr>line_product = ''pa'', line_quantity = 99\<rparr>]\<rparr>"

theorem refused_order_leaves_nothing_witness:
  "\<exists>n. create_order sample_geocode (sample_charge PS_CAPTURED) (\<lambda>_ _. 0) (\<lambda>_ _. 0) sample_saga_env
      unserved_command \<lparr>w_db = sample_shop, w_ext = 0\<rparr> =
    (Inl (NoFulfilmentPossibleError [''pa''] NO_CANDIDATES), \<lparr>w_db = sample_shop\<lparr>order_number_seq := n\<rparr>, w_ext = 0\<rparr>)"
proof -
  let ?e = "NoFulfilmentPossibleError [''pa''] NO_CANDIDATES" and ?c = unserved_command and ?d = sample_shop
  let ?d1 = "?d\<lparr>order_number_seq := 3\<rparr>"
  have q: "quiet sample_saga_env" by (simp add: quiet_def sample_saga_env_def)
  have ready: "orderable ?d ?c"
    by (simp add: orderable_def sample_shop_def unserved_command_def sample_command_def sample_defs
        valid_lines_def sellable_def exact_total_def line_price_def the_product_def in_int4_def address_wf_def
        blank_def js_trim_def is_js_space_def)
  then have addr: "shipping_address_of (co_address ?c) = Inr (co_address ?c)"
    by (simp add: shipping_address_of_Inr_iff orderable_def)
  have "filter (qualifies ?d (co_lines ?c)) (warehouses ?d) = []"
    by (simp add: sample_shop_def unserved_command_def sample_defs qualifies_def covers_def stock_def
        find_inventory_def inv_key_def)
  then have "find_candidates (\<lambda>_ _. 0) (\<lambda>_ _. 0) ?d1 p (co_lines ?c) = Inr []" for p
    using ready sample_shop_ready(2)
    by (simp add: find_candidates_def select_warehouse_eq orderable_def)
  then have "allocate_inventory (\<lambda>_ _. 0) (\<lambda>_ _. 0) (sg_alloc sample_saga_env) prepare p (co_lines ?c) ?d1 =
      (Inl ?e, ?d1)" for p and prepare :: "uuid \<Rightarrow> uuid \<Rightarrow> db \<Rightarrow> app_error + ((order \<times> order_item list) \<times> db)"
    by (simp add: allocate_inventory_def) (simp add: unserved_command_def)
  then have "fst (reserve_order sample_geocode (\<lambda>_ _. 0) (\<lambda>_ _. 0) sample_saga_env ?c (found_products ?d ?c)
      \<lparr>w_db = ?d, w_ext = 0\<rparr>) = Inl ?e"
    using order_total_ok[OF ready sample_shop_ready(2)] q
    by (simp add: reserve_order_def bindE_def addr geocode_step_def sample_geocode_def meanwhile_def quiet_def
        generate_order_number_def Let_def allocate_step_def) (simp add: sample_shop_def)
  then have "resolve_customer_and_products ?c ?d = Inl ?e \<or>
      (\<exists>found w. resolve_customer_and_products ?c ?d = Inr found \<and>
        reserve_order sample_geocode (\<lambda>_ _. 0) (\<lambda>_ _. 0) sample_saga_env ?c found \<lparr>w_db = ?d, w_ext = 0\<rparr> = (Inl ?e, w))"
    using resolve_ok[OF ready sample_shop_ready(2), folded found_products_def] by (auto simp: prod_eq_iff)
  from refused_order_leaves_nothing[OF q this, of "sample_charge PS_CAPTURED"] show ?thesis
    by (auto simp: sample_geocode_def)
qed

end
