(* ===== verification/Jobs.thy ===== *)
theory Jobs
  imports Create_Order
begin

section \<open>Background jobs\<close>

text \<open>
  \<^verbatim>\<open>src/application/jobs/\<close>: the two scheduled handlers that resolve what the saga left open
  (reconciliation and the reservation reaper) and the three consumers of \<open>order.confirmed\<close>. A
  worker is the world of the saga with what the handlers leave outside it, their log lines and the
  spans they end. The selections run in their own transaction, so other sessions may commit
  between a selection and the settlement of a row: \<open>jb_others k\<close> is what they commit before the
  settlement of the \<open>k\<close>-th selected row. Row locks held by others at the selection are \<open>jb_locked\<close>.
  Texts of driver errors are not modelled (\<open>error_message\<close> is empty for them).
\<close>

subsection \<open>The worker\<close>

datatype job_log =
  PaymentReconcileFailed uuid uuid string
| PaymentLeftUnresolved uuid uuid payment_status
| ReservationReapFailed uuid string
| ReservationUnresolved uuid int \<comment> \<open>an error line: the alert\<close>
| ReservationStillUnknown uuid int
| NotificationSent string uuid
| EventRecorded string uuid

record job_span =
  span_name :: string
  span_attributes :: "(string \<times> string) list"
  span_error :: "string option"

record 'g worker =
  wk_world :: "'g world"
  wk_logs :: "job_log list"
  wk_spans :: "job_span list"

definition job_logs :: "job_log \<Rightarrow> 'g worker \<Rightarrow> 'g worker" where
  "job_logs l s = s\<lparr>wk_logs := wk_logs s @ [l]\<rparr>"

definition on_world :: "('g world \<Rightarrow> ('e + 'a) \<times> 'g world) \<Rightarrow> 'g worker \<Rightarrow> ('e + 'a) \<times> 'g worker" where
  "on_world m s = (case m (wk_world s) of (r, w) \<Rightarrow> (r, s\<lparr>wk_world := w\<rparr>))"

text \<open>\<open>withJobSpan\<close>: the span ends in every case, with the redacted message when the step threw.\<close>

definition with_job_span ::
  "string \<Rightarrow> (string \<times> string) list \<Rightarrow> ('g worker \<Rightarrow> (app_error + 'a) \<times> 'g worker) \<Rightarrow> 'g worker \<Rightarrow>
   (app_error + 'a) \<times> 'g worker" where
  "with_job_span name attributes fn s = (case fn s of (r, s1) \<Rightarrow>
     (r, s1\<lparr>wk_spans := wk_spans s1 @ [\<lparr>span_name = name, span_attributes = attributes,
        span_error = (case r of Inl e \<Rightarrow> Some (redact_string (error_message e)) | Inr a \<Rightarrow> None)\<rparr>]\<rparr>))"

record job_env =
  jb_now :: timestamp \<comment> \<open>Postgres \<open>now()\<close> of the selection\<close>
  jb_locked :: "uuid \<Rightarrow> bool"
  jb_clock :: "nat \<Rightarrow> timestamp" \<comment> \<open>\<open>Date.now()\<close> at the \<open>k\<close>-th row\<close>
  jb_settle :: "nat \<Rightarrow> tx_env"
  jb_others :: "nat \<Rightarrow> db \<Rightarrow> db"

definition status_step ::
  "(string \<Rightarrow> 'g \<Rightarrow> charge_result \<times> 'g) \<Rightarrow> string \<Rightarrow> 'g worker \<Rightarrow> (app_error + charge_result) \<times> 'g worker" where
  "status_step get_status key = on_world (\<lambda>w. case get_status key (w_ext w) of (r, g) \<Rightarrow> (Inr r, w\<lparr>w_ext := g\<rparr>))"

definition settle_row ::
  "job_env \<Rightarrow> nat \<Rightarrow> settlement \<Rightarrow> uuid \<Rightarrow> payment_resolution option \<Rightarrow> 'g worker \<Rightarrow> (app_error + unit) \<times> 'g worker" where
  "settle_row env k s oid pay = on_world (bindE (meanwhile (jb_others env k)) (\<lambda>_.
     bindE (settle_step (settlement_call s (jb_settle env k) oid pay)) (\<lambda>_. returnE ())))"

text \<open>The loop of both scheduled handlers: a row's failure is logged and the next row is tried.\<close>

fun each_row ::
  "(nat \<Rightarrow> 'r \<Rightarrow> 'g worker \<Rightarrow> (app_error + unit) \<times> 'g worker) \<Rightarrow> ('r \<Rightarrow> string \<Rightarrow> job_log) \<Rightarrow> nat \<Rightarrow> 'r list \<Rightarrow>
   'g worker \<Rightarrow> 'g worker" where
  "each_row resolve failed k [] s = s"
| "each_row resolve failed k (r # rs) s = each_row resolve failed (k + 1) rs
     (case resolve k r s of
        (Inl e, s1) \<Rightarrow> job_logs (failed r (error_message e)) s1
      | (Inr u, s1) \<Rightarrow> s1)"

subsection \<open>Payment reconciliation\<close>

definition RECONCILIATION_BATCH_SIZE :: nat where "RECONCILIATION_BATCH_SIZE = 50"
definition RECONCILIATION_GRACE_MINUTES :: int where "RECONCILIATION_GRACE_MINUTES = 2"

record unsettled_payment =
  up_id :: uuid
  up_order :: uuid
  up_key :: string

text \<open>\<open>SELECT .. FOR UPDATE SKIP LOCKED\<close>; rows of one creation time keep the table's order.\<close>

definition unsettled :: "job_env \<Rightarrow> payment_row \<Rightarrow> bool" where
  "unsettled env p \<longleftrightarrow> pay_settled_at p = None \<and> unresolved (pay_status p) \<and>
     pay_created_at p < jb_now env - RECONCILIATION_GRACE_MINUTES * ms_per_minute"

definition select_unsettled_payments :: "job_env \<Rightarrow> db \<Rightarrow> unsettled_payment list" where
  "select_unsettled_payments env d =
     map (\<lambda>p. \<lparr>up_id = pay_id p, up_order = pay_order p, up_key = pay_idempotency_key p\<rparr>)
       (take RECONCILIATION_BATCH_SIZE (sort_key pay_created_at
         (filter (\<lambda>p. unsettled env p \<and> \<not> jb_locked env (pay_id p)) (payments d))))"

definition resolve_payment ::
  "(string \<Rightarrow> 'g \<Rightarrow> charge_result \<times> 'g) \<Rightarrow> job_env \<Rightarrow> nat \<Rightarrow> unsettled_payment \<Rightarrow> 'g worker \<Rightarrow>
   (app_error + unit) \<times> 'g worker" where
  "resolve_payment get_status env k row =
     bindE (status_step get_status (up_key row)) (\<lambda>c.
       (let payment = Some \<lparr>pr_payment_id = up_id row, pr_charge_result = c\<rparr> in
        if res_status c = PS_CAPTURED then settle_row env k SettleCaptured (up_order row) payment
        else if res_status c = PS_DECLINED then settle_row env k SettleDeclined (up_order row) payment
        else (\<lambda>s. (Inr (), job_logs (PaymentLeftUnresolved (up_order row) (up_id row) (res_status c)) s))))"

definition reconcile_payments ::
  "(string \<Rightarrow> 'g \<Rightarrow> charge_result \<times> 'g) \<Rightarrow> job_env \<Rightarrow> 'g worker \<Rightarrow> (app_error + unit) \<times> 'g worker" where
  "reconcile_payments get_status env =
     bindE (with_job_span ''select unsettled payments'' []
         (\<lambda>s. (Inr (select_unsettled_payments env (w_db (wk_world s))), s))) (\<lambda>rows s.
       (Inr (), each_row (\<lambda>k row. with_job_span ''resolve payment''
           [(''app.order_id'', up_order row), (''app.payment_id'', up_id row)]
           (resolve_payment get_status env k row))
         (\<lambda>row m. PaymentReconcileFailed (up_order row) (up_id row) m) 0 rows s))"

subsection \<open>The reservation reaper\<close>

definition REAPER_BATCH_SIZE :: nat where "REAPER_BATCH_SIZE = 50"
definition REAPER_ALERT_AFTER_MINUTES :: int where "REAPER_ALERT_AFTER_MINUTES = 30"

record expired_reservation =
  er_id :: uuid
  er_expires_at :: timestamp
  er_payment :: "(uuid \<times> string) option" \<comment> \<open>id and idempotency key of the latest attempt\<close>

text \<open>\<open>LEFT JOIN LATERAL (.. ORDER BY attempt DESC LIMIT 1)\<close>.\<close>

definition latest_payment :: "db \<Rightarrow> uuid \<Rightarrow> payment_row option" where
  "latest_payment d oid = (case sort_key (\<lambda>p. - pay_attempt p) (filter (\<lambda>p. pay_order p = oid) (payments d)) of
     [] \<Rightarrow> None | p # ps \<Rightarrow> Some p)"

definition expired :: "job_env \<Rightarrow> order_row \<Rightarrow> bool" where
  "expired env r \<longleftrightarrow> row_status r = PENDING_PAYMENT \<and>
     (case row_reservation_expires_at r of None \<Rightarrow> False | Some t \<Rightarrow> t < jb_now env)"

definition select_expired_reservations :: "job_env \<Rightarrow> db \<Rightarrow> expired_reservation list" where
  "select_expired_reservations env d =
     map (\<lambda>r. \<lparr>er_id = row_id r, er_expires_at = the (row_reservation_expires_at r),
         er_payment = map_option (\<lambda>p. (pay_id p, pay_idempotency_key p)) (latest_payment d (row_id r))\<rparr>)
       (take REAPER_BATCH_SIZE (sort_key (\<lambda>r. the (row_reservation_expires_at r))
         (filter (\<lambda>r. expired env r \<and> \<not> jb_locked env (row_id r)) (orders d))))"

text \<open>\<open>Math.round\<close> of the difference over 60000.\<close>

definition minutes_past :: "timestamp \<Rightarrow> timestamp \<Rightarrow> int" where
  "minutes_past now t = (2 * (now - t) + ms_per_minute) div (2 * ms_per_minute)"

definition warn_unresolved :: "job_env \<Rightarrow> nat \<Rightarrow> expired_reservation \<Rightarrow> 'g worker \<Rightarrow> 'g worker" where
  "warn_unresolved env k row s =
     (let m = minutes_past (jb_clock env k) (er_expires_at row) in
      job_logs (if REAPER_ALERT_AFTER_MINUTES \<le> m then ReservationUnresolved (er_id row) m
                else ReservationStillUnknown (er_id row) m) s)"

definition resolve_reservation ::
  "(string \<Rightarrow> 'g \<Rightarrow> charge_result \<times> 'g) \<Rightarrow> job_env \<Rightarrow> nat \<Rightarrow> expired_reservation \<Rightarrow> 'g worker \<Rightarrow>
   (app_error + unit) \<times> 'g worker" where
  "resolve_reservation get_status env k row =
     (case er_payment row of
        None \<Rightarrow> settle_row env k (SettleUnpaid ''RESERVATION_EXPIRED_NO_PAYMENT'') (er_id row) None
      | Some (pid, key) \<Rightarrow>
          if pid = [] \<or> key = []
          then settle_row env k (SettleUnpaid ''RESERVATION_EXPIRED_NO_PAYMENT'') (er_id row) None
          else bindE (status_step get_status key) (\<lambda>c.
            (let payment = Some \<lparr>pr_payment_id = pid, pr_charge_result = c\<rparr> in
             if res_status c = PS_CAPTURED then settle_row env k SettleCaptured (er_id row) payment
             else if res_status c = PS_DECLINED then settle_row env k SettleDeclined (er_id row) payment
             else if res_status c = PS_FAILED
             then settle_row env k (SettleUnpaid ''RESERVATION_EXPIRED_NOT_CHARGED'') (er_id row) payment
             else (\<lambda>s. (Inr (), warn_unresolved env k row s)))))"

definition reap_reservations ::
  "(string \<Rightarrow> 'g \<Rightarrow> charge_result \<times> 'g) \<Rightarrow> job_env \<Rightarrow> 'g worker \<Rightarrow> (app_error + unit) \<times> 'g worker" where
  "reap_reservations get_status env =
     bindE (with_job_span ''select expired reservations'' []
         (\<lambda>s. (Inr (select_expired_reservations env (w_db (wk_world s))), s))) (\<lambda>rows s.
       (Inr (), each_row (\<lambda>k row. with_job_span ''resolve reservation'' [(''app.order_id'', er_id row)]
           (resolve_reservation get_status env k row))
         (\<lambda>row m. ReservationReapFailed (er_id row) m) 0 rows s))"

subsection \<open>Shipments\<close>

text \<open>\<open>random_int k n\<close> is the \<open>k\<close>-th draw of \<open>crypto.randomInt(n)\<close>, a number below \<open>n\<close>.\<close>

definition CARRIERS :: "string list" where
  "CARRIERS = [''UPS'', ''FedEx'', ''USPS'', ''DHL'']"

definition pick_random_carrier :: "(nat \<Rightarrow> nat \<Rightarrow> nat) \<Rightarrow> string" where
  "pick_random_carrier random_int = CARRIERS ! random_int 0 (length CARRIERS)"

definition random_digits :: "(nat \<Rightarrow> nat \<Rightarrow> nat) \<Rightarrow> nat \<Rightarrow> string" where
  "random_digits random_int n = concat (map (\<lambda>k. show_nat (random_int (k + 1) 10)) [0..<n])"

definition generate_tracking_number :: "(nat \<Rightarrow> nat \<Rightarrow> nat) \<Rightarrow> string \<Rightarrow> string" where
  "generate_tracking_number random_int carrier =
    (if carrier = ''UPS'' then ''1Z'' @ random_digits random_int 16
     else if carrier = ''FedEx'' then random_digits random_int 12
     else if carrier = ''USPS'' then random_digits random_int 22
     else if carrier = ''DHL'' then random_digits random_int 10
     else random_digits random_int 12)"

text \<open>
  \<open>INSERT INTO shipments .. VALUES ($1, (SELECT warehouse_id ..), ..) ON CONFLICT (order_id) DO
  NOTHING\<close>. The null of the subquery violates \<open>warehouse_id NOT NULL\<close> before the conflict
  is looked for; the conflict target covers the order only, not the primary key.
\<close>

record shipment_env =
  sh_id :: uuid \<comment> \<open>\<open>gen_random_uuid()\<close>\<close>
  sh_random :: "nat \<Rightarrow> nat \<Rightarrow> nat"
  sh_clock :: timestamp \<comment> \<open>\<open>new Date()\<close>\<close>
  sh_now :: timestamp \<comment> \<open>Postgres \<open>now()\<close>\<close>

definition insert_shipment :: "shipment_env \<Rightarrow> uuid \<Rightarrow> string \<Rightarrow> string \<Rightarrow> db \<Rightarrow> app_error + db" where
  "insert_shipment env oid carrier tracking d =
    (case (case find_order d oid of None \<Rightarrow> None | Some r \<Rightarrow> row_warehouse r) of
       None \<Rightarrow> Inl (QueryFailedError SQL_NOT_NULL_23502)
     | Some w \<Rightarrow>
         if sh_id env \<in> shp_id ` set (shipments d) then Inl (QueryFailedError SQL_UNIQUE_23505)
         else if oid \<in> shp_order ` set (shipments d) then Inr d
         else if w \<notin> wh_id ` set (warehouses d) then Inl (QueryFailedError SQL_FK_23503)
         else Inr (d\<lparr>shipments := shipments d @ [\<lparr>shp_id = sh_id env, shp_order = oid, shp_warehouse = w,
           shp_status = DISPATCHED, shp_carrier = Some carrier, shp_tracking_number = Some tracking,
           shp_dispatched_at = Some (sh_clock env), shp_delivered_at = None, shp_created_at = sh_now env,
           shp_updated_at = sh_now env\<rparr>]\<rparr>))"

definition create_shipment_for_order :: "shipment_env \<Rightarrow> uuid \<Rightarrow> db \<Rightarrow> app_error + db" where
  "create_shipment_for_order env oid d =
    (let carrier = pick_random_carrier (sh_random env) in
     insert_shipment env oid carrier (generate_tracking_number (sh_random env) carrier) d)"

subsection \<open>The consumers of \<open>order.confirmed\<close>\<close>

definition shipment_create :: "shipment_env \<Rightarrow> order_confirmed_payload \<Rightarrow> 'g worker \<Rightarrow> (app_error + unit) \<times> 'g worker" where
  "shipment_create env payload = with_job_span ''create shipment'' [(''app.order_id'', payload_order_id payload)]
     (on_world (in_transaction (\<lambda>d. bindR (create_shipment_for_order env (payload_order_id payload) d)
       (\<lambda>d1. Inr ((), d1)))))"

definition customer_notify :: "order_confirmed_payload \<Rightarrow> 'g worker \<Rightarrow> (app_error + unit) \<times> 'g worker" where
  "customer_notify payload = with_job_span ''notify customer'' [(''app.order_id'', payload_order_id payload)]
     (\<lambda>s. (Inr (), job_logs (NotificationSent ''customer.notify'' (payload_order_id payload)) s))"

definition analytics_record :: "order_confirmed_payload \<Rightarrow> 'g worker \<Rightarrow> (app_error + unit) \<times> 'g worker" where
  "analytics_record payload = with_job_span ''record analytics event'' [(''app.order_id'', payload_order_id payload)]
     (\<lambda>s. (Inr (), job_logs (EventRecorded ''analytics.record'' (payload_order_id payload)) s))"

subsection \<open>What the scheduled handlers do to the world\<close>

text \<open>
  The database a settlement leaves: the one it started from when it throws or finds the order
  settled, else the settled one.
\<close>

definition settled_db :: "app_error + (settlement_outcome \<times> order \<times> db) \<Rightarrow> db \<Rightarrow> db" where
  "settled_db r d = (case r of Inl e \<Rightarrow> d | Inr (out, o1, d1) \<Rightarrow> d1)"

lemma worker_world_simps [simp]:
  "wk_world (job_logs l s) = wk_world s"
  "snd (on_world m s) = s\<lparr>wk_world := snd (m (wk_world s))\<rparr>"
  "fst (on_world m s) = fst (m (wk_world s))"
  by (simp_all add: job_logs_def on_world_def split: prod.split)

lemma with_job_span_simps [simp]:
  "fst (with_job_span name attrs fn s) = fst (fn s)"
  "wk_world (snd (with_job_span name attrs fn s)) = wk_world (snd (fn s))"
  "wk_logs (snd (with_job_span name attrs fn s)) = wk_logs (snd (fn s))"
  by (simp_all add: with_job_span_def split: prod.split)

lemma with_job_span_result:
  "with_job_span name attrs (\<lambda>s. (Inr a, s)) s = (Inr a, snd (with_job_span name attrs (\<lambda>s. (Inr a, s)) s))"
  by (simp add: with_job_span_def)

lemma settle_row_world:
  "wk_world (snd (settle_row env k s oid pay st)) = (wk_world st)\<lparr>w_db :=
     (let d = jb_others env k (w_db (wk_world st)) in settled_db (settlement_call s (jb_settle env k) oid pay d) d)\<rparr>"
  by (auto simp: settle_row_def bindE_def meanwhile_def settle_step_def in_transaction_def returnE_def settled_db_def
      bindR_def Let_def split: sum.splits prod.splits)

lemma status_step_eq:
  "status_step get_status key s = (Inr (fst (get_status key (w_ext (wk_world s)))),
     s\<lparr>wk_world := (wk_world s)\<lparr>w_ext := snd (get_status key (w_ext (wk_world s)))\<rparr>\<rparr>)"
  by (simp add: status_step_def on_world_def split: prod.split)

text \<open>Both handlers change the database only row by row: one settlement each, or nothing.\<close>

lemma each_row_Cons:
  "wk_world (each_row resolve failed k (r # rs) s) =
     wk_world (each_row resolve failed (k + 1) rs
       (case resolve k r s of (Inl e, s1) \<Rightarrow> job_logs (failed r (error_message e)) s1 | (Inr u, s1) \<Rightarrow> s1))"
  by simp

lemma each_row_invariant:
  assumes "P (wk_world s)"
    and "\<And>k r s. r \<in> set rs \<Longrightarrow> P (wk_world s) \<Longrightarrow> P (wk_world (snd (resolve k r s)))"
  shows "P (wk_world (each_row resolve failed k rs s))"
  using assms
proof (induction rs arbitrary: k s)
  case Nil
  then show ?case by simp
next
  case (Cons r rs)
  have "P (wk_world (snd (resolve k r s)))" by (rule Cons.prems(2)) (simp_all add: Cons.prems)
  then have "P (wk_world (case resolve k r s of
      (Inl e, s1) \<Rightarrow> job_logs (failed r (error_message e)) s1 | (Inr u, s1) \<Rightarrow> s1))"
    by (cases "resolve k r s") (auto split: sum.split)
  then show ?case using Cons by simp
qed

subsection \<open>Properties\<close>

lemma take_sort_key_first:
  assumes "x \<in> set (take n (sort_key f xs))" and "y \<in> set xs" and "y \<notin> set (take n (sort_key f xs))"
  shows "f x \<le> f y"
proof -
  have "y \<in> set (take n (sort_key f xs)) \<union> set (drop n (sort_key f xs))"
    using assms(2) by (metis append_take_drop_id set_append set_sort)
  then have "y \<in> set (drop n (sort_key f xs))" using assms(3) by simp
  moreover have "sorted (map f (take n (sort_key f xs)) @ map f (drop n (sort_key f xs)))"
    by (simp flip: map_append)
  ultimately show ?thesis using assms(1) by (auto simp: sorted_append)
qed

text \<open>
  C24. Reconciliation never races a charge that is still running: every payment it selects is
  unresolved, unlocked and more than two minutes old, and any charge of the gateway that began within
  113.4 seconds of the payment's creation has returned before the selection, because a charge takes at
  most 6.6 seconds with all its retries. The batch has at most fifty rows, and no payment that
  qualifies but was left out is older than one that was selected.
\<close>

theorem reconciliation_waits_for_charges:
  assumes "row \<in> set (select_unsettled_payments env d)"
  shows "length (select_unsettled_payments env d) \<le> 50 \<and>
    (\<exists>p \<in> set (payments d). row = \<lparr>up_id = pay_id p, up_order = pay_order p, up_key = pay_idempotency_key p\<rparr> \<and>
      pay_settled_at p = None \<and> unresolved (pay_status p) \<and> \<not> jb_locked env (pay_id p) \<and>
      (net_clock g \<le> of_int (pay_created_at p) + 113400 \<longrightarrow>
        net_clock (snd (gateway_charge default_gateway_options draw fetch c g)) < of_int (jb_now env)) \<and>
      (\<forall>q \<in> set (payments d). unsettled env q \<and> \<not> jb_locked env (pay_id q) \<and>
         pay_id q \<notin> up_id ` set (select_unsettled_payments env d) \<longrightarrow> pay_created_at p \<le> pay_created_at q))"
proof -
  let ?sel = "filter (\<lambda>p. unsettled env p \<and> \<not> jb_locked env (pay_id p)) (payments d)"
  let ?row = "\<lambda>p. \<lparr>up_id = pay_id p, up_order = pay_order p, up_key = pay_idempotency_key p\<rparr>"
  have sel: "select_unsettled_payments env d = map ?row (take 50 (sort_key pay_created_at ?sel))"
    by (simp add: select_unsettled_payments_def RECONCILIATION_BATCH_SIZE_def)
  with assms obtain p where p: "p \<in> set (take 50 (sort_key pay_created_at ?sel))" "row = ?row p" by auto
  then have "p \<in> set ?sel" by (auto dest: in_set_takeD)
  then have q: "p \<in> set (payments d)" "unsettled env p" "\<not> jb_locked env (pay_id p)" by auto
  then have "pay_created_at p + 120000 < jb_now env"
    by (simp add: unsettled_def RECONCILIATION_GRACE_MINUTES_def ms_per_minute_def)
  then have "(of_int (pay_created_at p) :: rat) + 120000 < of_int (jb_now env)"
    by (metis of_int_add of_int_less_iff of_int_numeral)
  with http_gateway.charge_time[of draw fetch c g] have
    "net_clock g \<le> of_int (pay_created_at p) + 113400 \<longrightarrow>
      net_clock (snd (gateway_charge default_gateway_options draw fetch c g)) < of_int (jb_now env)" by auto
  moreover have "pay_created_at p \<le> pay_created_at q" if "q \<in> set ?sel"
    "pay_id q \<notin> up_id ` set (select_unsettled_payments env d)" for q
    by (rule take_sort_key_first[OF p(1) that(1)]) (use that(2) in \<open>force simp: sel\<close>)
  ultimately show ?thesis
    using q p(2) by (intro conjI bexI[of _ p]) (auto simp: sel unsettled_def)
qed

definition sample_unsettled :: db where
  "sample_unsettled = sample_pending\<lparr>payments := [\<lparr>pay_id = ''p1'', pay_order = ''o1'', pay_attempt = 1,
     pay_provider = ''mock-gateway'', pay_provider_payment_id = None, pay_idempotency_key = ''k1'',
     pay_status = PS_UNKNOWN, pay_amount_cents = 400, pay_currency = usd, pay_card_last4 = None,
     pay_card_brand = None, pay_failure_code = None, pay_raw_response = None, pay_settled_at = None,
     pay_created_at = 0, pay_updated_at = 0\<rparr>]\<rparr>"

definition sample_job_env :: job_env where
  "sample_job_env = \<lparr>jb_now = 1000000, jb_locked = (\<lambda>_. False), jb_clock = (\<lambda>_. 1000000),
     jb_settle = (\<lambda>_. sample_env), jb_others = (\<lambda>_ d. d)\<rparr>"

theorem reconciliation_waits_for_charges_witness:
  "net_clock (snd (gateway_charge default_gateway_options (\<lambda>_ _. 0) (\<lambda>t req r. (NetResponse 1 200 1 None, r))
      (charge_command_of \<lparr>co_customer = ''c1'', co_address = ord_address sample_order, co_lines = [],
         co_card_number = ''4242424242424242'', co_idempotency_key = ''k''\<rparr> sample_order)
      \<lparr>net_clock = 5000, net_breaker = new_breaker, net_remote = ()\<rparr>)) < 1000000"
proof -
  have "unsettled sample_job_env (hd (payments sample_unsettled))" "\<not> jb_locked sample_job_env pid" for pid
    by (simp_all add: unsettled_def sample_unsettled_def sample_job_env_def unresolved_def
        RECONCILIATION_GRACE_MINUTES_def ms_per_minute_def)
  then have "\<lparr>up_id = ''p1'', up_order = ''o1'', up_key = ''k1''\<rparr> \<in>
      set (select_unsettled_payments sample_job_env sample_unsettled)"
    by (simp add: select_unsettled_payments_def sample_unsettled_def RECONCILIATION_BATCH_SIZE_def)
  from reconciliation_waits_for_charges[OF this] show ?thesis
    by (force simp: sample_unsettled_def sample_job_env_def)
qed
text \<open>
  C23. A shipment job succeeds for an order that has a warehouse and leaves exactly one shipment for
  it, dispatched, from that warehouse when it is the first; delivering the job again, with any new
  identifier, tracking number and clock, changes nothing in the database.
\<close>

theorem shipment_exactly_once:
  assumes "find_order d oid = Some r" and "row_warehouse r = Some w" and "w \<in> wh_id ` set (warehouses d)"
    and "distinct (map shp_order (shipments d))" and "sh_id env \<notin> shp_id ` set (shipments d)"
    and "s = \<lparr>wk_world = \<lparr>w_db = d, w_ext = g\<rparr>, wk_logs = logs, wk_spans = spans\<rparr>"
    and "shipment_create env \<lparr>payload_order_id = oid, payload_occurred_at = occurred\<rparr> s = (answer, s1)"
    and "shipment_create env' \<lparr>payload_order_id = oid, payload_occurred_at = occurred\<rparr> s1 = (answer', s2)"
  shows "answer = Inr () \<and>
    (\<exists>x. filter (\<lambda>x. shp_order x = oid) (shipments (w_db (wk_world s1))) = [x] \<and>
       (oid \<notin> shp_order ` set (shipments d) \<longrightarrow> shp_warehouse x = w \<and> shp_status x = DISPATCHED)) \<and>
    wk_world s2 = wk_world s1"
proof -
  have once: "\<exists>x. filter (\<lambda>x. shp_order x = oid) xs = [x]"
    if "oid \<in> shp_order ` set xs" "distinct (map shp_order xs)" for xs
    using that by (induction xs) (auto simp: filter_empty_conv image_iff)
  have again: "create_shipment_for_order env' oid d1 = Inr d1 \<or> (\<exists>e. create_shipment_for_order env' oid d1 = Inl e)"
    if "oid \<in> shp_order ` set (shipments d1)" for d1
    using that by (auto simp: create_shipment_for_order_def insert_shipment_def Let_def split: option.split)
  have keep: "wk_world s2 = wk_world s1" if "oid \<in> shp_order ` set (shipments (w_db (wk_world s1)))"
  proof -
    have "wk_world s2 = snd (in_transaction (\<lambda>d. bindR (create_shipment_for_order env' oid d) (\<lambda>d1. Inr ((), d1))) (wk_world s1))"
      using assms(8) by (auto simp: shipment_create_def dest: arg_cong[where f = "\<lambda>x. wk_world (snd x)"])
    with again[OF that] show ?thesis by (cases "wk_world s1") (auto simp: in_transaction_def)
  qed
  have run: "answer = fst (in_transaction (\<lambda>d. bindR (create_shipment_for_order env oid d) (\<lambda>d1. Inr ((), d1))) (wk_world s))"
    "wk_world s1 = snd (in_transaction (\<lambda>d. bindR (create_shipment_for_order env oid d) (\<lambda>d1. Inr ((), d1))) (wk_world s))"
    using assms(7) by (auto simp: shipment_create_def dest: arg_cong[where f = "\<lambda>x. wk_world (snd x)"] arg_cong[where f = fst])
  show ?thesis
  proof (cases "oid \<in> shp_order ` set (shipments d)")
    case True
    with assms(1,2,5) have "create_shipment_for_order env oid d = Inr d"
      by (simp add: create_shipment_for_order_def insert_shipment_def Let_def)
    with run assms(6) have "answer = Inr ()" "w_db (wk_world s1) = d" by (simp_all add: in_transaction_def)
    with True keep once[OF True assms(4)] show ?thesis by auto
  next
    case False
    define x where "x = \<lparr>shp_id = sh_id env, shp_order = oid, shp_warehouse = w,
      shp_status = DISPATCHED, shp_carrier = Some (pick_random_carrier (sh_random env)),
      shp_tracking_number = Some (generate_tracking_number (sh_random env) (pick_random_carrier (sh_random env))),
      shp_dispatched_at = Some (sh_clock env), shp_delivered_at = None, shp_created_at = sh_now env,
      shp_updated_at = sh_now env\<rparr>"
    have "create_shipment_for_order env oid d = Inr (d\<lparr>shipments := shipments d @ [x]\<rparr>)"
      using assms(1,2,3,5) False
      by (simp add: create_shipment_for_order_def insert_shipment_def Let_def x_def)
    with run assms(6) have first: "answer = Inr ()" "shipments (w_db (wk_world s1)) = shipments d @ [x]"
      by (simp_all add: in_transaction_def)
    have "filter (\<lambda>x. shp_order x = oid) (shipments d @ [x]) = [x]"
      using False by (auto simp: filter_empty_conv x_def)
    with first keep show ?thesis by (auto simp: x_def)
  qed
qed

definition sample_shipment_env :: shipment_env where
  "sample_shipment_env = \<lparr>sh_id = ''s1'', sh_random = (\<lambda>k n. k mod n), sh_clock = 5, sh_now = 6\<rparr>"

theorem shipment_exactly_once_witness:
  "wk_world (snd (shipment_create (sample_shipment_env\<lparr>sh_id := ''s2''\<rparr>)
      \<lparr>payload_order_id = ''o1'', payload_occurred_at = 0\<rparr>
      (snd (shipment_create sample_shipment_env \<lparr>payload_order_id = ''o1'', payload_occurred_at = 0\<rparr>
        \<lparr>wk_world = \<lparr>w_db = sample_pending, w_ext = 0 :: nat\<rparr>, wk_logs = [], wk_spans = []\<rparr>)))) =
    wk_world (snd (shipment_create sample_shipment_env \<lparr>payload_order_id = ''o1'', payload_occurred_at = 0\<rparr>
        \<lparr>wk_world = \<lparr>w_db = sample_pending, w_ext = 0\<rparr>, wk_logs = [], wk_spans = []\<rparr>))"
proof -
  have "warehouses sample_pending = warehouses sample_db" "shipments sample_pending = []"
    using reserve_unchanged(4,8)[OF sample_reserve_ok sample_facts(1)] sample_facts(2)
    by (simp_all add: sample_pending_def valid_lines_def sample_db_def)
  then have "''w1'' \<in> wh_id ` set (warehouses sample_pending)" "distinct (map shp_order (shipments sample_pending))"
    "sh_id sample_shipment_env \<notin> shp_id ` set (shipments sample_pending)"
    by (simp_all add: sample_db_def)
  note applied = shipment_exactly_once[OF sample_pending_facts(1,3) this refl surjective_pairing surjective_pairing]
  show ?thesis
    by (rule applied[THEN conjunct2, THEN conjunct2])
qed

end
