(* ===== verification/Shop_Spec.thy ===== *)
theory Shop_Spec
  imports Domain_Types
begin

section \<open>What the order flow promises\<close>

text \<open>
  An abstract shop: free stock, the orders with the units each took, and the orders announced for
  shipping. Two atomic moves change it: an order is placed for units a warehouse has free, and a
  pending order ends once. No clocks, ledger, payments or transactions. The theory
  \<open>Shop_Refinement\<close> shows that every operation of the program is a sequence of these moves.
\<close>

record shop_order =
  so_status :: order_status
  so_warehouse :: uuid
  so_units :: "uuid \<Rightarrow> int"

record shop =
  sp_free :: "uuid \<Rightarrow> uuid \<Rightarrow> int"
  sp_orders :: "uuid \<Rightarrow> shop_order option"
  sp_announced :: "uuid list"

definition end_status :: "order_status \<Rightarrow> bool" where
  "end_status st \<longleftrightarrow> st = CONFIRMED \<or> st = PAYMENT_FAILED \<or> st = CANCELLED"

definition place_move :: "uuid \<Rightarrow> uuid \<Rightarrow> (uuid \<Rightarrow> int) \<Rightarrow> shop \<Rightarrow> shop" where
  "place_move oid w u s = s\<lparr>sp_free := (\<lambda>w' p. sp_free s w' p - (if w' = w then u p else 0)),
     sp_orders := (sp_orders s)(oid \<mapsto> \<lparr>so_status = PENDING_PAYMENT, so_warehouse = w, so_units = u\<rparr>)\<rparr>"

definition end_move :: "uuid \<Rightarrow> shop_order \<Rightarrow> order_status \<Rightarrow> shop \<Rightarrow> shop" where
  "end_move oid o1 st s = s\<lparr>sp_free := (\<lambda>w p. sp_free s w p +
       (if w = so_warehouse o1 \<and> st \<noteq> CONFIRMED then so_units o1 p else 0)),
     sp_orders := (sp_orders s)(oid \<mapsto> o1\<lparr>so_status := st\<rparr>),
     sp_announced := sp_announced s @ (if st = CONFIRMED then [oid] else [])\<rparr>"

inductive shop_step :: "shop \<Rightarrow> shop \<Rightarrow> bool" where
  place: "sp_orders s oid = None \<Longrightarrow> \<forall>p. 0 \<le> u p \<and> (0 < u p \<longrightarrow> u p \<le> sp_free s w p) \<Longrightarrow>
    shop_step s (place_move oid w u s)"
| ends: "sp_orders s oid = Some o1 \<Longrightarrow> so_status o1 = PENDING_PAYMENT \<Longrightarrow> end_status st \<Longrightarrow>
    shop_step s (end_move oid o1 st s)"

abbreviation shop_run :: "shop \<Rightarrow> shop \<Rightarrow> bool" where
  "shop_run \<equiv> shop_step\<^sup>*\<^sup>*"

subsection \<open>Nothing is oversold, nothing is lost\<close>

text \<open>Units that left the free stock for an order and did not come back.\<close>

definition takes :: "shop_order \<Rightarrow> uuid \<Rightarrow> uuid \<Rightarrow> int" where
  "takes o1 w p = (if so_warehouse o1 = w \<and> (so_status o1 = PENDING_PAYMENT \<or> so_status o1 = CONFIRMED)
     then so_units o1 p else 0)"

definition taken :: "shop \<Rightarrow> uuid \<Rightarrow> uuid \<Rightarrow> int" where
  "taken s w p = (\<Sum>oid \<in> dom (sp_orders s). takes (the (sp_orders s oid)) w p)"

definition announced_ok :: "shop \<Rightarrow> bool" where
  "announced_ok s \<longleftrightarrow> distinct (sp_announced s) \<and>
     set (sp_announced s) = {oid. \<exists>o1. sp_orders s oid = Some o1 \<and> so_status o1 = CONFIRMED}"

definition shop_ok :: "shop \<Rightarrow> bool" where
  "shop_ok s \<longleftrightarrow> finite (dom (sp_orders s)) \<and> (\<forall>w p. 0 \<le> sp_free s w p) \<and>
     (\<forall>oid o1 p. sp_orders s oid = Some o1 \<longrightarrow> 0 \<le> so_units o1 p) \<and> announced_ok s"

lemma sum_fun_upd:
  fixes f :: "'b \<Rightarrow> int"
  assumes "finite (dom m)"
  shows "(\<Sum>k \<in> dom (m(k0 \<mapsto> v)). f (the ((m(k0 \<mapsto> v)) k))) =
    (\<Sum>k \<in> dom m. f (the (m k))) - (case m k0 of None \<Rightarrow> 0 | Some x \<Rightarrow> f x) + f v"
proof -
  have "(\<Sum>k \<in> insert k0 (dom m). f (the ((m(k0 \<mapsto> v)) k))) = f v + (\<Sum>k \<in> dom m - {k0}. f (the (m k)))"
    using assms by (subst sum.insert_remove) (auto intro!: sum.cong)
  moreover have "(\<Sum>k \<in> dom m. f (the (m k))) =
      (case m k0 of None \<Rightarrow> 0 | Some x \<Rightarrow> f x) + (\<Sum>k \<in> dom m - {k0}. f (the (m k)))"
  proof (cases "m k0")
    case None
    then have "dom m - {k0} = dom m" by auto
    with None show ?thesis by simp
  next
    case (Some x)
    then have "k0 \<in> dom m" by auto
    from sum.remove[OF assms this, of "\<lambda>k. f (the (m k))"] Some show ?thesis by simp
  qed
  ultimately show ?thesis by simp
qed

lemma taken_place:
  assumes "finite (dom (sp_orders s))" and "sp_orders s oid = None"
  shows "taken (place_move oid w u s) w' p = taken s w' p + (if w' = w then u p else 0)"
  using sum_fun_upd[OF assms(1), of "\<lambda>x. takes x w' p" oid "\<lparr>so_status = PENDING_PAYMENT, so_warehouse = w, so_units = u\<rparr>"]
    assms(2)
  by (simp add: taken_def place_move_def takes_def)

lemma taken_end:
  assumes "finite (dom (sp_orders s))" and "sp_orders s oid = Some o1" and "so_status o1 = PENDING_PAYMENT"
    and "end_status st"
  shows "taken (end_move oid o1 st s) w p =
    taken s w p - (if w = so_warehouse o1 \<and> st \<noteq> CONFIRMED then so_units o1 p else 0)"
  using sum_fun_upd[OF assms(1), of "\<lambda>x. takes x w p" oid "o1\<lparr>so_status := st\<rparr>"] assms(2-4)
  by (auto simp: taken_def end_move_def takes_def end_status_def)

lemma shop_step_conserves:
  assumes "shop_step s s'" and "finite (dom (sp_orders s))"
  shows "sp_free s' w p + taken s' w p = sp_free s w p + taken s w p"
  using assms(1)
proof cases
  case (place oid u w')
  with taken_place[OF assms(2)] show ?thesis by (simp add: place_move_def)
next
  case (ends oid o1 st)
  with taken_end[OF assms(2)] show ?thesis by (simp add: end_move_def)
qed

lemma shop_step_ok:
  assumes "shop_step s s'" and "shop_ok s"
  shows "shop_ok s'"
  using assms(1)
proof cases
  case (place oid u w)
  have "0 \<le> sp_free s w p - u p" for p
  proof -
    from assms(2) have "0 \<le> sp_free s w p" by (simp add: shop_ok_def)
    with place(3)[rule_format, of p] show ?thesis by auto
  qed
  moreover have "sp_orders s oid = None" by (rule place(2))
  ultimately show ?thesis
    using assms(2) place(3) by (auto simp: place(1) shop_ok_def place_move_def announced_ok_def)
next
  case (ends oid o1 st)
  have "oid \<notin> set (sp_announced s)"
    using assms(2) ends by (auto simp: shop_ok_def announced_ok_def)
  with assms(2) ends show ?thesis
    by (auto simp: shop_ok_def end_move_def announced_ok_def)
qed

lemma shop_run_ok:
  assumes "shop_run s s'" and "shop_ok s"
  shows "shop_ok s' \<and> sp_free s' w p + taken s' w p = sp_free s w p + taken s w p"
  using assms
proof (induction rule: rtranclp_induct)
  case base
  then show ?case by simp
next
  case (step y z)
  then have y: "shop_ok y" "sp_free y w p + taken y w p = sp_free s w p + taken s w p" by auto
  from y(1) have "finite (dom (sp_orders y))" by (simp add: shop_ok_def)
  from shop_step_conserves[OF step(2) this] shop_step_ok[OF step(2) y(1)] y(2) show ?case by simp
qed

subsection \<open>An order keeps what it took and ends at most once\<close>

definition order_advances :: "shop_order \<Rightarrow> shop_order \<Rightarrow> bool" where
  "order_advances o1 o2 \<longleftrightarrow> so_warehouse o2 = so_warehouse o1 \<and> so_units o2 = so_units o1 \<and>
     (so_status o2 = so_status o1 \<or> so_status o1 = PENDING_PAYMENT \<and> end_status (so_status o2))"

lemma order_advances_refl [simp]: "order_advances o1 o1"
  by (simp add: order_advances_def)

lemma order_advances_trans: "order_advances o1 o2 \<Longrightarrow> order_advances o2 o3 \<Longrightarrow> order_advances o1 o3"
  by (auto simp: order_advances_def end_status_def)

lemma shop_step_order:
  assumes "shop_step s s'" and "sp_orders s oid = Some o1"
  shows "\<exists>o2. sp_orders s' oid = Some o2 \<and> order_advances o1 o2"
  using assms by cases (auto simp: place_move_def end_move_def order_advances_def)

lemma shop_run_order:
  assumes "shop_run s s'" and "sp_orders s oid = Some o1"
  shows "\<exists>o2. sp_orders s' oid = Some o2 \<and> order_advances o1 o2"
  using assms
proof (induction rule: rtranclp_induct)
  case base
  then show ?case by auto
next
  case (step y z)
  then obtain o2 where "sp_orders y oid = Some o2" "order_advances o1 o2" by blast
  with shop_step_order[OF step(2)] order_advances_trans show ?case by blast
qed

lemma shop_run_announced:
  assumes "shop_run s s'"
  shows "\<exists>new. sp_announced s' = sp_announced s @ new"
  using assms
proof (induction rule: rtranclp_induct)
  case base
  then show ?case by simp
next
  case (step y z)
  from step(2) have "\<exists>new. sp_announced z = sp_announced y @ new"
    by cases (auto simp: place_move_def end_move_def)
  with step(3) show ?case by auto
qed

end
