(* ===== verification/Shop_State.thy ===== *)
theory Shop_State
  imports Saga Jobs Shop_Spec
begin

section \<open>The database as a shop\<close>

text \<open>
  The abstraction from the tables to the abstract shop, the invariant that ties the redundant
  parts of the tables together (the reserved balances and the open ledger entries must be the units
  of the pending orders), and \<^verbatim>\<open>sql/verify-ledger.sql\<close>, the check the repository ships for one part
  of it.
\<close>

subsection \<open>Abstraction\<close>

definition item_units :: "db \<Rightarrow> uuid \<Rightarrow> uuid \<Rightarrow> int" where
  "item_units d oid p = (\<Sum>i\<leftarrow>items_of d oid. if ir_product i = p then ir_quantity i else 0)"

definition abs_order :: "db \<Rightarrow> order_row \<Rightarrow> shop_order" where
  "abs_order d r = \<lparr>so_status = row_status r,
     so_warehouse = (case row_warehouse r of Some w \<Rightarrow> w | None \<Rightarrow> []), so_units = item_units d (row_id r)\<rparr>"

definition announced :: "job list \<Rightarrow> uuid list" where
  "announced js = map (\<lambda>j. payload_order_id (job_payload j)) (filter (\<lambda>j. job_queue j = ''shipment.create'') js)"

definition shop_of :: "db \<Rightarrow> shop" where
  "shop_of d = \<lparr>sp_free = (\<lambda>w p. case stock d w p of None \<Rightarrow> 0 | Some (a, r) \<Rightarrow> a),
     sp_orders = (\<lambda>oid. map_option (abs_order d) (find_order d oid)), sp_announced = announced (jobs d)\<rparr>"

subsection \<open>Invariant\<close>

definition item_key :: "order_item_row \<Rightarrow> uuid \<times> uuid" where
  "item_key i = (ir_order i, ir_product i)"

definition keys_ok :: "db \<Rightarrow> bool" where
  "keys_ok d \<longleftrightarrow> inventory_keys_distinct d \<and> distinct (map row_id (orders d)) \<and>
     distinct (map row_number (orders d)) \<and> distinct (map item_key (order_items d))"

definition rows_ok :: "db \<Rightarrow> bool" where
  "rows_ok d \<longleftrightarrow> (\<forall>r \<in> set (orders d). row_warehouse r \<noteq> None \<and> orders_fk_ok d r) \<and>
     (\<forall>i \<in> set (order_items d). 0 < ir_quantity i \<and> order_exists d (ir_order i) \<and>
        ir_product i \<in> prod_id ` set (products d))"

definition order_pending :: "db \<Rightarrow> uuid \<Rightarrow> bool" where
  "order_pending d oid \<longleftrightarrow> (case find_order d oid of None \<Rightarrow> False | Some r \<Rightarrow> row_status r = PENDING_PAYMENT)"

definition held_ok :: "db \<Rightarrow> bool" where
  "held_ok d \<longleftrightarrow> (\<forall>oid p. held d oid p = (if order_pending d oid then item_units d oid p else 0))"

definition pending_at :: "uuid \<Rightarrow> order_row \<Rightarrow> bool" where
  "pending_at w r \<longleftrightarrow> row_status r = PENDING_PAYMENT \<and> row_warehouse r = Some w"

definition reserved_by :: "db \<Rightarrow> uuid \<Rightarrow> uuid \<Rightarrow> int" where
  "reserved_by d w p = (\<Sum>r\<leftarrow>orders d. if pending_at w r then item_units d (row_id r) p else 0)"

definition stock_ok :: "db \<Rightarrow> bool" where
  "stock_ok d \<longleftrightarrow> (\<forall>w p a r. stock d w p = Some (a, r) \<longrightarrow> 0 \<le> a \<and> r = reserved_by d w p)"

definition covered_ok :: "db \<Rightarrow> bool" where
  "covered_ok d \<longleftrightarrow> (\<forall>r \<in> set (orders d). \<forall>w. pending_at w r \<longrightarrow>
     (\<forall>i \<in> set (items_of d (row_id r)). stock d w (ir_product i) \<noteq> None))"

definition latest_of :: "db \<Rightarrow> uuid \<Rightarrow> uuid \<Rightarrow> movement_row option" where
  "latest_of d w p = find (\<lambda>m. mv_key m = (w, p)) (movements d)"

definition ledger_ok :: "db \<Rightarrow> bool" where
  "ledger_ok d \<longleftrightarrow> (\<forall>w p m. latest_of d w p = Some m \<longrightarrow>
     stock d w p = None \<or> stock d w p = Some (mv_available_after m, mv_reserved_after m))"

definition shop_inv :: "db \<Rightarrow> bool" where
  "shop_inv d \<longleftrightarrow> keys_ok d \<and> rows_ok d \<and> held_ok d \<and> stock_ok d \<and> covered_ok d \<and> ledger_ok d"

lemma shop_invD:
  assumes "shop_inv d"
  shows "keys_ok d" and "rows_ok d" and "held_ok d" and "stock_ok d" and "covered_ok d" and "ledger_ok d"
    and "inventory_keys_distinct d"
  using assms by (simp_all add: shop_inv_def keys_ok_def)

lemma items_distinct:
  assumes "keys_ok d"
  shows "distinct (map ir_product (items_of d oid))"
proof -
  have "distinct (map item_key (items_of d oid))"
    using assms by (simp add: keys_ok_def items_of_def distinct_map_filter)
  then show ?thesis
    by (auto simp: distinct_map inj_on_def items_of_def item_key_def)
qed

lemma item_units_absent: "p \<notin> ir_product ` set (items_of d oid) \<Longrightarrow> item_units d oid p = 0"
proof -
  have "p \<notin> ir_product ` set is \<Longrightarrow> (\<Sum>i\<leftarrow>is. if ir_product i = p then ir_quantity i else 0) = 0" for "is"
    by (induction "is") auto
  then show "p \<notin> ir_product ` set (items_of d oid) \<Longrightarrow> item_units d oid p = 0"
    by (simp add: item_units_def)
qed

lemma item_units_nonneg: "rows_ok d \<Longrightarrow> 0 \<le> item_units d oid p"
  unfolding item_units_def by (rule sum_list_nonneg_int) (auto simp: rows_ok_def items_of_def)

lemma find_order_distinct:
  assumes "distinct (map row_id (orders d))" and "r \<in> set (orders d)"
  shows "find_order d (row_id r) = Some r"
  using find_distinct_key[OF assms] by (simp add: find_order_def)

subsection \<open>Statements that do not touch the shop\<close>

definition same_shop :: "db \<Rightarrow> db \<Rightarrow> bool" where
  "same_shop d d' \<longleftrightarrow> inventory d' = inventory d \<and> movements d' = movements d \<and> orders d' = orders d \<and>
     order_items d' = order_items d \<and> products d' = products d \<and> warehouses d' = warehouses d \<and>
     customers d' = customers d \<and> jobs d' = jobs d"

lemma same_shop_obs:
  assumes "same_shop d d'"
  shows "stock d' = stock d" and "held d' = held d" and "find_order d' = find_order d"
    and "items_of d' = items_of d" and "item_units d' = item_units d" and "latest_of d' = latest_of d"
    and "reserved_by d' = reserved_by d" and "orders_fk_ok d' = orders_fk_ok d"
    and "order_exists d' = order_exists d" and "order_pending d' = order_pending d"
    and "abs_order d' = abs_order d"
proof -
  from assms have d': "inventory d' = inventory d" "movements d' = movements d" "orders d' = orders d"
    "order_items d' = order_items d" "products d' = products d" "warehouses d' = warehouses d"
    "customers d' = customers d" by (simp_all add: same_shop_def)
  show 1: "stock d' = stock d" "held d' = held d" "find_order d' = find_order d" "items_of d' = items_of d"
    "latest_of d' = latest_of d" "order_exists d' = order_exists d"
    using d' by (simp_all add: fun_eq_iff stock_def find_inventory_def held_def find_order_def items_of_def
        latest_of_def order_exists_def)
  show "orders_fk_ok d' = orders_fk_ok d"
    using d' by (simp add: fun_eq_iff orders_fk_ok_def split: option.split)
  from 1 show 2: "item_units d' = item_units d" by (simp add: fun_eq_iff item_units_def)
  from 1 2 d' show "reserved_by d' = reserved_by d" "order_pending d' = order_pending d" "abs_order d' = abs_order d"
    by (simp_all add: fun_eq_iff reserved_by_def order_pending_def abs_order_def cong: if_cong)
qed

lemma same_shop:
  assumes "same_shop d d'"
  shows "shop_of d' = shop_of d" and "shop_inv d' \<longleftrightarrow> shop_inv d"
  using same_shop_obs[OF assms] assms
  by (simp_all add: shop_of_def shop_inv_def keys_ok_def rows_ok_def held_ok_def
      stock_ok_def covered_ok_def ledger_ok_def same_shop_def inventory_keys_distinct_def)

lemma same_shop_simps [simp]:
  "same_shop d d" "same_shop d (d\<lparr>payments := ps\<rparr>)" "same_shop d (d\<lparr>shipments := ss\<rparr>)"
  "same_shop d (d\<lparr>order_number_seq := n\<rparr>)"
  by (simp_all add: same_shop_def)

subsection \<open>The shipped ledger check\<close>

record ledger_mismatch =
  lm_warehouse :: uuid
  lm_product :: uuid
  lm_expected_available :: int
  lm_actual_available :: int
  lm_expected_reserved :: int
  lm_actual_reserved :: int

definition mismatches :: "inventory_row \<Rightarrow> movement_row \<Rightarrow> bool" where
  "mismatches i m \<longleftrightarrow> qty_available i \<noteq> mv_available_after m \<or> qty_reserved i \<noteq> mv_reserved_after m"

definition verify_ledger :: "db \<Rightarrow> ledger_mismatch list" where
  "verify_ledger d = concat (map (\<lambda>i.
     case latest_of d (inv_warehouse i) (inv_product i) of
       None \<Rightarrow> []
     | Some m \<Rightarrow> if mismatches i m
         then [\<lparr>lm_warehouse = inv_warehouse i, lm_product = inv_product i,
           lm_expected_available = mv_available_after m, lm_actual_available = qty_available i,
           lm_expected_reserved = mv_reserved_after m, lm_actual_reserved = qty_reserved i\<rparr>]
         else []) (inventory d))"

lemma ledger_ok_frame [frame_simps, simp]:
  "ledger_ok (d\<lparr>orders := os\<rparr>) \<longleftrightarrow> ledger_ok d"
  "ledger_ok (d\<lparr>order_items := is\<rparr>) \<longleftrightarrow> ledger_ok d"
  "ledger_ok (d\<lparr>payments := ps\<rparr>) \<longleftrightarrow> ledger_ok d"
  "ledger_ok (d\<lparr>jobs := js\<rparr>) \<longleftrightarrow> ledger_ok d"
  by (simp_all add: ledger_ok_def latest_of_def)

lemma ledger_okD:
  "ledger_ok d \<Longrightarrow> latest_of d w p = Some m \<Longrightarrow> stock d w p = Some ar \<Longrightarrow>
     ar = (mv_available_after m, mv_reserved_after m)"
  unfolding ledger_ok_def by fastforce

lemma verify_ledger_ok:
  assumes "inventory_keys_distinct d" and "ledger_ok d"
  shows "verify_ledger d = []"
proof -
  have "\<not> mismatches i m" if "i \<in> set (inventory d)" "latest_of d (inv_warehouse i) (inv_product i) = Some m" for i m
  proof -
    from find_distinct_key[of inv_key "inventory d" i] that(1) assms(1)
    have "stock d (inv_warehouse i) (inv_product i) = Some (qty_available i, qty_reserved i)"
      by (simp add: inventory_keys_distinct_def stock_def find_inventory_def inv_key_def)
    from ledger_okD[OF assms(2) that(2) this] show ?thesis by (simp add: mismatches_def)
  qed
  then show ?thesis by (auto simp: verify_ledger_def split: option.split)
qed

lemma ledger_ok_post:
  assumes "post_movement m d = Inr d'" and "ledger_ok d"
  shows "ledger_ok d'"
proof -
  from post_movement_Inr(1)[OF assms(1)] obtain iv where d': "d' = d\<lparr>inventory := iv, movements := m # movements d\<rparr>"
    by blast
  have "latest_of d' w p = (if (w, p) = mv_key m then Some m else latest_of d w p)" for w p
    by (auto simp: latest_of_def d')
  moreover have "stock d w p = None \<or> stock d w p = Some (mv_available_after x, mv_reserved_after x)"
    if "latest_of d w p = Some x" for w p x using assms(2) that by (simp add: ledger_ok_def)
  ultimately show ?thesis
    using post_movement_Inr(3)[OF assms(1)] by (auto simp: ledger_ok_def map_option_case split: if_splits option.splits)
qed

lemma ledger_ok_batch: "foldR post_movement ms d = Inr d' \<Longrightarrow> ledger_ok d \<Longrightarrow> ledger_ok d'"
  by (rule foldR_invariant[where P = ledger_ok]) (auto intro: ledger_ok_post)

end
