(* ===== verification/Shop_Settle.thy ===== *)
theory Shop_Settle
  imports Shop_State
begin

section \<open>Settling refines the abstract shop\<close>

text \<open>
  One settlement, by any of the three callers and whatever the payment resolution, is no move of the
  abstract shop or the move that ends the order, and keeps the invariant of the tables.
\<close>

lemma map_update_rows_set:
  "(\<And>x. x \<in> set rows \<Longrightarrow> p x \<Longrightarrow> key (f x) = key x) \<Longrightarrow> map key (update_rows p f rows) = map key rows"
  by (induction rows) auto

lemma order_row_unique_id:
  assumes "keys_ok d" and "find_order d oid = Some r" and "x \<in> set (orders d)" and "row_id x = oid"
  shows "x = r"
proof -
  have "find_order d (row_id x) = Some x"
    using assms(1,3) by (simp add: keys_ok_def find_order_distinct)
  with assms show ?thesis by simp
qed

lemma final_status_end [simp]: "end_status (final_status s)"
  by (cases s) (simp_all add: end_status_def)

lemma final_confirmed: "final_status s = CONFIRMED \<longleftrightarrow> s = SettleCaptured"
  by (cases s) simp_all

lemma announced_append [simp]: "announced (js @ js') = announced js @ announced js'"
  by (simp add: announced_def)

lemma announced_settlement_jobs:
  "announced (settlement_jobs s env oid) = (if s = SettleCaptured then [oid] else [])"
  by (cases s) (simp_all add: announced_def confirmed_jobs_def)

subsection \<open>The rows a settlement leaves\<close>

lemma settled_tables:
  assumes "settlement_call s env oid pay d = Inr (SETTLED, o2, d')" and "sends_append (tx_send env)"
    and "shop_inv d"
  obtains r w where "find_order d oid = Some r" "row_status r = PENDING_PAYMENT" "row_warehouse r = Some w"
    "ord_id o2 = oid" "ord_number o2 = row_number r" "ord_customer o2 = row_customer r"
    "ord_warehouse o2 = Some w"
    "orders d' = update_rows (\<lambda>x. row_id x = oid) (\<lambda>_. order_to_persistence (tx_now env) o2) (orders d)"
    "products d' = products d" "warehouses d' = warehouses d" "customers d' = customers d"
    "shipments d' = shipments d" "ledger_ok d'"
    "map inv_key (inventory d') = map inv_key (inventory d)"
proof -
  note inv = shop_invD[OF assms(3)]
  from assms(1) obtain r o1 d1 d2 d3 where 1: "find_order d oid = Some r" "order_to_domain r = Inr o1"
    "row_status r = PENDING_PAYMENT" "o2 = settled_entity s (tx_now env) o1"
    "(case pay of None \<Rightarrow> Inr d | Some p \<Rightarrow> update_payment (tx_now env) p d) = Inr d1"
    "settle_stock_of (settlement_type s) env oid (row_warehouse r) (map ir_product (items_of d oid)) d1 = Inr d2"
    "save_order (order_to_persistence (tx_now env) o2) d2 = Inr d3"
    "announce s env oid d3 = Inr d'" by (rule settlement_SETTLED)
  from inv(2) find_order_Some[OF 1(1)] obtain w where w: "row_warehouse r = Some w"
    by (auto simp: rows_ok_def)
  from resolve_step_Inr[OF 1(5)] obtain ps where d1: "d1 = d\<lparr>payments := ps\<rparr>" by blast
  then have same1: "same_shop d d1" by simp
  with inv(7) have k1: "inventory_keys_distinct d1" by (simp add: inventory_keys_distinct_def same_shop_def)
  have dist: "distinct (map ir_product (items_of d oid))" using inv(1) by (rule items_distinct)
  note d2 = settle_stock_of_unchanged[OF 1(6) settlement_type_ok k1 dist]
  have "foldR post_movement (settle_batch (settlement_type s) \<lparr>lc_order = oid, lc_warehouse = w,
      lc_products = map ir_product (items_of d oid)\<rparr> d1) d1 = Inr d2"
    using 1(6) settle_Inr(2)[OF _ settlement_type_ok k1] dist by (simp add: settle_stock_of_def w)
  moreover have "ledger_ok d1" using inv(6) same_shop_obs[OF same1] by (simp add: ledger_ok_def)
  ultimately have l2: "ledger_ok d2" by (rule ledger_ok_batch)
  from order_to_domain_Inr_id[OF 1(2)] 1(4) find_order_Some[OF 1(1)] w
  have o2: "ord_id o2 = oid" "ord_number o2 = row_number r" "ord_customer o2 = row_customer r"
    "ord_warehouse o2 = Some w" by auto
  have "order_exists d2 oid" using 1(1) by (simp add: order_exists_def d2(2) d1 find_order_Some)
      (use find_order_Some[OF 1(1)] in auto)
  with 1(7) o2(1) d2(2) d1 have d3: "d3 = d2\<lparr>orders := update_rows (\<lambda>x. row_id x = oid)
      (\<lambda>_. order_to_persistence (tx_now env) o2) (orders d)\<rparr>"
    by (elim save_order_cases) simp_all
  note d' = announce_Inr[OF 1(8) assms(2)]
  have "ledger_ok d'" using l2 by (simp add: d' d3)
  with that[OF 1(1,3) w o2] show ?thesis by (simp add: d' d3 d2 d1)
qed

lemma settled_balances:
  assumes "settlement_call s env oid pay d = Inr (SETTLED, o2, d')" and "sends_append (tx_send env)"
    and "shop_inv d" and "find_order d oid = Some r" and "row_warehouse r = Some w"
  shows "stock d' w' p = (if w' = w then map_option (\<lambda>(a, q). (a +
      (if s = SettleCaptured then 0 else item_units d oid p), q - item_units d oid p)) (stock d w p) else stock d w' p)"
    and "held d' oid' p = (if oid' = oid then 0 else held d oid' p)"
proof -
  note inv = shop_invD[OF assms(3)]
  have pend: "row_status r = PENDING_PAYMENT"
    using assms(1,4) by (auto elim: settlement_SETTLED)
  have dist: "distinct (map ir_product (items_of d oid))" using inv(1) by (rule items_distinct)
  note st = settled_stock[OF assms(1,2) inv(7) dist assms(4,5)]
  have held: "held d oid p = item_units d oid p" for p
    using inv(3) assms(4) pend by (simp add: held_ok_def order_pending_def)
  have ret: "returned (settlement_type s) q = (if s = SettleCaptured then 0 else q)" for q
    by (cases s) (simp_all add: returned_def)
  have zero: "item_units d oid p = 0" if "p \<notin> ir_product ` set (items_of d oid)"
    using that by (rule item_units_absent)
  show "stock d' w' p = (if w' = w then map_option (\<lambda>(a, q). (a +
      (if s = SettleCaptured then 0 else item_units d oid p), q - item_units d oid p)) (stock d w p) else stock d w' p)"
    using st(1)[of w' p] zero by (cases "stock d w p") (auto simp: held ret)
  have "stock d w p \<noteq> None" if "p \<in> ir_product ` set (items_of d oid)"
    using inv(5) find_order_Some[OF assms(4)] assms(5) pend that
    by (fastforce simp: covered_ok_def pending_at_def)
  then show "held d' oid' p = (if oid' = oid then 0 else held d oid' p)"
    using st(2)[of oid' p] zero held by auto
qed

subsection \<open>Invariant and abstraction\<close>

lemma settled_reserved:
  assumes "keys_ok d" and "find_order d oid = Some r" and "row_status r = PENDING_PAYMENT"
    and "row_warehouse r = Some w" and "row_status r' \<noteq> PENDING_PAYMENT"
    and "orders d' = update_rows (\<lambda>x. row_id x = oid) (\<lambda>_. r') (orders d)" and "order_items d' = order_items d"
  shows "reserved_by d' w' p = reserved_by d w' p - (if w' = w then item_units d oid p else 0)"
proof -
  have units: "item_units d' = item_units d" by (simp add: fun_eq_iff item_units_def items_of_def assms(7))
  have "r \<in> set (orders d)" "row_id r = oid" using find_order_Some[OF assms(2)] by auto
  moreover have "distinct (map row_id (orders d))" using assms(1) by (simp add: keys_ok_def)
  ultimately show ?thesis
    using sum_list_update_rows[of row_id "orders d" r oid
        "\<lambda>x. if pending_at w' x then item_units d (row_id x) p else 0" "\<lambda>_. r'"] assms(3-5)
    by (simp add: reserved_by_def units assms(6) pending_at_def cong: if_cong)
qed

lemma settlement_keeps_inv:
  assumes "settlement_call s env oid pay d = Inr (SETTLED, o2, d')" and "sends_append (tx_send env)"
    and "shop_inv d"
  shows "shop_inv d'"
proof -
  note inv = shop_invD[OF assms(3)]
  from settled_tables[OF assms] obtain r w where t: "find_order d oid = Some r" "row_status r = PENDING_PAYMENT"
    "row_warehouse r = Some w"
    "ord_id o2 = oid" "ord_number o2 = row_number r" "ord_customer o2 = row_customer r" "ord_warehouse o2 = Some w"
    "orders d' = update_rows (\<lambda>x. row_id x = oid) (\<lambda>_. order_to_persistence (tx_now env) o2) (orders d)"
    "products d' = products d" "warehouses d' = warehouses d" "customers d' = customers d" "ledger_ok d'"
    "map inv_key (inventory d') = map inv_key (inventory d)" by blast
  note bal = settled_balances[OF assms t(1,3)]
  have dist: "distinct (map ir_product (items_of d oid))" using inv(1) by (rule items_distinct)
  note row = settled_row[OF assms(1,2) inv(7) dist]
  let ?r = "order_to_persistence (tx_now env) o2"
  have np: "row_status ?r \<noteq> PENDING_PAYMENT" using row(2) by simp
  have units: "items_of d' = items_of d" "item_units d' = item_units d"
    by (simp_all add: fun_eq_iff item_units_def items_of_def row(4))
  have ids: "map row_id (orders d') = map row_id (orders d)"
    unfolding t(8) by (rule map_update_rows) (simp add: t(4))
  have nums: "map row_number (orders d') = map row_number (orders d)"
    unfolding t(8) by (rule map_update_rows_set) (use order_row_unique_id[OF inv(1) t(1)] in \<open>simp add: t(5)\<close>)
  have "keys_ok d'" using inv(1) row(5) by (simp add: keys_ok_def ids nums row(4))
  moreover have "rows_ok d'"
  proof -
    have "orders_fk_ok d r" using inv(2) find_order_Some[OF t(1)] by (simp add: rows_ok_def)
    then have "orders_fk_ok d' ?r" by (simp add: orders_fk_ok_def t)
    moreover have "orders_fk_ok d' x = orders_fk_ok d x" for x by (simp add: orders_fk_ok_def t split: option.split)
    moreover have "order_exists d' x = order_exists d x" for x
      unfolding order_exists_def using ids by (metis list.set_map)
    ultimately show ?thesis
      using inv(2) by (auto simp: rows_ok_def row(4) t(8,9) t(7) elim!: in_set_update_rowsE)
  qed
  moreover have "held_ok d'"
    using inv(3) np by (auto simp: held_ok_def bal(2) order_pending_def row(1) units)
  moreover have "stock_ok d'"
    unfolding stock_ok_def
  proof (intro allI impI)
    fix w' p a q
    assume st: "stock d' w' p = Some (a, q)"
    note res = settled_reserved[OF inv(1) t(1-3) np t(8) row(4), of w' p]
    have "0 \<le> item_units d oid p" by (rule item_units_nonneg[OF inv(2)])
    with st res inv(4) show "0 \<le> a \<and> q = reserved_by d' w' p"
      by (auto simp: bal(1) stock_ok_def split: if_splits)
  qed
  moreover have "covered_ok d'"
    using inv(5) np
    by (auto simp: covered_ok_def t(8) pending_at_def units bal(1) elim!: in_set_update_rowsE split: if_splits)
  ultimately show ?thesis using t(12) by (simp add: shop_inv_def)
qed

lemma settlement_refines:
  assumes "settlement_call s env oid pay d = Inr (SETTLED, o2, d')" and "sends_append (tx_send env)"
    and "shop_inv d"
  shows "shop_step (shop_of d) (shop_of d')"
proof -
  note inv = shop_invD[OF assms(3)]
  from settled_tables[OF assms] obtain r w where t: "find_order d oid = Some r" "row_status r = PENDING_PAYMENT"
    "row_warehouse r = Some w" "ord_id o2 = oid" "ord_warehouse o2 = Some w" by blast
  note bal = settled_balances[OF assms t(1,3)]
  have dist: "distinct (map ir_product (items_of d oid))" using inv(1) by (rule items_distinct)
  note row = settled_row[OF assms(1,2) inv(7) dist]
  have units: "item_units d' = item_units d"
    by (simp add: fun_eq_iff item_units_def items_of_def row(4))
  have cov: "stock d w p \<noteq> None" if "item_units d oid p \<noteq> 0" for p
  proof -
    from that item_units_absent have "p \<in> ir_product ` set (items_of d oid)" by blast
    with inv(5) find_order_Some[OF t(1)] t(2,3) show ?thesis
      by (fastforce simp: covered_ok_def pending_at_def)
  qed
  have "(case stock d' w' p of None \<Rightarrow> 0 | Some (a, q) \<Rightarrow> a) = (case stock d w' p of None \<Rightarrow> 0 | Some (a, q) \<Rightarrow> a) +
      (if w' = w \<and> final_status s \<noteq> CONFIRMED then item_units d oid p else 0)" for w' p
    using cov[of p] by (cases "item_units d oid p = 0") (auto simp: bal(1) final_confirmed split: option.splits)
  moreover have "abs_order d' x = abs_order d x" for x by (simp add: abs_order_def units)
  then have "map_option (abs_order d') z = map_option (abs_order d) z" for z by (cases z) simp_all
  moreover have "announced (jobs d') = announced (jobs d) @ (if final_status s = CONFIRMED then [oid] else [])"
    by (simp add: row(3) announced_settlement_jobs final_confirmed)
  ultimately have "shop_of d' = end_move oid (abs_order d r) (final_status s) (shop_of d)"
    using t find_order_Some[OF t(1)]
    by (simp add: shop_of_def end_move_def fun_eq_iff row(1,2)) (simp add: abs_order_def row(2))
  moreover have "shop_step (shop_of d) (end_move oid (abs_order d r) (final_status s) (shop_of d))"
    by (rule shop_step.ends) (simp_all add: shop_of_def t abs_order_def)
  ultimately show ?thesis by simp
qed

end
