(* ===== verification/Shop_Place.thy ===== *)
theory Shop_Place
  imports Shop_Settle
begin

section \<open>Placing an order refines the abstract shop\<close>

text \<open>
  One attempt of the allocation, a transaction that writes the order with its lines and reserves
  them, is the move that places the order, when its identifier is new.
\<close>

subsection \<open>The lines written with the order\<close>

lemma mapR_enumerate:
  assumes "mapR f (enumerate k ls) = Inr ys" and "\<And>k l y. f (k, l) = Inr y \<Longrightarrow> g y = h l"
  shows "map g ys = map h ls"
  using assms(1)
proof (induction ls arbitrary: k ys)
  case Nil
  then show ?case by simp
next
  case (Cons l ls)
  then obtain y zs where "f (k, l) = Inr y" "mapR f (enumerate (Suc k) ls) = Inr zs" "ys = y # zs" by auto
  with Cons.IH assms(2) show ?case by simp
qed

definition item_shape :: "order_item_row \<Rightarrow> uuid \<times> uuid \<times> int" where
  "item_shape i = (ir_order i, ir_product i, ir_quantity i)"

lemma new_items_shape:
  assumes "new_items env c found oid = Inr items"
  shows "map item_shape (map order_item_to_persistence items) =
    map (\<lambda>l. (oid, line_product l, line_quantity l)) (co_lines c)"
proof -
  have "map (item_shape \<circ> order_item_to_persistence) items = map (\<lambda>l. (oid, line_product l, line_quantity l)) (co_lines c)"
    by (rule mapR_enumerate[OF assms[unfolded new_items_def]])
      (auto simp: new_order_item_Inr_iff item_shape_def order_item_to_persistence_def Let_def)
  then show ?thesis by simp
qed

definition item_row_ok :: "db \<Rightarrow> order_item_row \<Rightarrow> bool" where
  "item_row_ok d i \<longleftrightarrow> 0 < ir_quantity i \<and> order_exists d (ir_order i) \<and> ir_product i \<in> prod_id ` set (products d)"

lemma insert_item_facts:
  assumes "insert_order_item i d = Inr d'"
  shows "d' = d\<lparr>order_items := order_items d @ [i]\<rparr>" and "item_row_ok d i"
    and "item_key i \<notin> item_key ` set (order_items d)"
  using assms by (auto simp: insert_order_item_def item_row_ok_def item_key_def split: if_splits)

lemma insert_items_facts:
  assumes "foldR insert_order_item is d = Inr d'" and "distinct (map item_key (order_items d))"
  shows "distinct (map item_key (order_items d @ is)) \<and> (\<forall>i \<in> set is. item_row_ok d i)"
  using assms
proof (induction "is" arbitrary: d)
  case Nil
  then show ?case by simp
next
  case (Cons i "is")
  then obtain d1 where d1: "insert_order_item i d = Inr d1" "foldR insert_order_item is d1 = Inr d'" by auto
  note f = insert_item_facts[OF d1(1)]
  have "distinct (map item_key (order_items d1))" using f Cons.prems(2) by (simp add: f(1))
  from Cons.IH[OF d1(2) this] f show ?case by (simp add: f(1) item_row_ok_def)
qed

lemma update_rows_append: "update_rows p f (xs @ ys) = update_rows p f xs @ update_rows p f ys"
  by (simp add: update_rows_def)

subsection \<open>The tables after an attempt\<close>

abbreviation placed_command :: "uuid \<Rightarrow> uuid \<Rightarrow> create_order_command \<Rightarrow> reserve_command" where
  "placed_command oid w c \<equiv> \<lparr>rc_order = oid, rc_warehouse = w, rc_lines = co_lines c\<rparr>"

lemma placed_order_tables:
  assumes "place_order env c found number tot a l oid w d = Inr (x, d1)"
    and "\<not> order_exists d oid" and "keys_ok d"
  obtains row its where "d1 = d\<lparr>orders := orders d @ [row], order_items := order_items d @ its\<rparr>"
    "row_id row = oid" "row_status row = PENDING_PAYMENT" "row_warehouse row = Some w"
    "orders_fk_ok d row" "row_number row \<notin> row_number ` set (orders d)"
    "map item_shape its = map (\<lambda>l. (oid, line_product l, line_quantity l)) (co_lines c)"
    "distinct (map item_key (order_items d @ its))" "\<forall>i \<in> set its. item_row_ok d1 i"
proof -
  let ?row = "order_to_persistence (sg_now env) (new_order env c number tot a l oid w)"
  from assms(1) obtain d0 items where
    d0: "save_order ?row d = Inr d0"
    and items: "new_items env c found oid = Inr items"
    and d1: "foldR insert_order_item (map order_item_to_persistence items) d0 = Inr d1"
    by (auto simp: place_order_def Let_def)
  from d0 assms(2) have d0': "d0 = d\<lparr>orders := orders d @ [?row]\<rparr>"
    by (elim save_order_cases) simp_all
  from d0 assms(2) have "orders_fk_ok d ?row" "row_number ?row \<notin> row_number ` set (orders d)"
    by (auto simp: save_order_def order_exists_def split: if_splits)
  moreover have "d1 = d\<lparr>orders := orders d @ [?row], order_items := order_items d @ map order_item_to_persistence items\<rparr>"
    using insert_items_Inr[OF d1] by (simp add: d0')
  moreover from this have "item_row_ok d1 = item_row_ok d0"
    by (simp add: fun_eq_iff item_row_ok_def d0' order_exists_def)
  moreover have "distinct (map item_key (order_items d0))" using assms(3) by (simp add: d0' keys_ok_def)
  note insert_items_facts[OF d1 this]
  ultimately show ?thesis
    using new_items_shape[OF items] by (intro that[where row = ?row and its = "map order_item_to_persistence items"]) (simp_all add: d0')
qed

lemma shape_lines:
  assumes "map item_shape its = map (\<lambda>l. (oid, line_product l, line_quantity l)) ls"
  shows "(\<Sum>i\<leftarrow>its. if ir_product i = p then ir_quantity i else 0) = lines_total ls p"
    and "\<forall>i \<in> set its. ir_order i = oid" and "map ir_product its = map line_product ls"
    and "map ir_quantity its = map line_quantity ls"
proof -
  have *: "(\<Sum>i\<leftarrow>its. if ir_product i = p then ir_quantity i else 0) = lines_total ls p \<and>
    (\<forall>i \<in> set its. ir_order i = oid) \<and> map ir_product its = map line_product ls \<and>
    map ir_quantity its = map line_quantity ls"
    using assms
  proof (induction its arbitrary: ls)
    case Nil
    then show ?case by simp
  next
    case (Cons i its)
    from Cons.prems obtain l ls' where ls: "ls = l # ls'" "ir_order i = oid" "ir_product i = line_product l"
      "ir_quantity i = line_quantity l"
      "map item_shape its = map (\<lambda>l. (oid, line_product l, line_quantity l)) ls'"
      by (cases ls) (auto simp: item_shape_def[of i])
    from Cons.IH[OF ls(5)] ls(1-4) show ?case by simp
  qed
  then show "(\<Sum>i\<leftarrow>its. if ir_product i = p then ir_quantity i else 0) = lines_total ls p"
    and "\<forall>i \<in> set its. ir_order i = oid" and "map ir_product its = map line_product ls"
    and "map ir_quantity its = map line_quantity ls" by auto
qed

lemma shape_valid:
  assumes "map item_shape its = map (\<lambda>l. (oid, line_product l, line_quantity l)) ls"
    and "distinct (map item_key its)" and "\<forall>i \<in> set its. 0 < ir_quantity i"
  shows "valid_lines ls"
proof -
  note sh = shape_lines[OF assms(1)]
  have "distinct (map ir_product its)"
    using assms(2) sh(2) by (auto simp: distinct_map inj_on_def item_key_def)
  moreover have "\<forall>q \<in> set (map ir_quantity its). 0 < q" using assms(3) by simp
  ultimately show ?thesis by (simp add: sh(3,4) valid_lines_def)
qed

lemma attempt_tables:
  assumes "attempt aenv (place_order env c found number tot a l) (co_lines c) k w d = Inr (x, d')"
    and "\<not> order_exists d (al_order_id aenv)" and "shop_inv d"
  obtains row its where "valid_lines (co_lines c)"
    "orders d' = orders d @ [row]" "order_items d' = order_items d @ its"
    "row_id row = al_order_id aenv" "row_status row = PENDING_PAYMENT" "row_warehouse row = Some w"
    "orders_fk_ok d row" "row_number row \<notin> row_number ` set (orders d)"
    "map item_shape its = map (\<lambda>l. (al_order_id aenv, line_product l, line_quantity l)) (co_lines c)"
    "distinct (map item_key (order_items d @ its))" "\<forall>i \<in> set its. item_row_ok d' i"
    "ledger_ok d'" "jobs d' = jobs d" "products d' = products d" "warehouses d' = warehouses d"
    "customers d' = customers d" "map inv_key (inventory d') = map inv_key (inventory d)"
    "\<forall>w' p. stock d' w' p = (if w' = w then map_option (\<lambda>(a, r). (a - lines_total (co_lines c) p,
        r + lines_total (co_lines c) p)) (stock d w p) else stock d w' p)"
    "\<forall>oid p. held d' oid p = (if oid = al_order_id aenv then lines_total (co_lines c) p else held d oid p)"
    "\<forall>l \<in> set (co_lines c). \<exists>a r. stock d w (line_product l) = Some (a, r) \<and> line_quantity l \<le> a"
proof -
  let ?oid = "al_order_id aenv" and ?c = "placed_command (al_order_id aenv) w c"
  note inv = shop_invD[OF assms(3)]
  from assms(1) obtain d1 where d1: "place_order env c found number tot a l ?oid w d = Inr (x, d1)"
    and res: "reserve (al_now aenv k) (al_contended aenv k) ?c d1 = Inr d'"
    by (auto simp: attempt_def)
  obtain row its where
    t: "d1 = d\<lparr>orders := orders d @ [row], order_items := order_items d @ its\<rparr>"
    "row_id row = ?oid" "row_status row = PENDING_PAYMENT" "row_warehouse row = Some w"
    "orders_fk_ok d row" "row_number row \<notin> row_number ` set (orders d)"
    "map item_shape its = map (\<lambda>l. (?oid, line_product l, line_quantity l)) (co_lines c)"
    "distinct (map item_key (order_items d @ its))" "\<forall>i \<in> set its. item_row_ok d1 i"
    by (rule placed_order_tables[OF d1 assms(2) inv(1)])
  have valid: "valid_lines (co_lines c)"
    using shape_valid[OF t(7)] t(8,9) by (simp add: item_row_ok_def)
  have k1: "inventory_keys_distinct d1" using inv(7) by (simp add: t(1) inventory_keys_distinct_def)
  have dist: "distinct (map line_product (rc_lines ?c))" using valid by (simp add: valid_lines_def)
  note un = reserve_unchanged[OF res k1 dist] and ord = reserve_orders[OF res k1 dist]
  define row' where "row' = row\<lparr>row_warehouse := Some w,
    row_reservation_expires_at := Some (al_now aenv k + reservation_ttl_minutes * ms_per_minute)\<rparr>"
  have "update_rows (\<lambda>r. row_id r = ?oid) f (orders d @ [row]) = orders d @ [f row]" for f
    using assms(2) t(2) by (subst update_rows_append) (force simp: order_exists_def intro!: update_rows_absent)
  then have o': "orders d' = orders d @ [row']"
    by (simp add: ord(1) t(1) row'_def)
  have "ledger_ok d1" using inv(6) by (simp add: t(1))
  with reserve_Inr(3)[OF res k1] obtain d2 where "ledger_ok d2"
    "set_reservation w (al_now aenv k + reservation_ttl_minutes * ms_per_minute) ?oid d2 = Inr d'"
    using ledger_ok_batch by auto
  then have led: "ledger_ok d'"
    by (auto dest!: set_reservation_Inr)
  have stk: "stock d1 = stock d" "held d1 = held d" by (simp_all add: t(1))
  have h0: "held d ?oid p = 0" for p
    using inv(3) assms(2) find_order_None[of d ?oid] by (simp add: held_ok_def order_pending_def)
  have nonneg: "0 \<le> lines_total (co_lines c) p" for p
    using lines_total_pos[OF valid, of p] lines_total_absent[of p "co_lines c"] by fastforce
  show ?thesis
  proof (rule that[OF valid o' _ _ _ _ _ _ t(7,8) _ led])
    show "order_items d' = order_items d @ its" by (simp add: un(5) t(1))
    show "row_id row' = ?oid" "row_status row' = PENDING_PAYMENT" "row_warehouse row' = Some w"
      by (simp_all add: row'_def t)
    show "orders_fk_ok d row'" using t(4,5) by (simp add: row'_def orders_fk_ok_def)
    show "row_number row' \<notin> row_number ` set (orders d)" using t(6) by (simp add: row'_def)
    show "\<forall>i \<in> set its. item_row_ok d' i" using t(9) un by (simp add: item_row_ok_def)
    show "jobs d' = jobs d" "products d' = products d" "warehouses d' = warehouses d" "customers d' = customers d"
      "map inv_key (inventory d') = map inv_key (inventory d)" by (simp_all add: un t(1))
    show "\<forall>w' p. stock d' w' p = (if w' = w then map_option (\<lambda>(a, r). (a - lines_total (co_lines c) p,
        r + lines_total (co_lines c) p)) (stock d w p) else stock d w' p)"
      using reserve_stock[OF res k1 dist] by (simp add: stk)
    show "\<forall>oid p. held d' oid p = (if oid = ?oid then lines_total (co_lines c) p else held d oid p)"
      using reserve_held[OF res k1 dist] nonneg lines_total_absent[of _ "co_lines c"] by (auto simp: stk h0)
    show "\<forall>l \<in> set (co_lines c). \<exists>a r. stock d w (line_product l) = Some (a, r) \<and> line_quantity l \<le> a"
      using reserve_Inr(2)[OF res k1] by (auto simp: lacks_def stk split: option.splits)
  qed
qed

subsection \<open>Invariant and abstraction\<close>

lemma items_of_append:
  "order_items d' = order_items d @ its \<Longrightarrow> items_of d' oid = items_of d oid @ filter (\<lambda>i. ir_order i = oid) its"
  by (simp add: items_of_def)

lemma no_items_before: "rows_ok d \<Longrightarrow> \<not> order_exists d oid \<Longrightarrow> items_of d oid = []"
  by (auto simp: rows_ok_def items_of_def filter_empty_conv)

definition placed_rows ::
  "uuid \<Rightarrow> uuid \<Rightarrow> order_line list \<Rightarrow> order_row \<Rightarrow> order_item_row list \<Rightarrow> db \<Rightarrow> db \<Rightarrow> bool" where
  "placed_rows oid w ls row its d d' \<longleftrightarrow> rows_ok d \<and> \<not> order_exists d oid \<and> orders d' = orders d @ [row] \<and>
     order_items d' = order_items d @ its \<and> row_id row = oid \<and> row_status row = PENDING_PAYMENT \<and>
     row_warehouse row = Some w \<and> map item_shape its = map (\<lambda>l. (oid, line_product l, line_quantity l)) ls"

lemma placed_items:
  assumes "placed_rows oid w ls row its d d'"
  shows "items_of d' x = (if x = oid then its else items_of d x)"
proof -
  from assms have p: "rows_ok d" "\<not> order_exists d oid" "order_items d' = order_items d @ its"
    "map item_shape its = map (\<lambda>l. (oid, line_product l, line_quantity l)) ls"
    by (simp_all add: placed_rows_def)
  show ?thesis
    using items_of_append[OF p(3), of x] no_items_before[OF p(1,2)] shape_lines(2)[OF p(4)]
    by (auto simp: filter_empty_conv filter_id_conv)
qed

lemma placed_units:
  assumes "placed_rows oid w ls row its d d'"
  shows "item_units d' x p = (if x = oid then lines_total ls p else item_units d x p)"
  using assms shape_lines(1)[of its oid ls p]
  by (simp add: item_units_def placed_items[OF assms] placed_rows_def)

lemma placed_find:
  assumes "placed_rows oid w ls row its d d'"
  shows "find_order d' x = (if x = oid then Some row else find_order d x)"
proof -
  have "find (\<lambda>r. row_id r = x) (os @ [row]) = (case find (\<lambda>r. row_id r = x) os of None \<Rightarrow>
      if row_id row = x then Some row else None | Some r \<Rightarrow> Some r)" for os
    by (induction os) auto
  with find_order_None[of d x] assms show ?thesis
    by (auto simp: placed_rows_def find_order_def split: option.split)
qed

lemma placed_reserved:
  assumes "placed_rows oid w ls row its d d'"
  shows "reserved_by d' w' p = reserved_by d w' p + (if w' = w then lines_total ls p else 0)"
proof -
  have "(\<Sum>r\<leftarrow>orders d. if pending_at w' r then item_units d' (row_id r) p else 0) = reserved_by d w' p"
    unfolding reserved_by_def
  proof (rule sum_list_cong_set)
    fix r
    assume "r \<in> set (orders d)"
    then have "row_id r \<noteq> oid" using assms by (auto simp: placed_rows_def order_exists_def image_iff)
    then show "(if pending_at w' r then item_units d' (row_id r) p else 0) =
        (if pending_at w' r then item_units d (row_id r) p else 0)"
      by (simp add: placed_units[OF assms])
  qed
  then show ?thesis
    using assms by (auto simp: reserved_by_def[of d'] placed_rows_def pending_at_def placed_units[OF assms])
qed

lemma attempt_refines:
  assumes "attempt aenv (place_order env c found number tot a l) (co_lines c) k w d = Inr (x, d')"
    and "\<not> order_exists d (al_order_id aenv)" and "shop_inv d"
  shows "shop_inv d'" and "shop_step (shop_of d) (shop_of d')"
proof -
  let ?oid = "al_order_id aenv" and ?ls = "co_lines c"
  note inv = shop_invD[OF assms(3)]
  obtain row its where t: "valid_lines ?ls"
    "orders d' = orders d @ [row]" "order_items d' = order_items d @ its"
    "row_id row = ?oid" "row_status row = PENDING_PAYMENT" "row_warehouse row = Some w"
    "orders_fk_ok d row" "row_number row \<notin> row_number ` set (orders d)"
    "map item_shape its = map (\<lambda>l. (?oid, line_product l, line_quantity l)) ?ls"
    "distinct (map item_key (order_items d @ its))" "\<forall>i \<in> set its. item_row_ok d' i"
    "ledger_ok d'" "jobs d' = jobs d" "products d' = products d" "warehouses d' = warehouses d"
    "customers d' = customers d" "map inv_key (inventory d') = map inv_key (inventory d)"
    and stk: "\<forall>w' p. stock d' w' p = (if w' = w then map_option (\<lambda>(a, r). (a - lines_total ?ls p,
        r + lines_total ?ls p)) (stock d w p) else stock d w' p)"
    and hld: "\<forall>oid p. held d' oid p = (if oid = ?oid then lines_total ?ls p else held d oid p)"
    and suf: "\<forall>l \<in> set ?ls. \<exists>a r. stock d w (line_product l) = Some (a, r) \<and> line_quantity l \<le> a"
    by (rule attempt_tables[OF assms])
  have pr: "placed_rows ?oid w ?ls row its d d'"
    using inv(2) assms(2) t by (simp add: placed_rows_def)
  note items = placed_items[OF pr] and units = placed_units[OF pr] and find = placed_find[OF pr]
    and res = placed_reserved[OF pr]
  have tot0: "lines_total ?ls p = 0 \<or> (0 < lines_total ?ls p \<and>
      (\<exists>a r. stock d w p = Some (a, r) \<and> lines_total ?ls p \<le> a))" for p
  proof (cases "p \<in> line_product ` set ?ls")
    case True
    then obtain l' where l': "l' \<in> set ?ls" "line_product l' = p" by auto
    then have "lines_total ?ls p = line_quantity l'" using t(1) lines_total_distinct by (auto simp: valid_lines_def)
    with suf[rule_format, OF l'(1)] lines_total_pos[OF t(1) True] l'(2) show ?thesis by auto
  qed (simp add: lines_total_absent)
  have ex: "order_exists d' y \<longleftrightarrow> y = ?oid \<or> order_exists d y" for y
    by (auto simp: order_exists_def t)
  have fk: "orders_fk_ok d' y = orders_fk_ok d y" for y
    by (simp add: orders_fk_ok_def t split: option.split)
  have "keys_ok d'"
    using inv(1) t(8,10) assms(2) t(17) by (simp add: keys_ok_def inventory_keys_distinct_def t(2,3,4) order_exists_def)
  moreover have "rows_ok d'"
    using inv(2) t(11) by (auto simp: rows_ok_def t(2,3,6,7,14) fk ex item_row_ok_def)
  moreover have "held_ok d'"
    using inv(3) by (auto simp: held_ok_def hld units order_pending_def find t(5))
  moreover have "stock_ok d'"
    unfolding stock_ok_def
  proof (intro allI impI)
    fix w' p a' r'
    assume "stock d' w' p = Some (a', r')"
    with inv(4) tot0[of p] show "0 \<le> a' \<and> r' = reserved_by d' w' p"
      by (auto simp: stk res stock_ok_def split: if_splits)
  qed
  moreover have "covered_ok d'"
  proof -
    have "stock d w (ir_product i) \<noteq> None" if "i \<in> set its" for i
    proof -
      from that shape_lines(3)[OF t(9)] have "ir_product i \<in> line_product ` set ?ls"
        by (metis image_eqI list.set_map)
      with suf show ?thesis by auto
    qed
    moreover have "row_id y \<noteq> ?oid" if "y \<in> set (orders d)" for y
      using that assms(2) by (auto simp: order_exists_def image_iff)
    ultimately show ?thesis
      using inv(5) by (auto simp: covered_ok_def t(2,4,6) items pending_at_def stk)
  qed
  ultimately show "shop_inv d'" using t(12) by (simp add: shop_inv_def)
  have free: "(case stock d' w' p of None \<Rightarrow> 0 | Some (a, q) \<Rightarrow> a) =
      (case stock d w' p of None \<Rightarrow> 0 | Some (a, q) \<Rightarrow> a) - (if w' = w then lines_total ?ls p else 0)" for w' p
    using tot0[of p] by (auto simp: stk split: option.splits)
  have ord: "map_option (abs_order d') (find_order d' y) =
      (if y = ?oid then Some \<lparr>so_status = PENDING_PAYMENT, so_warehouse = w, so_units = lines_total ?ls\<rparr>
       else map_option (abs_order d) (find_order d y))" for y
  proof (cases "y = ?oid")
    case True
    then show ?thesis using t by (simp add: find abs_order_def fun_eq_iff units)
  next
    case False
    then show ?thesis
      by (cases "find_order d y") (auto simp: find abs_order_def fun_eq_iff units dest: find_order_Some)
  qed
  have "shop_of d' = place_move ?oid w (lines_total ?ls) (shop_of d)"
    by (simp add: shop_of_def place_move_def fun_eq_iff free ord t(13))
  moreover have "shop_step (shop_of d) (place_move ?oid w (lines_total ?ls) (shop_of d))"
  proof (rule shop_step.place)
    show "sp_orders (shop_of d) ?oid = None"
      using assms(2) find_order_None[of d ?oid] by (simp add: shop_of_def)
    have "0 \<le> lines_total ?ls p \<and> (0 < lines_total ?ls p \<longrightarrow> lines_total ?ls p \<le> sp_free (shop_of d) w p)" for p
      using tot0[of p] by (auto simp: shop_of_def)
    then show "\<forall>p. 0 \<le> lines_total ?ls p \<and> (0 < lines_total ?ls p \<longrightarrow> lines_total ?ls p \<le> sp_free (shop_of d) w p)"
      by blast
  qed
  ultimately show "shop_step (shop_of d) (shop_of d')" by simp
qed

end
