(* ===== verification/Transactions.thy ===== *)
theory Transactions
  imports Shop_Place
begin

section \<open>The program as transactions\<close>

text \<open>
  Every operation of the program changes the database by the committed transactions of one step
  relation, in any interleaving with those of other sessions. Shipments are made for queued jobs
  only: pg-boss hands a worker nothing that was not sent. \<open>db_ok\<close> is the invariant of the whole
  database.
\<close>

inductive txn :: "db \<Rightarrow> db \<Rightarrow> bool" where
  placed: "\<not> order_exists d (al_order_id aenv) \<Longrightarrow>
    attempt aenv (place_order env c found number tot a l) (co_lines c) k w d = Inr (x, d') \<Longrightarrow> txn d d'"
| settled: "sends_append (tx_send env) \<Longrightarrow> settlement_call s env oid pay d = Inr (out, o2, d') \<Longrightarrow> txn d d'"
| payment_saved: "save_payment r d = Inr d' \<Longrightarrow> txn d d'"
| number_drawn: "txn d (d\<lparr>order_number_seq := order_number_seq d + 1\<rparr>)"
| shipped: "oid \<in> set (announced (jobs d)) \<Longrightarrow> create_shipment_for_order env oid d = Inr d' \<Longrightarrow> txn d d'"

abbreviation txns :: "db \<Rightarrow> db \<Rightarrow> bool" where
  "txns \<equiv> txn\<^sup>*\<^sup>*"

subsection \<open>Payments: at most one capture\<close>

text \<open>Two captured rows of one order are the same row.\<close>

definition captures_agree :: "payment_row \<Rightarrow> payment_row \<Rightarrow> bool" where
  "captures_agree x y \<longleftrightarrow> (pay_order x = pay_order y \<and> pay_status x = PS_CAPTURED \<and> pay_status y = PS_CAPTURED \<longrightarrow>
     pay_id x = pay_id y)"

definition payments_ok :: "db \<Rightarrow> bool" where
  "payments_ok d \<longleftrightarrow> distinct (map pay_id (payments d)) \<and>
     (\<forall>x \<in> set (payments d). \<forall>y \<in> set (payments d). captures_agree x y)"

lemma captures_agree_refl [simp]: "captures_agree x x"
  by (simp add: captures_agree_def)

lemma no_conflict_agree:
  assumes "\<not> payment_conflicts d r" and "x \<in> set (payments d)"
  shows "captures_agree x r" and "captures_agree r x"
proof -
  from assms have "\<not> (pay_id x \<noteq> pay_id r \<and> pay_order x = pay_order r \<and> pay_status x = PS_CAPTURED \<and>
      pay_status r = PS_CAPTURED)"
    unfolding payment_conflicts_def by blast
  then show "captures_agree x r" "captures_agree r x" unfolding captures_agree_def by metis+
qed

lemma payments_ok_insert:
  assumes "payments_ok d" and "\<not> payment_conflicts d r" and "pay_id r \<notin> pay_id ` set (payments d)"
    and "payments d' = payments d @ [r]"
  shows "payments_ok d'"
  using assms no_conflict_agree[OF assms(2)] by (simp add: payments_ok_def)

lemma payments_ok_update:
  assumes "payments_ok d" and "\<not> payment_conflicts d r"
    and "payments d' = update_rows (\<lambda>x. pay_id x = pay_id r) (\<lambda>_. r) (payments d)"
  shows "payments_ok d'"
proof -
  have ids: "map pay_id (payments d') = map pay_id (payments d)"
    unfolding assms(3) by (rule map_update_rows) simp
  have "x = r \<or> x \<in> set (payments d)" if "x \<in> set (payments d')" for x
    using that unfolding assms(3) by (elim in_set_update_rowsE) (simp split: if_splits)
  then have "captures_agree x y" if "x \<in> set (payments d')" "y \<in> set (payments d')" for x y
    using that no_conflict_agree[OF assms(2)] assms(1) captures_agree_refl unfolding payments_ok_def by metis
  with ids assms(1) show ?thesis unfolding payments_ok_def by simp
qed

lemma payments_ok_save: "save_payment r d = Inr d' \<Longrightarrow> payments_ok d \<Longrightarrow> payments_ok d'"
  by (elim save_payment_cases) (auto intro: payments_ok_insert payments_ok_update)

lemma payments_ok_resolve:
  assumes "update_payment now p d = Inr d'" and "payments_ok d"
  shows "payments_ok d'"
proof (cases "find_payment d (pr_payment_id p)")
  case None
  with assms show ?thesis by (simp add: update_payment_def)
next
  case (Some r)
  let ?r = "resolved_payment now (pr_charge_result p) r"
  from Some have r: "r \<in> set (payments d)" "pay_id r = pr_payment_id p"
    unfolding find_payment_def by (auto dest: find_Some_key)
  have id: "pay_id ?r = pay_id r" by (simp add: resolved_payment_def)
  show ?thesis
  proof (cases "unresolved (pay_status r)")
    case False
    with Some assms show ?thesis by (simp add: update_payment_def)
  next
    case True
    have "x = r" if "x \<in> set (payments d)" "pay_id x = pay_id r" for x
      using that r(1) assms(2) by (auto simp: payments_ok_def distinct_map inj_on_def)
    then have "update_rows (\<lambda>x. pay_id x = pr_payment_id p)
        (\<lambda>x. if unresolved (pay_status x) then resolved_payment now (pr_charge_result p) x else x) (payments d) =
      update_rows (\<lambda>x. pay_id x = pay_id ?r) (\<lambda>_. ?r) (payments d)"
      using True by (auto simp: update_rows_def id r(2))
    with Some True assms(1) have "\<not> payment_conflicts d ?r"
      "payments d' = update_rows (\<lambda>x. pay_id x = pay_id ?r) (\<lambda>_. ?r) (payments d)"
      by (auto simp: update_payment_def split: if_splits)
    from payments_ok_update[OF assms(2) this] show ?thesis .
  qed
qed

lemma settled_payments_ok:
  assumes "settlement_call s env oid pay d = Inr (SETTLED, o2, d')" and "sends_append (tx_send env)"
    and "shop_inv d" and "payments_ok d"
  shows "payments_ok d'"
proof -
  note inv = shop_invD[OF assms(3)]
  from assms(1) obtain r o1 d1 d2 d3 where 1: "find_order d oid = Some r" "order_to_domain r = Inr o1"
    "row_status r = PENDING_PAYMENT" "o2 = settled_entity s (tx_now env) o1"
    "(case pay of None \<Rightarrow> Inr d | Some p \<Rightarrow> update_payment (tx_now env) p d) = Inr d1"
    "settle_stock_of (settlement_type s) env oid (row_warehouse r) (map ir_product (items_of d oid)) d1 = Inr d2"
    "save_order (order_to_persistence (tx_now env) o2) d2 = Inr d3"
    "announce s env oid d3 = Inr d'" by (rule settlement_SETTLED)
  from resolve_step_Inr[OF 1(5)] have k1: "inventory_keys_distinct d1"
    using inv(7) by (auto simp: inventory_keys_distinct_def)
  have "payments_ok d1" using 1(5) assms(4) payments_ok_resolve by (cases pay) auto
  moreover have "payments d' = payments d1"
    using settle_stock_of_unchanged(4)[OF 1(6) settlement_type_ok k1 items_distinct[OF inv(1)]]
      save_order_unchanged[OF 1(7)] announce_Inr[OF 1(8) assms(2)] by auto
  ultimately show ?thesis by (simp add: payments_ok_def)
qed

subsection \<open>Shipments: one per confirmed order, from its warehouse\<close>

definition shipment_for :: "db \<Rightarrow> shipment_row \<Rightarrow> bool" where
  "shipment_for d s \<longleftrightarrow> (\<exists>r. find_order d (shp_order s) = Some r \<and> row_status r = CONFIRMED \<and>
     row_warehouse r = Some (shp_warehouse s))"

definition shipments_ok :: "db \<Rightarrow> bool" where
  "shipments_ok d \<longleftrightarrow> distinct (map shp_order (shipments d)) \<and> (\<forall>s \<in> set (shipments d). shipment_for d s)"

definition db_ok :: "db \<Rightarrow> bool" where
  "db_ok d \<longleftrightarrow> shop_inv d \<and> announced_ok (shop_of d) \<and> payments_ok d \<and> shipments_ok d"

lemma create_shipment_Inr:
  assumes "create_shipment_for_order env oid d = Inr d'"
  obtains (again) "d' = d" "oid \<in> shp_order ` set (shipments d)"
  | (first) s r where "d' = d\<lparr>shipments := shipments d @ [s]\<rparr>" "shp_order s = oid"
      "oid \<notin> shp_order ` set (shipments d)" "find_order d oid = Some r" "row_warehouse r = Some (shp_warehouse s)"
proof (cases "find_order d oid")
  case None
  with assms show ?thesis by (simp add: create_shipment_for_order_def insert_shipment_def Let_def)
next
  case (Some r)
  with assms that show ?thesis
    by (cases "row_warehouse r") (auto simp: create_shipment_for_order_def insert_shipment_def Let_def split: if_splits)
qed

lemma shipments_keep:
  assumes "shipments_ok d" and "shipments d' = shipments d"
    and "\<And>oid r. find_order d oid = Some r \<Longrightarrow> row_status r = CONFIRMED \<Longrightarrow> find_order d' oid = Some r"
  shows "shipments_ok d'"
  using assms by (fastforce simp: shipments_ok_def shipment_for_def)

lemma announced_confirmed:
  assumes "announced_ok (shop_of d)" and "oid \<in> set (announced (jobs d))"
  shows "\<exists>r. find_order d oid = Some r \<and> row_status r = CONFIRMED"
  using assms by (auto simp: announced_ok_def shop_of_def abs_order_def)

subsection \<open>Every transaction keeps the invariant and is a run of the shop\<close>

lemma shop_ok_of:
  assumes "shop_inv d" and "announced_ok (shop_of d)"
  shows "shop_ok (shop_of d)"
proof -
  have "dom (sp_orders (shop_of d)) \<subseteq> row_id ` set (orders d)"
    by (auto simp: shop_of_def dest: find_order_Some)
  then have "finite (dom (sp_orders (shop_of d)))" by (rule finite_subset) simp
  moreover have "0 \<le> sp_free (shop_of d) w p" for w p
    using shop_invD(4)[OF assms(1)] by (auto simp: shop_of_def stock_ok_def split: option.split)
  moreover have "0 \<le> so_units o1 p" if "sp_orders (shop_of d) oid = Some o1" for oid o1 p
    using that item_units_nonneg[OF shop_invD(2)[OF assms(1)]] by (auto simp: shop_of_def abs_order_def)
  ultimately show ?thesis using assms(2) by (simp add: shop_ok_def)
qed

lemma db_okI:
  assumes "shop_inv d'" and "shop_run (shop_of d) (shop_of d')" and "db_ok d" and "payments_ok d'" and "shipments_ok d'"
  shows "db_ok d' \<and> shop_run (shop_of d) (shop_of d')"
proof -
  have "shop_ok (shop_of d)" using assms(3) by (simp add: db_ok_def shop_ok_of)
  from shop_run_ok[OF assms(2) this] have "announced_ok (shop_of d')" by (simp add: shop_ok_def)
  with assms show ?thesis by (simp add: db_ok_def)
qed

lemma settlement_db_ok:
  assumes "settlement_call s env oid pay d = Inr (SETTLED, o2, d')" and "sends_append (tx_send env)" and "db_ok d"
  shows "db_ok d' \<and> shop_run (shop_of d) (shop_of d')"
proof -
  from assms(3) have ok: "shop_inv d" "payments_ok d" "shipments_ok d" by (simp_all add: db_ok_def)
  have dist: "distinct (map ir_product (items_of d oid))" using shop_invD(1)[OF ok(1)] by (rule items_distinct)
  note row = settled_row[OF assms(1,2) shop_invD(7)[OF ok(1)] dist]
  obtain r w where t: "find_order d oid = Some r" "row_status r = PENDING_PAYMENT" "shipments d' = shipments d"
    by (rule settled_tables[OF assms(1,2) ok(1)])
  have "shipments_ok d'"
    by (rule shipments_keep[OF ok(3) t(3)]) (use t in \<open>auto simp: row(1)\<close>)
  then show ?thesis
    by (intro db_okI settlement_keeps_inv[OF assms(1,2) ok(1)]
        r_into_rtranclp[where r = shop_step, OF settlement_refines[OF assms(1,2) ok(1)]]
        settled_payments_ok[OF assms(1,2) ok(1,2)] assms(3))
qed

lemma attempt_db_ok:
  assumes "attempt aenv (place_order env c found number tot a l) (co_lines c) k w d = Inr (x, d')"
    and "\<not> order_exists d (al_order_id aenv)" and "db_ok d"
  shows "db_ok d' \<and> shop_run (shop_of d) (shop_of d')"
proof -
  let ?oid = "al_order_id aenv"
  from assms(3) have ok: "shop_inv d" "payments_ok d" "shipments_ok d" by (simp_all add: db_ok_def)
  note r = attempt_refines[OF assms(1,2) ok(1)]
  from assms(1) obtain d1 where d1: "place_order env c found number tot a l ?oid w d = Inr (x, d1)"
    and res: "reserve (al_now aenv k) (al_contended aenv k) (placed_command ?oid w c) d1 = Inr d'"
    by (auto simp: attempt_def)
  from place_order_Inr[OF d1] obtain os its where d1': "d1 = d\<lparr>orders := os, order_items := its\<rparr>" by auto
  have k1: "inventory_keys_distinct d1" using shop_invD(7)[OF ok(1)] by (simp add: d1' inventory_keys_distinct_def)
  have "valid_lines (co_lines c)" by (rule attempt_tables[OF assms(1,2) ok(1)])
  then have dist: "distinct (map line_product (rc_lines (placed_command ?oid w c)))" by (simp add: valid_lines_def)
  note un = reserve_unchanged[OF res k1 dist]
  have same: "payments d' = payments d" "shipments d' = shipments d" by (simp_all add: un d1')
  then have "payments_ok d'" using ok(2) by (simp add: payments_ok_def)
  moreover have "find_order d' oid = Some r0" if "find_order d oid = Some r0" for oid r0
  proof -
    obtain row where o': "orders d' = orders d @ [row]" "row_id row = ?oid"
      by (rule attempt_tables[OF assms(1,2) ok(1)])
    have "find P (xs @ ys) = (case find P xs of None \<Rightarrow> find P ys | Some y \<Rightarrow> Some y)" for P and xs ys :: "order_row list"
      by (induction xs) auto
    with o' that show ?thesis by (simp add: find_order_def)
  qed
  then have "shipments_ok d'" by (intro shipments_keep[OF ok(3) same(2)]) simp
  ultimately show ?thesis by (intro db_okI r(1) r_into_rtranclp[where r = shop_step, OF r(2)] assms(3))
qed

lemma txn_db_ok:
  assumes "txn d d'" and "db_ok d"
  shows "db_ok d' \<and> shop_run (shop_of d) (shop_of d')"
  using assms(1)
proof cases
  case (placed aenv env c found number tot a l k w x)
  from attempt_db_ok[OF placed(2,1) assms(2)] show ?thesis .
next
  case (settled env s oid pay out o2)
  show ?thesis
  proof (cases "out = SETTLED")
    case True
    with settled settlement_db_ok assms(2) show ?thesis by blast
  next
    case False
    with settlement_call_cases[OF settled(2)] assms(2) show ?thesis by auto
  qed
next
  case (payment_saved r)
  then have "\<exists>ps. d' = d\<lparr>payments := ps\<rparr>" by (elim save_payment_cases) auto
  then obtain ps where d': "d' = d\<lparr>payments := ps\<rparr>" by blast
  have "payments_ok d'" using payments_ok_save[OF payment_saved] assms(2) by (simp add: db_ok_def)
  with assms(2) same_shop[of d d'] show ?thesis
    by (auto simp: db_ok_def d' shipments_ok_def shipment_for_def)
next
  case number_drawn
  with assms(2) same_shop[of d d'] show ?thesis
    by (auto simp: db_ok_def shipments_ok_def shipment_for_def payments_ok_def find_order_def)
next
  case (shipped oid env)
  from shipped(2) show ?thesis
  proof (cases rule: create_shipment_Inr)
    case again
    with assms(2) show ?thesis by simp
  next
    case (first s r)
    from assms(2) have "announced_ok (shop_of d)" by (simp add: db_ok_def)
    from announced_confirmed[OF this shipped(1)] first have "shipment_for d s" by (auto simp: shipment_for_def)
    with first assms(2) same_shop[of d d'] show ?thesis
      by (auto simp: db_ok_def shipments_ok_def shipment_for_def payments_ok_def find_order_def)
  qed
qed

lemma txns_db_ok:
  assumes "txns d d'" and "db_ok d"
  shows "db_ok d' \<and> shop_run (shop_of d) (shop_of d')"
  using assms
proof (induction rule: rtranclp_induct)
  case base
  then show ?case by simp
next
  case (step y z)
  with txn_db_ok[OF step(2)] show ?case by (auto intro: rtranclp_trans)
qed

end
