(* ===== verification/Program_Runs.thy ===== *)
theory Program_Runs
  imports Transactions
begin

section \<open>The use case and the jobs as runs of transactions\<close>

text \<open>
  Every operation is decomposed into the transactions it commits, whatever the ports answer and
  whatever other sessions commit in between, as long as that is a run of transactions too. An order
  identifier is a fresh UUID: no other session creates it.
\<close>

definition polite :: "uuid \<Rightarrow> (db \<Rightarrow> db) \<Rightarrow> bool" where
  "polite oid f \<longleftrightarrow> (\<forall>d. txns d (f d) \<and> (order_exists (f d) oid \<longrightarrow> order_exists d oid))"

definition commits :: "('g world \<Rightarrow> ('e + 'a) \<times> 'g world) \<Rightarrow> bool" where
  "commits m \<longleftrightarrow> (\<forall>w. txns (w_db w) (w_db (snd (m w))))"

lemma politeD: "polite oid f \<Longrightarrow> txns d (f d)" "polite oid f \<Longrightarrow> \<not> order_exists d oid \<Longrightarrow> \<not> order_exists (f d) oid"
  by (auto simp: polite_def)

lemma commitsD: "commits m \<Longrightarrow> txns (w_db w) (w_db (snd (m w)))"
  by (simp add: commits_def)

lemma commits_bindE [inv_intros]:
  assumes "commits m" and "\<And>a. commits (f a)"
  shows "commits (bindE m f)"
  unfolding commits_def
proof
  fix w
  show "txns (w_db w) (w_db (snd (bindE m f w)))"
    using commitsD[OF assms(1), of w] commitsD[OF assms(2)]
    by (auto simp: bindE_def split: prod.split sum.split) (metis rtranclp_trans snd_conv)
qed

lemma commits_returnE [inv_intros]: "commits (returnE a)" "commits (throwE e)"
  by (simp_all add: commits_def returnE_def throwE_def)

lemma commits_meanwhile [inv_intros]: "polite oid f \<Longrightarrow> commits (meanwhile f)"
  by (simp add: commits_def meanwhile_def politeD)

lemma commits_charge_step [inv_intros]: "commits (charge_step charge cmd)"
  by (simp add: commits_def charge_step_def split: prod.split)

lemma commits_save_payment [inv_intros]: "commits (save_payment_step p)"
  by (auto simp: commits_def save_payment_step_def in_transaction_def bindR_def
      intro: txn.payment_saved split: sum.split)

lemma commits_settle_step [inv_intros]:
  "sends_append (tx_send env) \<Longrightarrow> commits (settle_step (settlement_call s env oid pay))"
  by (auto simp: commits_def settle_step_def in_transaction_def bindR_def
      intro: txn.settled split: sum.split)

subsection \<open>The saga\<close>

lemma try_candidates_txns:
  assumes "try_candidates env (place_order senv c found number tot a l) (co_lines c) k cs unmet d = (r, d')"
    and "\<And>k. polite (al_order_id env) (al_others env k)" and "\<not> order_exists d (al_order_id env)"
  shows "txns d d'"
  using assms(1,3)
proof (induction cs arbitrary: k unmet d)
  case Nil
  then show ?case by simp
next
  case (Cons cand cs)
  let ?d0 = "al_others env k d" and ?p = "place_order senv c found number tot a l"
  have d0: "txns d ?d0" "\<not> order_exists ?d0 (al_order_id env)"
    using politeD[OF assms(2)] Cons.prems(2) by auto
  show ?case
  proof (cases "attempt env ?p (co_lines c) k (cand_warehouse cand) ?d0")
    case (Inr xd)
    then obtain x d1 where x: "attempt env ?p (co_lines c) k (cand_warehouse cand) ?d0 = Inr (x, d1)"
      by (cases xd) auto
    with Cons.prems(1) have "d' = d1" by simp
    with txn.placed[OF d0(2) x] d0(1) show ?thesis by auto
  next
    case (Inl e)
    show ?thesis
    proof (cases "\<exists>ids. e = InsufficientStockError ids")
      case True
      then obtain ids where "e = InsufficientStockError ids" by blast
      with Inl Cons.prems(1) have
        "try_candidates env ?p (co_lines c) (Suc k) cs (set_add_all unmet ids) ?d0 = (r, d')" by simp
      from Cons.IH[OF this d0(2)] d0(1) show ?thesis by (rule rtranclp_trans[rotated 1])
    next
      case False
      with Inl Cons.prems(1) have "d' = ?d0" by (cases e) auto
      with d0(1) show ?thesis by simp
    qed
  qed
qed

lemma allocate_step_txns:
  assumes "\<And>k. polite (al_order_id (sg_alloc env)) (al_others (sg_alloc env) k)"
    and "\<not> order_exists (w_db w) (al_order_id (sg_alloc env))"
  shows "txns (w_db w) (w_db (snd (allocate_step knn st_distance env (place_order env c found number tot a l) p
    (co_lines c) w)))"
proof -
  obtain r d' where run: "allocate_inventory knn st_distance (sg_alloc env)
      (place_order env c found number tot a l) p (co_lines c) (w_db w) = (r, d')" by fastforce
  then have "txns (w_db w) d'"
    using try_candidates_txns[OF _ assms]
    by (auto simp: allocate_inventory_def split: sum.splits if_splits)
  with run show ?thesis by (simp add: allocate_step_def)
qed

definition polite_saga :: "saga_env \<Rightarrow> bool" where
  "polite_saga env \<longleftrightarrow> (\<forall>k. polite (al_order_id (sg_alloc env)) (sg_others env k)) \<and>
     (\<forall>k. polite (al_order_id (sg_alloc env)) (al_others (sg_alloc env) k)) \<and>
     sends_append (tx_send (sg_settle env))"

lemma reserve_order_txns:
  assumes "polite_saga env" and "\<not> order_exists (w_db w) (al_order_id (sg_alloc env))"
  shows "txns (w_db w) (w_db (snd (reserve_order geocode knn st_distance env c found w)))"
proof -
  let ?oid = "al_order_id (sg_alloc env)" and ?d1 = "sg_others env 1 (w_db w)"
  let ?d2 = "?d1\<lparr>order_number_seq := order_number_seq ?d1 + 1\<rparr>"
  have d1: "txns (w_db w) ?d1" "\<not> order_exists ?d1 ?oid"
    using assms politeD[of ?oid] by (auto simp: polite_saga_def)
  then have d2: "txns (w_db w) ?d2" "\<not> order_exists ?d2 ?oid"
    using txn.number_drawn by (auto simp: order_exists_def intro: rtranclp.rtrancl_into_rtrancl)
  have alloc: "txns (w_db w) (w_db w2)"
    if "allocate_step knn st_distance env (place_order env c found number tot a l) l (co_lines c) w1 = (r, w2)"
      and "w_db w1 = ?d2" for number tot a l w1 w2 r
    using allocate_step_txns[of env w1 knn st_distance c found number tot a l l] assms(1) d2 that
    by (auto simp: polite_saga_def intro: rtranclp_trans)
  show ?thesis
    using d1(1) d2(1)
    by (auto simp: reserve_order_def bindE_def meanwhile_def geocode_step_def generate_order_number_def Let_def
        returnE_def split: sum.split prod.split intro: alloc)
qed

lemma charge_order_commits: "polite_saga env \<Longrightarrow> commits (charge_order charge env c o1)"
  unfolding charge_order_def by (auto simp: polite_saga_def intro!: inv_intros)

lemma settle_saga_commits:
  assumes "polite_saga env"
  shows "commits (settle_saga env o1 items alloc payment r)"
proof -
  have "sends_append (tx_send (sg_settle env))" using assms by (simp add: polite_saga_def)
  from commits_settle_step[OF this, of SettleCaptured] commits_settle_step[OF this, of SettleDeclined]
  show ?thesis by (auto simp: settle_saga_def intro!: commits_bindE commits_returnE)
qed

lemma create_order_txns:
  assumes "polite_saga env" and "\<not> order_exists (w_db w) (al_order_id (sg_alloc env))"
  shows "txns (w_db w) (w_db (snd (create_order geocode charge knn st_distance env c w)))"
proof (cases "resolve_customer_and_products c (w_db w)")
  case (Inl e)
  then show ?thesis by (simp add: create_order_def bindE_def)
next
  case (Inr found)
  let ?rest = "\<lambda>(o1, items, alloc). bindE (meanwhile (sg_others env 2)) (\<lambda>_. bindE (charge_order charge env c o1)
     (\<lambda>(payment, r). bindE (meanwhile (sg_others env 4)) (\<lambda>_. settle_saga env o1 items alloc payment r)))"
  have rest: "commits (?rest x)" for x
    using assms(1) by (cases x) (auto simp: polite_saga_def split_def
        intro!: commits_bindE commits_meanwhile charge_order_commits settle_saga_commits)
  have "create_order geocode charge knn st_distance env c w =
      bindE (reserve_order geocode knn st_distance env c found) ?rest w"
    by (simp add: create_order_def bindE_def[of "\<lambda>w. (resolve_customer_and_products c (w_db w), w)"] Inr)
  moreover obtain r w1 where rw: "reserve_order geocode knn st_distance env c found w = (r, w1)" by fastforce
  ultimately show ?thesis
    using reserve_order_txns[OF assms, of geocode knn st_distance c found] commitsD[OF rest]
    by (cases r) (auto simp: bindE_def intro: rtranclp_trans)
qed

subsection \<open>The jobs\<close>

definition polite_job :: "job_env \<Rightarrow> bool" where
  "polite_job env \<longleftrightarrow> (\<forall>k d. txns d (jb_others env k d)) \<and> (\<forall>k. sends_append (tx_send (jb_settle env k)))"

definition worker_db :: "'g worker \<Rightarrow> db" where
  "worker_db s = w_db (wk_world s)"

lemma settle_row_txns:
  assumes "polite_job env"
  shows "txns (worker_db st) (worker_db (snd (settle_row env k s oid pay st)))"
proof -
  let ?d = "jb_others env k (worker_db st)"
  have "txns ?d (settled_db (settlement_call s (jb_settle env k) oid pay ?d) ?d)"
    using assms txn.settled[of "jb_settle env k" s oid pay ?d]
    by (cases "settlement_call s (jb_settle env k) oid pay ?d") (auto simp: settled_db_def polite_job_def)
  moreover have "txns (worker_db st) ?d" using assms by (simp add: polite_job_def)
  ultimately show ?thesis by (simp add: worker_db_def settle_row_world Let_def)
qed

lemma each_row_txns:
  assumes "\<And>k r s. txns (worker_db s) (worker_db (snd (resolve k r s)))"
  shows "txns (w_db (wk_world s)) (w_db (wk_world (each_row resolve failed k rs s)))"
proof (rule each_row_invariant[where P = "\<lambda>w. txns (w_db (wk_world s)) (w_db w)"])
  show "txns (w_db (wk_world s)) (w_db (wk_world (snd (resolve k r s1))))"
    if "txns (w_db (wk_world s)) (w_db (wk_world s1))" for k r s1
    using that assms[of s1 k r] by (simp add: worker_db_def)
qed simp

lemma resolve_payment_txns:
  assumes "polite_job env"
  shows "txns (worker_db s) (worker_db (snd (resolve_payment get_status env k row s)))"
  using settle_row_txns[OF assms, of "s\<lparr>wk_world := (wk_world s)\<lparr>w_ext := g\<rparr>\<rparr>" k for g]
  by (auto simp: resolve_payment_def bindE_def status_step_eq Let_def worker_db_def)

lemma resolve_reservation_txns:
  assumes "polite_job env"
  shows "txns (worker_db s) (worker_db (snd (resolve_reservation get_status env k row s)))"
  using settle_row_txns[OF assms, of "s\<lparr>wk_world := (wk_world s)\<lparr>w_ext := g\<rparr>\<rparr>" k for g]
    settle_row_txns[OF assms, of s k]
  by (auto simp: resolve_reservation_def bindE_def status_step_eq Let_def worker_db_def warn_unresolved_def
      split: option.split)

lemma handler_txns:
  assumes "\<And>k r s. txns (worker_db s) (worker_db (snd (resolve k r s)))"
  shows "txns (worker_db s) (worker_db (snd (bindE (with_job_span select attributes (\<lambda>s. (Inr (rows s), s)))
    (\<lambda>rs s. (Inr (), each_row (\<lambda>k row. with_job_span step (attrs row) (resolve k row)) failed 0 rs s)) s)))"
proof -
  let ?step = "\<lambda>k row. with_job_span step (attrs row) (resolve k row)"
  obtain s1 where s1: "with_job_span select attributes (\<lambda>s. (Inr (rows s), s)) s = (Inr (rows s), s1)"
    "wk_world s1 = wk_world s"
    by (simp add: with_job_span_def)
  have "txns (worker_db s) (worker_db (snd (?step k r s)))" for k r s
    using assms[of s k r] by (simp add: worker_db_def)
  from each_row_txns[where resolve = ?step and s = s1 and failed = failed and k = 0 and rs = "rows s", OF this]
  show ?thesis by (simp add: bindE_def s1 worker_db_def)
qed

lemma reconcile_txns:
  assumes "polite_job env"
  shows "txns (worker_db s) (worker_db (snd (reconcile_payments get_status env s)))"
  unfolding reconcile_payments_def by (rule handler_txns) (rule resolve_payment_txns[OF assms])

lemma reap_txns:
  assumes "polite_job env"
  shows "txns (worker_db s) (worker_db (snd (reap_reservations get_status env s)))"
  unfolding reap_reservations_def by (rule handler_txns) (rule resolve_reservation_txns[OF assms])

lemma shipment_create_txns:
  assumes "payload_order_id payload \<in> set (announced (jobs (worker_db s)))"
  shows "txns (worker_db s) (worker_db (snd (shipment_create env payload s)))"
  using txn.shipped[OF assms, of env]
  by (auto simp: shipment_create_def worker_db_def in_transaction_def bindR_def split: sum.split)

end
