(* ===== verification/Guarantees.thy ===== *)
theory Guarantees
  imports Program_Runs
begin

section \<open>What the whole order flow guarantees\<close>

text \<open>
  The properties of the composed program: refinement of the abstract shop by the use case and the
  jobs, conservation of stock, and the uniqueness of captures and shipments, over every
  interleaving of transactions.
\<close>

subsection \<open>A shop before its first order\<close>

definition opening_shop :: db where
  "opening_shop = sample_shop\<lparr>orders := [], inventory := [
     \<lparr>inv_warehouse = ''w1'', inv_product = ''pa'', qty_available = 5, qty_reserved = 0, inv_version = 1\<rparr>,
     \<lparr>inv_warehouse = ''w1'', inv_product = ''pb'', qty_available = 4, qty_reserved = 0, inv_version = 1\<rparr>]\<rparr>"

lemma opening_shop_empty:
  "orders opening_shop = []" "order_items opening_shop = []" "movements opening_shop = []"
  "payments opening_shop = []" "shipments opening_shop = []" "jobs opening_shop = []"
  by (simp_all add: opening_shop_def sample_shop_def sample_defs)

lemma opening_shop_ok: "db_ok opening_shop"
proof -
  have none: "find_order opening_shop oid = None" for oid by (simp add: find_order_def opening_shop_empty)
  have "inventory_keys_distinct opening_shop"
    by (simp add: inventory_keys_distinct_def opening_shop_def inv_key_def)
  then have "keys_ok opening_shop" "rows_ok opening_shop" "covered_ok opening_shop" "ledger_ok opening_shop"
    by (simp_all add: keys_ok_def rows_ok_def covered_ok_def ledger_ok_def latest_of_def opening_shop_empty)
  moreover have "held_ok opening_shop"
    by (simp add: held_ok_def order_pending_def none held_def latest_movement_def opening_shop_empty)
  moreover have "stock_ok opening_shop"
    by (auto simp: stock_ok_def stock_def find_inventory_def reserved_by_def opening_shop_empty)
      (auto simp: opening_shop_def split: if_splits)
  ultimately show ?thesis
    by (simp add: db_ok_def shop_inv_def announced_ok_def shop_of_def none payments_ok_def shipments_ok_def
        opening_shop_empty announced_def)
qed

lemma polite_id [simp]: "polite oid (\<lambda>d. d)"
  by (simp add: polite_def)

lemma sample_saga_polite: "polite_saga sample_saga_env"
  by (simp add: polite_saga_def sample_saga_env_def sample_env_def)

lemma opening_shop_fresh: "\<not> order_exists opening_shop oid"
  by (simp add: order_exists_def opening_shop_empty)

lemma sample_job_polite: "polite_job sample_job_env"
  by (simp add: polite_job_def sample_job_env_def sample_env_def)

definition worker_on :: "db \<Rightarrow> 'g \<Rightarrow> 'g worker" where
  "worker_on d g = \<lparr>wk_world = \<lparr>w_db = d, w_ext = g\<rparr>, wk_logs = [], wk_spans = []\<rparr>"

lemma worker_on_db [simp]: "worker_db (worker_on d g) = d"
  by (simp add: worker_on_def worker_db_def)

subsection \<open>Refinement\<close>

text \<open>
  C1. Creating an order refines the abstract shop. From a consistent database, whatever the
  geocoder and the gateway answer, whichever step fails, and whatever transactions other sessions
  commit between its own, the call leaves a consistent database, and what happened in the meantime
  is a run of the two moves of the abstract shop: orders placed for units that were free, and pending
  orders ended once.
\<close>

theorem create_order_refines_shop:
  assumes "db_ok (w_db w)" and "polite_saga env" and "\<not> order_exists (w_db w) (al_order_id (sg_alloc env))"
    and "create_order geocode charge knn st_distance env c w = (answer, w')"
  shows "db_ok (w_db w') \<and> shop_run (shop_of (w_db w)) (shop_of (w_db w'))"
  using txns_db_ok[OF create_order_txns[OF assms(2,3)] assms(1), of geocode charge knn st_distance c] assms(4)
  by simp

theorem create_order_refines_shop_witness:
  "\<exists>answer w'. create_order sample_geocode (sample_charge PS_UNKNOWN) (\<lambda>_ _. 0) (\<lambda>_ _. 0) sample_saga_env
      sample_command \<lparr>w_db = opening_shop, w_ext = 0\<rparr> = (answer, w') \<and>
    db_ok (w_db w') \<and> shop_run (shop_of opening_shop) (shop_of (w_db w'))"
proof -
  obtain answer w' where run: "create_order sample_geocode (sample_charge PS_UNKNOWN) (\<lambda>_ _. 0) (\<lambda>_ _. 0)
      sample_saga_env sample_command \<lparr>w_db = opening_shop, w_ext = 0\<rparr> = (answer, w')" by fastforce
  have "db_ok (w_db \<lparr>w_db = opening_shop, w_ext = 0 :: nat\<rparr>)" using opening_shop_ok by simp
  from create_order_refines_shop[OF this sample_saga_polite _ run] opening_shop_fresh run show ?thesis by auto
qed

text \<open>
  C2. The scheduled jobs refine the abstract shop: a run of payment reconciliation and a run of the
  reservation reaper each leave a consistent database and change the shop only by its moves,
  whatever the provider answers for each row, whichever rows fail, and whatever other sessions commit
  between the selection and each settlement.
\<close>

theorem scheduled_jobs_refine_shop:
  assumes "db_ok (worker_db s)" and "polite_job env"
    and "s' = snd (reconcile_payments get_status env s) \<or> s' = snd (reap_reservations get_status env s)"
  shows "db_ok (worker_db s') \<and> shop_run (shop_of (worker_db s)) (shop_of (worker_db s'))"
proof -
  have "txns (worker_db s) (worker_db s')"
    using reconcile_txns[OF assms(2), of s get_status] reap_txns[OF assms(2), of s get_status] assms(3) by auto
  from txns_db_ok[OF this assms(1)] show ?thesis .
qed

definition sample_status :: "payment_status \<Rightarrow> string \<Rightarrow> nat \<Rightarrow> charge_result \<times> nat" where
  "sample_status st key n = (\<lparr>res_status = st, res_provider_payment_id = None, res_card_last4 = None,
     res_card_brand = None, res_failure_code = None, res_raw_response = None\<rparr>, n + 1)"

lemma sample_txns:
  "txns opening_shop (w_db (snd (create_order sample_geocode (sample_charge s) (\<lambda>_ _. 0) (\<lambda>_ _. 0) sample_saga_env
      sample_command \<lparr>w_db = opening_shop, w_ext = 0\<rparr>)))"
  using create_order_txns[OF sample_saga_polite, of "\<lparr>w_db = opening_shop, w_ext = 0\<rparr>"] opening_shop_fresh by simp

theorem scheduled_jobs_refine_shop_witness:
  "\<exists>d. d = w_db (snd (create_order sample_geocode (sample_charge PS_UNKNOWN) (\<lambda>_ _. 0) (\<lambda>_ _. 0) sample_saga_env
      sample_command \<lparr>w_db = opening_shop, w_ext = 0\<rparr>)) \<and>
    db_ok (worker_db (snd (reap_reservations (sample_status PS_FAILED) sample_job_env (worker_on d 0))))"
proof -
  define d where "d = w_db (snd (create_order sample_geocode (sample_charge PS_UNKNOWN) (\<lambda>_ _. 0) (\<lambda>_ _. 0)
      sample_saga_env sample_command \<lparr>w_db = opening_shop, w_ext = 0\<rparr>))"
  have "db_ok d" using txns_db_ok[OF sample_txns[of PS_UNKNOWN] opening_shop_ok] by (simp add: d_def)
  then have "db_ok (worker_db (worker_on d (0 :: nat)))" by simp
  from scheduled_jobs_refine_shop[OF this sample_job_polite, of _ "sample_status PS_FAILED"] d_def
  show ?thesis by blast
qed

subsection \<open>Stock and the ledger\<close>

text \<open>
  C3. Nothing is oversold and nothing is lost. Whatever transactions run from a consistent
  database, every stock row keeps a non-negative available balance, its reserved balance is exactly
  the units of the pending orders of that warehouse, what is available plus what pending and
  confirmed orders took never changes, the ledger's open units of an order are its lines while it is
  pending and nothing afterwards, and the shipped ledger check finds no discrepancy.
\<close>

theorem stock_is_conserved:
  assumes "db_ok d" and "txns d d'"
  shows "(\<forall>w p a r. stock d' w p = Some (a, r) \<longrightarrow> 0 \<le> a \<and> r = reserved_by d' w p) \<and>
    sp_free (shop_of d') w p + taken (shop_of d') w p = sp_free (shop_of d) w p + taken (shop_of d) w p \<and>
    held d' oid p = (if order_pending d' oid then item_units d' oid p else 0) \<and>
    verify_ledger d' = []"
proof -
  from txns_db_ok[OF assms(2,1)] have ok: "db_ok d'" "shop_run (shop_of d) (shop_of d')" by auto
  then have inv: "shop_inv d'" by (simp add: db_ok_def)
  have "shop_ok (shop_of d)" using assms(1) by (simp add: db_ok_def shop_ok_of)
  with shop_run_ok[OF ok(2)] shop_invD[OF inv] verify_ledger_ok[of d'] show ?thesis
    by (auto simp: stock_ok_def held_ok_def)
qed

theorem stock_is_conserved_witness:
  "verify_ledger (w_db (snd (create_order sample_geocode (sample_charge PS_DECLINED) (\<lambda>_ _. 0) (\<lambda>_ _. 0)
      sample_saga_env sample_command \<lparr>w_db = opening_shop, w_ext = 0\<rparr>))) = [] \<and>
   sp_free (shop_of opening_shop) ''w1'' ''pa'' = 5"
proof -
  have "sp_free (shop_of opening_shop) ''w1'' ''pa'' = 5"
    by (simp add: shop_of_def opening_shop_def stock_def find_inventory_def inv_key_def)
  with stock_is_conserved[OF opening_shop_ok sample_txns[of PS_DECLINED]] show ?thesis by simp
qed

subsection \<open>One capture, one shipment, one announcement\<close>

text \<open>
  C4. Money and goods move at most once per order, over any run of transactions: an order
  never has two captured payments; it never has two shipments, and has one only when it is confirmed
  and from the warehouse that reserved it; it is announced for shipping exactly once when it is
  confirmed and never otherwise; and an order keeps its warehouse and units and leaves
  \<open>PENDING_PAYMENT\<close> at most once, for good.
\<close>

theorem order_ends_once:
  assumes "db_ok d" and "txns d d'"
  shows "(\<forall>x \<in> set (payments d'). \<forall>y \<in> set (payments d'). pay_order x = pay_order y \<and>
      pay_status x = PS_CAPTURED \<and> pay_status y = PS_CAPTURED \<longrightarrow> pay_id x = pay_id y) \<and>
    distinct (map shp_order (shipments d')) \<and>
    (\<forall>s \<in> set (shipments d'). \<exists>r. find_order d' (shp_order s) = Some r \<and> row_status r = CONFIRMED \<and>
       row_warehouse r = Some (shp_warehouse s)) \<and>
    distinct (announced (jobs d')) \<and>
    (oid \<in> set (announced (jobs d')) \<longleftrightarrow> (\<exists>r. find_order d' oid = Some r \<and> row_status r = CONFIRMED)) \<and>
    (\<forall>o1. sp_orders (shop_of d) oid = Some o1 \<longrightarrow>
       (\<exists>o2. sp_orders (shop_of d') oid = Some o2 \<and> order_advances o1 o2))"
proof -
  from txns_db_ok[OF assms(2,1)] have ok: "db_ok d'" "shop_run (shop_of d) (shop_of d')" by auto
  from ok(1) have "announced_ok (shop_of d')" by (simp add: db_ok_def)
  then have "distinct (announced (jobs d'))"
    "oid \<in> set (announced (jobs d')) \<longleftrightarrow> (\<exists>r. find_order d' oid = Some r \<and> row_status r = CONFIRMED)"
    by (auto simp: announced_ok_def shop_of_def abs_order_def)
  moreover have "payments_ok d'" "shipments_ok d'" using ok(1) by (simp_all add: db_ok_def)
  then have "\<forall>x \<in> set (payments d'). \<forall>y \<in> set (payments d'). pay_order x = pay_order y \<and>
      pay_status x = PS_CAPTURED \<and> pay_status y = PS_CAPTURED \<longrightarrow> pay_id x = pay_id y"
    "distinct (map shp_order (shipments d'))" "\<forall>s \<in> set (shipments d'). shipment_for d' s"
    unfolding payments_ok_def shipments_ok_def captures_agree_def by blast+
  ultimately show ?thesis
    using shop_run_order[OF ok(2)] unfolding shipment_for_def by blast
qed

theorem order_ends_once_witness:
  "distinct (announced (jobs (w_db (snd (create_order sample_geocode (sample_charge PS_CAPTURED) (\<lambda>_ _. 0) (\<lambda>_ _. 0)
      sample_saga_env sample_command \<lparr>w_db = opening_shop, w_ext = 0\<rparr>)))))"
  using order_ends_once[OF opening_shop_ok sample_txns[of PS_CAPTURED]] by blast

end
