(* ===== verification/Replay.thy ===== *)
theory Replay
  imports Idempotency Guarantees
begin

section \<open>Replays of an order request\<close>

text \<open>
  The whole of \<open>POST /orders\<close>: the key table around the saga. First, the order named by an answer of
  the saga is in the database when the answer is recorded, so the foreign key of the key table never
  refuses it; then what a second request with the same key receives.
\<close>

subsection \<open>Which errors name an order\<close>

text \<open>Only the last step of the saga throws an error that carries an order id.\<close>

definition calm :: "app_error + 'a \<Rightarrow> bool" where
  "calm r \<longleftrightarrow> (\<forall>e. r = Inl e \<longrightarrow> recorded_order e = None)"

lemma calm_Inr [simp]: "calm (Inr a)"
  and calm_Inl [simp]: "calm (Inl e) \<longleftrightarrow> recorded_order e = None"
  by (simp_all add: calm_def)

lemma calm_bindR: "calm r \<Longrightarrow> (\<And>a. calm (f a)) \<Longrightarrow> calm (bindR r f)"
  by (cases r) simp_all

lemma calm_foldR: "(\<And>x s. calm (f x s)) \<Longrightarrow> calm (foldR f xs s)"
  by (induction xs arbitrary: s) (auto intro: calm_bindR)

lemma calm_mapR: "(\<And>x. calm (f x)) \<Longrightarrow> calm (mapR f xs)"
  by (induction xs) (auto intro!: calm_bindR)

lemma calm_values:
  "calm (money_of n cur)" "calm (shipping_address_of a)" "calm (coordinates_of x y)"
  "calm (new_order_item iid oid pid q sku name price now)" "calm (order_to_domain r)"
  "calm (mark_paid o1)" "calm (mark_payment_failed o1)" "calm (confirm now o1)"
  by (auto simp: money_of_def shipping_address_of_def coordinates_of_def new_order_item_def order_to_domain_def
      mark_paid_def mark_payment_failed_def confirm_def assert_valid_order_transition_def intro!: calm_bindR)

lemma calm_writes:
  "calm (save_order r d)" "calm (insert_order_item i d)" "calm (save_payment p d)" "calm (post_movement m d)"
  "calm (lock_inventory_rows contended d w ps)" "calm (set_reservation w expires oid d)"
  by (auto simp: save_order_def insert_order_item_def save_payment_def post_movement_def insert_movement_def
      update_inventory_balances_def lock_inventory_rows_def set_reservation_def intro!: calm_bindR)

lemma calm_total: "calm (order_total c found)"
proof -
  have "calm (total_of_lines ls)" for ls
    unfolding total_of_lines_def
    by (auto simp: money_zero_def money_add_def money_multiply_def assert_same_currency_def
        intro!: calm_bindR calm_values calm_foldR)
  then show ?thesis by (simp add: order_total_def)
qed

lemma calm_stock:
  "calm (reserve now contended c d)" "calm (release contended lc d)" "calm (commit contended lc d)"
proof -
  show "calm (reserve now contended c d)"
    using calm_writes(5)[of contended d "rc_warehouse c" "map line_product (rc_lines c)"]
    by (auto simp: reserve_def reserve_line_def Let_def split: sum.split option.split
        intro!: calm_bindR calm_foldR calm_writes)
  show "calm (release contended lc d)" "calm (commit contended lc d)"
    by (auto simp: release_def release_product_def commit_def commit_product_def Let_def split: option.split
        intro!: calm_bindR calm_foldR calm_writes)
qed

lemma calm_publish: "(\<And>j d. calm (tx_send env j d)) \<Longrightarrow> calm (publish env t p d)"
  by (auto simp: publish_def split: option.split intro!: calm_foldR)

lemma calm_settlement:
  assumes "\<And>j d. calm (tx_send env j d)"
  shows "calm (confirm_captured env oid None d)" and "calm (fail_declined env oid None d)"
  using calm_publish[OF assms]
  by (auto simp: confirm_captured_def fail_declined_def settle_order_def commit_order_def release_order_def
      split: option.split intro!: calm_bindR calm_values calm_stock calm_writes)

lemma calm_place_order: "calm (place_order env c found number tot a l oid w d)"
proof -
  have "calm (new_items env c found oid)"
    unfolding new_items_def by (auto simp: Let_def intro!: calm_mapR calm_bindR calm_values)
  then show ?thesis
    by (auto simp: place_order_def Let_def intro!: calm_bindR calm_foldR calm_writes)
qed

lemma calm_try_candidates:
  "calm (fst (try_candidates env (place_order senv c found number tot a l) ls k cs unmet d))"
proof (induction cs arbitrary: k unmet d)
  case Nil
  then show ?case by simp
next
  case (Cons cand cs)
  have "calm (attempt env (place_order senv c found number tot a l) ls k w d)" for w d
    by (auto simp: attempt_def intro!: calm_bindR calm_place_order calm_stock)
  from this[of "cand_warehouse cand" "al_others env k d"] Cons.IH show ?case
    by (auto simp: Let_def split: sum.split app_error.split)
qed

text \<open>A step that keeps to calm errors.\<close>

definition calm_step :: "('s \<Rightarrow> (app_error + 'a) \<times> 's) \<Rightarrow> bool" where
  "calm_step m \<longleftrightarrow> (\<forall>s. calm (fst (m s)))"

lemma calm_stepD: "calm_step m \<Longrightarrow> m s = (Inl e, s') \<Longrightarrow> recorded_order e = None"
  by (metis calm_Inl calm_step_def fst_conv)

lemma calm_step_bindE: "calm_step m \<Longrightarrow> (\<And>a. calm_step (f a)) \<Longrightarrow> calm_step (bindE m f)"
  by (auto simp: calm_step_def bindE_def split: prod.split sum.split) (metis calm_Inl fst_conv)

lemma calm_in_transaction:
  assumes "\<And>d. calm (t d)"
  shows "calm_step (in_transaction t)"
  unfolding calm_step_def
proof
  fix s
  show "calm (fst (in_transaction t s))"
    using assms[of "w_db s"] by (auto simp: in_transaction_def split: sum.split)
qed

lemma calm_steps:
  "calm r \<Longrightarrow> calm_step (\<lambda>s. (r, s))" "calm_step (returnE a)" "calm_step (meanwhile f)"
  "calm_step (generate_order_number y)" "calm_step (charge_step charge cmd)"
  by (auto simp: calm_step_def returnE_def meanwhile_def generate_order_number_def Let_def charge_step_def
      split: prod.split)

lemma calm_saga_writes:
  "calm_step (save_payment_step p)"
  "(\<And>d. calm (call d)) \<Longrightarrow> calm_step (settle_step call)"
  unfolding save_payment_step_def settle_step_def
  by (auto intro!: calm_in_transaction calm_bindR calm_writes)

lemma calm_reserve_order:
  assumes "\<And>a g. calm (fst (geocode a g))"
  shows "calm_step (reserve_order geocode knn st_distance env c found)"
proof -
  have "calm_step (geocode_step geocode a)" for a
    using assms by (auto simp: calm_step_def geocode_step_def split: prod.split) (metis fst_conv)
  moreover have "calm_step (allocate_step knn st_distance env (place_order env c found number tot a l) p ls)"
    for number tot a l p ls
    using calm_try_candidates[of "sg_alloc env" env c found number tot a l ls]
    by (auto simp: calm_step_def allocate_step_def allocate_inventory_def find_candidates_def
        split: prod.split sum.split) (metis fst_conv)+
  ultimately show ?thesis
    unfolding reserve_order_def
    by (auto intro!: calm_step_bindE calm_steps calm_values calm_total simp: split_def)
qed

subsection \<open>The order an answer names\<close>

definition names_order :: "uuid \<Rightarrow> app_error + saga_result \<Rightarrow> bool" where
  "names_order oid res \<longleftrightarrow> (case res of Inr r \<Rightarrow> ord_id (sr_order r) = oid
     | Inl e \<Rightarrow> (\<forall>x. recorded_order e = Some x \<longrightarrow> x = oid))"

lemma names_bindE:
  assumes "calm_step m" and "\<And>a s. names_order oid (fst (f a s))"
  shows "names_order oid (fst (bindE m f s))"
proof (cases "m s")
  case (Pair r s1)
  with assms(2) calm_stepD[OF assms(1), of s] show ?thesis
    by (cases r) (auto simp: bindE_def names_order_def)
qed

lemma settled_id:
  assumes "settlement_call s env oid pay d = Inr (out, o2, d')"
  shows "ord_id o2 = oid"
proof -
  have "row_id r = oid" if "find_order d oid = Some r" for r using find_order_Some[OF that] by simp
  moreover have "ord_id o1 = row_id r" if "order_to_domain r = Inr o1" for r o1
    using order_to_domain_Inr_id[OF that] by blast
  ultimately show ?thesis
    using settlement_call_cases[OF assms] assms
    by (auto elim!: settlement_SETTLED)
qed

lemma settle_saga_names:
  assumes "\<And>j d. calm (tx_send (sg_settle env) j d)"
  shows "names_order (ord_id o1) (fst (settle_saga env o1 items alloc payment r s))"
proof -
  let ?call = "confirm_captured (sg_settle env) (ord_id o1) None"
  have "names_order (ord_id o1) (fst (bindE (settle_step ?call) (\<lambda>settled. returnE \<lparr>sr_order = settled,
      sr_items = items, sr_allocation = alloc, sr_payment = payment, sr_charge = r\<rparr>) s))"
  proof (cases "?call (w_db s)")
    case (Inl e)
    moreover have "recorded_order e = None"
      using calm_settlement(1)[OF assms, of "ord_id o1" "w_db s"] by (simp add: Inl)
    ultimately show ?thesis
      by (simp add: settle_step_def in_transaction_def bindE_def names_order_def)
  next
    case (Inr x)
    then obtain out o2 d' where x: "?call (w_db s) = Inr (out, o2, d')" by (cases x) auto
    with settled_id[of SettleCaptured "sg_settle env" "ord_id o1" None "w_db s"] show ?thesis
      by (simp add: settle_step_def in_transaction_def bindE_def names_order_def returnE_def)
  qed
  moreover have "names_order (ord_id o1) (fst (bindE (settle_step (fail_declined (sg_settle env) (ord_id o1) None))
      (\<lambda>_. throwE (PaymentDeclinedError (ord_id o1) c)) s))" for c
    by (rule names_bindE) (auto intro: calm_saga_writes calm_settlement[OF assms] simp: names_order_def throwE_def)
  ultimately show ?thesis
    by (simp add: settle_saga_def names_order_def throwE_def)
qed

definition after_reserve ::
  "(charge_command \<Rightarrow> 'g \<Rightarrow> charge_result \<times> 'g) \<Rightarrow> saga_env \<Rightarrow> create_order_command \<Rightarrow>
   order \<times> order_item list \<times> allocation_result \<Rightarrow> 'g world \<Rightarrow> (app_error + saga_result) \<times> 'g world" where
  "after_reserve charge env c = (\<lambda>(o1, items, alloc).
     bindE (meanwhile (sg_others env 2)) (\<lambda>_. bindE (charge_order charge env c o1)
     (\<lambda>(payment, r). bindE (meanwhile (sg_others env 4)) (\<lambda>_. settle_saga env o1 items alloc payment r))))"

lemma create_order_split:
  "create_order geocode charge knn st_distance env c =
    bindE (\<lambda>w. (resolve_customer_and_products c (w_db w), w)) (\<lambda>found.
    bindE (reserve_order geocode knn st_distance env c found) (after_reserve charge env c))"
  by (simp add: create_order_def after_reserve_def)

lemma after_reserve_names:
  assumes "\<And>j d. calm (tx_send (sg_settle env) j d)"
  shows "names_order (ord_id o1) (fst (after_reserve charge env c (o1, items, alloc) s))"
proof -
  have "calm_step (charge_order charge env c o1)"
    unfolding charge_order_def by (intro calm_step_bindE calm_steps calm_saga_writes)
  then show ?thesis
    unfolding after_reserve_def prod.case
    by (intro names_bindE calm_steps) (auto simp: split_def intro!: names_bindE calm_steps settle_saga_names assms)
qed

lemma after_reserve_txns:
  assumes "polite_saga env"
  shows "txns (w_db w) (w_db (snd (after_reserve charge env c x w)))"
proof -
  have "commits (after_reserve charge env c x)"
    using assms by (cases x) (auto simp: after_reserve_def polite_saga_def split_def
        intro!: commits_bindE commits_meanwhile charge_order_commits settle_saga_commits)
  then show ?thesis by (rule commitsD)
qed

subsection \<open>The order is there\<close>

lemma reserve_keeps_orders:
  assumes "reserve now contended c d = Inr d'"
  shows "row_id ` set (orders d') = row_id ` set (orders d)"
proof -
  from assms obtain rows d1 where d1: "foldR (reserve_line c rows) (rc_lines c) d = Inr d1"
    and d': "set_reservation (rc_warehouse c) (now + reservation_ttl_minutes * ms_per_minute) (rc_order c) d1 = Inr d'"
    by (auto simp: reserve_def Let_def split: sum.splits if_splits)
  have "orders d1 = orders d"
    by (rule foldR_invariant[OF d1, where P = "\<lambda>s. orders s = orders d"])
      (auto simp: reserve_line_def post_movement_def update_inventory_balances_def insert_movement_def
        split: option.splits if_splits)
  moreover have "map row_id (orders d') = map row_id (orders d1)"
    using d' by (auto simp: set_reservation_def update_rows_def split: if_splits)
  then have "row_id ` set (orders d') = row_id ` set (orders d1)" by (metis set_map)
  ultimately show ?thesis by simp
qed

lemma attempt_order:
  assumes "attempt aenv (place_order env c found number tot a l) ls k w d = Inr ((o1, items), d')"
  shows "order_exists d' (ord_id o1)"
proof -
  from assms obtain d1 where d1: "place_order env c found number tot a l (al_order_id aenv) w d = Inr ((o1, items), d1)"
    and res: "reserve (al_now aenv k) (al_contended aenv k) \<lparr>rc_order = al_order_id aenv, rc_warehouse = w,
      rc_lines = ls\<rparr> d1 = Inr d'"
    by (auto simp: attempt_def)
  have "order_exists d1 (al_order_id aenv)" using saga_preparation.before_frame[OF d1] by blast
  moreover have "ord_id o1 = al_order_id aenv" using place_order_Inr[OF d1] by auto
  ultimately show ?thesis using reserve_keeps_orders[OF res] by (simp add: order_exists_def)
qed

text \<open>What holds whenever a step succeeds.\<close>

definition ensures :: "('a \<Rightarrow> 's \<Rightarrow> bool) \<Rightarrow> ('s \<Rightarrow> ('e + 'a) \<times> 's) \<Rightarrow> bool" where
  "ensures P m \<longleftrightarrow> (\<forall>s b t. m s = (Inr b, t) \<longrightarrow> P b t)"

lemma ensuresD: "ensures P m \<Longrightarrow> m s = (Inr b, t) \<Longrightarrow> P b t"
  by (simp add: ensures_def)

lemma ensures_bindE: "(\<And>a. ensures P (f a)) \<Longrightarrow> ensures P (bindE m f)"
  by (auto simp: ensures_def bindE_def split: prod.splits sum.splits)

lemma allocate_places:
  assumes "bindE (allocate_step knn st_distance env (place_order env c found number tot a l) p ls)
    (\<lambda>(alloc, (o1, items)). returnE (o1, items, alloc)) w = (Inr b, w1)"
  shows "order_exists (w_db w1) (ord_id (fst b))"
proof -
  from assms obtain alloc o1 items where b: "fst b = o1" and step: "allocate_step knn st_distance env
      (place_order env c found number tot a l) p ls w = (Inr (alloc, (o1, items)), w1)"
    by (rule bindE_Inr) (auto simp: returnE_def)
  then obtain cs where "try_candidates (sg_alloc env) (place_order env c found number tot a l) ls 0 cs []
      (w_db w) = (Inr (alloc, (o1, items)), w_db w1)"
    by (auto simp: allocate_step_def allocate_inventory_def split: prod.splits sum.splits if_splits)
  from try_candidates_success[OF this] show ?thesis using attempt_order b by auto
qed

lemma reserve_order_places:
  assumes "reserve_order geocode knn st_distance env c found w = (Inr (o1, items, alloc), w1)"
  shows "order_exists (w_db w1) (ord_id o1)"
proof -
  have "ensures (\<lambda>b w1. order_exists (w_db w1) (ord_id (fst b))) (reserve_order geocode knn st_distance env c found)"
    unfolding reserve_order_def by (rule ensures_bindE, rule ensures_bindE, rule ensures_bindE, rule ensures_bindE, rule ensures_bindE)
      (unfold ensures_def, intro allI impI, erule allocate_places)
  from ensuresD[OF this assms] show ?thesis by simp
qed

lemma txns_keep_order:
  assumes "txns d d'" and "db_ok d" and "order_exists d oid"
  shows "order_exists d' oid"
proof -
  from txns_db_ok[OF assms(1,2)] have "shop_run (shop_of d) (shop_of d')" by blast
  moreover obtain o1 where "sp_orders (shop_of d) oid = Some o1"
    using assms(3) by (auto simp: order_exists_find shop_of_def)
  ultimately have "\<exists>o2. sp_orders (shop_of d') oid = Some o2" using shop_run_order by blast
  then show ?thesis by (auto simp: order_exists_find shop_of_def)
qed

definition saga_ports_calm :: "(address \<Rightarrow> 'g \<Rightarrow> (app_error + coordinates) \<times> 'g) \<Rightarrow> saga_env \<Rightarrow> bool" where
  "saga_ports_calm geocode env \<longleftrightarrow> (\<forall>a g. calm (fst (geocode a g))) \<and> (\<forall>j d. calm (tx_send (sg_settle env) j d))"

lemma create_order_records:
  assumes "db_ok (w_db w)" and "polite_saga env" and "\<not> order_exists (w_db w) (al_order_id (sg_alloc env))"
    and "saga_ports_calm geocode env"
    and "create_order geocode charge knn st_distance env c w = (res, w')"
  shows "case res of Inr r \<Rightarrow> order_exists (w_db w') (ord_id (sr_order r))
    | Inl e \<Rightarrow> (\<forall>x. recorded_order e = Some x \<longrightarrow> order_exists (w_db w') x)"
proof (cases "resolve_customer_and_products c (w_db w)")
  case (Inl e)
  with assms(5) have "res = Inl e" "recorded_order e = None"
    by (auto simp: create_order_def bindE_def resolve_customer_and_products_def Let_def split: if_splits)
  then show ?thesis by simp
next
  case (Inr found)
  obtain r1 w1 where r1: "reserve_order geocode knn st_distance env c found w = (r1, w1)" by fastforce
  with assms(5) have run: "(case r1 of Inl e \<Rightarrow> (Inl e, w1) | Inr x \<Rightarrow> after_reserve charge env c x w1) = (res, w')"
    by (simp add: create_order_split Inr bindE_def[of "\<lambda>w. (resolve_customer_and_products c (w_db w), w)"]
        bindE_def[of "reserve_order geocode knn st_distance env c found"])
  have calm_reserve: "calm_step (reserve_order geocode knn st_distance env c found)"
    by (rule calm_reserve_order) (use assms(4) in \<open>simp add: saga_ports_calm_def\<close>)
  show ?thesis
  proof (cases r1)
    case (Inl e)
    with run r1 calm_stepD[OF calm_reserve] show ?thesis by auto
  next
    case (Inr x)
    then obtain o1 items alloc where x: "r1 = Inr (o1, items, alloc)" by (cases x) auto
    with run have after: "after_reserve charge env c (o1, items, alloc) w1 = (res, w')" by simp
    have "db_ok (w_db w1)"
      using reserve_order_txns[OF assms(2,3), of geocode knn st_distance c found] txns_db_ok assms(1) r1 by auto
    moreover have "txns (w_db w1) (w_db w')"
      using after_reserve_txns[OF assms(2), of w1 charge c "(o1, items, alloc)"] after by simp
    ultimately have there: "order_exists (w_db w') (ord_id o1)"
      using reserve_order_places r1 x txns_keep_order by blast
    have "names_order (ord_id o1) res"
      using after_reserve_names[of env o1 charge c items alloc w1] assms(4) after by (simp add: saga_ports_calm_def)
    with there show ?thesis by (auto simp: names_order_def split: sum.splits)
  qed
qed

subsection \<open>A first request\<close>

definition answer_recorded :: "db \<Rightarrow> app_error + saga_result \<Rightarrow> bool" where
  "answer_recorded d res \<longleftrightarrow> (case res of Inr r \<Rightarrow> order_exists d (ord_id (sr_order r))
     | Inl e \<Rightarrow> (\<forall>x. recorded_order e = Some x \<longrightarrow> order_exists d x))"

definition http_body :: "idem_env \<Rightarrow> string \<Rightarrow> app_error + saga_result \<Rightarrow> nat \<times> json" where
  "http_body env url res = (case res of Inr r \<Rightarrow> (201, order_response_of r)
     | Inl e \<Rightarrow> (prob_status (build_problem e), problem_details (build_problem e) url (id_correlation env)))"

definition answer_order :: "app_error + saga_result \<Rightarrow> uuid option" where
  "answer_order res = (case res of Inr r \<Rightarrow> Some (ord_id (sr_order r)) | Inl e \<Rightarrow> recorded_order e)"

lemma mark_step_ok:
  assumes "id_write_fails env k = None" and "\<forall>x. oid = Some x \<longrightarrow> order_exists (w_db (ap_world s)) x"
  shows "mark_step env k i oid st body s =
    (Inr (), s\<lparr>ap_keys := update_rows (\<lambda>r. key_id r = i) (completed_row oid st body) (ap_keys s)\<rparr>)"
  using assms by (cases oid) (simp_all add: mark_step_def mark_completed_def)

lemma run_and_record_ok:
  assumes "\<forall>k. id_write_fails env k = None" and "saga (command_of_dto dto key) (ap_world s) = (res, w')"
    and "answer_recorded (w_db w') res"
  shows "run_and_record saga env i key dto url s =
    (case res of Inr r \<Rightarrow> Inr (http_body env url res) | Inl e \<Rightarrow> Inl e,
     s\<lparr>ap_world := w', ap_keys := update_rows (\<lambda>r. key_id r = i)
       (completed_row (answer_order res) (fst (http_body env url res)) (snd (http_body env url res))) (ap_keys s)\<rparr>)"
  using assms
  by (cases res) (simp_all add: run_and_record_def record_failure_def saga_step_def bindE_def mark_step_ok
      answer_recorded_def http_body_def answer_order_def returnE_def throwE_def Let_def)

lemma update_last_row:
  assumes "key_id r = i" and "i \<notin> key_id ` set ks"
  shows "update_rows (\<lambda>r. key_id r = i) f (ks @ [r]) = ks @ [f r]"
  using assms by (induction ks) (auto simp: update_rows_def)

lemma row_of_last_key:
  assumes "row_of_key key ks = None" and "key_scope r = SCOPE" and "key_text r = key"
  shows "row_of_key key (ks @ [r]) = Some r"
  using assms by (induction ks) (auto simp: row_of_key_def split: if_splits)

lemma post_orders_new:
  assumes "key \<noteq> []" and "id_is_uuid env key" and "row_of_key key (ap_keys s) = None"
    and "id_row_id env \<notin> key_id ` set (ap_keys s)" and "\<forall>k. id_write_fails env k = None"
    and "saga (command_of_dto dto key) (ap_world s) = (res, w')" and "answer_recorded (w_db w') res"
    and "post_orders saga env (Some key) dto url s = (reply, s1)"
  shows "rp_status reply = fst (http_body env url res)" and "rp_body reply = snd (http_body env url res)"
    and "ap_world s1 = w'"
    and "\<exists>r. ap_keys s1 = ap_keys s @ [completed_row (answer_order res) (rp_status reply) (rp_body reply) r] \<and>
      key_id r = id_row_id env \<and> key_scope r = SCOPE \<and> key_text r = key \<and>
      key_fingerprint r = compute_request_fingerprint env (dto_json dto) \<and>
      key_expires_at r = id_clock env + 86400000"
proof -
  obtain r where b: "begin_idempotent_request env key (compute_request_fingerprint env (dto_json dto)) (ap_keys s) =
      (Inr (NewRequest (id_row_id env)), ap_keys s @ [r])"
    and r: "key_id r = id_row_id env" "key_scope r = SCOPE" "key_text r = key"
      "key_fingerprint r = compute_request_fingerprint env (dto_json dto)"
      "key_expires_at r = id_clock env + 86400000"
    using begin_new[OF assms(3,4)] by blast
  let ?row = "completed_row (answer_order res) (fst (http_body env url res)) (snd (http_body env url res)) r"
  have "execute_idempotent saga env (Some key) dto url s =
    (case res of Inr r \<Rightarrow> Inr (http_body env url res) | Inl e \<Rightarrow> Inl e,
     s\<lparr>ap_world := w', ap_keys := ap_keys s @ [?row]\<rparr>)"
    using run_and_record_ok[where s = "s\<lparr>ap_keys := ap_keys s @ [r]\<rparr>" and saga = saga and dto = dto and key = key
        and res = res and w' = w' and env = env and i = "id_row_id env" and url = url, OF assms(5)] assms(6,7)
      update_last_row[OF r(1) assms(4)]
    by (simp add: execute_begins[OF assms(1,2)] bindE_def begin_step_def b)
  then have out: "rp_status reply = fst (http_body env url res)" "rp_body reply = snd (http_body env url res)"
    "s1 = s\<lparr>ap_world := w', ap_keys := ap_keys s @ [?row]\<rparr>"
    using assms(8) by (auto simp: post_orders_def http_body_def catch_exception_def Let_def split: sum.splits)
  then show "rp_status reply = fst (http_body env url res)" "rp_body reply = snd (http_body env url res)"
    "ap_world s1 = w'" by simp_all
  from r out show "\<exists>r. ap_keys s1 = ap_keys s @ [completed_row (answer_order res) (rp_status reply)
      (rp_body reply) r] \<and> key_id r = id_row_id env \<and> key_scope r = SCOPE \<and> key_text r = key \<and> key_fingerprint r = compute_request_fingerprint env (dto_json dto) \<and>
      key_expires_at r = id_clock env + 86400000" by auto
qed

subsection \<open>A second request\<close>

lemma post_orders_existing:
  assumes "key \<noteq> []" and "id_is_uuid env key" and "keys_distinct (ap_keys s)"
    and "row_of_key key (ap_keys s) = Some r"
  shows "post_orders saga env (Some key) dto url s =
    (if \<not> id_now env < key_expires_at r
     then fst (catch_exception (QueryFailedError SQL_UNIQUE_23505) url (id_correlation env))
     else if key_fingerprint r \<noteq> compute_request_fingerprint env (dto_json dto)
     then fst (catch_exception (UnprocessableEntityException
       ''Idempotency-Key was already used with a different request body'') url (id_correlation env))
     else if key_state r = IN_PROGRESS
     then fst (catch_exception (ConflictException
       ''A request with this Idempotency-Key is still being processed'') url (id_correlation env))
     else \<lparr>rp_status = (case key_status r of None \<Rightarrow> 200 | Some st \<Rightarrow> st), rp_media_type = ''application/json'',
       rp_body = (case key_body r of None \<Rightarrow> JNull | Some b \<Rightarrow> b)\<rparr>, s)"
  by (simp add: post_orders_def execute_begins[OF assms(1,2)] bindE_def begin_step_def
      begin_existing[OF assms(3,4)] returnE_def)

definition same_functions :: "idem_env \<Rightarrow> idem_env \<Rightarrow> bool" where
  "same_functions env env' \<longleftrightarrow> id_is_uuid env' = id_is_uuid env \<and> id_sha256 env' = id_sha256 env \<and>
     id_collate env' = id_collate env \<and> id_fraction_text env' = id_fraction_text env"

lemma fingerprint_same_fields:
  assumes "same_functions env env'" and "inj (id_collate env)" and "same_fields a b"
  shows "compute_request_fingerprint env' b = compute_request_fingerprint env a"
  using assms canonicalize_same_fields[OF assms(2,3)]
  by (simp add: compute_request_fingerprint_def same_functions_def)

text \<open>
  C5. A retried order request never orders or charges twice. Whatever the first request answered,
  an order, a refusal, a declined card or an unknown outcome, a second request with the same key and
  a body with the same fields in any order, less than twenty-four hours later, gets the same status
  and the same body as \<open>jsonb\<close> gives it back, as plain JSON, and changes nothing: no order, no stock,
  no payment, no call of the gateway. The environment of the second request (its clock, its ports,
  its saga) and what other requests did to the table in between do not matter. The ports do not throw
  errors that carry an order id, and the writes of the two answers succeed.
\<close>

theorem retried_request_is_replayed:
  assumes "db_ok (w_db (ap_world s))" and "polite_saga (id_saga env)"
    and "\<not> order_exists (w_db (ap_world s)) (al_order_id (sg_alloc (id_saga env)))"
    and "saga_ports_calm geocode (id_saga env)" and "\<forall>k. id_write_fails env k = None"
    and "key \<noteq> []" and "id_is_uuid env key" and "row_of_key key (ap_keys s) = None"
    and "id_row_id env \<notin> key_id ` set (ap_keys s)"
    and "post_orders (create_order geocode charge knn st_distance (id_saga env)) env (Some key) dto url s = (reply, s1)"
    and "same_functions env env'" and "inj (id_collate env)" and "same_fields (dto_json dto) (dto_json dto')"
    and "keys_distinct (ap_keys s2)" and "row_of_key key (ap_keys s2) = row_of_key key (ap_keys s1)"
    and "id_now env' < id_clock env + 24 * 60 * 60 * 1000"
  shows "post_orders saga' env' (Some key) dto' url' s2 =
    (\<lparr>rp_status = rp_status reply, rp_media_type = ''application/json'', rp_body = jsonb_value (rp_body reply)\<rparr>, s2)"
proof -
  obtain res w' where run: "create_order geocode charge knn st_distance (id_saga env) (command_of_dto dto key)
      (ap_world s) = (res, w')" by fastforce
  have "answer_recorded (w_db w') res"
    using create_order_records[OF assms(1-4) run] by (simp add: answer_recorded_def)
  from post_orders_new(4)[OF assms(6,7,8,9,5) run this assms(10)] obtain r where
    s1: "ap_keys s1 = ap_keys s @ [completed_row (answer_order res) (rp_status reply) (rp_body reply) r]"
    and r: "key_scope r = SCOPE" "key_text r = key" "key_fingerprint r = compute_request_fingerprint env (dto_json dto)"
      "key_expires_at r = id_clock env + 86400000" by blast
  have "row_of_key key (ap_keys s2) = Some (completed_row (answer_order res) (rp_status reply) (rp_body reply) r)"
    using row_of_last_key[OF assms(8)] r by (simp add: assms(15) s1 completed_row_def)
  moreover have "id_is_uuid env' key" using assms(7,11) by (simp add: same_functions_def)
  ultimately show ?thesis
    using post_orders_existing[OF assms(6) _ assms(14)] r assms(16)
      fingerprint_same_fields[OF assms(11,12,13)]
    by (simp add: completed_row_def)
qed

subsection \<open>A concrete retry\<close>

definition sample_idem :: idem_env where
  "sample_idem = \<lparr>id_saga = sample_saga_env, id_is_uuid = (\<lambda>t. True), id_sha256 = (\<lambda>t. t), id_collate = (\<lambda>t. t),
     id_fraction_text = (\<lambda>q. []), id_row_id = ''k1'', id_clock = 0, id_now = 0, id_correlation = None,
     id_write_fails = (\<lambda>k. None)\<rparr>"

definition sample_dto :: create_order_dto where
  "sample_dto = \<lparr>dto_json = JObj [(''customerId'', JStr ''c1''), (''items'', JArr [])], dto_customer = ''c1'',
     dto_address = co_address sample_command, dto_items = co_lines sample_command,
     dto_card_number = co_card_number sample_command\<rparr>"

definition swapped_dto :: create_order_dto where
  "swapped_dto = sample_dto\<lparr>dto_json := JObj [(''items'', JArr []), (''customerId'', JStr ''c1'')]\<rparr>"

definition sample_api :: "nat api" where
  "sample_api = \<lparr>ap_world = \<lparr>w_db = opening_shop, w_ext = 0\<rparr>, ap_keys = []\<rparr>"

definition first_post :: "payment_status \<Rightarrow> http_reply \<times> nat api" where
  "first_post st = post_orders (create_order sample_geocode (sample_charge st) (\<lambda>_ _. 0) (\<lambda>_ _. 0) sample_saga_env)
     sample_idem (Some ''a-key'') sample_dto ''/orders'' sample_api"

lemma sample_ports_calm: "saga_ports_calm sample_geocode sample_saga_env"
  by (simp add: saga_ports_calm_def sample_geocode_def sample_saga_env_def sample_env_def plain_send_def)

lemma sample_same_fields: "same_fields (dto_json sample_dto) (dto_json swapped_dto)"
  unfolding sample_dto_def swapped_dto_def
  by (auto intro!: same_fields.objects[where ?kvs1.0 = "[(''customerId'', JStr ''c1''), (''items'', JArr [])]"]
      same_fields.atom)

lemma first_post_key: "\<exists>r. ap_keys (snd (first_post st)) = [r]"
proof -
  obtain reply s1 where post: "post_orders (create_order sample_geocode (sample_charge st) (\<lambda>_ _. 0) (\<lambda>_ _. 0)
      sample_saga_env) sample_idem (Some ''a-key'') sample_dto ''/orders'' sample_api = (reply, s1)" by fastforce
  obtain res w' where run: "create_order sample_geocode (sample_charge st) (\<lambda>_ _. 0) (\<lambda>_ _. 0) sample_saga_env
      (command_of_dto sample_dto ''a-key'') (ap_world sample_api) = (res, w')" by fastforce
  have "answer_recorded (w_db w') res"
    using create_order_records[OF _ sample_saga_polite _ sample_ports_calm run] opening_shop_ok opening_shop_fresh
    by (simp add: answer_recorded_def sample_api_def)
  from post_orders_new(4)[OF _ _ _ _ _ run this post] obtain r where "ap_keys s1 = ap_keys sample_api @ [r]"
    by (auto simp: sample_idem_def sample_api_def row_of_key_def)
  moreover have "ap_keys sample_api = []" by (simp add: sample_api_def)
  moreover have "first_post st = (reply, s1)" by (simp only: first_post_def post)
  ultimately show ?thesis by simp
qed

theorem retried_request_is_replayed_witness:
  "post_orders (create_order sample_geocode (sample_charge PS_CAPTURED) (\<lambda>_ _. 0) (\<lambda>_ _. 0) sample_saga_env)
     (sample_idem\<lparr>id_now := 1000\<rparr>) (Some ''a-key'') swapped_dto ''/orders'' (snd (first_post PS_CAPTURED)) =
   (\<lparr>rp_status = rp_status (fst (first_post PS_CAPTURED)), rp_media_type = ''application/json'',
     rp_body = jsonb_value (rp_body (fst (first_post PS_CAPTURED)))\<rparr>, snd (first_post PS_CAPTURED))"
proof -
  obtain reply s1 where post: "post_orders (create_order sample_geocode (sample_charge PS_CAPTURED) (\<lambda>_ _. 0) (\<lambda>_ _. 0)
      (id_saga sample_idem)) sample_idem (Some ''a-key'') sample_dto ''/orders'' sample_api = (reply, s1)" by fastforce
  then have first: "first_post PS_CAPTURED = (reply, s1)" by (simp add: first_post_def sample_idem_def)
  obtain r where r: "ap_keys s1 = [r]" using first_post_key[of PS_CAPTURED] first by auto
  show ?thesis
    unfolding first fst_conv snd_conv
    by (rule retried_request_is_replayed[OF _ _ _ _ _ _ _ _ _ post])
      (use opening_shop_ok sample_saga_polite opening_shop_fresh sample_ports_calm sample_same_fields in
        \<open>simp_all add: sample_api_def sample_idem_def same_functions_def row_of_key_def r keys_distinct_def inj_on_def\<close>)
qed

subsection \<open>What a known key answers\<close>

text \<open>
  C25. Every answer to a request whose key is already in the table, and to one without a usable key.
  The request is told apart by the state of the row and by the fingerprint of its body: 422 for
  another body, 409 while the first request runs, the recorded answer once it is completed. A row
  past its twenty-four hours blocks the insert and is not read any more, so its key answers an
  internal error until it is removed. In no case does anything change, and an invalid body is told
  apart before the row's state is looked at.
\<close>

theorem known_key_answers:
  assumes "keys_distinct (ap_keys s)"
    and "\<forall>key. header = Some key \<longrightarrow> row_of_key key (ap_keys s) = Some r"
  shows "snd (post_orders saga env header dto url s) = s \<and>
    rp_status (fst (post_orders saga env header dto url s)) =
      (if header = None \<or> header = Some [] \<or> \<not> id_is_uuid env (the header) then 400
       else if key_expires_at r \<le> id_now env then 500
       else if key_fingerprint r \<noteq> compute_request_fingerprint env (dto_json dto) then 422
       else if key_state r = IN_PROGRESS then 409
       else (case key_status r of None \<Rightarrow> 200 | Some st \<Rightarrow> st))"
proof (cases "header = None \<or> header = Some [] \<or> \<not> id_is_uuid env (the header)")
  case True
  then show ?thesis
    by (cases header) (auto simp: post_orders_def execute_idempotent_def bindE_def assert_valid_idempotency_key_def
        catch_exception_def Let_def)
next
  case False
  then obtain key where key: "header = Some key" "key \<noteq> []" "id_is_uuid env key" by (cases header) auto
  with post_orders_existing[OF key(2,3) assms(1)] assms(2) False show ?thesis
    by (simp add: catch_exception_def Let_def plain_problem_def not_less)
qed

definition sample_row :: key_row where
  "sample_row = \<lparr>key_id = ''k1'', key_scope = SCOPE, key_text = ''a-key'',
     key_fingerprint = compute_request_fingerprint sample_idem (dto_json sample_dto), key_state = IN_PROGRESS,
     key_order = None, key_status = None, key_body = None, key_created_at = 0, key_expires_at = 86400000\<rparr>"

theorem known_key_answers_witness:
  "rp_status (fst (post_orders (create_order sample_geocode (sample_charge PS_CAPTURED) (\<lambda>_ _. 0) (\<lambda>_ _. 0)
      sample_saga_env) sample_idem (Some ''a-key'') sample_dto ''/orders'' (sample_api\<lparr>ap_keys := [sample_row]\<rparr>))) = 409 \<and>
   rp_status (fst (post_orders (create_order sample_geocode (sample_charge PS_CAPTURED) (\<lambda>_ _. 0) (\<lambda>_ _. 0)
      sample_saga_env) (sample_idem\<lparr>id_now := 86400000\<rparr>) (Some ''a-key'') sample_dto ''/orders''
      (sample_api\<lparr>ap_keys := [sample_row]\<rparr>))) = 500"
proof -
  have ok: "keys_distinct (ap_keys (sample_api\<lparr>ap_keys := [sample_row]\<rparr>))"
    "\<forall>key. Some ''a-key'' = Some key \<longrightarrow> row_of_key key (ap_keys (sample_api\<lparr>ap_keys := [sample_row]\<rparr>)) = Some sample_row"
    by (simp_all add: keys_distinct_def row_of_key_def sample_row_def)
  let ?saga = "create_order sample_geocode (sample_charge PS_CAPTURED) (\<lambda>_ _. 0) (\<lambda>_ _. 0) sample_saga_env"
  show ?thesis
    using known_key_answers[OF ok, of ?saga sample_idem sample_dto "''/orders''"]
      known_key_answers[OF ok, of ?saga "sample_idem\<lparr>id_now := 86400000\<rparr>" sample_dto "''/orders''"]
    by (simp add: sample_row_def sample_idem_def)
qed

subsection \<open>One run per key\<close>

text \<open>
  C6. The saga runs at most once per key. Under any interleaving of the statements of any number of
  requests on one table, no two requests are told to run with the same key or with the same row; and
  a request that changes anything outside the table (an order, stock, a payment, a call of the
  gateway) was told to run.
\<close>

theorem one_run_per_key:
  assumes "key_step\<^sup>*\<^sup>* ([], []) (ks, started)"
  shows "distinct (map fst started) \<and> distinct (map snd started) \<and>
    (ap_world (snd (post_orders saga env header dto url s)) \<noteq> ap_world s \<longrightarrow>
      (\<exists>key i. header = Some key \<and> fst (begin_step env key (dto_json dto) s) = Inr (NewRequest i)))"
proof -
  have "started_ok b" if "key_step\<^sup>*\<^sup>* ([], []) b" for b
    using that by (induction rule: rtranclp_induct) (auto intro: key_step_ok)
  from this[OF assms] have "distinct (map fst started)" "distinct (map snd started)" by simp_all
  moreover have "\<exists>key i. header = Some key \<and> fst (begin_step env key (dto_json dto) s) = Inr (NewRequest i)"
    if "ap_world (snd (post_orders saga env header dto url s)) \<noteq> ap_world s"
  proof (rule ccontr)
    assume no: "\<nexists>key i. header = Some key \<and> fst (begin_step env key (dto_json dto) s) = Inr (NewRequest i)"
    have "ap_world (snd (execute_idempotent saga env header dto url s)) = ap_world s"
    proof (cases "assert_valid_idempotency_key env header")
      case (Inl e)
      then show ?thesis by (simp add: execute_idempotent_def bindE_def)
    next
      case (Inr key)
      then have header: "header = Some key"
        by (auto simp: assert_valid_idempotency_key_def split: option.splits if_splits)
      obtain r s1 where b: "begin_step env key (dto_json dto) s = (r, s1)" by fastforce
      then have "ap_world s1 = ap_world s" by (auto simp: begin_step_def split: prod.splits)
      with no b header Inr show ?thesis
        by (cases r) (auto simp: execute_idempotent_def bindE_def returnE_def split: begun.splits)
    qed
    with that show False by (auto simp: post_orders_def split: prod.splits sum.splits)
  qed
  ultimately show ?thesis by blast
qed

theorem one_run_per_key_witness:
  "\<exists>ks. key_step\<^sup>*\<^sup>* ([], []) (ks, [(''a-key'', ''k1'')]) \<and> distinct (map fst [(''a-key'', ''k1'')])"
proof -
  obtain r where "begin_idempotent_request sample_idem ''a-key'' ''f'' [] = (Inr (NewRequest ''k1''), [r])"
    using begin_new[of "''a-key''" "[]" sample_idem "''f''"] by (auto simp: row_of_key_def sample_idem_def)
  then have "key_step ([], []) ([r], [] @ [(''a-key'', ''k1'')])" by (rule key_step.begins)
  then have step: "key_step\<^sup>*\<^sup>* ([], []) ([r], [(''a-key'', ''k1'')])" by simp
  from one_run_per_key[OF this] step show ?thesis by blast
qed

end
