(* ===== verification/Create_Order_Dto.thy ===== *)
theory Create_Order_Dto
  imports Replay
begin

section \<open>The body of POST /orders\<close>

text \<open>
  \<^verbatim>\<open>infrastructure/http/dto/create-order.dto.ts\<close> under the global validation pipe of \<^verbatim>\<open>main.ts\<close> (unknown
  properties are refused). A body is the JSON value \<open>JSON.parse\<close> returns, so an object has no name
  twice. The shape test of a UUID and the verdict of \<open>ValidateNested\<close> on a value that is no object are
  class-validator's and arguments here.
\<close>

record validator =
  va_uuid :: "string \<Rightarrow> bool" \<comment> \<open>\<open>isUUID(text, 'loose')\<close>\<close>
  va_nested :: "json option \<Rightarrow> bool"

type_synonym fields_of = "(string \<times> json) list"

fun is_text :: "json option \<Rightarrow> bool" where
  "is_text (Some (JStr t)) = True"
| "is_text _ = False"

definition optional_text :: "json option \<Rightarrow> bool" where
  "optional_text x \<longleftrightarrow> x = None \<or> x = Some JNull \<or> is_text x"

definition only :: "fields_of \<Rightarrow> string list \<Rightarrow> bool" where
  "only kvs names \<longleftrightarrow> fst ` set kvs \<subseteq> set names"

definition nested :: "validator \<Rightarrow> (fields_of \<Rightarrow> bool) \<Rightarrow> json option \<Rightarrow> bool" where
  "nested v check x = (case x of Some (JObj kvs) \<Rightarrow> check kvs | _ \<Rightarrow> va_nested v x)"

definition uuid_text :: "validator \<Rightarrow> json option \<Rightarrow> bool" where
  "uuid_text v x = (case x of Some (JStr t) \<Rightarrow> va_uuid v t | _ \<Rightarrow> False)"

subsection \<open>The classes\<close>

definition SUPPORTED_COUNTRY :: string where "SUPPORTED_COUNTRY = ''US''"

definition card_number_shape :: "string \<Rightarrow> bool" where
  "card_number_shape t \<longleftrightarrow> list_all is_digit t \<and> 13 \<le> length t \<and> length t \<le> 19"

definition shipping_address_dto :: "fields_of \<Rightarrow> bool" where
  "shipping_address_dto kvs \<longleftrightarrow>
     only kvs [''recipient'', ''line1'', ''line2'', ''city'', ''state'', ''postalCode'', ''country''] \<and>
     is_text (map_of kvs ''recipient'') \<and> is_text (map_of kvs ''line1'') \<and> optional_text (map_of kvs ''line2'') \<and>
     is_text (map_of kvs ''city'') \<and> optional_text (map_of kvs ''state'') \<and> optional_text (map_of kvs ''postalCode'') \<and>
     map_of kvs ''country'' = Some (JStr SUPPORTED_COUNTRY)"

definition order_line_dto :: "validator \<Rightarrow> fields_of \<Rightarrow> bool" where
  "order_line_dto v kvs \<longleftrightarrow> only kvs [''productId'', ''quantity''] \<and> uuid_text v (map_of kvs ''productId'') \<and>
     (case map_of kvs ''quantity'' of Some (JNum n) \<Rightarrow> is_integer n \<and> \<not> js_less n (js_int 1) | _ \<Rightarrow> False)"

definition payment_dto :: "fields_of \<Rightarrow> bool" where
  "payment_dto kvs \<longleftrightarrow> only kvs [''cardNumber''] \<and>
     (case map_of kvs ''cardNumber'' of Some (JStr t) \<Rightarrow> card_number_shape t | _ \<Rightarrow> False)"

text \<open>The custom constraint: a \<open>Set\<close> of the ids has as many members as the list.\<close>

definition product_id_of :: "json \<Rightarrow> json option" where
  "product_id_of x = (case x of JObj kvs \<Rightarrow> map_of kvs ''productId'' | _ \<Rightarrow> None)"

definition unique_product_ids :: "json list \<Rightarrow> bool" where
  "unique_product_ids xs \<longleftrightarrow> length (remdups (map product_id_of xs)) = length xs"

definition create_order_body :: "validator \<Rightarrow> fields_of \<Rightarrow> bool" where
  "create_order_body v kvs \<longleftrightarrow> only kvs [''customerId'', ''shippingAddress'', ''items'', ''payment''] \<and>
     uuid_text v (map_of kvs ''customerId'') \<and> nested v shipping_address_dto (map_of kvs ''shippingAddress'') \<and>
     (case map_of kvs ''items'' of
        Some (JArr xs) \<Rightarrow> xs \<noteq> [] \<and> list_all (\<lambda>x. nested v (order_line_dto v) (Some x)) xs \<and> unique_product_ids xs
      | _ \<Rightarrow> False) \<and>
     nested v payment_dto (map_of kvs ''payment'')"

subsection \<open>The typed body\<close>

definition text_field :: "fields_of \<Rightarrow> string \<Rightarrow> string option" where
  "text_field kvs name = (case map_of kvs name of Some (JStr t) \<Rightarrow> Some t | _ \<Rightarrow> None)"

definition address_of_fields :: "fields_of \<Rightarrow> address" where
  "address_of_fields kvs = \<lparr>recipient = text_field kvs ''recipient'', line1 = text_field kvs ''line1'',
     line2 = text_field kvs ''line2'', city = text_field kvs ''city'', state = text_field kvs ''state'',
     postal_code = text_field kvs ''postalCode'', country = text_field kvs ''country''\<rparr>"

fun line_of_json :: "json \<Rightarrow> order_line option" where
  "line_of_json (JObj kvs) = (case (map_of kvs ''productId'', map_of kvs ''quantity'') of
     (Some (JStr p), Some (JNum n)) \<Rightarrow> Some \<lparr>line_product = p, line_quantity = js_to_int n\<rparr>
   | _ \<Rightarrow> None)"
| "line_of_json _ = None"

fun lines_of_json :: "json list \<Rightarrow> order_line list option" where
  "lines_of_json [] = Some []"
| "lines_of_json (x # xs) = (case (line_of_json x, lines_of_json xs) of
     (Some l, Some ls) \<Rightarrow> Some (l # ls) | _ \<Rightarrow> None)"

text \<open>A body whose nested values are objects, as the class declares them.\<close>

definition dto_of_fields :: "fields_of \<Rightarrow> create_order_dto option" where
  "dto_of_fields kvs =
    (case (text_field kvs ''customerId'', map_of kvs ''shippingAddress'', map_of kvs ''items'', map_of kvs ''payment'') of
       (Some c, Some (JObj a), Some (JArr xs), Some (JObj p)) \<Rightarrow>
         (case (lines_of_json xs, text_field p ''cardNumber'') of
            (Some ls, Some n) \<Rightarrow> Some \<lparr>dto_json = JObj kvs, dto_customer = c, dto_address = address_of_fields a,
              dto_items = ls, dto_card_number = n\<rparr>
          | _ \<Rightarrow> None)
     | _ \<Rightarrow> None)"

fun is_object :: "json option \<Rightarrow> bool" where
  "is_object (Some (JObj kvs)) = True"
| "is_object _ = False"

definition nested_objects :: "fields_of \<Rightarrow> bool" where
  "nested_objects kvs \<longleftrightarrow> is_object (map_of kvs ''shippingAddress'') \<and> is_object (map_of kvs ''payment'') \<and>
     (\<forall>xs. map_of kvs ''items'' = Some (JArr xs) \<longrightarrow> list_all (\<lambda>x. is_object (Some x)) xs)"

subsection \<open>An accepted body is well typed\<close>

lemma line_of_valid:
  assumes "order_line_dto v kvs"
  shows "\<exists>l. line_of_json (JObj kvs) = Some l \<and> va_uuid v (line_product l) \<and> 0 < line_quantity l \<and>
    product_id_of (JObj kvs) = Some (JStr (line_product l))"
proof -
  from assms obtain p n where pn: "map_of kvs ''productId'' = Some (JStr p)" "va_uuid v p"
    "map_of kvs ''quantity'' = Some (JNum n)" "is_integer n" "\<not> js_less n (js_int 1)"
    by (auto simp: order_line_dto_def uuid_text_def split: option.splits json.splits)
  then obtain q where "n = Num q" "of_int \<lfloor>q\<rfloor> = q" by (cases n) auto
  with pn show ?thesis by (auto simp: product_id_of_def js_int_def not_less)
qed

lemma lines_of_valid:
  assumes "list_all (\<lambda>x. nested v (order_line_dto v) (Some x)) xs" and "list_all (\<lambda>x. is_object (Some x)) xs"
  shows "\<exists>ls. lines_of_json xs = Some ls \<and> (\<forall>l \<in> set ls. va_uuid v (line_product l) \<and> 0 < line_quantity l) \<and>
    map product_id_of xs = map (\<lambda>l. Some (JStr (line_product l))) ls"
  using assms
proof (induction xs)
  case Nil
  then show ?case by simp
next
  case (Cons x xs)
  then obtain kvs where "x = JObj kvs" "order_line_dto v kvs" by (cases x) (auto simp: nested_def)
  with Cons line_of_valid[of v kvs] show ?case by auto
qed


definition sample_body :: fields_of where
  "sample_body = [(''customerId'', JStr ''c1''),
     (''shippingAddress'', JObj [(''recipient'', JStr ''Ada''), (''line1'', JStr ''1 Main St''), (''city'', JStr ''Austin''),
       (''country'', JStr ''US'')]),
     (''items'', JArr [JObj [(''productId'', JStr ''pa''), (''quantity'', JNum (js_int 2))]]),
     (''payment'', JObj [(''cardNumber'', JStr ''4242424242424242'')])]"


end
