(* ===== verification/Node_Text.thy ===== *)
theory Node_Text
  imports Prelude
begin

section \<open>Buffers of text\<close>

text \<open>
  \<open>Buffer.from(text).toString('base64')\<close> and \<open>Buffer.from(text, 'base64').toString('utf8')\<close> of the
  standard library, which the paging cursor goes through. A text is the list of its UTF-8 bytes here,
  so \<open>Buffer.from(text)\<close> is the text itself; \<open>utf8_repair\<close> is what decoding puts for ill-formed bytes.
\<close>

subsection \<open>Base64\<close>

definition b64_digit :: "nat \<Rightarrow> char" where
  "b64_digit n = char_of (if n < 26 then n + 65 else if n < 52 then n + 71 else if n < 62 then n - 4
     else if n = 62 then 43 else (47 :: nat))"

text \<open>Both alphabets are read; any other character is skipped.\<close>

definition b64_value :: "char \<Rightarrow> nat option" where
  "b64_value c = (let n = of_char c in
     if 65 \<le> n \<and> n \<le> 90 then Some (n - 65) else if 97 \<le> n \<and> n \<le> 122 then Some (n - 71)
     else if 48 \<le> n \<and> n \<le> 57 then Some (n + 4) else if n = 43 \<or> n = 45 then Some 62
     else if n = 47 \<or> n = 95 then Some 63 else None)"

definition b64_pad :: char where "b64_pad = CHR ''=''"

fun b64_of_bytes :: "nat list \<Rightarrow> string" where
  "b64_of_bytes [] = []"
| "b64_of_bytes [a] = [b64_digit (a div 4), b64_digit (a mod 4 * 16), b64_pad, b64_pad]"
| "b64_of_bytes [a, b] = [b64_digit (a div 4), b64_digit (a mod 4 * 16 + b div 16), b64_digit (b mod 16 * 4), b64_pad]"
| "b64_of_bytes (a # b # c # r) = b64_digit (a div 4) # b64_digit (a mod 4 * 16 + b div 16) #
     b64_digit (b mod 16 * 4 + c div 64) # b64_digit (c mod 64) # b64_of_bytes r"

fun bytes_of_sextets :: "nat list \<Rightarrow> nat list" where
  "bytes_of_sextets (a # b # c # e # r) =
     (a * 4 + b div 16) # (b mod 16 * 16 + c div 4) # (c mod 4 * 64 + e) # bytes_of_sextets r"
| "bytes_of_sextets [a, b, c] = [a * 4 + b div 16, b mod 16 * 16 + c div 4]"
| "bytes_of_sextets [a, b] = [a * 4 + b div 16]"
| "bytes_of_sextets _ = []"

definition base64_encode :: "string \<Rightarrow> string" where
  "base64_encode s = b64_of_bytes (map of_char s)"

definition base64_decode :: "string \<Rightarrow> string" where
  "base64_decode s = map char_of (bytes_of_sextets (List.map_filter b64_value (takeWhile (\<lambda>c. c \<noteq> b64_pad) s)))"

lemma b64_digit_value [simp]: "n < 64 \<Longrightarrow> b64_value (b64_digit n) = Some n"
  by (auto simp: b64_value_def b64_digit_def Let_def)

lemma b64_digit_not_pad [simp]: "n < 64 \<Longrightarrow> b64_digit n \<noteq> b64_pad"
  using b64_digit_value[of n] by (auto simp: b64_pad_def b64_value_def)

text \<open>Cutting a number in two and joining it again.\<close>

lemma join_cut:
  fixes x y k m :: nat
  assumes "x < k" and "0 < k"
  shows "(y * k + x) div k = y" and "(y * k + x) mod k = x"
  using assms by simp_all

lemma byte_joins:
  fixes a b c :: nat
  assumes "a < 256" and "b < 256" and "c < 256"
  shows "a div 4 * 4 + (a mod 4 * 16 + b div 16) div 16 = a"
    and "(a mod 4 * 16 + b div 16) mod 16 * 16 + (b mod 16 * 4 + c div 64) div 4 = b"
    and "(b mod 16 * 4 + c div 64) mod 4 * 64 + c mod 64 = c"
    and "a div 4 * 4 + a mod 4 * 16 div 16 = a"
    and "(a mod 4 * 16 + b div 16) mod 16 * 16 + b mod 16 * 4 div 4 = b"
proof -
  have "b div 16 < 16" "c div 64 < 4" using assms by auto
  then show "a div 4 * 4 + (a mod 4 * 16 + b div 16) div 16 = a"
    "(a mod 4 * 16 + b div 16) mod 16 * 16 + (b mod 16 * 4 + c div 64) div 4 = b"
    "(b mod 16 * 4 + c div 64) mod 4 * 64 + c mod 64 = c"
    "a div 4 * 4 + a mod 4 * 16 div 16 = a"
    "(a mod 4 * 16 + b div 16) mod 16 * 16 + b mod 16 * 4 div 4 = b"
    by (simp_all only: join_cut zero_less_numeral div_mult_mod_eq nonzero_mult_div_cancel_right zero_neq_numeral
        not_False_eq_True simp_thms)
qed

lemma byte_parts:
  fixes a b c :: nat
  assumes "a < 256" and "b < 256" and "c < 256"
  shows "a div 4 < 64" and "a mod 4 * 16 < 64" and "a mod 4 * 16 + b div 16 < 64" and "b mod 16 * 4 < 64"
    and "b mod 16 * 4 + c div 64 < 64" and "c mod 64 < 64"
  using assms by auto

lemma sextets_of_bytes:
  "\<forall>b \<in> set bs. b < 256 \<Longrightarrow>
     bytes_of_sextets (List.map_filter b64_value (takeWhile (\<lambda>c. c \<noteq> b64_pad) (b64_of_bytes bs))) = bs"
proof (induction bs rule: b64_of_bytes.induct)
  case 1
  then show ?case by (simp add: map_filter_simps)
next
  case (2 a)
  then have "a < 256" by simp
  with byte_parts[of a a a] byte_joins[of a a a] show ?case by (simp add: map_filter_simps)
next
  case (3 a b)
  then have "a < 256" "b < 256" by simp_all
  with byte_parts[of a b b] byte_joins[of a b b] show ?case by (simp add: map_filter_simps)
next
  case (4 a b c r)
  then have "a < 256" "b < 256" "c < 256" by simp_all
  with byte_parts[of a b c] byte_joins[of a b c] 4 show ?case by (simp add: map_filter_simps)
qed

lemma base64_roundtrip: "base64_decode (base64_encode s) = s"
proof -
  have "bytes_of_sextets (List.map_filter b64_value (takeWhile (\<lambda>c. c \<noteq> b64_pad)
      (b64_of_bytes (map of_char s)))) = map of_char s"
    by (intro sextets_of_bytes) auto
  then show ?thesis by (simp add: base64_encode_def base64_decode_def comp_def)
qed

subsection \<open>UTF-8\<close>

text \<open>The bytes of U+FFFD, and the length and the bounds of the second byte a lead byte asks for.\<close>

definition replacement :: string where
  "replacement = map char_of [239, 191, 189 :: nat]"

definition lead_byte :: "nat \<Rightarrow> (nat \<times> nat \<times> nat) option" where
  "lead_byte b = (if 194 \<le> b \<and> b \<le> 223 then Some (1, 128, 191)
     else if b = 224 then Some (2, 160, 191) else if b = 237 then Some (2, 128, 159)
     else if 225 \<le> b \<and> b \<le> 239 then Some (2, 128, 191)
     else if b = 240 then Some (3, 144, 191) else if b = 244 then Some (3, 128, 143)
     else if 241 \<le> b \<and> b \<le> 243 then Some (3, 128, 191) else None)"

text \<open>
  \<open>utf8_repair pending n lo hi s\<close>: \<open>pending\<close> is an unfinished sequence that needs \<open>n\<close> more bytes, the next
  one between \<open>lo\<close> and \<open>hi\<close>. An unfinished sequence becomes one U+FFFD, and the byte that broke it is
  read afresh.
\<close>

fun utf8_from :: "string \<Rightarrow> nat \<Rightarrow> nat \<Rightarrow> nat \<Rightarrow> string \<Rightarrow> string" where
  "utf8_from pending n lo hi [] = (if n = 0 then [] else replacement)"
| "utf8_from pending n lo hi (c # s) =
    (let b = of_char c in
     if 0 < n \<and> lo \<le> b \<and> b \<le> hi then
       (if n = 1 then pending @ c # utf8_from [] 0 0 0 s else utf8_from (pending @ [c]) (n - 1) 128 191 s)
     else (if 0 < n then replacement else []) @
       (if b < 128 then c # utf8_from [] 0 0 0 s
        else case lead_byte b of None \<Rightarrow> replacement @ utf8_from [] 0 0 0 s
          | Some (m, lo, hi) \<Rightarrow> utf8_from [c] m lo hi s))"

definition utf8_repair :: "string \<Rightarrow> string" where
  "utf8_repair s = utf8_from [] 0 0 0 s"

definition is_ascii :: "string \<Rightarrow> bool" where
  "is_ascii s \<longleftrightarrow> (\<forall>c \<in> set s. (of_char c :: nat) < 128)"

lemma utf8_repair_ascii: "is_ascii s \<Longrightarrow> utf8_repair s = s"
proof -
  have "\<forall>c \<in> set s. (of_char c :: nat) < 128 \<Longrightarrow> utf8_from pending 0 lo hi s = s" for pending lo hi
    by (induction s arbitrary: pending lo hi) (simp_all add: Let_def)
  then show "is_ascii s \<Longrightarrow> utf8_repair s = s" by (simp add: utf8_repair_def is_ascii_def)
qed

subsection \<open>Splitting\<close>

text \<open>\<open>String.prototype.split\<close> by one character.\<close>

fun split_at :: "char \<Rightarrow> string \<Rightarrow> string list" where
  "split_at c [] = [[]]"
| "split_at c (x # s) = (if x = c then [] # split_at c s
     else (case split_at c s of [] \<Rightarrow> [[x]] | p # ps \<Rightarrow> (x # p) # ps))"

lemma split_at_none: "c \<notin> set s \<Longrightarrow> split_at c s = [s]"
  by (induction s) auto

lemma split_at_once: "c \<notin> set a \<Longrightarrow> split_at c (a @ c # s) = a # split_at c s"
  by (induction a) auto

end
