(* ===== verification/Orders_Read.thy ===== *)
theory Orders_Read
  imports Order_Views Problem_Details Node_Text Allocation "HOL-Library.Product_Lexorder"
begin

section \<open>Reading orders\<close>

text \<open>
  \<open>GET /orders\<close> and \<open>GET /orders/:id\<close>: \<^verbatim>\<open>http/controllers/orders-read.controller.ts\<close>,
  \<^verbatim>\<open>application/orders/list-orders.service.ts\<close>, \<^verbatim>\<open>get-order.service.ts\<close>, \<^verbatim>\<open>helpers/cursor.helpers.ts\<close>,
  \<^verbatim>\<open>database/repositories/orders-read.repository.ts\<close> and the response DTOs. Every query of a request
  reads its own snapshot \<open>ds k\<close>, because other sessions commit in between. \<open>new Date(text)\<close>, the casts of
  Postgres to \<open>timestamptz\<close> and \<open>uuid\<close>, the shape checks of class-validator with their messages and
  \<open>ST_Distance\<close> are arguments. An item's \<open>created_at\<close>, which no response shows, is left out.
\<close>

record read_env =
  rd_date :: "string \<Rightarrow> timestamp option" \<comment> \<open>\<open>None\<close> is \<open>Invalid Date\<close>\<close>
  rd_timestamptz :: "string \<Rightarrow> timestamp option"
  rd_uuid :: "string \<Rightarrow> uuid option"
  rd_uuid_shape :: "string \<Rightarrow> bool" \<comment> \<open>\<open>isUUID(text, 'loose')\<close>\<close>
  rd_iso_shape :: "string \<Rightarrow> bool" \<comment> \<open>\<open>isISO8601(text)\<close>\<close>
  rd_distance :: distance

subsection \<open>The cursor\<close>

record order_cursor =
  cur_created_at :: string
  cur_id :: string

definition encode_cursor :: "order_cursor \<Rightarrow> string" where
  "encode_cursor c = base64_encode (cur_created_at c @ ''|'' @ cur_id c)"

definition decode_cursor :: "read_env \<Rightarrow> string \<Rightarrow> app_error + order_cursor" where
  "decode_cursor env cursor =
    (let parts = split_at CHR ''|'' (utf8_repair (base64_decode cursor)) in
     if length parts \<noteq> 2 then Inl (InvalidCursorError cursor)
     else if rd_date env (parts ! 0) = None then Inl (InvalidCursorError cursor)
     else Inr \<lparr>cur_created_at = parts ! 0, cur_id = parts ! 1\<rparr>)"

text \<open>
  \<open>to_char(created_at AT TIME ZONE 'UTC', 'YYYY-MM-DD"T"HH24:MI:SS.US"Z"')\<close>. The program stores
  milliseconds, so the last three of the six digits are zero. \<open>to_char\<close> shows a year before 1 as the
  number of years before the era.
\<close>

definition cursor_created_at :: "timestamp \<Rightarrow> string" where
  "cursor_created_at t =
    (let (y, month, day) = civil_of_days (t div ms_per_day); ms = nat (t mod ms_per_day)
     in pad_nat 4 (nat (if y \<le> 0 then 1 - y else y)) @ ''-'' @ pad_nat 2 (nat month) @ ''-'' @ pad_nat 2 (nat day) @
        ''T'' @ pad_nat 2 (ms div 3600000) @ '':'' @ pad_nat 2 (ms div 60000 mod 60) @ '':'' @
        pad_nat 2 (ms div 1000 mod 60) @ ''.'' @ pad_nat 3 (ms mod 1000) @ ''000Z'')"

subsection \<open>The repository\<close>

record page_filters =
  pf_customer :: "string option"
  pf_status :: "order_status option"
  pf_warehouse :: "string option"
  pf_from :: "timestamp option option" \<comment> \<open>absent, \<open>Invalid Date\<close> or a date\<close>
  pf_to :: "timestamp option option"
  pf_cursor :: "order_cursor option"
  pf_page_size :: nat

text \<open>A falsy text is not there.\<close>

definition given :: "string option \<Rightarrow> string option" where
  "given x = (case x of None \<Rightarrow> None | Some t \<Rightarrow> if t = [] then None else Some t)"

definition optional :: "('a \<Rightarrow> 'e + 'b) \<Rightarrow> 'a option \<Rightarrow> 'e + 'b option" where
  "optional f x = (case x of None \<Rightarrow> Inr None | Some a \<Rightarrow> bindR (f a) (\<lambda>b. Inr (Some b)))"

definition uuid_param :: "read_env \<Rightarrow> string \<Rightarrow> app_error + uuid" where
  "uuid_param env t = (case rd_uuid env t of None \<Rightarrow> Inl (QueryFailedError SQL_TEXT_22P02) | Some u \<Rightarrow> Inr u)"

definition date_param :: "timestamp option \<Rightarrow> app_error + timestamp" where
  "date_param x = (case x of None \<Rightarrow> Inl (QueryFailedError SQL_DATETIME_22007) | Some t \<Rightarrow> Inr t)"

definition cursor_param :: "read_env \<Rightarrow> order_cursor \<Rightarrow> app_error + (timestamp \<times> uuid)" where
  "cursor_param env c =
    (case rd_timestamptz env (cur_created_at c) of
       None \<Rightarrow> Inl (QueryFailedError SQL_DATETIME_22007)
     | Some t \<Rightarrow> bindR (uuid_param env (cur_id c)) (\<lambda>i. Inr (t, i)))"

definition all_if :: "'a option \<Rightarrow> ('a \<Rightarrow> bool) \<Rightarrow> bool" where
  "all_if x p = (case x of None \<Rightarrow> True | Some a \<Rightarrow> p a)"

definition where_clause :: "read_env \<Rightarrow> page_filters \<Rightarrow> app_error + (order_row \<Rightarrow> bool)" where
  "where_clause env f =
    bindR (optional (uuid_param env) (given (pf_customer f))) (\<lambda>customer.
    bindR (optional (uuid_param env) (given (pf_warehouse f))) (\<lambda>warehouse.
    bindR (optional date_param (pf_from f)) (\<lambda>from_time.
    bindR (optional date_param (pf_to f)) (\<lambda>to_time.
    Inr (\<lambda>r. all_if customer (\<lambda>c. row_customer r = c) \<and> all_if (pf_status f) (\<lambda>s. row_status r = s) \<and>
      all_if warehouse (\<lambda>w. row_warehouse r = Some w) \<and> all_if from_time (\<lambda>t. t \<le> row_created_at r) \<and>
      all_if to_time (\<lambda>t. row_created_at r \<le> t))))))"

definition page_key :: "order_row \<Rightarrow> timestamp \<times> uuid" where
  "page_key r = (row_created_at r, row_id r)"

definition page_rows :: "(order_row \<Rightarrow> bool) \<Rightarrow> (timestamp \<times> uuid) option \<Rightarrow> db \<Rightarrow> order_row list" where
  "page_rows match k d =
    rev (sort_key page_key (filter (\<lambda>r. match r \<and> all_if k (\<lambda>k. page_key r < k)) (orders d)))"

definition find_page :: "read_env \<Rightarrow> page_filters \<Rightarrow> db \<Rightarrow> app_error + order_row list" where
  "find_page env f d =
    bindR (where_clause env f) (\<lambda>match.
    bindR (optional (cursor_param env) (pf_cursor f)) (\<lambda>k.
    Inr (take (pf_page_size f + 1) (page_rows match k d))))"

definition find_items_by_order_ids :: "read_env \<Rightarrow> string list \<Rightarrow> db \<Rightarrow> app_error + order_item_row list" where
  "find_items_by_order_ids env ids d =
    bindR (mapR (uuid_param env) ids) (\<lambda>us. Inr (filter (\<lambda>i. ir_order i \<in> set us) (order_items d)))"

record order_detail_row =
  dr_order :: order_row
  dr_warehouse_name :: "string option"
  dr_distance :: "rat option"

definition find_order_by_id :: "read_env \<Rightarrow> string \<Rightarrow> db \<Rightarrow> app_error + order_detail_row option" where
  "find_order_by_id env i d =
    bindR (uuid_param env i) (\<lambda>u. Inr (map_option (\<lambda>r.
      (let w = (case row_warehouse r of None \<Rightarrow> None | Some w \<Rightarrow> find (\<lambda>x. wh_id x = w) (warehouses d)) in
       \<lparr>dr_order = r, dr_warehouse_name = map_option wh_name w,
        dr_distance = map_option (\<lambda>x. rd_distance env (wh_location x)
          \<lparr>latitude = snd (row_location r), longitude = fst (row_location r)\<rparr>) w\<rparr>)) (find_order d u)))"

definition find_payments_by_order_id :: "read_env \<Rightarrow> string \<Rightarrow> db \<Rightarrow> app_error + payment_row list" where
  "find_payments_by_order_id env i d =
    bindR (uuid_param env i) (\<lambda>u. Inr (sort_key pay_attempt (filter (\<lambda>p. pay_order p = u) (payments d))))"

definition find_shipment_by_order_id :: "read_env \<Rightarrow> string \<Rightarrow> db \<Rightarrow> app_error + shipment_row option" where
  "find_shipment_by_order_id env i d =
    bindR (uuid_param env i) (\<lambda>u. Inr (find (\<lambda>s. shp_order s = u) (shipments d)))"

subsection \<open>The services\<close>

definition DEFAULT_PAGE_SIZE :: nat where "DEFAULT_PAGE_SIZE = 20"

record list_params =
  lp_customer :: "string option"
  lp_status :: "order_status option"
  lp_warehouse :: "string option"
  lp_from :: "string option"
  lp_to :: "string option"
  lp_cursor :: "string option"
  lp_page_size :: "nat option"

record list_result =
  lr_orders :: "(order_row \<times> order_item_row list) list"
  lr_has_more :: bool
  lr_next_cursor :: "string option"

definition decode_cursor_or_throw :: "read_env \<Rightarrow> string \<Rightarrow> app_error + order_cursor" where
  "decode_cursor_or_throw env c = (case decode_cursor env c of
     Inl (InvalidCursorError x) \<Rightarrow> Inl (BadRequestException (MsgText (''Invalid cursor: '' @ c)))
   | r \<Rightarrow> r)"

definition page_size :: "list_params \<Rightarrow> nat" where
  "page_size p = (case lp_page_size p of None \<Rightarrow> DEFAULT_PAGE_SIZE | Some n \<Rightarrow> n)"

definition filters_of :: "read_env \<Rightarrow> list_params \<Rightarrow> order_cursor option \<Rightarrow> page_filters" where
  "filters_of env p c = \<lparr>pf_customer = lp_customer p, pf_status = lp_status p, pf_warehouse = lp_warehouse p,
     pf_from = map_option (rd_date env) (given (lp_from p)), pf_to = map_option (rd_date env) (given (lp_to p)),
     pf_cursor = c, pf_page_size = page_size p\<rparr>"

definition items_by_order :: "order_item_row list \<Rightarrow> uuid \<Rightarrow> order_item_row list option" where
  "items_by_order is = foldl (\<lambda>m i. m(ir_order i \<mapsto>
     (case m (ir_order i) of None \<Rightarrow> [i] | Some xs \<Rightarrow> xs @ [i]))) Map.empty is"

definition list_orders :: "read_env \<Rightarrow> (nat \<Rightarrow> db) \<Rightarrow> list_params \<Rightarrow> app_error + list_result" where
  "list_orders env ds p =
    bindR (optional (decode_cursor_or_throw env) (given (lp_cursor p))) (\<lambda>c.
    bindR (find_page env (filters_of env p c) (ds 0)) (\<lambda>rows.
    let has_more = page_size p < length rows; page = (if has_more then take (page_size p) rows else rows) in
    bindR (find_items_by_order_ids env (map row_id page) (ds 1)) (\<lambda>items.
    Inr \<lparr>lr_orders = map (\<lambda>r. (r, case items_by_order items (row_id r) of None \<Rightarrow> [] | Some xs \<Rightarrow> xs)) page,
         lr_has_more = has_more,
         lr_next_cursor = (if has_more \<and> page \<noteq> [] then Some (encode_cursor
           \<lparr>cur_created_at = cursor_created_at (row_created_at (last page)), cur_id = row_id (last page)\<rparr>)
           else None)\<rparr>)))"

record order_detail =
  od_order :: order_detail_row
  od_items :: "order_item_row list"
  od_payments :: "payment_row list"
  od_shipment :: "shipment_row option"

definition get_order :: "read_env \<Rightarrow> (nat \<Rightarrow> db) \<Rightarrow> string \<Rightarrow> app_error + order_detail" where
  "get_order env ds i =
    (if \<not> rd_uuid_shape env i then Inl (OrderNotFoundError i)
     else bindR (find_order_by_id env i (ds 0)) (\<lambda>found.
       bindR (find_items_by_order_ids env [i] (ds 1)) (\<lambda>items.
       bindR (find_payments_by_order_id env i (ds 2)) (\<lambda>pays.
       bindR (find_shipment_by_order_id env i (ds 3)) (\<lambda>shipment.
       case found of None \<Rightarrow> Inl (OrderNotFoundError i)
       | Some o1 \<Rightarrow> Inr \<lparr>od_order = o1, od_items = items, od_payments = pays, od_shipment = shipment\<rparr>)))))"

subsection \<open>Responses\<close>

text \<open>A \<open>bigint\<close> arrives as text and goes through \<open>Number\<close>.\<close>

definition number_of_bigint :: "int \<Rightarrow> int" where
  "number_of_bigint c = js_to_int (js_of_int c)"

definition json_text_option :: "string option \<Rightarrow> json" where
  "json_text_option x = (case x of None \<Rightarrow> JNull | Some t \<Rightarrow> JStr t)"

definition json_date_option :: "timestamp option \<Rightarrow> json" where
  "json_date_option x = (case x of None \<Rightarrow> JNull | Some t \<Rightarrow> JStr (iso_string t))"

definition item_view :: "order_item_row \<Rightarrow> json" where
  "item_view i = order_response_item (ir_product i) (ir_sku i) (ir_name i) (ir_quantity i)
     (number_of_bigint (ir_unit_price_cents i))"

definition to_order_list_item :: "order_row \<Rightarrow> order_item_row list \<Rightarrow> json" where
  "to_order_list_item r items = JObj
    [(''id'', JStr (row_id r)), (''orderNumber'', JStr (row_number r)), (''customerId'', JStr (row_customer r)),
     (''status'', JStr (order_status_text (row_status r))), (''warehouseId'', json_text_option (row_warehouse r)),
     (''totalCents'', json_int (number_of_bigint (row_total_cents r))),
     (''totalDollars'', JStr (format_cents_as_dollars (number_of_bigint (row_total_cents r)))),
     (''currency'', JStr (row_currency r)), (''createdAt'', JStr (iso_string (row_created_at r))),
     (''items'', JArr (map item_view items))]"

definition to_order_list_response :: "list_result \<Rightarrow> json" where
  "to_order_list_response res = JObj
    [(''items'', JArr (map (\<lambda>(r, items). to_order_list_item r items) (lr_orders res))),
     (''nextCursor'', json_text_option (lr_next_cursor res)), (''hasMore'', JBool (lr_has_more res))]"

fun shipment_status_text :: "shipment_status \<Rightarrow> string" where
  "shipment_status_text PENDING_DISPATCH = ''PENDING_DISPATCH''"
| "shipment_status_text DISPATCHED = ''DISPATCHED''"
| "shipment_status_text IN_TRANSIT = ''IN_TRANSIT''"
| "shipment_status_text DELIVERED = ''DELIVERED''"
| "shipment_status_text SHIPMENT_CANCELLED = ''CANCELLED''"

definition payment_view :: "payment_row \<Rightarrow> json" where
  "payment_view p = JObj
    [(''attempt'', json_int (pay_attempt p)), (''status'', JStr (payment_status_text (pay_status p))),
     (''amountCents'', json_int (number_of_bigint (pay_amount_cents p))),
     (''amountDollars'', JStr (format_cents_as_dollars (number_of_bigint (pay_amount_cents p)))),
     (''currency'', JStr (pay_currency p)),
     (''failureCode'', json_text_option (map_option failure_code_text (pay_failure_code p))),
     (''settledAt'', json_date_option (pay_settled_at p)), (''createdAt'', JStr (iso_string (pay_created_at p)))]"

definition shipment_view :: "shipment_row option \<Rightarrow> json" where
  "shipment_view s = (case s of None \<Rightarrow> JNull | Some s \<Rightarrow> JObj
    [(''status'', JStr (shipment_status_text (shp_status s))), (''carrier'', json_text_option (shp_carrier s)),
     (''trackingNumber'', json_text_option (shp_tracking_number s)),
     (''dispatchedAt'', json_date_option (shp_dispatched_at s)),
     (''deliveredAt'', json_date_option (shp_delivered_at s))])"

definition warehouse_view :: "order_detail_row \<Rightarrow> json" where
  "warehouse_view o1 = (case (given (row_warehouse (dr_order o1)), given (dr_warehouse_name o1)) of
     (Some i, Some n) \<Rightarrow> JObj [(''id'', JStr i), (''name'', JStr n),
       (''distance'', format_distance (case dr_distance o1 of None \<Rightarrow> 0 | Some m \<Rightarrow> m))]
   | _ \<Rightarrow> JNull)"

definition to_order_detail_response :: "order_detail \<Rightarrow> json" where
  "to_order_detail_response res = (let r = dr_order (od_order res) in JObj
    [(''id'', JStr (row_id r)), (''orderNumber'', JStr (row_number r)), (''customerId'', JStr (row_customer r)),
     (''status'', JStr (order_status_text (row_status r))), (''warehouse'', warehouse_view (od_order res)),
     (''items'', JArr (map item_view (od_items res))), (''payments'', JArr (map payment_view (od_payments res))),
     (''shipment'', shipment_view (od_shipment res)),
     (''totalCents'', json_int (number_of_bigint (row_total_cents r))),
     (''totalDollars'', JStr (format_cents_as_dollars (number_of_bigint (row_total_cents r)))),
     (''currency'', JStr (row_currency r)), (''createdAt'', JStr (iso_string (row_created_at r)))])"

subsection \<open>The controller\<close>

text \<open>
  The query as the validation pipe finds it: texts, and the page size as \<open>Number\<close> reads it. The
  messages of a refused query are class-validator's.
\<close>

record list_query =
  q_customer :: "string option"
  q_status :: "string option"
  q_warehouse :: "string option"
  q_from :: "string option"
  q_to :: "string option"
  q_cursor :: "string option"
  q_page_size :: "js_num option"

definition order_statuses :: "order_status list" where
  "order_statuses = [PENDING_PAYMENT, PAID, CONFIRMED, PAYMENT_FAILED, CANCELLED]"

definition list_query_ok :: "read_env \<Rightarrow> list_query \<Rightarrow> bool" where
  "list_query_ok env q \<longleftrightarrow> all_if (q_customer q) (rd_uuid_shape env) \<and>
     all_if (q_status q) (\<lambda>t. t \<in> order_status_text ` set order_statuses) \<and>
     all_if (q_warehouse q) (rd_uuid_shape env) \<and> all_if (q_from q) (rd_iso_shape env) \<and>
     all_if (q_to q) (rd_iso_shape env) \<and>
     all_if (q_page_size q) (\<lambda>n. is_integer n \<and> \<not> js_less n (js_int 1) \<and> \<not> js_less (js_int 100) n)"

definition params_of_query :: "list_query \<Rightarrow> list_params" where
  "params_of_query q = \<lparr>lp_customer = q_customer q,
     lp_status = (case q_status q of None \<Rightarrow> None | Some t \<Rightarrow> find (\<lambda>s. order_status_text s = t) order_statuses),
     lp_warehouse = q_warehouse q, lp_from = q_from q, lp_to = q_to q, lp_cursor = q_cursor q,
     lp_page_size = map_option (\<lambda>n. nat (js_to_int n)) (q_page_size q)\<rparr>"

definition json_reply :: "app_error + json \<Rightarrow> string \<Rightarrow> string option \<Rightarrow> http_reply" where
  "json_reply r url correlation = (case r of
     Inr body \<Rightarrow> \<lparr>rp_status = 200, rp_media_type = ''application/json'', rp_body = body\<rparr>
   | Inl e \<Rightarrow> fst (catch_exception e url correlation))"

definition get_orders ::
  "read_env \<Rightarrow> (list_query \<Rightarrow> string list) \<Rightarrow> (nat \<Rightarrow> db) \<Rightarrow> list_query \<Rightarrow> string \<Rightarrow> string option \<Rightarrow> http_reply" where
  "get_orders env messages ds q url correlation = json_reply
     (if list_query_ok env q then bindR (list_orders env ds (params_of_query q)) (\<lambda>r. Inr (to_order_list_response r))
      else Inl (BadRequestException (MsgList (messages q)))) url correlation"

definition get_order_detail ::
  "read_env \<Rightarrow> (nat \<Rightarrow> db) \<Rightarrow> string \<Rightarrow> string \<Rightarrow> string option \<Rightarrow> http_reply" where
  "get_order_detail env ds i url correlation =
     json_reply (bindR (get_order env ds i) (\<lambda>r. Inr (to_order_detail_response r))) url correlation"


subsection \<open>What a client never sees\<close>

definition without_card_data :: "payment_row \<Rightarrow> payment_row" where
  "without_card_data p = p\<lparr>pay_provider := [], pay_provider_payment_id := None, pay_idempotency_key := [],
     pay_card_last4 := None, pay_card_brand := None, pay_raw_response := None\<rparr>"

definition without_private_data :: "db \<Rightarrow> db" where
  "without_private_data d = d\<lparr>payments := map without_card_data (payments d), customers := [], inventory := [],
     movements := [], jobs := []\<rparr>"

lemma sort_key_map: "sort_key f (map h xs) = map h (sort_key (\<lambda>x. f (h x)) xs)"
proof -
  have "insort_key f (h x) (map h ys) = map h (insort_key (\<lambda>x. f (h x)) x ys)" for x ys
    by (induction ys) simp_all
  then show ?thesis by (induction xs) (simp_all add: sort_key_def)
qed

text \<open>
  C29. A response of \<open>GET /orders/:id\<close> depends on no card data, on nothing the provider said and on no
  idempotency key: with the card columns, the provider's identifiers and raw answers of every payment
  blanked, and customers, stock, ledger and queued jobs gone, every request answers the same. An id
  that is no UUID is the 404 of an unknown order, without a query.
\<close>

theorem detail_shows_no_card_data:
  "get_order_detail env (\<lambda>k. without_private_data (ds k)) i url correlation = get_order_detail env ds i url correlation \<and>
   (\<not> rd_uuid_shape env i \<or> (\<exists>u. rd_uuid env i = Some u \<and> \<not> order_exists (ds 0) u) \<longrightarrow>
     get_order_detail env ds i url correlation = fst (catch_exception (OrderNotFoundError i) url correlation) \<and>
     rp_status (get_order_detail env ds i url correlation) = 404)"
proof (intro conjI impI)
  have pays: "find_payments_by_order_id env i (without_private_data d) =
      bindR (find_payments_by_order_id env i d) (\<lambda>ps. Inr (map without_card_data ps))" for d
    by (cases "uuid_param env i") (simp_all add: find_payments_by_order_id_def without_private_data_def
        without_card_data_def sort_key_map filter_map comp_def)
  have same: "warehouses (without_private_data d) = warehouses d" "orders (without_private_data d) = orders d"
    "order_items (without_private_data d) = order_items d" "shipments (without_private_data d) = shipments d" for d
    by (simp_all add: without_private_data_def)
  have others: "find_order_by_id env i (without_private_data d) = find_order_by_id env i d"
    "find_items_by_order_ids env [i] (without_private_data d) = find_items_by_order_ids env [i] d"
    "find_shipment_by_order_id env i (without_private_data d) = find_shipment_by_order_id env i d" for d
    unfolding find_order_by_id_def find_items_by_order_ids_def find_shipment_by_order_id_def find_order_def same
    by (rule refl)+
  have view: "payment_view (without_card_data p) = payment_view p" for p
    by (simp add: payment_view_def without_card_data_def)
  show "get_order_detail env (\<lambda>k. without_private_data (ds k)) i url correlation =
      get_order_detail env ds i url correlation"
    by (cases "find_order_by_id env i (ds 0)"; cases "find_items_by_order_ids env [i] (ds 1)";
        cases "find_payments_by_order_id env i (ds 2)"; cases "find_shipment_by_order_id env i (ds 3)")
      (simp_all add: get_order_detail_def get_order_def pays others to_order_detail_response_def Let_def comp_def view
        split: option.split)
next
  assume none: "\<not> rd_uuid_shape env i \<or> (\<exists>u. rd_uuid env i = Some u \<and> \<not> order_exists (ds 0) u)"
  then have "get_order env ds i = Inl (OrderNotFoundError i)"
    by (auto simp: get_order_def find_order_by_id_def find_items_by_order_ids_def find_payments_by_order_id_def
        find_shipment_by_order_id_def uuid_param_def simp flip: find_order_None)
  then show "get_order_detail env ds i url correlation = fst (catch_exception (OrderNotFoundError i) url correlation)"
    "rp_status (get_order_detail env ds i url correlation) = 404"
    by (simp_all add: get_order_detail_def json_reply_def catch_exception_def Let_def plain_problem_def)
qed

theorem detail_shows_no_card_data_witness:
  "rp_status (get_order_detail \<lparr>rd_date = \<lambda>t. None, rd_timestamptz = \<lambda>t. None, rd_uuid = Some,
     rd_uuid_shape = \<lambda>t. t \<noteq> [], rd_iso_shape = \<lambda>t. True, rd_distance = \<lambda>a b. 0\<rparr> (\<lambda>_. sample_db) ''nobody'' ''/orders/nobody''
     None) = 404"
proof -
  have "\<not> order_exists sample_db ''nobody''" by (simp add: order_exists_def sample_defs)
  with detail_shows_no_card_data[of "\<lparr>rd_date = \<lambda>t. None, rd_timestamptz = \<lambda>t. None, rd_uuid = Some,
     rd_uuid_shape = \<lambda>t. t \<noteq> [], rd_iso_shape = \<lambda>t. True, rd_distance = \<lambda>a b. 0\<rparr>" "\<lambda>_. sample_db" "''nobody''" "''/orders/nobody''" None]
  show ?thesis by (simp only: read_env.simps) blast
qed

end
