(* ===== verification/Paging.thy ===== *)
theory Paging
  imports Orders_Read
begin

section \<open>Walking the pages of orders\<close>

text \<open>
  A client that follows \<open>nextCursor\<close>. The cursor survives its trip through base64, every page is the
  next piece of one descending order by creation time and id, and so the walk meets every matching
  order once.
\<close>

subsection \<open>The cursor comes back as it was\<close>

definition cursor_of :: "order_row \<Rightarrow> order_cursor" where
  "cursor_of r = \<lparr>cur_created_at = cursor_created_at (row_created_at r), cur_id = row_id r\<rparr>"

text \<open>What \<open>Date\<close> and Postgres do with the text of a time and an id that came from the table.\<close>

definition stored_ok :: "read_env \<Rightarrow> order_row \<Rightarrow> bool" where
  "stored_ok env r \<longleftrightarrow> rd_date env (cursor_created_at (row_created_at r)) \<noteq> None \<and>
     rd_timestamptz env (cursor_created_at (row_created_at r)) = Some (row_created_at r) \<and>
     rd_uuid env (row_id r) = Some (row_id r) \<and> is_ascii (row_id r) \<and> CHR ''|'' \<notin> set (row_id r)"

definition plain :: "string \<Rightarrow> bool" where
  "plain s \<longleftrightarrow> is_ascii s \<and> CHR ''|'' \<notin> set s"

lemma plain_append [simp]: "plain (a @ b) \<longleftrightarrow> plain a \<and> plain b"
  by (auto simp: plain_def is_ascii_def)

lemma plain_Cons [simp]: "plain (c # s) \<longleftrightarrow> (of_char c :: nat) < 128 \<and> c \<noteq> CHR ''|'' \<and> plain s"
  by (auto simp: plain_def is_ascii_def)

lemma plain_Nil [simp]: "plain []"
  by (simp add: plain_def is_ascii_def)

lemma plain_show_nat [simp]: "plain (show_nat n)"
proof -
  have "(of_char c :: nat) < 128 \<and> c \<noteq> CHR ''|''" if "c \<in> set (show_nat n)" for c
    using show_nat_digits[OF that] by (auto simp: is_digit_def)
  then show ?thesis by (auto simp: plain_def is_ascii_def)
qed

lemma plain_pad [simp]: "plain (pad_nat k n)"
proof -
  have "plain (replicate m CHR ''0'')" for m by (induction m) simp_all
  then show ?thesis by (simp add: pad_nat_def)
qed

lemma plain_created_at [simp]: "plain (cursor_created_at t)"
  by (simp add: cursor_created_at_def Let_def split: prod.split)

lemma decode_encode:
  assumes "plain (cur_created_at c)" and "plain (cur_id c)" and "rd_date env (cur_created_at c) \<noteq> None"
  shows "decode_cursor env (encode_cursor c) = Inr c"
proof -
  have "utf8_repair (cur_created_at c @ ''|'' @ cur_id c) = cur_created_at c @ ''|'' @ cur_id c"
    by (rule utf8_repair_ascii) (use assms in \<open>auto simp: plain_def is_ascii_def\<close>)
  then show ?thesis
    using assms split_at_once[of "CHR ''|''" "cur_created_at c" "cur_id c"] split_at_none[of "CHR ''|''" "cur_id c"]
    by (simp add: decode_cursor_def encode_cursor_def base64_roundtrip plain_def Let_def)
qed

lemma stored_cursor:
  assumes "stored_ok env r"
  shows "optional (decode_cursor_or_throw env) (given (Some (encode_cursor (cursor_of r)))) = Inr (Some (cursor_of r))"
    and "optional (cursor_param env) (Some (cursor_of r)) = Inr (Some (page_key r))"
proof -
  have "plain (row_id r)" using assms by (simp add: stored_ok_def plain_def)
  then have d: "decode_cursor env (encode_cursor (cursor_of r)) = Inr (cursor_of r)"
    using assms by (intro decode_encode) (simp_all add: cursor_of_def stored_ok_def)
  moreover have "encode_cursor (cursor_of r) \<noteq> []"
  proof
    assume "encode_cursor (cursor_of r) = []"
    then have "base64_decode (encode_cursor (cursor_of r)) = []" by (simp add: base64_decode_def map_filter_simps)
    then show False by (simp add: encode_cursor_def base64_roundtrip)
  qed
  ultimately show "optional (decode_cursor_or_throw env) (given (Some (encode_cursor (cursor_of r)))) =
      Inr (Some (cursor_of r))"
    by (simp add: optional_def given_def decode_cursor_or_throw_def)
  show "optional (cursor_param env) (Some (cursor_of r)) = Inr (Some (page_key r))"
    using assms by (simp add: optional_def cursor_param_def cursor_of_def stored_ok_def uuid_param_def page_key_def)
qed

subsection \<open>One page\<close>

lemma where_clause_cursor: "where_clause env (filters_of env (p\<lparr>lp_cursor := x\<rparr>) c) = where_clause env (filters_of env p c')"
  by (simp add: where_clause_def filters_of_def)

lemma mapR_uuid:
  "(\<And>r. r \<in> set rs \<Longrightarrow> rd_uuid env (row_id r) = Some (row_id r)) \<Longrightarrow> mapR (uuid_param env) (map row_id rs) = Inr (map row_id rs)"
  by (induction rs) (simp_all add: uuid_param_def)

lemma set_page_rows: "set (page_rows m k d) = {r \<in> set (orders d). m r \<and> all_if k (\<lambda>k. page_key r < k)}"
  by (auto simp: page_rows_def)

lemma list_orders_page:
  assumes "\<forall>r \<in> set (orders (ds 0)). stored_ok env r" and "where_clause env (filters_of env p None) = Inr m"
    and "optional (decode_cursor_or_throw env) (given (lp_cursor p)) = Inr c"
    and "optional (cursor_param env) c = Inr k" and "0 < page_size p"
  obtains res where "list_orders env ds p = Inr res"
    "map fst (lr_orders res) = take (page_size p) (page_rows m k (ds 0))"
    "lr_has_more res \<longleftrightarrow> page_size p < length (page_rows m k (ds 0))"
    "lr_next_cursor res = (if page_size p < length (page_rows m k (ds 0))
       then Some (encode_cursor (cursor_of (page_rows m k (ds 0) ! (page_size p - 1)))) else None)"
proof -
  let ?n = "page_size p" and ?M = "page_rows m k (ds 0)"
  let ?page = "if ?n < length ?M then take ?n (take (?n + 1) ?M) else take (?n + 1) ?M"
  have "where_clause env (filters_of env p c) = Inr m"
    using assms(2) where_clause_cursor[where p = p and x = "lp_cursor p" and env = env and c = c and c' = None] by simp
  then have page: "find_page env (filters_of env p c) (ds 0) = Inr (take (?n + 1) ?M)"
    using assms(4) by (simp add: find_page_def filters_of_def)
  have cut: "?page = take ?n ?M" by (auto simp: min_def)
  have "rd_uuid env (row_id r) = Some (row_id r)" if "r \<in> set (take ?n ?M)" for r
    using that assms(1) by (auto dest!: in_set_takeD simp: set_page_rows stored_ok_def)
  then have ids: "mapR (uuid_param env) (map row_id (take ?n ?M)) = Inr (map row_id (take ?n ?M))" by (rule mapR_uuid)
  have some: "take ?n ?M \<noteq> []" if "?n < length ?M" using that assms(5) by auto
  moreover have "last (take ?n ?M) = ?M ! (?n - 1)" if "?n < length ?M"
    using last_conv_nth[OF some[OF that]] that assms(5) by (simp add: min_def)
  ultimately have next_page: "(if ?n < length ?M \<and> take ?n ?M \<noteq> [] then Some (encode_cursor
      \<lparr>cur_created_at = cursor_created_at (row_created_at (last (take ?n ?M))), cur_id = row_id (last (take ?n ?M))\<rparr>)
      else None) = (if ?n < length ?M then Some (encode_cursor (cursor_of (?M ! (?n - 1)))) else None)"
    by (simp add: cursor_of_def)
  have more: "?n < length (take (?n + 1) ?M) \<longleftrightarrow> ?n < length ?M" by auto
  obtain items where "list_orders env ds p = Inr \<lparr>lr_orders = map (\<lambda>r. (r, case items_by_order items (row_id r) of
      None \<Rightarrow> [] | Some xs \<Rightarrow> xs)) (take ?n ?M), lr_has_more = ?n < length ?M,
      lr_next_cursor = (if ?n < length ?M then Some (encode_cursor (cursor_of (?M ! (?n - 1)))) else None)\<rparr>"
    unfolding list_orders_def assms(3) bindR_simps page Let_def cut more find_items_by_order_ids_def ids next_page by blast
  from that[OF this] show ?thesis by (simp add: comp_def)
qed

subsection \<open>A descending list and its pieces\<close>

abbreviation descending :: "order_row list \<Rightarrow> bool" where
  "descending \<equiv> sorted_wrt (\<lambda>a b. page_key b < page_key a)"

lemma page_rows_descending:
  assumes "distinct (map row_id (orders d))"
  shows "descending (page_rows m k d)"
proof -
  let ?xs = "sort_key page_key (filter (\<lambda>r. m r \<and> all_if k (\<lambda>k. page_key r < k)) (orders d))"
  have "inj_on row_id (set (orders d))" using assms by (simp add: distinct_map)
  then have "inj_on page_key (set ?xs)" by (auto simp: inj_on_def page_key_def)
  moreover have "distinct ?xs" using assms by (simp add: distinct_map)
  ultimately have "distinct (map page_key ?xs)" by (simp add: distinct_map)
  then have "sorted_wrt (<) (map page_key ?xs)" by (simp add: strict_sorted_iff)
  then show ?thesis by (simp add: page_rows_def sorted_wrt_rev sorted_wrt_map)
qed

lemma descending_pieces:
  assumes "descending M" and "0 < n" and "n < length M"
  shows "r \<in> set (take n M) \<Longrightarrow> page_key (M ! (n - 1)) \<le> page_key r"
    and "r \<in> set (drop n M) \<Longrightarrow> page_key r < page_key (M ! (n - 1))"
proof -
  assume "r \<in> set (take n M)"
  then obtain i where i: "i < n" "r = M ! i" using assms(3) by (auto simp: in_set_conv_nth)
  show "page_key (M ! (n - 1)) \<le> page_key r"
  proof (cases "i = n - 1")
    case False
    with i have "i < n - 1" by simp
    with assms sorted_wrt_nth_less[OF assms(1), of i "n - 1"] i show ?thesis by (simp add: less_imp_le)
  qed (use i in simp)
next
  assume "r \<in> set (drop n M)"
  then obtain i where "i < length (drop n M)" "r = drop n M ! i" by (auto simp: in_set_conv_nth)
  then have "n + i < length M" "r = M ! (n + i)" by simp_all
  with assms sorted_wrt_nth_less[OF assms(1), of "n - 1" "n + i"] show "page_key r < page_key (M ! (n - 1))" by simp
qed

lemma filter_descending:
  assumes "descending M" and "0 < n" and "n < length M"
  shows "filter (\<lambda>r. page_key r < page_key (M ! (n - 1))) M = drop n M"
proof -
  let ?P = "\<lambda>r. page_key r < page_key (M ! (n - 1))"
  have "filter ?P (take n M @ drop n M) = drop n M"
    unfolding filter_append using descending_pieces[OF assms]
    by (auto simp: filter_empty_conv filter_id_conv not_less)
  then show ?thesis by simp
qed

lemma page_rows_filter: "page_rows m k d = filter (\<lambda>r. all_if k (\<lambda>k. page_key r < k)) (page_rows m None d)"
  by (simp add: page_rows_def filter_sort all_if_def flip: rev_filter)

lemma page_rows_next:
  assumes "distinct (map row_id (orders d))" and "0 < n" and "n < length (page_rows m k d)"
  shows "page_rows m (Some (page_key (page_rows m k d ! (n - 1)))) d = drop n (page_rows m k d)"
proof -
  let ?M = "page_rows m k d"
  have "?M ! (n - 1) \<in> set ?M" using assms by auto
  then have "all_if k (\<lambda>k. page_key (?M ! (n - 1)) < k)" by (simp add: set_page_rows)
  then have "page_rows m (Some (page_key (?M ! (n - 1)))) d = filter (\<lambda>r. page_key r < page_key (?M ! (n - 1))) ?M"
    by (subst page_rows_filter, subst (3) page_rows_filter)
      (auto simp: all_if_def intro!: filter_cong split: option.splits)
  then show ?thesis using filter_descending[OF page_rows_descending[OF assms(1)] assms(2,3)] by simp
qed

subsection \<open>Following the cursors\<close>

text \<open>The client's walk: page \<open>k\<close> reads the snapshots \<open>ds k\<close>; \<open>None\<close> is a walk that is not over.\<close>

fun walk_pages ::
  "nat \<Rightarrow> read_env \<Rightarrow> (nat \<Rightarrow> nat \<Rightarrow> db) \<Rightarrow> list_params \<Rightarrow> (app_error + order_row list list) option" where
  "walk_pages 0 env ds p = None"
| "walk_pages (Suc n) env ds p =
    (case list_orders env (ds 0) p of
       Inl e \<Rightarrow> Some (Inl e)
     | Inr res \<Rightarrow>
         (case lr_next_cursor res of
            None \<Rightarrow> Some (Inr [map fst (lr_orders res)])
          | Some c \<Rightarrow> map_option (\<lambda>r. bindR r (\<lambda>pages. Inr (map fst (lr_orders res) # pages)))
              (walk_pages n env (\<lambda>k. ds (Suc k)) (p\<lparr>lp_cursor := Some c\<rparr>))))"

definition starts_at :: "read_env \<Rightarrow> list_params \<Rightarrow> (timestamp \<times> uuid) option \<Rightarrow> bool" where
  "starts_at env p k \<longleftrightarrow> (\<exists>c. optional (decode_cursor_or_throw env) (given (lp_cursor p)) = Inr c \<and>
     optional (cursor_param env) c = Inr k)"

definition stored_well :: "read_env \<Rightarrow> db \<Rightarrow> bool" where
  "stored_well env d \<longleftrightarrow> distinct (map row_id (orders d)) \<and> (\<forall>r \<in> set (orders d). stored_ok env r)"

lemma starts_at_row: "stored_ok env r \<Longrightarrow> starts_at env (p\<lparr>lp_cursor := Some (encode_cursor (cursor_of r))\<rparr>) (Some (page_key r))"
  using stored_cursor[of env r] by (auto simp: starts_at_def)

lemma next_start:
  assumes "stored_well env d" and "0 < page_size p" and "page_size p < length (page_rows m k d)"
  shows "starts_at env (p\<lparr>lp_cursor := Some (encode_cursor (cursor_of (page_rows m k d ! (page_size p - 1))))\<rparr>)
    (Some (page_key (page_rows m k d ! (page_size p - 1))))"
proof (rule starts_at_row)
  have "page_rows m k d ! (page_size p - 1) \<in> set (page_rows m k d)" using assms(3) by simp
  then show "stored_ok env (page_rows m k d ! (page_size p - 1))"
    using assms(1) by (simp add: set_page_rows stored_well_def)
qed

lemma walk_step:
  assumes "stored_well env (ds 0 0)" and "where_clause env (filters_of env p None) = Inr m"
    and "starts_at env p k" and "0 < page_size p"
  defines "M \<equiv> page_rows m k (ds 0 0)"
  shows "page_size p < length M \<Longrightarrow> walk_pages (Suc n) env ds p =
      map_option (\<lambda>r. bindR r (\<lambda>pages. Inr (take (page_size p) M # pages)))
        (walk_pages n env (\<lambda>k. ds (Suc k)) (p\<lparr>lp_cursor := Some (encode_cursor (cursor_of (M ! (page_size p - 1))))\<rparr>))"
    and "\<not> page_size p < length M \<Longrightarrow> walk_pages (Suc n) env ds p = Some (Inr [M])"
proof -
  obtain c where c: "optional (decode_cursor_or_throw env) (given (lp_cursor p)) = Inr c"
    "optional (cursor_param env) c = Inr k" using assms(3) by (auto simp: starts_at_def)
  have stored: "\<forall>r \<in> set (orders (ds 0 0)). stored_ok env r" using assms(1) by (simp add: stored_well_def)
  obtain res where "list_orders env (ds 0) p = Inr res" "map fst (lr_orders res) = take (page_size p) M"
    "lr_next_cursor res = (if page_size p < length M
       then Some (encode_cursor (cursor_of (M ! (page_size p - 1)))) else None)"
    unfolding M_def by (rule list_orders_page[where ds = "ds 0", OF stored assms(2) c assms(4)])
  then show "page_size p < length M \<Longrightarrow> walk_pages (Suc n) env ds p =
      map_option (\<lambda>r. bindR r (\<lambda>pages. Inr (take (page_size p) M # pages)))
        (walk_pages n env (\<lambda>k. ds (Suc k)) (p\<lparr>lp_cursor := Some (encode_cursor (cursor_of (M ! (page_size p - 1))))\<rparr>))"
    "\<not> page_size p < length M \<Longrightarrow> walk_pages (Suc n) env ds p = Some (Inr [M])"
    by simp_all
qed

subsection \<open>Every order once\<close>

lemma walk_static:
  assumes "stored_well env d" and "where_clause env (filters_of env p None) = Inr m" and "0 < page_size p"
    and "starts_at env p k" and "length (page_rows m k d) < fuel"
  shows "\<exists>pages. walk_pages fuel env (\<lambda>_ _. d) p = Some (Inr pages) \<and> concat pages = page_rows m k d \<and>
    (\<forall>pg \<in> set pages. length pg \<le> page_size p) \<and> (\<forall>pg \<in> set (butlast pages). length pg = page_size p) \<and> pages \<noteq> []"
  using assms
proof (induction fuel arbitrary: p k)
  case 0
  then show ?case by simp
next
  case (Suc fuel)
  let ?n = "page_size p" and ?M = "page_rows m k d"
  note step = walk_step[where ds = "\<lambda>_ _. d" and n = fuel, OF Suc.prems(1,2,4,3)]
  show ?case
  proof (cases "?n < length ?M")
    case False
    with step(2) show ?thesis by auto
  next
    case True
    let ?p = "p\<lparr>lp_cursor := Some (encode_cursor (cursor_of (?M ! (?n - 1))))\<rparr>"
    have rest: "page_rows m (Some (page_key (?M ! (?n - 1)))) d = drop ?n ?M"
      using Suc.prems(1,3) True by (intro page_rows_next) (simp_all add: stored_well_def)
    have w: "where_clause env (filters_of env ?p None) = Inr m" using Suc.prems(2) where_clause_cursor by metis
    have "0 < page_size ?p" "page_size ?p = ?n" using Suc.prems(3) by (simp_all add: page_size_def)
    moreover have "length (page_rows m (Some (page_key (?M ! (?n - 1)))) d) < fuel"
      unfolding rest using Suc.prems(3,5) True by simp
    ultimately obtain pages where "walk_pages fuel env (\<lambda>_ _. d) ?p = Some (Inr pages)" "concat pages = drop ?n ?M"
      "\<forall>pg \<in> set pages. length pg \<le> ?n" "\<forall>pg \<in> set (butlast pages). length pg = ?n" "pages \<noteq> []"
      using Suc.IH[OF Suc.prems(1) w _ next_start[OF Suc.prems(1,3) True]] rest by auto
    with step(1)[OF True] True show ?thesis by auto
  qed
qed


lemma count_distinct: "distinct xs \<Longrightarrow> count_list xs r = (if r \<in> set xs then 1 else 0)"
  by (induction xs) auto

lemma walk_stable:
  assumes "\<forall>j. stored_well env (ds j 0)" and "where_clause env (filters_of env p None) = Inr m" and "0 < page_size p"
    and "starts_at env p k" and "walk_pages fuel env ds p = Some (Inr pages)"
    and "\<forall>j. r \<in> set (orders (ds j 0))" and "m r"
  shows "count_list (concat pages) r = (if all_if k (\<lambda>k. page_key r < k) then 1 else 0)"
  using assms
proof (induction fuel arbitrary: p k ds pages)
  case 0
  then show ?case by simp
next
  case (Suc fuel)
  let ?n = "page_size p" and ?M = "page_rows m k (ds 0 0)"
  have ok: "stored_well env (ds 0 0)" using Suc.prems(1) by blast
  note step = walk_step[where ds = ds and n = fuel, OF ok Suc.prems(2,4,3)]
  have desc: "descending ?M" using ok by (intro page_rows_descending) (simp add: stored_well_def)
  have dist: "distinct ?M" using ok by (simp add: stored_well_def page_rows_def distinct_map)
  have mem: "r \<in> set ?M \<longleftrightarrow> all_if k (\<lambda>k. page_key r < k)" using Suc.prems(6,7) by (simp add: set_page_rows)
  show ?case
  proof (cases "?n < length ?M")
    case False
    with step(2) Suc.prems(5) have "pages = [?M]" by simp
    with dist mem show ?thesis by (simp add: count_distinct)
  next
    case True
    let ?x = "?M ! (?n - 1)" and ?ds = "\<lambda>j. ds (Suc j)"
    let ?p = "p\<lparr>lp_cursor := Some (encode_cursor (cursor_of ?x))\<rparr>"
    from step(1)[OF True] Suc.prems(5) obtain more where more: "walk_pages fuel env ?ds ?p = Some (Inr more)"
      "pages = take ?n ?M # more"
      by (auto simp: bindR_def split: sum.splits)
    have w: "where_clause env (filters_of env ?p None) = Inr m" using Suc.prems(2) where_clause_cursor by metis
    have "0 < page_size ?p" using Suc.prems(3) by (simp add: page_size_def)
    then have rest: "count_list (concat more) r = (if page_key r < page_key ?x then 1 else 0)"
      using Suc.IH[where ds = ?ds, OF _ w _ next_start[OF ok Suc.prems(3) True] more(1)] Suc.prems(1,6,7) by (simp add: all_if_def)
    have x: "?x \<in> set ?M" using True by simp
    consider "r \<in> set (take ?n ?M)" | "r \<in> set (drop ?n ?M)" "r \<notin> set (take ?n ?M)" | "r \<notin> set ?M"
      by (metis Un_iff append_take_drop_id set_append)
    then show ?thesis
    proof cases
      case 1
      with descending_pieces(1)[OF desc Suc.prems(3) True] have "\<not> page_key r < page_key ?x" by (simp add: not_less)
      moreover have "all_if k (\<lambda>k. page_key r < k)" using in_set_takeD[OF 1] mem by simp
      ultimately show ?thesis using 1 rest more(2) dist by (simp add: count_distinct)
    next
      case 2
      with descending_pieces(2)[OF desc Suc.prems(3) True] have "page_key r < page_key ?x" by simp
      moreover have "all_if k (\<lambda>k. page_key r < k)" using in_set_dropD[OF 2(1)] mem by simp
      ultimately show ?thesis using 2(2) rest more(2) dist by (simp add: count_distinct)
    next
      case 3
      then obtain k0 where k0: "k = Some k0" "\<not> page_key r < k0" using mem by (auto simp: all_if_def split: option.splits)
      moreover from x k0(1) have "page_key ?x < k0" by (simp only: set_page_rows all_if_def option.case mem_Collect_eq)
      ultimately have "\<not> page_key r < page_key ?x" using less_trans by blast
      moreover have "r \<notin> set (take ?n ?M)" using 3 by (meson in_set_takeD)
      moreover have "\<not> all_if k (\<lambda>k. page_key r < k)" using 3 mem by simp
      ultimately show ?thesis using rest more(2) dist by (simp add: count_distinct)
    qed
  qed
qed


subsection \<open>A concrete table\<close>

definition sample_read :: read_env where
  "sample_read = \<lparr>rd_date = (\<lambda>t. Some 0), rd_timestamptz = (\<lambda>t. Some (row_created_at sample_order_row)), rd_uuid = Some,
     rd_uuid_shape = (\<lambda>t. t \<noteq> []), rd_iso_shape = (\<lambda>t. True), rd_distance = (\<lambda>a b. 0)\<rparr>"

definition two_orders :: db where
  "two_orders = sample_db\<lparr>orders := [sample_order_row\<lparr>row_id := ''a''\<rparr>, sample_order_row\<lparr>row_id := ''b''\<rparr>]\<rparr>"

definition one_per_page :: list_params where
  "one_per_page = \<lparr>lp_customer = None, lp_status = None, lp_warehouse = None, lp_from = None, lp_to = None,
     lp_cursor = None, lp_page_size = Some 1\<rparr>"

lemma sample_read_ok:
  "stored_well sample_read two_orders"
  "where_clause sample_read (filters_of sample_read one_per_page None) = Inr (\<lambda>r. True)"
  "0 < page_size one_per_page" "given (lp_cursor one_per_page) = None"
  by (simp_all add: stored_well_def two_orders_def stored_ok_def sample_read_def is_ascii_def where_clause_def
      filters_of_def one_per_page_def given_def optional_def all_if_def page_size_def)



subsection \<open>Cursors from outside\<close>

text \<open>
  A cursor reads back as the time and the id it was made of, and a cursor the service did not make
  is refused: a text that does not decode to two parts with a date in the first is a 400. A text that
  does, but whose second part Postgres does not read as a UUID, is not caught and is a 500.
\<close>

lemma cursor_from_outside:
  assumes "plain (cur_created_at c)" and "plain (cur_id c)" and "list_query_ok env q" and "q_cursor q = Some t" and "t \<noteq> []"
    and "where_clause env (filters_of env (params_of_query q) None) = Inr m"
  shows "(rd_date env (cur_created_at c) \<noteq> None \<longrightarrow> decode_cursor env (encode_cursor c) = Inr c) \<and>
    (decode_cursor env t = Inl e \<longrightarrow> rp_status (get_orders env messages ds q url correlation) = 400) \<and>
    (decode_cursor env t = Inr c' \<and> (rd_timestamptz env (cur_created_at c') = None \<or> rd_uuid env (cur_id c') = None) \<longrightarrow>
      rp_status (get_orders env messages ds q url correlation) = 500)"
proof (intro conjI impI)
  assume "rd_date env (cur_created_at c) \<noteq> None"
  with assms(1,2) show "decode_cursor env (encode_cursor c) = Inr c" by (rule decode_encode)
next
  assume e: "decode_cursor env t = Inl e"
  then have "e = InvalidCursorError t" by (auto simp: decode_cursor_def Let_def split: if_splits)
  with e assms(3-5) show "rp_status (get_orders env messages ds q url correlation) = 400"
    by (simp add: get_orders_def list_orders_def params_of_query_def given_def optional_def decode_cursor_or_throw_def
        json_reply_def catch_exception_def Let_def)
next
  assume c': "decode_cursor env t = Inr c' \<and> (rd_timestamptz env (cur_created_at c') = None \<or> rd_uuid env (cur_id c') = None)"
  let ?p = "params_of_query q"
  have "where_clause env (filters_of env ?p (Some c')) = Inr m"
    using assms(6) by (simp add: where_clause_def filters_of_def)
  moreover obtain e where "cursor_param env c' = Inl e" "build_problem e = plain_problem 500 ''about:blank''
      ''Internal server error'' ''An unexpected error occurred.''"
    using c' by (cases "rd_timestamptz env (cur_created_at c')") (auto simp: cursor_param_def uuid_param_def)
  ultimately have "find_page env (filters_of env ?p (Some c')) (ds 0) = Inl e"
    by (simp add: find_page_def filters_of_def optional_def)
  moreover have "given (lp_cursor ?p) = Some t" using assms(4,5) by (simp add: params_of_query_def given_def)
  ultimately show "rp_status (get_orders env messages ds q url correlation) = 500"
    using assms(3) c' \<open>build_problem e = _\<close>
    by (simp add: get_orders_def list_orders_def optional_def decode_cursor_or_throw_def json_reply_def
        catch_exception_def Let_def plain_problem_def)
qed

definition stray_query :: list_query where
  "stray_query = \<lparr>q_customer = None, q_status = None, q_warehouse = None, q_from = None, q_to = None,
     q_cursor = Some (encode_cursor \<lparr>cur_created_at = ''2026-01-01'', cur_id = ''x''\<rparr>), q_page_size = None\<rparr>"

end
