(* ===== verification/Payments_Mock.thy ===== *)
theory Payments_Mock
  imports Payment_Gateway Js_Date Json_Text
begin

section \<open>The mock payment provider\<close>

text \<open>
  \<^verbatim>\<open>payments-mock/src/\<close>: the in-memory provider the gateway talks to. \<open>charge\<close> is asynchronous: a
  request either completes at once or suspends on a timer, and a second request with the same key
  waits for the first. So a call is an arrival, which may leave a pending charge behind, and the
  resumption of that charge when its timer fires; Node runs both without interruption. SHA-256,
  the text of a fractional amount, random numbers and fresh ids are arguments. The server's
  request validation is the schema of \<^verbatim>\<open>server.ts\<close> without Fastify's type coercion.
\<close>

subsection \<open>Records and constants\<close>

datatype charge_status = ChApproved | ChDeclined

record charge_body =
  bd_card_number :: string
  bd_amount_cents :: js_num
  bd_currency :: string
  bd_description :: string

record charge_record =
  cr_id :: string
  cr_key :: string
  cr_hash :: string
  cr_status :: charge_status
  cr_decline_code :: "string option"
  cr_amount_cents :: js_num
  cr_currency :: string
  cr_last4 :: string
  cr_created_at :: timestamp

datatype charge_outcome = Charged charge_record | ProviderError | KeyReused

record charge_attempt =
  at_key :: string
  at_hash :: string
  at_last4 :: string
  at_body :: charge_body
  at_fresh_id :: string

definition CARD_DECLINED_LAST4 :: string where "CARD_DECLINED_LAST4 = ''0002''"
definition CARD_PROVIDER_ERROR_LAST4 :: string where "CARD_PROVIDER_ERROR_LAST4 = ''0003''"
definition CARD_TIMEOUT_LAST4 :: string where "CARD_TIMEOUT_LAST4 = ''0004''"

record mock_options =
  card_0004_delay_ms :: int
  approved_delay_min_ms :: int
  approved_delay_max_ms :: int

definition default_mock_options :: mock_options where
  "default_mock_options = \<lparr>card_0004_delay_ms = 30000, approved_delay_min_ms = 200, approved_delay_max_ms = 600\<rparr>"

text \<open>Where a suspended \<open>process\<close> goes on: an ordinary approval, or card 0004 with the record it holds.\<close>

datatype suspended = Approving | Stalling charge_record

record pending_charge =
  pc_attempt :: charge_attempt
  pc_suspended :: suspended
  pc_due :: int

record mock =
  mk_records :: "string \<Rightarrow> charge_record option"
  mk_pending :: "string \<Rightarrow> pending_charge option"

definition empty_mock :: mock where
  "empty_mock = \<lparr>mk_records = (\<lambda>_. None), mk_pending = (\<lambda>_. None)\<rparr>"

subsection \<open>The request hash\<close>

definition card_last4 :: "string \<Rightarrow> string" where
  "card_last4 card_number = last4 (digits_of card_number)"

definition compute_request_hash ::
  "(string \<Rightarrow> string) \<Rightarrow> (rat \<Rightarrow> string) \<Rightarrow> string \<Rightarrow> charge_body \<Rightarrow> string" where
  "compute_request_hash sha256 fraction_text l4 b =
     sha256 (l4 @ ''|'' @ js_num_text fraction_text (bd_amount_cents b) @ ''|'' @ bd_currency b @ ''|'' @
       bd_description b)"

subsection \<open>Storing and processing\<close>

definition store_charge :: "int \<Rightarrow> charge_attempt \<Rightarrow> charge_status \<Rightarrow> mock \<Rightarrow> charge_record \<times> mock" where
  "store_charge now a status m =
    (let r = \<lparr>cr_id = ''ch_'' @ at_fresh_id a, cr_key = at_key a, cr_hash = at_hash a, cr_status = status,
           cr_decline_code = (if status = ChDeclined then Some ''card_declined'' else None),
           cr_amount_cents = bd_amount_cents (at_body a), cr_currency = bd_currency (at_body a),
           cr_last4 = at_last4 a, cr_created_at = now\<rparr>
     in (r, m\<lparr>mk_records := (mk_records m)(at_key a \<mapsto> r)\<rparr>))"

text \<open>\<open>Math.random()\<close> is the fractional part of \<open>draw\<close>.\<close>

definition random_between :: "rat \<Rightarrow> int \<Rightarrow> int \<Rightarrow> int" where
  "random_between draw lo hi = \<lfloor>of_int lo + frac draw * of_int (hi - lo)\<rfloor>"

text \<open>\<open>process\<close> up to its first wait: the outcome, or what it suspends on and until when.\<close>

definition process_charge ::
  "mock_options \<Rightarrow> int \<Rightarrow> rat \<Rightarrow> charge_attempt \<Rightarrow> mock \<Rightarrow> (charge_outcome + suspended \<times> int) \<times> mock" where
  "process_charge opts now draw a m =
    (if at_last4 a = CARD_TIMEOUT_LAST4 then
       (case mk_records m (at_key a) of
          Some r \<Rightarrow> (Inr (Stalling r, now + card_0004_delay_ms opts), m)
        | None \<Rightarrow> (case store_charge now a ChApproved m of (r, m1) \<Rightarrow>
            (Inr (Stalling r, now + card_0004_delay_ms opts), m1)))
     else case mk_records m (at_key a) of
       Some r \<Rightarrow> if cr_hash r \<noteq> at_hash a then (Inl KeyReused, m) else (Inl (Charged r), m)
     | None \<Rightarrow>
         if at_last4 a = CARD_PROVIDER_ERROR_LAST4 then (Inl ProviderError, m)
         else if at_last4 a = CARD_DECLINED_LAST4 then
           (case store_charge now a ChDeclined m of (r, m1) \<Rightarrow> (Inl (Charged r), m1))
         else (Inr (Approving, now + random_between draw (approved_delay_min_ms opts) (approved_delay_max_ms opts)), m))"

text \<open>The rest of \<open>process\<close>, when the timer fires, and the \<open>finally\<close> of \<open>charge\<close>.\<close>

definition resume_charge :: "int \<Rightarrow> pending_charge \<Rightarrow> mock \<Rightarrow> charge_outcome \<times> mock" where
  "resume_charge now p m =
    (let a = pc_attempt p; m0 = m\<lparr>mk_pending := (mk_pending m)(at_key a := None)\<rparr> in
     case pc_suspended p of
       Approving \<Rightarrow> (case store_charge now a ChApproved m0 of (r, m1) \<Rightarrow> (Charged r, m1))
     | Stalling r \<Rightarrow> (if cr_hash r \<noteq> at_hash a then KeyReused else Charged r, m0))"

datatype arrival = Answered charge_outcome | Waiting

definition charge_arrives ::
  "mock_options \<Rightarrow> int \<Rightarrow> rat \<Rightarrow> charge_attempt \<Rightarrow> mock \<Rightarrow> arrival \<times> mock" where
  "charge_arrives opts now draw a m =
    (case mk_pending m (at_key a) of
       Some p \<Rightarrow> (Waiting, m)
     | None \<Rightarrow> (case process_charge opts now draw a m of
         (Inl out, m1) \<Rightarrow> (Answered out, m1)
       | (Inr (s, due), m1) \<Rightarrow>
           (Waiting, m1\<lparr>mk_pending := (mk_pending m1)(at_key a \<mapsto>
              \<lparr>pc_attempt = a, pc_suspended = s, pc_due = due\<rparr>)\<rparr>)))"

text \<open>What a request with hash \<open>h\<close> that waited on a pending charge gets from its outcome.\<close>

definition waiter_outcome :: "pending_charge \<Rightarrow> string \<Rightarrow> charge_outcome \<Rightarrow> charge_outcome" where
  "waiter_outcome p h out = (if at_hash (pc_attempt p) \<noteq> h then KeyReused else out)"

definition get_by_idempotency_key :: "mock \<Rightarrow> string \<Rightarrow> charge_record option" where
  "get_by_idempotency_key m key = mk_records m key"

subsection \<open>Interleaved requests\<close>

record mock_system =
  ms_mock :: mock
  ms_now :: int
  ms_waiting :: "(string \<times> string) list" \<comment> \<open>key and hash of the requests that wait\<close>
  ms_answers :: "(string \<times> string \<times> charge_outcome) list"

inductive mock_step :: "mock_options \<Rightarrow> mock_system \<Rightarrow> mock_system \<Rightarrow> bool" for opts where
  tick: "ms_now s \<le> t \<Longrightarrow> mock_step opts s (s\<lparr>ms_now := t\<rparr>)"
| answers: "charge_arrives opts (ms_now s) draw a (ms_mock s) = (Answered out, m) \<Longrightarrow>
    mock_step opts s (s\<lparr>ms_mock := m, ms_answers := (at_key a, at_hash a, out) # ms_answers s\<rparr>)"
| waits: "charge_arrives opts (ms_now s) draw a (ms_mock s) = (Waiting, m) \<Longrightarrow>
    mock_step opts s (s\<lparr>ms_mock := m, ms_waiting := (at_key a, at_hash a) # ms_waiting s\<rparr>)"
| resumes: "mk_pending (ms_mock s) k = Some p \<Longrightarrow> pc_due p \<le> ms_now s \<Longrightarrow>
    resume_charge (ms_now s) p (ms_mock s) = (out, m) \<Longrightarrow>
    mock_step opts s (s\<lparr>ms_mock := m, ms_waiting := filter (\<lambda>w. fst w \<noteq> k) (ms_waiting s),
      ms_answers := map (\<lambda>(k, h). (k, h, waiter_outcome p h out)) (filter (\<lambda>w. fst w = k) (ms_waiting s)) @
        ms_answers s\<rparr>)"

definition mock_start :: "int \<Rightarrow> mock_system" where
  "mock_start t = \<lparr>ms_mock = empty_mock, ms_now = t, ms_waiting = [], ms_answers = []\<rparr>"

definition mock_reachable :: "mock_options \<Rightarrow> mock_system \<Rightarrow> bool" where
  "mock_reachable opts s \<longleftrightarrow> (\<exists>t. (mock_step opts)\<^sup>*\<^sup>* (mock_start t) s)"

lemma map_le_Some: "m \<subseteq>\<^sub>m m' \<Longrightarrow> m k = Some v \<Longrightarrow> m' k = Some v"
  by (metis domI map_le_def)

text \<open>What holds of the two maps between any two handlers.\<close>

fun suspended_fits :: "suspended \<Rightarrow> charge_record option \<Rightarrow> bool" where
  "suspended_fits Approving stored \<longleftrightarrow> stored = None"
| "suspended_fits (Stalling r) stored \<longleftrightarrow> stored = Some r"

definition mock_wf :: "mock \<Rightarrow> bool" where
  "mock_wf m \<longleftrightarrow>
     (\<forall>k p. mk_pending m k = Some p \<longrightarrow> at_key (pc_attempt p) = k \<and>
        suspended_fits (pc_suspended p) (mk_records m k)) \<and>
     (\<forall>k r. mk_records m k = Some r \<longrightarrow> cr_key r = k)"

lemma mock_wf_pending:
  assumes "mock_wf m" and "mk_pending m k = Some p"
  shows "at_key (pc_attempt p) = k" and "pc_suspended p = Approving \<Longrightarrow> mk_records m k = None"
    and "pc_suspended p = Stalling r \<Longrightarrow> mk_records m k = Some r"
proof -
  have "at_key (pc_attempt p) = k \<and>
    suspended_fits (pc_suspended p) (mk_records m k)"
    using assms unfolding mock_wf_def by blast
  then show "at_key (pc_attempt p) = k" and "pc_suspended p = Approving \<Longrightarrow> mk_records m k = None"
    and "pc_suspended p = Stalling r \<Longrightarrow> mk_records m k = Some r" by simp_all
qed

lemma store_charge_sel [simp]:
  "snd (store_charge now a st m) = m\<lparr>mk_records := (mk_records m)(at_key a \<mapsto> fst (store_charge now a st m))\<rparr>"
  "cr_key (fst (store_charge now a st m)) = at_key a" "cr_hash (fst (store_charge now a st m)) = at_hash a"
  "cr_status (fst (store_charge now a st m)) = st"
  "cr_id (fst (store_charge now a st m)) = ''ch_'' @ at_fresh_id a"
  "cr_last4 (fst (store_charge now a st m)) = at_last4 a"
  by (simp_all add: store_charge_def Let_def)

text \<open>An arrival adds records only, and answers with the record that is then stored under its key.\<close>

lemma charge_arrives_spec:
  assumes "charge_arrives opts now draw a m = (r, m')" and "mock_wf m"
  shows "mock_wf m'" and "mk_records m \<subseteq>\<^sub>m mk_records m'"
    and "r = Answered (Charged c) \<Longrightarrow> mk_records m' (at_key a) = Some c \<and> cr_hash c = at_hash a"
    and "r = Waiting \<Longrightarrow> mk_pending m' (at_key a) \<noteq> None"
    and "k \<noteq> at_key a \<Longrightarrow> mk_pending m' k = mk_pending m k \<and> mk_records m' k = mk_records m k"
    and "r = Answered out \<Longrightarrow> mk_pending m' = mk_pending m"
    and "mk_pending m k = Some p \<Longrightarrow> mk_pending m' k = Some p"
    and "mk_pending m' k = Some p \<Longrightarrow> mk_pending m k = Some p \<or>
      pc_due p = now + card_0004_delay_ms opts \<or>
      pc_due p = now + random_between draw (approved_delay_min_ms opts) (approved_delay_max_ms opts)"
proof -
  have "mock_wf m' \<and> mk_records m \<subseteq>\<^sub>m mk_records m' \<and>
    (r = Answered (Charged c) \<longrightarrow> mk_records m' (at_key a) = Some c \<and> cr_hash c = at_hash a) \<and>
    (r = Waiting \<longrightarrow> mk_pending m' (at_key a) \<noteq> None) \<and>
    (k \<noteq> at_key a \<longrightarrow> mk_pending m' k = mk_pending m k \<and> mk_records m' k = mk_records m k) \<and>
    (r = Answered out \<longrightarrow> mk_pending m' = mk_pending m) \<and>
    (mk_pending m k = Some p \<longrightarrow> mk_pending m' k = Some p) \<and>
    (mk_pending m' k = Some p \<longrightarrow> mk_pending m k = Some p \<or>
      pc_due p = now + card_0004_delay_ms opts \<or>
      pc_due p = now + random_between draw (approved_delay_min_ms opts) (approved_delay_max_ms opts))"
    using assms
    by (auto simp: charge_arrives_def process_charge_def mock_wf_def map_le_def Let_def store_charge_def
        split: option.splits prod.splits if_splits sum.splits)
  then show "mock_wf m'" and "mk_records m \<subseteq>\<^sub>m mk_records m'"
    and "r = Answered (Charged c) \<Longrightarrow> mk_records m' (at_key a) = Some c \<and> cr_hash c = at_hash a"
    and "r = Waiting \<Longrightarrow> mk_pending m' (at_key a) \<noteq> None"
    and "k \<noteq> at_key a \<Longrightarrow> mk_pending m' k = mk_pending m k \<and> mk_records m' k = mk_records m k"
    and "r = Answered out \<Longrightarrow> mk_pending m' = mk_pending m"
    and "mk_pending m k = Some p \<Longrightarrow> mk_pending m' k = Some p"
    and "mk_pending m' k = Some p \<Longrightarrow> mk_pending m k = Some p \<or>
      pc_due p = now + card_0004_delay_ms opts \<or>
      pc_due p = now + random_between draw (approved_delay_min_ms opts) (approved_delay_max_ms opts)"
    by blast+
qed

lemma resume_charge_spec:
  assumes "resume_charge now p m = (out, m')" and "mock_wf m" and "mk_pending m k = Some p"
  shows "mock_wf m'" and "mk_records m \<subseteq>\<^sub>m mk_records m'"
    and "waiter_outcome p h out = Charged c \<Longrightarrow> mk_records m' k = Some c \<and> cr_hash c = h"
    and "mk_pending m' = (mk_pending m)(k := None)"
proof -
  note p = mock_wf_pending[OF assms(2,3)]
  have other: "k' \<noteq> k \<Longrightarrow> mk_pending m k' = Some q \<Longrightarrow> at_key (pc_attempt q) = k' \<and>
    suspended_fits (pc_suspended q) (mk_records m k')" for k' q
    using assms(2) unfolding mock_wf_def by blast
  have keys: "mk_records m k' = Some r \<Longrightarrow> cr_key r = k'" for k' r
    using assms(2) unfolding mock_wf_def by blast
  have out: "mk_pending m' = (mk_pending m)(k := None) \<and>
    ((\<exists>c. out = Charged c \<and> cr_key c = k \<and> cr_hash c = at_hash (pc_attempt p) \<and> mk_records m k = None \<and>
        mk_records m' = (mk_records m)(k \<mapsto> c)) \<or>
     (out = KeyReused \<and> mk_records m' = mk_records m) \<or>
     (\<exists>c. out = Charged c \<and> cr_hash c = at_hash (pc_attempt p) \<and> mk_records m k = Some c \<and>
        mk_records m' = mk_records m))"
    using assms(1) p by (cases "pc_suspended p") (auto simp: resume_charge_def store_charge_def Let_def split: if_splits)
  then show pending: "mk_pending m' = (mk_pending m)(k := None)" ..
  from out show le: "mk_records m \<subseteq>\<^sub>m mk_records m'" by (auto simp: map_le_def)
  from out show "waiter_outcome p h out = Charged c \<Longrightarrow> mk_records m' k = Some c \<and> cr_hash c = h"
    by (auto simp: waiter_outcome_def split: if_splits)
  show "mock_wf m'"
    unfolding mock_wf_def
  proof (intro conjI allI impI)
    fix k' q assume "mk_pending m' k' = Some q"
    with pending have q: "k' \<noteq> k" "mk_pending m k' = Some q" by (auto split: if_splits)
    from other[OF this] show "at_key (pc_attempt q) = k'" by simp
    from out q(1) have "mk_records m' k' = mk_records m k'" by auto
    with other[OF q] show "suspended_fits (pc_suspended q) (mk_records m' k')" by simp
  next
    fix k' r assume "mk_records m' k' = Some r"
    with out show "cr_key r = k'" using keys by (auto split: if_splits)
  qed
qed

subsection \<open>Every request of a key sees the same charge\<close>

definition mock_system_wf :: "mock_system \<Rightarrow> bool" where
  "mock_system_wf s \<longleftrightarrow> mock_wf (ms_mock s) \<and>
     (\<forall>k h c. (k, h, Charged c) \<in> set (ms_answers s) \<longrightarrow> mk_records (ms_mock s) k = Some c \<and> cr_hash c = h) \<and>
     (\<forall>k h. (k, h) \<in> set (ms_waiting s) \<longrightarrow> mk_pending (ms_mock s) k \<noteq> None)"

lemma mock_step_wf:
  assumes "mock_step opts s t" and "mock_system_wf s"
  shows "mock_system_wf t" and "mk_records (ms_mock s) \<subseteq>\<^sub>m mk_records (ms_mock t)"
proof -
  have wf: "mock_wf (ms_mock s)"
    "\<And>k h c. (k, h, Charged c) \<in> set (ms_answers s) \<Longrightarrow> mk_records (ms_mock s) k = Some c \<and> cr_hash c = h"
    "\<And>k h. (k, h) \<in> set (ms_waiting s) \<Longrightarrow> mk_pending (ms_mock s) k \<noteq> None"
    using assms(2) by (auto simp: mock_system_wf_def)
  have "mock_system_wf t \<and> mk_records (ms_mock s) \<subseteq>\<^sub>m mk_records (ms_mock t)"
    using assms(1)
  proof cases
    case (tick u)
    then show ?thesis using assms(2) by (simp add: mock_system_wf_def)
  next
    case (answers draw a out m)
    note sp = charge_arrives_spec[OF answers(2) wf(1)]
    have "mock_system_wf t"
      using sp(1) map_le_Some[OF sp(2)] sp(3) sp(6)[OF refl] wf(2,3) answers(1) by (auto simp: mock_system_wf_def)
    with sp(2) answers(1) show ?thesis by simp
  next
    case (waits draw a m)
    note sp = charge_arrives_spec[OF waits(2) wf(1)]
    have "mk_pending m k \<noteq> None" if "(k, h) \<in> set (ms_waiting s)" for k h
      using wf(3)[OF that] sp(7)[of k] by auto
    then have "mock_system_wf t"
      using sp(1) map_le_Some[OF sp(2)] sp(4)[OF refl] wf(2) waits(1) by (auto simp: mock_system_wf_def)
    with sp(2) waits(1) show ?thesis by simp
  next
    case (resumes k p out m)
    note sp = resume_charge_spec[OF resumes(4) wf(1) resumes(2)]
    have "mock_system_wf t"
      using sp(1) map_le_Some[OF sp(2)] sp(3) sp(4) wf(2,3) resumes(1) by (auto simp: mock_system_wf_def)
    with sp(2) resumes(1) show ?thesis by simp
  qed
  then show "mock_system_wf t" and "mk_records (ms_mock s) \<subseteq>\<^sub>m mk_records (ms_mock t)" by auto
qed

lemma mock_start_wf: "mock_system_wf (mock_start t)"
  by (simp add: mock_system_wf_def mock_start_def empty_mock_def mock_wf_def)

lemma mock_steps_wf:
  assumes "(mock_step opts)\<^sup>*\<^sup>* s t" and "mock_system_wf s"
  shows "mock_system_wf t \<and> mk_records (ms_mock s) \<subseteq>\<^sub>m mk_records (ms_mock t)"
  using assms
proof (induction rule: rtranclp_induct)
  case (step t u)
  then show ?case using mock_step_wf[of opts t u] by (blast intro: map_le_trans)
qed simp

lemma mock_reachable_wf: "mock_reachable opts s \<Longrightarrow> mock_system_wf s"
  using mock_steps_wf mock_start_wf by (auto simp: mock_reachable_def)

text \<open>
  C21. The provider charges an idempotency key once. However requests, timers and the clock
  interleave, all charges it ever reports for a key are one and the same record, reported only to
  requests with that record's hash; every later lookup of the key finds it, so a retried charge can
  never become a second one, and a key reused for another body is never told another's charge.
\<close>

theorem mock_charges_once:
  assumes "mock_reachable opts s" and "(mock_step opts)\<^sup>*\<^sup>* s t"
    and "(k, h1, Charged c1) \<in> set (ms_answers s)" and "(k, h2, Charged c2) \<in> set (ms_answers t)"
  shows "c1 = c2 \<and> h1 = h2 \<and> h1 = cr_hash c1 \<and> get_by_idempotency_key (ms_mock t) k = Some c1"
proof -
  from mock_reachable_wf[OF assms(1)] have s: "mock_system_wf s" .
  from mock_steps_wf[OF assms(2) s] have t: "mock_system_wf t"
    and le: "mk_records (ms_mock s) \<subseteq>\<^sub>m mk_records (ms_mock t)" by simp_all
  from s assms(3) have "mk_records (ms_mock s) k = Some c1" "cr_hash c1 = h1" by (auto simp: mock_system_wf_def)
  moreover from t assms(4) have "mk_records (ms_mock t) k = Some c2" "cr_hash c2 = h2"
    by (auto simp: mock_system_wf_def)
  ultimately show ?thesis using map_le_Some[OF le] by (auto simp: get_by_idempotency_key_def)
qed

definition sample_attempt :: charge_attempt where
  "sample_attempt = \<lparr>at_key = ''k'', at_hash = ''h'', at_last4 = ''0002'',
     at_body = \<lparr>bd_card_number = ''4000000000000002'', bd_amount_cents = js_int 5, bd_currency = ''USD'',
       bd_description = ''d''\<rparr>, at_fresh_id = ''1''\<rparr>"

definition sample_charged :: "mock_system" where
  "sample_charged = (case charge_arrives default_mock_options 0 0 sample_attempt empty_mock of
     (r, m) \<Rightarrow> (mock_start 0)\<lparr>ms_mock := m, ms_answers := [(''k'', ''h'', case r of Answered out \<Rightarrow> out | Waiting \<Rightarrow> KeyReused)]\<rparr>)"

lemma sample_charged:
  "mock_step default_mock_options (mock_start 0) sample_charged"
  "\<exists>c. ms_answers sample_charged = [(''k'', ''h'', Charged c)]"
proof -
  have "\<exists>c m. charge_arrives default_mock_options 0 0 sample_attempt empty_mock = (Answered (Charged c), m)"
    by (simp add: charge_arrives_def empty_mock_def process_charge_def sample_attempt_def CARD_TIMEOUT_LAST4_def
        CARD_PROVIDER_ERROR_LAST4_def CARD_DECLINED_LAST4_def split: prod.splits)
  then obtain c m where m: "charge_arrives default_mock_options 0 0 sample_attempt empty_mock = (Answered (Charged c), m)"
    by blast
  then show "\<exists>c. ms_answers sample_charged = [(''k'', ''h'', Charged c)]" by (simp add: sample_charged_def)
  have "mock_step default_mock_options (mock_start 0) ((mock_start 0)\<lparr>ms_mock := m,
      ms_answers := (at_key sample_attempt, at_hash sample_attempt, Charged c) # ms_answers (mock_start 0)\<rparr>)"
    by (rule mock_step.answers[where draw = 0]) (simp add: mock_start_def m)
  then show "mock_step default_mock_options (mock_start 0) sample_charged"
    using m by (simp add: sample_charged_def mock_start_def sample_attempt_def)
qed

theorem mock_charges_once_witness:
  "\<exists>c. ms_answers sample_charged = [(''k'', ''h'', Charged c)] \<and>
     get_by_idempotency_key (ms_mock sample_charged) ''k'' = Some c"
proof -
  from sample_charged(2) obtain c where c: "ms_answers sample_charged = [(''k'', ''h'', Charged c)]" by blast
  have "mock_reachable default_mock_options sample_charged"
    using sample_charged(1) by (auto simp: mock_reachable_def)
  from mock_charges_once[OF this rtranclp.rtrancl_refl, of "''k''" "''h''" c "''h''" c] c show ?thesis by auto
qed

subsection \<open>Every request is answered\<close>

lemma random_between_le:
  assumes "lo \<le> hi"
  shows "lo \<le> random_between draw lo hi" and "random_between draw lo hi \<le> hi"
proof -
  have "0 \<le> frac draw * of_int (hi - lo)" "frac draw * of_int (hi - lo) \<le> of_int (hi - lo)"
    using frac_lt_1[of draw] assms by (simp_all add: frac_ge_0 mult_left_le_one_le less_imp_le)
  then have "0 \<le> \<lfloor>frac draw * of_int (hi - lo)\<rfloor>" "\<lfloor>frac draw * of_int (hi - lo)\<rfloor> \<le> hi - lo"
    using floor_mono[of "frac draw * of_int (hi - lo)" "of_int (hi - lo)"] by simp_all
  then show "lo \<le> random_between draw lo hi" and "random_between draw lo hi \<le> hi"
    by (simp_all add: random_between_def)
qed

lemma mock_step_due:
  assumes "mock_step default_mock_options s t" and "mock_system_wf s"
    and "\<And>k p. mk_pending (ms_mock s) k = Some p \<Longrightarrow> pc_due p \<le> ms_now s + 30000"
    and new: "mk_pending (ms_mock t) k = Some p"
  shows "pc_due p \<le> ms_now t + 30000"
  using assms(1)
proof cases
  case (tick u)
  with assms(3)[of k p] new show ?thesis by simp
next
  case (answers draw a out m)
  with assms(3)[of k p] charge_arrives_spec(6)[OF answers(2)] assms(2) new show ?thesis
    by (simp add: mock_system_wf_def)
next
  case (waits draw a m)
  with assms(3)[of k p] charge_arrives_spec(8)[OF waits(2), of k p] assms(2) new
    random_between_le(2)[of 200 600 draw] show ?thesis
    by (auto simp: mock_system_wf_def default_mock_options_def)
next
  case (resumes k' p' out m)
  with assms(3)[of k p] resume_charge_spec(4)[OF resumes(4) _ resumes(2)] assms(2) new show ?thesis
    by (auto simp: mock_system_wf_def split: if_splits)
qed

lemma mock_reachable_due:
  assumes "mock_reachable default_mock_options s" and "mk_pending (ms_mock s) k = Some p"
  shows "pc_due p \<le> ms_now s + 30000"
proof -
  from assms obtain t0 where "(mock_step default_mock_options)\<^sup>*\<^sup>* (mock_start t0) s"
    by (auto simp: mock_reachable_def)
  then have "\<forall>k p. mk_pending (ms_mock s) k = Some p \<longrightarrow> pc_due p \<le> ms_now s + 30000"
  proof (induction rule: rtranclp_induct)
    case base
    then show ?case by (simp add: mock_start_def empty_mock_def)
  next
    case (step t u)
    have "mock_system_wf t" using step(1) mock_steps_wf[OF _ mock_start_wf] by blast
    from mock_step_due[OF step(2) this] step(3) show ?case by blast
  qed
  with assms(2) show ?thesis by blast
qed

text \<open>
  No request of the provider is left hanging: from any reachable state a request that waits
  can be answered within thirty seconds, by letting the clock reach the timer its key waits on.
\<close>

lemma mock_answers_everyone:
  assumes "mock_reachable default_mock_options s" and "(k, h) \<in> set (ms_waiting s)"
  shows "\<exists>t out. (mock_step default_mock_options)\<^sup>*\<^sup>* s t \<and> ms_now t \<le> ms_now s + 30000 \<and>
    (k, h, out) \<in> set (ms_answers t) \<and> (\<forall>h. (k, h) \<notin> set (ms_waiting t))"
proof -
  from mock_reachable_wf[OF assms(1)] assms(2) obtain p where
    p: "mk_pending (ms_mock s) k = Some p" by (fastforce simp: mock_system_wf_def)
  let ?now = "max (ms_now s) (pc_due p)"
  let ?s = "s\<lparr>ms_now := ?now\<rparr>"
  obtain out m where r: "resume_charge ?now p (ms_mock s) = (out, m)" by fastforce
  define t where "t = ?s\<lparr>ms_mock := m, ms_waiting := filter (\<lambda>w. fst w \<noteq> k) (ms_waiting ?s),
      ms_answers := map (\<lambda>(k, h). (k, h, waiter_outcome p h out)) (filter (\<lambda>w. fst w = k) (ms_waiting ?s)) @
        ms_answers ?s\<rparr>"
  have "mock_step default_mock_options s ?s" by (rule mock_step.tick) simp
  moreover have "mock_step default_mock_options ?s t"
    unfolding t_def using p r by (intro mock_step.resumes) simp_all
  ultimately have "(mock_step default_mock_options)\<^sup>*\<^sup>* s t"
    by (meson rtranclp.rtrancl_into_rtrancl rtranclp.rtrancl_refl)
  moreover have "ms_now t \<le> ms_now s + 30000" using mock_reachable_due[OF assms(1) p] by (simp add: t_def)
  moreover have "(k, h, waiter_outcome p h out) \<in> set (ms_answers t)" using assms(2) by (force simp: t_def)
  moreover have "\<forall>h. (k, h) \<notin> set (ms_waiting t)" by (simp add: t_def)
  ultimately show ?thesis by blast
qed

definition sample_waiting :: mock_system where
  "sample_waiting = (mock_start 0)\<lparr>ms_mock := snd (charge_arrives default_mock_options 0 0
     (sample_attempt\<lparr>at_last4 := ''0004''\<rparr>) empty_mock), ms_waiting := [(''k'', ''h'')]\<rparr>"

end
