(* ===== verification/Mock_Server.thy ===== *)
theory Mock_Server
  imports Payments_Mock
begin

section \<open>The provider's HTTP surface, and the gateway talking to it\<close>

text \<open>
  \<^verbatim>\<open>payments-mock/src/server.ts\<close>: the two routes with their status codes and bodies, and the server
  as a \<open>fetch\<close> the gateway of \<open>Payment_Gateway\<close> can be run against over a network that loses
  nothing. A client that gives up does not stop the provider: the pending charge goes on, so at the
  next request of its key the server first runs the timer that has fired meanwhile. Charges of
  different keys do not affect each other, so only that key's timer matters.
\<close>

subsection \<open>Request schema and responses\<close>

definition nonempty_text :: "json option \<Rightarrow> string option" where
  "nonempty_text v = (case v of Some (JStr s) \<Rightarrow> if s = [] then None else Some s | _ \<Rightarrow> None)"

definition charge_body_of :: "json option \<Rightarrow> charge_body option" where
  "charge_body_of b = (case b of
     Some (JObj kvs) \<Rightarrow>
       (case (nonempty_text (map_of kvs ''cardNumber''), map_of kvs ''amountCents'',
           nonempty_text (map_of kvs ''currency''), map_of kvs ''description'') of
          (Some number, Some (JNum amount), Some cur, Some (JStr desc)) \<Rightarrow>
            Some \<lparr>bd_card_number = number, bd_amount_cents = amount, bd_currency = cur, bd_description = desc\<rparr>
        | _ \<Rightarrow> None)
   | _ \<Rightarrow> None)"

definition error_body :: "string \<Rightarrow> json" where
  "error_body e = JObj [(''error'', JStr e)]"

fun charge_status_text :: "charge_status \<Rightarrow> string" where
  "charge_status_text ChApproved = ''approved''"
| "charge_status_text ChDeclined = ''declined''"

text \<open>The fields both bodies share; \<open>JSON.stringify\<close> leaves out an undefined \<open>declineCode\<close>.\<close>

definition record_fields :: "charge_record \<Rightarrow> (string \<times> json) list" where
  "record_fields r =
     (''status'', JStr (charge_status_text (cr_status r))) #
     (case cr_decline_code r of None \<Rightarrow> [] | Some c \<Rightarrow> [(''declineCode'', JStr c)]) @
     [(''amountCents'', JNum (cr_amount_cents r)), (''currency'', JStr (cr_currency r)),
      (''cardLast4'', JStr (cr_last4 r)), (''createdAt'', JStr (iso_string (cr_created_at r)))]"

definition to_charge_response :: "charge_record \<Rightarrow> json" where
  "to_charge_response r = JObj ((''id'', JStr (cr_id r)) # record_fields r)"

definition to_charge_status_response :: "charge_record \<Rightarrow> json" where
  "to_charge_status_response r =
     JObj ((''id'', JStr (cr_id r)) # (''idempotencyKey'', JStr (cr_key r)) # record_fields r)"

fun reply_to_charge :: "charge_outcome \<Rightarrow> nat \<times> json" where
  "reply_to_charge KeyReused = (422, error_body ''idempotency_key_reused'')"
| "reply_to_charge ProviderError = (500, error_body ''provider_error'')"
| "reply_to_charge (Charged r) = (if cr_status r = ChApproved then 200 else 402, to_charge_response r)"

definition reply_to_lookup :: "charge_record option \<Rightarrow> nat \<times> json" where
  "reply_to_lookup found = (case found of
     None \<Rightarrow> (404, error_body ''not_found'')
   | Some r \<Rightarrow> (200, to_charge_status_response r))"

subsection \<open>Percent-decoding of a path segment\<close>

text \<open>
  The inverse of \<open>encodeURIComponent\<close>, as the router applies it to the path parameter: UTF-8 of
  code units below 256, anything else is malformed here.
\<close>

definition hex_val :: "char \<Rightarrow> nat option" where
  "hex_val c = (if is_digit c then Some (digit_val c)
     else if 65 \<le> code c \<and> code c \<le> 70 then Some (code c - 55)
     else if 97 \<le> code c \<and> code c \<le> 102 then Some (code c - 87) else None)"

definition byte_val :: "char \<Rightarrow> char \<Rightarrow> nat option" where
  "byte_val a b = (case (hex_val a, hex_val b) of (Some x, Some y) \<Rightarrow> Some (16 * x + y) | _ \<Rightarrow> None)"

definition cons_option :: "char \<Rightarrow> string option \<Rightarrow> string option" where
  "cons_option c s = map_option ((#) c) s"

fun decode_uri_component :: "string \<Rightarrow> string option" where
  "decode_uri_component [] = Some []"
| "decode_uri_component (c # s) =
    (if c \<noteq> CHR ''%'' then cons_option c (decode_uri_component s)
     else case s of
       a # b # s1 \<Rightarrow> (case byte_val a b of
         None \<Rightarrow> None
       | Some x \<Rightarrow>
           if x < 128 then cons_option (char_of x) (decode_uri_component s1)
           else (case s1 of
             p # a1 # b1 # s2 \<Rightarrow> (case byte_val a1 b1 of
               None \<Rightarrow> None
             | Some y \<Rightarrow>
                 if p = CHR ''%'' \<and> (x = 194 \<or> x = 195) \<and> 128 \<le> y \<and> y < 192
                 then cons_option (char_of ((x - 192) * 64 + (y - 128))) (decode_uri_component s2)
                 else None)
           | _ \<Rightarrow> None))
     | _ \<Rightarrow> None)"

lemma hex_val_digit: "n < 16 \<Longrightarrow> hex_val (hex_digit n) = Some n"
  by (auto simp: hex_val_def hex_digit_def is_digit_def digit_val_def code_def)

lemma byte_val_percent: "n < 256 \<Longrightarrow> byte_val (hex_digit (n div 16)) (hex_digit (n mod 16)) = Some n"
  by (simp add: byte_val_def hex_val_digit less_mult_imp_div_less)

lemma decode_percent:
  "x < 128 \<Longrightarrow> decode_uri_component (percent x @ s) = cons_option (char_of x) (decode_uri_component s)"
  "x = 194 \<or> x = 195 \<Longrightarrow> 128 \<le> y \<Longrightarrow> y < 192 \<Longrightarrow> decode_uri_component (percent x @ percent y @ s) =
     cons_option (char_of ((x - 192) * 64 + (y - 128))) (decode_uri_component s)"
  using byte_val_percent[of x] byte_val_percent[of y] by (auto simp: percent_def)

lemma decode_encode_char:
  "decode_uri_component ((if is_uri_unreserved c then [c]
     else if code c < 128 then percent (code c)
     else percent (192 + code c div 64) @ percent (128 + code c mod 64)) @ s) =
   cons_option c (decode_uri_component s)"
proof -
  have lt: "code c < 256" by (simp add: code_def)
  have c: "char_of (code c) = c" by (simp add: code_def)
  show ?thesis
  proof (cases "is_uri_unreserved c")
    case True
    then have "c \<noteq> CHR ''%''" by (auto simp: is_uri_unreserved_def code_def is_digit_def)
    with True show ?thesis by simp
  next
    case False
    show ?thesis
    proof (cases "code c < 128")
      case True
      with False show ?thesis by (simp add: decode_percent(1) c)
    next
      case ge: False
      let ?x = "192 + code c div 64" and ?y = "128 + code c mod 64"
      from ge lt have "?x = 194 \<or> ?x = 195" by linarith
      moreover have "(?x - 192) * 64 + (?y - 128) = code c" by simp
      ultimately show ?thesis using False ge decode_percent(2)[of ?x ?y s] c by simp
    qed
  qed
qed

lemma lookup_key_ok: "decode_uri_component (encode_uri_component key) = Some key"
proof (induction key)
  case Nil
  then show ?case by (simp add: encode_uri_component_def)
next
  case (Cons c key)
  then show ?case
    using decode_encode_char[of c "encode_uri_component key"]
    by (simp add: encode_uri_component_def cons_option_def)
qed

text \<open>
  Every idempotency key survives the trip through the URL: the router decodes the path
  segment the gateway builds with \<open>encodeURIComponent\<close> back to the key itself, whatever it
  contains; in particular two keys never share a path.
\<close>

lemma lookup_key_roundtrip:
  "decode_uri_component (encode_uri_component key) = Some key \<and>
   (rq_path (get_charge_request key) = rq_path (get_charge_request key') \<longleftrightarrow> key = key')"
proof -
  have "encode_uri_component key = encode_uri_component key' \<longleftrightarrow> key = key'"
    by (metis lookup_key_ok option.inject)
  then show ?thesis by (simp add: lookup_key_ok get_charge_request_def)
qed

subsection \<open>The server as a remote side\<close>

record mock_env =
  me_options :: mock_options
  me_sha256 :: "string \<Rightarrow> string"
  me_fraction_text :: "rat \<Rightarrow> string"
  me_draw :: "int \<Rightarrow> string \<Rightarrow> rat"
  me_fresh_id :: "int \<Rightarrow> string \<Rightarrow> string"

text \<open>What \<open>charge\<close> computes on arrival, at time \<open>now\<close>.\<close>

definition attempt_of :: "mock_env \<Rightarrow> int \<Rightarrow> string \<Rightarrow> charge_body \<Rightarrow> charge_attempt" where
  "attempt_of env now key b = (let l4 = card_last4 (bd_card_number b) in
     \<lparr>at_key = key, at_hash = compute_request_hash (me_sha256 env) (me_fraction_text env) l4 b,
      at_last4 = l4, at_body = b, at_fresh_id = me_fresh_id env now key\<rparr>)"

definition catch_up :: "int \<Rightarrow> string \<Rightarrow> mock \<Rightarrow> mock" where
  "catch_up now key m = (case mk_pending m key of
     Some p \<Rightarrow> if pc_due p \<le> now then snd (resume_charge (pc_due p) p m) else m
   | None \<Rightarrow> m)"

text \<open>The answer to a charge request, with the time it takes.\<close>

definition post_charge :: "mock_env \<Rightarrow> int \<Rightarrow> string \<Rightarrow> charge_body \<Rightarrow> mock \<Rightarrow> (nat \<times> nat \<times> json) \<times> mock" where
  "post_charge env now key b m =
    (let a = attempt_of env now key b in
     case charge_arrives (me_options env) now (me_draw env now key) a (catch_up now key m) of
       (Answered out, m1) \<Rightarrow> ((0, reply_to_charge out), m1)
     | (Waiting, m1) \<Rightarrow>
         (case mk_pending m1 key of
            Some p \<Rightarrow> ((nat (pc_due p - now),
              reply_to_charge (waiter_outcome p (at_hash a) (fst (resume_charge (pc_due p) p m1)))), m1)
          | None \<Rightarrow> ((0, reply_to_charge ProviderError), m1)))"

definition lookup_path :: string where
  "lookup_path = ''/charge/''"

definition mock_fetch :: "mock_env \<Rightarrow> mock fetch" where
  "mock_fetch env now req m =
    (if rq_method req = ''POST'' \<and> rq_path req = ''/charge'' then
       (case (nonempty_text (map_option JStr (rq_key req)), charge_body_of (rq_body req)) of
          (Some key, Some b) \<Rightarrow>
            (case post_charge env now key b m of
               ((ms, status, reply), m1) \<Rightarrow> (NetResponse ms status ms (Some reply), m1))
        | _ \<Rightarrow> (NetResponse 0 400 0 (Some (error_body ''invalid_request'')), m))
     else if rq_method req = ''GET'' \<and> take (length lookup_path) (rq_path req) = lookup_path then
       (case decode_uri_component (drop (length lookup_path) (rq_path req)) of
          None \<Rightarrow> (NetResponse 0 400 0 None, m)
        | Some key \<Rightarrow>
            (let m1 = catch_up now key m; (status, reply) = reply_to_lookup (get_by_idempotency_key m1 key)
             in (NetResponse 0 status 0 (Some reply), m1)))
     else (NetResponse 0 404 0 None, m))"

subsection \<open>One request through the gateway\<close>

lemma guarded_closed:
  assumes "current_state (net_breaker s) = CLOSED"
    and "operation s = (r, s')" and "isl r \<Longrightarrow> consecutive_failures (net_breaker s) + 1 < failure_threshold opts"
  shows "guarded opts e operation s = (r, s'\<lparr>net_breaker := (net_breaker s)\<lparr>consecutive_failures :=
    (if isl r then consecutive_failures (net_breaker s) + 1 else 0)\<rparr>\<rparr>)"
  using assms by (cases r) (simp_all add: guarded_def execute_def begin_call_def maybe_half_open_def
      finish_call_def on_success_def on_failure_def Let_def)

lemma default_threshold [simp]: "failure_threshold (breaker_opts default_gateway_options) = 5"
  by (simp add: default_gateway_options_def default_breaker_options_def BREAKER_FAILURE_THRESHOLD_def)

lemma default_gateway_sel [simp]:
  "max_attempts default_gateway_options = 3" "timeout_ms default_gateway_options = 2000"
  "base_delay_ms default_gateway_options = 200"
  by (simp_all add: default_gateway_options_def MAX_ATTEMPTS_def ATTEMPT_TIMEOUT_MS_def BACKOFF_BASE_MS_def)

lemma run_attempts_answered:
  assumes "current_state (net_breaker s) = CLOSED" and "operation s = (Inr resp, s')"
  shows "run_attempts default_gateway_options draw operation s =
    (Inr resp, s'\<lparr>net_breaker := (net_breaker s)\<lparr>consecutive_failures := 0\<rparr>\<rparr>)"
  using guarded_closed[where s = s and operation = operation, OF assms]
  by (simp add: run_attempts_def with_retry_def with_retry_from.simps)

lemma sleep_sel [simp]:
  "net_breaker (sleep draw base n s) = net_breaker s" "net_remote (sleep draw base n s) = net_remote s"
  by (simp_all add: sleep_def)

lemma run_attempts_three_failures:
  assumes closed: "current_state (net_breaker s) = CLOSED" "consecutive_failures (net_breaker s) = 0"
    and e: "is_retryable (Inl e :: gateway_error + provider_response)"
    and start: "P 0 s"
    and fails: "\<And>k t. k < 3 \<Longrightarrow> P k t \<Longrightarrow> \<exists>t'. operation t = (Inl e, t') \<and>
      (\<forall>b. P (Suc k) (sleep draw 200 (Suc k) (t'\<lparr>net_breaker := b\<rparr>)))"
  shows "\<exists>t t' b. run_attempts default_gateway_options draw operation s = (Inl e, t'\<lparr>net_breaker := b\<rparr>) \<and>
    operation t = (Inl e, t') \<and> P 2 t \<and> current_state b = CLOSED \<and> consecutive_failures b = 3"
proof -
  let ?g = "guarded (breaker_opts default_gateway_options) GwCircuitOpen operation"
  have step: "\<exists>t' b. ?g t = (Inl e, t'\<lparr>net_breaker := b\<rparr>) \<and> operation t = (Inl e, t') \<and>
      current_state b = CLOSED \<and> consecutive_failures b = Suc k \<and>
      P (Suc k) (sleep draw 200 (Suc k) (t'\<lparr>net_breaker := b\<rparr>))"
    if "k < 3" "P k t" "current_state (net_breaker t) = CLOSED" "consecutive_failures (net_breaker t) = k" for k t
  proof -
    from fails[OF that(1,2)] obtain t' where t': "operation t = (Inl e, t')"
      "\<forall>b. P (Suc k) (sleep draw 200 (Suc k) (t'\<lparr>net_breaker := b\<rparr>))" by blast
    show ?thesis using guarded_closed[where s = t and operation = operation and
          opts = "breaker_opts default_gateway_options", OF that(3) t'(1)] that t'
      by (intro exI[of _ t'] exI[of _ "(net_breaker t)\<lparr>consecutive_failures := Suc k\<rparr>"]) auto
  qed
  from step[of 0 s] closed start obtain t1 b1 where 1: "?g s = (Inl e, t1\<lparr>net_breaker := b1\<rparr>)"
    "current_state b1 = CLOSED" "consecutive_failures b1 = Suc 0"
    "P (Suc 0) (sleep draw 200 (Suc 0) (t1\<lparr>net_breaker := b1\<rparr>))" by auto
  from step[of "Suc 0" "sleep draw 200 (Suc 0) (t1\<lparr>net_breaker := b1\<rparr>)"] 1 obtain t2 b2 where
    2: "?g (sleep draw 200 (Suc 0) (t1\<lparr>net_breaker := b1\<rparr>)) = (Inl e, t2\<lparr>net_breaker := b2\<rparr>)"
    "current_state b2 = CLOSED" "consecutive_failures b2 = Suc (Suc 0)"
    "P (Suc (Suc 0)) (sleep draw 200 (Suc (Suc 0)) (t2\<lparr>net_breaker := b2\<rparr>))" by auto
  from step[of "Suc (Suc 0)" "sleep draw 200 (Suc (Suc 0)) (t2\<lparr>net_breaker := b2\<rparr>)"] 2 obtain t3 b3 where
    3: "?g (sleep draw 200 (Suc (Suc 0)) (t2\<lparr>net_breaker := b2\<rparr>)) = (Inl e, t3\<lparr>net_breaker := b3\<rparr>)"
    "operation (sleep draw 200 (Suc (Suc 0)) (t2\<lparr>net_breaker := b2\<rparr>)) = (Inl e, t3)"
    "current_state b3 = CLOSED" "consecutive_failures b3 = 3" by auto
  have "run_attempts default_gateway_options draw operation s = (Inl e, t3\<lparr>net_breaker := b3\<rparr>)"
    using 1(1) 2(1) 3(1) e by (simp add: run_attempts_def with_retry_def with_retry_from.simps)
  with 2 3 show ?thesis by (intro exI conjI) (auto simp: numeral_2_eq_2)
qed

lemma provider_call_reply:
  assumes "fetch (net_now s) req (net_remote s) = (NetResponse ms status ms (Some (JObj kvs)), m)" and "ms < 2000"
  shows "provider_call default_gateway_options fetch req s =
    (if 500 \<le> status then Inl (GwProviderError status) else Inr \<lparr>http_status = status, http_body = Some kvs\<rparr>,
     elapse ms (s\<lparr>net_remote := m\<rparr>))"
  using assms
  by (auto simp: provider_call_def fetch_with_timeout_def Let_def read_body_def elapse_def as_record_def)

lemma provider_call_late:
  assumes "fetch (net_now s) req (net_remote s) = (NetResponse ms status body_ms body, m)" and "2000 \<le> ms"
  shows "provider_call default_gateway_options fetch req s =
    (Inl GwTimeout, elapse 2000 (s\<lparr>net_remote := m\<rparr>))"
  using assms by (auto simp: provider_call_def fetch_with_timeout_def Let_def classify_network_error_def
      classify_fetch_error_def timeout_error_def)

lemma mock_fetch_lookup:
  "mock_fetch env now (get_charge_request key) m =
    (let m1 = catch_up now key m; (status, reply) = reply_to_lookup (get_by_idempotency_key m1 key)
     in (NetResponse 0 status 0 (Some reply), m1))"
  by (simp add: mock_fetch_def get_charge_request_def lookup_path_def lookup_key_ok)

lemma mock_fetch_charge:
  assumes "cmd_idempotency_key c \<noteq> []" and "cmd_card_number c \<noteq> []" and "cmd_currency c \<noteq> []"
  shows "mock_fetch env now (post_charge_request c) m =
    (case post_charge env now (cmd_idempotency_key c)
       \<lparr>bd_card_number = cmd_card_number c, bd_amount_cents = js_int (cmd_amount_minor c),
        bd_currency = cmd_currency c, bd_description = cmd_description c\<rparr> m of
       ((ms, status, reply), m1) \<Rightarrow> (NetResponse ms status ms (Some reply), m1))"
  using assms
  by (simp add: mock_fetch_def post_charge_request_def nonempty_text_def charge_body_of_def charge_payload_def)

subsection \<open>What a status query learns\<close>

definition record_verdict :: "charge_record option \<Rightarrow> payment_status" where
  "record_verdict found = (case found of None \<Rightarrow> PS_FAILED
     | Some r \<Rightarrow> if cr_status r = ChApproved then PS_CAPTURED else PS_DECLINED)"

lemma lookup_status:
  assumes "reply_to_lookup found = (status, JObj kvs)"
  shows "res_status (map_status_response \<lparr>http_status = status, http_body = Some kvs\<rparr>) = record_verdict found"
  using assms
  by (cases found; cases "cr_status (the found)")
    (auto simp: reply_to_lookup_def map_status_response_status record_verdict_def read_string_field_def field_def
      to_charge_status_response_def record_fields_def error_body_def)

lemma reply_to_lookup_obj:
  obtains status kvs where "reply_to_lookup found = (status, JObj kvs)" "status < 500"
  by (cases found) (auto simp: reply_to_lookup_def error_body_def to_charge_status_response_def)

lemma status_query_result:
  assumes "current_state (net_breaker s) = CLOSED"
  shows "res_status (fst (gateway_get_status default_gateway_options draw (mock_fetch env) key s)) =
    record_verdict (get_by_idempotency_key (catch_up (net_now s) key (net_remote s)) key)"
proof -
  let ?m = "catch_up (net_now s) key (net_remote s)"
  obtain status kvs where r: "reply_to_lookup (get_by_idempotency_key ?m key) = (status, JObj kvs)" "status < 500"
    by (rule reply_to_lookup_obj)
  have "provider_call default_gateway_options (mock_fetch env) (get_charge_request key) s =
      (Inr \<lparr>http_status = status, http_body = Some kvs\<rparr>, elapse 0 (s\<lparr>net_remote := ?m\<rparr>))"
    using r by (subst provider_call_reply[where ms = 0 and status = status and kvs = kvs and m = ?m])
      (simp_all add: mock_fetch_lookup Let_def)
  from run_attempts_answered[where s = s and draw = draw and
      operation = "provider_call default_gateway_options (mock_fetch env) (get_charge_request key)", OF assms this] lookup_status[OF r(1)] show ?thesis
    by (simp add: gateway_get_status_def)
qed

definition sample_mock_env :: mock_env where
  "sample_mock_env = \<lparr>me_options = default_mock_options, me_sha256 = (\<lambda>s. s), me_fraction_text = (\<lambda>_. ''?''),
     me_draw = (\<lambda>_ _. 1 / 2), me_fresh_id = (\<lambda>_ _. ''1'')\<rparr>"

definition sample_net :: "mock net" where
  "sample_net = \<lparr>net_clock = 0, net_breaker = new_breaker, net_remote = empty_mock\<rparr>"

subsection \<open>A charge and the query after it\<close>

text \<open>What the gateway reports, its failure code, and what a status query then reports, by card.\<close>

definition charge_verdict :: "string \<Rightarrow> payment_status \<times> payment_failure_code option \<times> payment_status" where
  "charge_verdict l4 =
    (if l4 = CARD_DECLINED_LAST4 then (PS_DECLINED, Some CARD_DECLINED, PS_DECLINED)
     else if l4 = CARD_PROVIDER_ERROR_LAST4 then (PS_UNKNOWN, Some PROVIDER_ERROR, PS_FAILED)
     else if l4 = CARD_TIMEOUT_LAST4 then (PS_UNKNOWN, Some TIMEOUT, PS_CAPTURED)
     else (PS_CAPTURED, None, PS_CAPTURED))"

definition unused_key :: "string \<Rightarrow> mock \<Rightarrow> bool" where
  "unused_key key m \<longleftrightarrow> mk_records m key = None \<and> mk_pending m key = None"

lemma catch_up_nothing [simp]: "mk_pending m key = None \<Longrightarrow> catch_up now key m = m"
  by (simp add: catch_up_def)

lemma gateway_charge_answered:
  assumes "current_state (net_breaker s) = CLOSED"
    and "fetch (net_now s) (post_charge_request c) (net_remote s) = (NetResponse ms status ms (Some (JObj kvs)), m)"
    and "ms < 2000" and "status < 500"
  shows "\<exists>r s1. gateway_charge default_gateway_options draw fetch c s = (r, s1) \<and>
    res_status r = (if status = 200 then PS_CAPTURED else if status = 402 then PS_DECLINED else PS_UNKNOWN) \<and>
    res_failure_code r = (if status = 200 then None else if status = 402 then Some CARD_DECLINED
      else Some INVALID_REQUEST) \<and>
    net_clock s1 = net_clock s + of_nat ms \<and> net_remote s1 = m \<and> current_state (net_breaker s1) = CLOSED"
proof -
  let ?s = "elapse ms (s\<lparr>net_remote := m\<rparr>)"
  have "provider_call default_gateway_options fetch (post_charge_request c) s =
      (Inr \<lparr>http_status = status, http_body = Some kvs\<rparr>, ?s)"
    using assms(4) by (subst provider_call_reply[where fetch = fetch and s = s and req = "post_charge_request c", OF assms(2,3)]) simp
  from run_attempts_answered[where s = s and draw = draw and s' = ?s and
      operation = "provider_call default_gateway_options fetch (post_charge_request c)", OF assms(1) this] assms(1)
  show ?thesis
    by (simp add: gateway_charge_def split_def Let_def map_charge_response_status)
      (simp add: map_charge_response_def Let_def)
qed

lemma charge_fails:
  assumes "run_attempts default_gateway_options draw
      (provider_call default_gateway_options fetch (post_charge_request c)) s = (Inl e, s1)"
  shows "\<exists>r. gateway_charge default_gateway_options draw fetch c s = (r, s1) \<and> res_status r = PS_UNKNOWN \<and>
    res_failure_code r = Some (classify_thrown_failure e)"
  using assms by (simp add: gateway_charge_def build_unknown_result_def split_def Let_def)

lemma post_charge_unused:
  fixes env now key b
  defines "a \<equiv> attempt_of env now key b"
  assumes "unused_key key m" and "me_options env = default_mock_options"
  shows "at_last4 a = CARD_DECLINED_LAST4 \<Longrightarrow> \<exists>r. post_charge env now key b m =
      ((0, 402, to_charge_response r), m\<lparr>mk_records := (mk_records m)(key \<mapsto> r)\<rparr>) \<and> cr_status r = ChDeclined"
    and "at_last4 a = CARD_PROVIDER_ERROR_LAST4 \<Longrightarrow>
      post_charge env now key b m = ((0, 500, error_body ''provider_error''), m)"
    and "at_last4 a = CARD_TIMEOUT_LAST4 \<Longrightarrow> \<exists>reply m'. post_charge env now key b m = ((30000, reply), m') \<and>
      (\<exists>r. mk_records m' key = Some r \<and> cr_status r = ChApproved) \<and>
      (\<exists>p. mk_pending m' key = Some p \<and> pc_due p = now + 30000)"
    and "at_last4 a \<notin> {CARD_DECLINED_LAST4, CARD_PROVIDER_ERROR_LAST4, CARD_TIMEOUT_LAST4} \<Longrightarrow>
      \<exists>ms kvs m'. post_charge env now key b m = ((ms, 200, JObj kvs), m') \<and> ms \<le> 600 \<and>
        (\<exists>p. mk_pending m' key = Some p \<and> pc_due p = now + int ms \<and> pc_suspended p = Approving \<and>
          at_key (pc_attempt p) = key)"
proof -
  have free: "mk_records m key = None" "mk_pending m key = None" using assms(2) by (simp_all add: unused_key_def)
  have key: "at_key a = key" by (simp add: a_def attempt_of_def Let_def)
  have opts: "card_0004_delay_ms (me_options env) = 30000" "approved_delay_min_ms (me_options env) = 200"
    "approved_delay_max_ms (me_options env) = 600" using assms(3) by (simp_all add: default_mock_options_def)
  have codes: "CARD_DECLINED_LAST4 \<noteq> CARD_TIMEOUT_LAST4" "CARD_PROVIDER_ERROR_LAST4 \<noteq> CARD_TIMEOUT_LAST4"
    "CARD_DECLINED_LAST4 \<noteq> CARD_PROVIDER_ERROR_LAST4"
    by (simp_all add: CARD_DECLINED_LAST4_def CARD_TIMEOUT_LAST4_def CARD_PROVIDER_ERROR_LAST4_def)
  note post = post_charge_def[of env now key b m, folded a_def, unfolded Let_def, folded a_def]
  note unfolds = post charge_arrives_def process_charge_def key free opts
  show "at_last4 a = CARD_DECLINED_LAST4 \<Longrightarrow> \<exists>r. post_charge env now key b m =
      ((0, 402, to_charge_response r), m\<lparr>mk_records := (mk_records m)(key \<mapsto> r)\<rparr>) \<and> cr_status r = ChDeclined"
    using codes by (auto simp: unfolds store_charge_def Let_def)
  show "at_last4 a = CARD_PROVIDER_ERROR_LAST4 \<Longrightarrow>
      post_charge env now key b m = ((0, 500, error_body ''provider_error''), m)"
    using codes by (simp add: unfolds)
  show "at_last4 a = CARD_TIMEOUT_LAST4 \<Longrightarrow> \<exists>reply m'. post_charge env now key b m = ((30000, reply), m') \<and>
      (\<exists>r. mk_records m' key = Some r \<and> cr_status r = ChApproved) \<and>
      (\<exists>p. mk_pending m' key = Some p \<and> pc_due p = now + 30000)"
    by (simp add: unfolds store_charge_def Let_def)
  show "at_last4 a \<notin> {CARD_DECLINED_LAST4, CARD_PROVIDER_ERROR_LAST4, CARD_TIMEOUT_LAST4} \<Longrightarrow>
      \<exists>ms kvs m'. post_charge env now key b m = ((ms, 200, JObj kvs), m') \<and> ms \<le> 600 \<and>
        (\<exists>p. mk_pending m' key = Some p \<and> pc_due p = now + int ms \<and> pc_suspended p = Approving \<and>
          at_key (pc_attempt p) = key)"
    using random_between_le[of 200 600 "me_draw env now key"]
    by (auto simp: unfolds resume_charge_def store_charge_def Let_def waiter_outcome_def to_charge_response_def)
qed

text \<open>While a key's timer runs, a request of that key waits for it and changes nothing.\<close>

lemma post_charge_waits:
  assumes "mk_pending m key = Some p" and "now < pc_due p"
  shows "\<exists>reply. post_charge env now key b m = ((nat (pc_due p - now), reply), m)"
proof -
  have "at_key (attempt_of env now key b) = key" by (simp add: attempt_of_def Let_def)
  with assms show ?thesis by (simp add: post_charge_def Let_def catch_up_def charge_arrives_def)
qed

definition body_of_command :: "charge_command \<Rightarrow> charge_body" where
  "body_of_command c = \<lparr>bd_card_number = cmd_card_number c, bd_amount_cents = js_int (cmd_amount_minor c),
     bd_currency = cmd_currency c, bd_description = cmd_description c\<rparr>"

definition sendable :: "charge_command \<Rightarrow> bool" where
  "sendable c \<longleftrightarrow> cmd_idempotency_key c \<noteq> [] \<and> cmd_card_number c \<noteq> [] \<and> cmd_currency c \<noteq> []"

lemma mock_fetch_sendable:
  assumes "sendable c"
    and "post_charge env now (cmd_idempotency_key c) (body_of_command c) m = ((ms, status, reply), m1)"
  shows "mock_fetch env now (post_charge_request c) m = (NetResponse ms status ms (Some reply), m1)"
  using assms by (simp add: mock_fetch_charge sendable_def body_of_command_def)

lemma attempt_last4 [simp]: "at_last4 (attempt_of env now key b) = card_last4 (bd_card_number b)"
  by (simp add: attempt_of_def Let_def)

lemma gateway_charge_provider_error:
  assumes "current_state (net_breaker s) = CLOSED" and "consecutive_failures (net_breaker s) = 0"
    and "sendable c" and "unused_key (cmd_idempotency_key c) (net_remote s)"
    and "me_options env = default_mock_options" and "card_last4 (cmd_card_number c) = CARD_PROVIDER_ERROR_LAST4"
  shows "\<exists>r s1. gateway_charge default_gateway_options draw (mock_fetch env) c s = (r, s1) \<and>
    res_status r = PS_UNKNOWN \<and> res_failure_code r = Some PROVIDER_ERROR \<and>
    net_remote s1 = net_remote s \<and> current_state (net_breaker s1) = CLOSED"
proof -
  let ?op = "provider_call default_gateway_options (mock_fetch env) (post_charge_request c)"
  have op: "?op t = (Inl (GwProviderError 500), elapse 0 (t\<lparr>net_remote := net_remote s\<rparr>))"
    if "net_remote t = net_remote s" for t
  proof -
    have "post_charge env (net_now t) (cmd_idempotency_key c) (body_of_command c) (net_remote t) =
        ((0, 500, error_body ''provider_error''), net_remote s)"
      using post_charge_unused(2)[of "cmd_idempotency_key c" "net_remote s" env "net_now t" "body_of_command c"]
        assms(4-6) that by (simp add: body_of_command_def)
    from mock_fetch_sendable[OF assms(3) this] show ?thesis
      by (subst provider_call_reply[where ms = 0 and status = 500 and m = "net_remote s"])
        (simp_all add: error_body_def)
  qed
  have "\<exists>t t' b. run_attempts default_gateway_options draw ?op s = (Inl (GwProviderError 500), t'\<lparr>net_breaker := b\<rparr>) \<and>
      ?op t = (Inl (GwProviderError 500), t') \<and> net_remote t = net_remote s \<and> current_state b = CLOSED \<and>
      consecutive_failures b = 3"
    using op by (intro run_attempts_three_failures[where P = "\<lambda>_ t. net_remote t = net_remote s", OF assms(1,2)]) auto
  then obtain t t' b where t: "run_attempts default_gateway_options draw ?op s =
      (Inl (GwProviderError 500), t'\<lparr>net_breaker := b\<rparr>)" "?op t = (Inl (GwProviderError 500), t')"
      "net_remote t = net_remote s" "current_state b = CLOSED" by blast
  from op[OF t(3)] t(2) have "net_remote t' = net_remote s" by auto
  with charge_fails[OF t(1)] t(4) show ?thesis by auto
qed

text \<open>What every attempt of a stalled charge finds: its charge is stored and its timer is far from due.\<close>

definition stalled :: "string \<Rightarrow> 'p net \<Rightarrow> mock \<Rightarrow> bool" where
  "stalled key s m \<longleftrightarrow> (\<exists>r. mk_records m key = Some r \<and> cr_status r = ChApproved) \<and>
     (\<exists>p. mk_pending m key = Some p \<and> pc_due p = net_now s + 30000)"

lemma net_now_within:
  assumes "net_clock s \<le> net_clock t" and "net_clock t \<le> net_clock s + of_nat n"
  shows "net_now s \<le> net_now t" and "net_now t \<le> net_now s + int n"
proof -
  show "net_now s \<le> net_now t" using assms(1) by (simp add: net_now_def floor_mono)
  have "\<lfloor>net_clock t\<rfloor> \<le> \<lfloor>net_clock s + of_int (int n)\<rfloor>" using assms(2) by (intro floor_mono) simp
  then show "net_now t \<le> net_now s + int n" by (simp only: net_now_def floor_add_int)
qed

lemma gateway_charge_stalls:
  assumes "current_state (net_breaker s) = CLOSED" and "consecutive_failures (net_breaker s) = 0"
    and "sendable c" and "unused_key (cmd_idempotency_key c) (net_remote s)"
    and "me_options env = default_mock_options" and "card_last4 (cmd_card_number c) = CARD_TIMEOUT_LAST4"
  shows "\<exists>r s1. gateway_charge default_gateway_options draw (mock_fetch env) c s = (r, s1) \<and>
    res_status r = PS_UNKNOWN \<and> res_failure_code r = Some TIMEOUT \<and> current_state (net_breaker s1) = CLOSED \<and>
    stalled (cmd_idempotency_key c) s (net_remote s1) \<and> net_now s1 < net_now s + 30000"
proof -
  let ?key = "cmd_idempotency_key c"
  let ?op = "provider_call default_gateway_options (mock_fetch env) (post_charge_request c)"
  let ?P = "\<lambda>k t. net_clock s \<le> net_clock t \<and> net_clock t \<le> net_clock s + of_nat (2800 * k) \<and>
    (if k = 0 then net_clock t = net_clock s \<and> net_remote t = net_remote s else stalled ?key s (net_remote t))"
  have op: "\<exists>m. ?op t = (Inl GwTimeout, elapse 2000 (t\<lparr>net_remote := m\<rparr>)) \<and> stalled ?key s m"
    if k: "k < 3" "?P k t" for k t
  proof (cases "k = 0")
    case True
    with k have t: "net_now t = net_now s" "net_remote t = net_remote s" by (simp_all add: net_now_def)
    from post_charge_unused(3)[of ?key "net_remote s" env "net_now s" "body_of_command c"] assms(4-6) obtain reply m
      where post: "post_charge env (net_now s) ?key (body_of_command c) (net_remote s) = ((30000, reply), m)"
        and m: "stalled ?key s m"
      by (auto simp: body_of_command_def stalled_def)
    obtain status body where "reply = (status, body)" by fastforce
    with post mock_fetch_sendable[OF assms(3)] have "mock_fetch env (net_now t) (post_charge_request c) (net_remote t) =
        (NetResponse 30000 status 30000 (Some body), m)" by (simp add: t)
    from provider_call_late[where s = t and fetch = "mock_fetch env", OF this] m show ?thesis by auto
  next
    case False
    with k obtain p where p: "mk_pending (net_remote t) ?key = Some p" "pc_due p = net_now s + 30000"
      by (auto simp: stalled_def)
    have "of_nat (2800 * k) \<le> (of_nat 8400 :: rat)" using k(1) by (intro of_nat_mono) simp
    with k have "net_clock t \<le> net_clock s + of_nat 8400" by auto
    from net_now_within[OF _ this] k have now: "net_now t \<le> net_now s + 8400" by auto
    with p post_charge_waits[of "net_remote t" ?key p "net_now t" env "body_of_command c"] obtain reply where
      post: "post_charge env (net_now t) ?key (body_of_command c) (net_remote t) =
        ((nat (pc_due p - net_now t), reply), net_remote t)" by auto
    obtain status body where "reply = (status, body)" by fastforce
    with post mock_fetch_sendable[OF assms(3)] have "mock_fetch env (net_now t) (post_charge_request c) (net_remote t) =
        (NetResponse (nat (pc_due p - net_now t)) status (nat (pc_due p - net_now t)) (Some body), net_remote t)" by simp
    from provider_call_late[where s = t and fetch = "mock_fetch env", OF this] p(2) now k False show ?thesis
      by (intro exI[of _ "net_remote t"]) auto
  qed
  have wait: "net_clock u \<le> net_clock (sleep draw 200 (Suc k) u)"
      "net_clock (sleep draw 200 (Suc k) u) \<le> net_clock u + 200 * 2 ^ k" for k and u :: "mock net"
    using full_jitter_bounds[OF frac_ge_0 frac_lt_1, of 200 "draw (net_clock u) (Suc k)" "Suc k"]
    by (simp_all add: sleep_def)
  have "\<exists>t t' b. run_attempts default_gateway_options draw ?op s = (Inl GwTimeout, t'\<lparr>net_breaker := b\<rparr>) \<and>
      ?op t = (Inl GwTimeout, t') \<and> ?P 2 t \<and> current_state b = CLOSED \<and> consecutive_failures b = 3"
  proof (rule run_attempts_three_failures[where P = ?P, OF assms(1,2)])
    fix k and t :: "mock net" assume k: "k < 3" "?P k t"
    from op[OF k] obtain m where m: "?op t = (Inl GwTimeout, elapse 2000 (t\<lparr>net_remote := m\<rparr>))" "stalled ?key s m"
      by blast
    have "?P (Suc k) (sleep draw 200 (Suc k) (elapse 2000 (t\<lparr>net_remote := m\<rparr>)\<lparr>net_breaker := b\<rparr>))" for b
    proof -
      let ?u = "elapse 2000 (t\<lparr>net_remote := m\<rparr>)\<lparr>net_breaker := b\<rparr>"
      have "k = 0 \<or> k = 1 \<or> k = 2" using k(1) by auto
      then have "(200 * 2 ^ k :: rat) \<le> (if k = 2 then 800 else 400)" by auto
      then show ?thesis using wait(1)[of ?u k] wait(2)[of k ?u] k m(2) by (auto simp: algebra_simps split: if_splits)
    qed
    with m(1) show "\<exists>t'. ?op t = (Inl GwTimeout, t') \<and> (\<forall>b. ?P (Suc k) (sleep draw 200 (Suc k) (t'\<lparr>net_breaker := b\<rparr>)))"
      by blast
  qed simp_all
  then obtain t t' b where t: "run_attempts default_gateway_options draw ?op s = (Inl GwTimeout, t'\<lparr>net_breaker := b\<rparr>)"
    "?op t = (Inl GwTimeout, t')" "?P 2 t" "current_state b = CLOSED" by blast
  from op[of 2 t] t(2,3) obtain m where m: "t' = elapse 2000 (t\<lparr>net_remote := m\<rparr>)" "stalled ?key s m" by auto
  have "net_clock t' \<le> net_clock s + of_nat 7600" "net_clock s \<le> net_clock t'" using t(3) m(1) by auto
  from net_now_within(2)[OF this(2,1)] have "net_now t' \<le> net_now s + 7600" by simp
  with charge_fails[OF t(1)] t(4) m show ?thesis by (auto simp: net_now_def)
qed

lemma status_verdict:
  assumes "current_state (net_breaker s) = CLOSED"
    and "record_verdict (get_by_idempotency_key (catch_up (net_now s) key (net_remote s)) key) = v"
  shows "\<exists>q s'. gateway_get_status default_gateway_options draw (mock_fetch env) key s = (q, s') \<and> res_status q = v"
  using status_query_result[OF assms(1), of draw env key] assms(2)
  by (cases "gateway_get_status default_gateway_options draw (mock_fetch env) key s") auto

text \<open>The four cards, each as an answer of the gateway and a closed breaker to query through.\<close>

lemma charge_declined:
  assumes "current_state (net_breaker s) = CLOSED" and "sendable c"
    and "unused_key (cmd_idempotency_key c) (net_remote s)" and "me_options env = default_mock_options"
    and "card_last4 (cmd_card_number c) = CARD_DECLINED_LAST4"
  shows "\<exists>r s1. gateway_charge default_gateway_options draw (mock_fetch env) c s = (r, s1) \<and>
    res_status r = PS_DECLINED \<and> res_failure_code r = Some CARD_DECLINED \<and> current_state (net_breaker s1) = CLOSED \<and>
    (\<forall>t. record_verdict (get_by_idempotency_key (catch_up t (cmd_idempotency_key c) (net_remote s1))
      (cmd_idempotency_key c)) = PS_DECLINED)"
proof -
  let ?key = "cmd_idempotency_key c" and ?m = "net_remote s" and ?b = "body_of_command c"
  have free: "mk_pending ?m ?key = None" using assms(3) by (simp add: unused_key_def)
  from post_charge_unused(1)[OF assms(3,4), of "net_now s" ?b] assms(5) obtain r where r:
    "post_charge env (net_now s) ?key ?b ?m = ((0, 402, to_charge_response r), ?m\<lparr>mk_records := (mk_records ?m)(?key \<mapsto> r)\<rparr>)"
    "cr_status r = ChDeclined" by (auto simp: body_of_command_def)
  from gateway_charge_answered[where fetch = "mock_fetch env" and draw = draw, OF assms(1)
      mock_fetch_sendable[OF assms(2) r(1), unfolded to_charge_response_def]]
  obtain res s1 where s1: "gateway_charge default_gateway_options draw (mock_fetch env) c s = (res, s1)"
    "res_status res = PS_DECLINED" "res_failure_code res = Some CARD_DECLINED"
    "net_remote s1 = ?m\<lparr>mk_records := (mk_records ?m)(?key \<mapsto> r)\<rparr>" "current_state (net_breaker s1) = CLOSED" by auto
  with r(2) free show ?thesis by (auto simp: get_by_idempotency_key_def record_verdict_def)
qed

lemma charge_approved:
  assumes "current_state (net_breaker s) = CLOSED" and "sendable c"
    and "unused_key (cmd_idempotency_key c) (net_remote s)" and "me_options env = default_mock_options"
    and "card_last4 (cmd_card_number c) \<notin> {CARD_DECLINED_LAST4, CARD_PROVIDER_ERROR_LAST4, CARD_TIMEOUT_LAST4}"
  shows "\<exists>r s1. gateway_charge default_gateway_options draw (mock_fetch env) c s = (r, s1) \<and>
    res_status r = PS_CAPTURED \<and> res_failure_code r = None \<and> current_state (net_breaker s1) = CLOSED \<and>
    (\<forall>t \<ge> net_now s1. record_verdict (get_by_idempotency_key (catch_up t (cmd_idempotency_key c) (net_remote s1))
      (cmd_idempotency_key c)) = PS_CAPTURED)"
proof -
  let ?key = "cmd_idempotency_key c" and ?b = "body_of_command c" and ?now = "net_now s"
  from post_charge_unused(4)[OF assms(3,4), of ?now ?b] assms(5) obtain ms kvs m p where r:
    "post_charge env ?now ?key ?b (net_remote s) = ((ms, 200, JObj kvs), m)" "ms \<le> 600"
    "mk_pending m ?key = Some p" "pc_due p = ?now + int ms" "pc_suspended p = Approving" "at_key (pc_attempt p) = ?key"
    by (auto simp: body_of_command_def)
  from gateway_charge_answered[where fetch = "mock_fetch env" and draw = draw, OF assms(1)
      mock_fetch_sendable[OF assms(2) r(1)]] r(2)
  obtain res s1 where s1: "gateway_charge default_gateway_options draw (mock_fetch env) c s = (res, s1)"
    "res_status res = PS_CAPTURED" "res_failure_code res = None" "net_remote s1 = m"
    "net_clock s1 = net_clock s + of_nat ms" "current_state (net_breaker s1) = CLOSED" by auto
  have "net_now s1 = ?now + int ms"
    using s1(5) floor_add_int[of "net_clock s" "int ms"] by (simp add: net_now_def)
  with s1(4) r have "record_verdict (get_by_idempotency_key (catch_up t ?key (net_remote s1)) ?key) = PS_CAPTURED"
    if "net_now s1 \<le> t" for t
    using that by (simp add: catch_up_def resume_charge_def Let_def store_charge_def get_by_idempotency_key_def record_verdict_def)
  with s1 show ?thesis by blast
qed

lemma charge_outcome_of_card:
  assumes "current_state (net_breaker s) = CLOSED" and "consecutive_failures (net_breaker s) = 0"
    and "sendable c" and "unused_key (cmd_idempotency_key c) (net_remote s)"
    and "me_options env = default_mock_options"
  shows "\<exists>r s1. gateway_charge default_gateway_options draw (mock_fetch env) c s = (r, s1) \<and>
    current_state (net_breaker s1) = CLOSED \<and>
    (\<forall>t \<ge> net_now s1. (res_status r, res_failure_code r, record_verdict (get_by_idempotency_key
      (catch_up t (cmd_idempotency_key c) (net_remote s1)) (cmd_idempotency_key c))) =
    charge_verdict (card_last4 (cmd_card_number c)))"
proof -
  let ?key = "cmd_idempotency_key c" and ?l4 = "card_last4 (cmd_card_number c)"
  have free: "mk_pending (net_remote s) ?key = None" "mk_records (net_remote s) ?key = None"
    using assms(4) by (simp_all add: unused_key_def)
  note codes = CARD_DECLINED_LAST4_def CARD_PROVIDER_ERROR_LAST4_def CARD_TIMEOUT_LAST4_def
  consider (declined) "?l4 = CARD_DECLINED_LAST4" | (error) "?l4 = CARD_PROVIDER_ERROR_LAST4"
    | (stall) "?l4 = CARD_TIMEOUT_LAST4"
    | (approved) "?l4 \<notin> {CARD_DECLINED_LAST4, CARD_PROVIDER_ERROR_LAST4, CARD_TIMEOUT_LAST4}" by blast
  then show ?thesis
  proof cases
    case declined
    with charge_declined[OF assms(1,3-5) declined, of draw] show ?thesis by (auto simp: charge_verdict_def)
  next
    case error
    from gateway_charge_provider_error[OF assms error, of draw] free error show ?thesis
      by (fastforce simp: charge_verdict_def get_by_idempotency_key_def record_verdict_def codes)
  next
    case stall
    from gateway_charge_stalls[OF assms stall, of draw] obtain r s1 where s1:
      "gateway_charge default_gateway_options draw (mock_fetch env) c s = (r, s1)" "res_status r = PS_UNKNOWN"
      "res_failure_code r = Some TIMEOUT" "current_state (net_breaker s1) = CLOSED" "stalled ?key s (net_remote s1)"
      "net_now s1 < net_now s + 30000" by blast
    then have "record_verdict (get_by_idempotency_key (catch_up t ?key (net_remote s1)) ?key) = PS_CAPTURED" for t
      by (auto simp: stalled_def catch_up_def resume_charge_def store_charge_def get_by_idempotency_key_def record_verdict_def
          Let_def split: suspended.splits)
    with s1 stall show ?thesis by (auto simp: charge_verdict_def codes)
  next
    case approved
    with charge_approved[OF assms(1,3-5) approved, of draw] show ?thesis by (auto simp: charge_verdict_def)
  qed
qed

text \<open>
  C22. The gateway and the provider together, for a key the provider has not seen: what \<open>charge\<close>
  reports, and what a status query right after it reports, by the last four digits of the card. A
  decline and an approval are reported as such and confirmed; card 0003 leaves UNKNOWN with
  PROVIDER_ERROR and the query finds nothing charged; card 0004 leaves UNKNOWN with TIMEOUT after
  three attempts although the provider did charge it, once, and the query recovers CAPTURED.
\<close>

theorem charge_then_query:
  assumes "current_state (net_breaker s) = CLOSED" and "consecutive_failures (net_breaker s) = 0"
    and "sendable c" and "unused_key (cmd_idempotency_key c) (net_remote s)"
    and "me_options env = default_mock_options"
  shows "\<exists>r s1 q s2. gateway_charge default_gateway_options draw (mock_fetch env) c s = (r, s1) \<and>
    gateway_get_status default_gateway_options draw2 (mock_fetch env) (cmd_idempotency_key c) s1 = (q, s2) \<and>
    (res_status r, res_failure_code r, res_status q) = charge_verdict (card_last4 (cmd_card_number c))"
proof -
  from charge_outcome_of_card[OF assms, of draw] obtain r s1 where s1:
    "gateway_charge default_gateway_options draw (mock_fetch env) c s = (r, s1)" "current_state (net_breaker s1) = CLOSED"
    "(res_status r, res_failure_code r, record_verdict (get_by_idempotency_key
      (catch_up (net_now s1) (cmd_idempotency_key c) (net_remote s1)) (cmd_idempotency_key c))) =
     charge_verdict (card_last4 (cmd_card_number c))" by (meson order_refl)
  from status_verdict[OF s1(2) refl, of draw2 env "cmd_idempotency_key c"] s1 show ?thesis by metis
qed

theorem charge_then_query_witness:
  "\<exists>r s1 q s2. gateway_charge default_gateway_options (\<lambda>_ _. 0) (mock_fetch sample_mock_env)
      \<lparr>cmd_card_number = ''4000000000000004'', cmd_amount_minor = 5, cmd_currency = ''USD'',
       cmd_description = ''d'', cmd_idempotency_key = ''k''\<rparr> sample_net = (r, s1) \<and>
    gateway_get_status default_gateway_options (\<lambda>_ _. 0) (mock_fetch sample_mock_env) ''k'' s1 = (q, s2) \<and>
    res_status r = PS_UNKNOWN \<and> res_failure_code r = Some TIMEOUT \<and> res_status q = PS_CAPTURED"
proof -
  let ?c = "\<lparr>cmd_card_number = ''4000000000000004'', cmd_amount_minor = 5, cmd_currency = ''USD'',
       cmd_description = ''d'', cmd_idempotency_key = ''k''\<rparr>"
  have "charge_verdict (card_last4 (cmd_card_number ?c)) = (PS_UNKNOWN, Some TIMEOUT, PS_CAPTURED)" by code_simp
  with charge_then_query[of sample_net ?c sample_mock_env "\<lambda>_ _. 0" "\<lambda>_ _. 0"] show ?thesis
    by (auto simp: sample_net_def new_breaker_def sendable_def unused_key_def empty_mock_def sample_mock_env_def)
qed

subsection \<open>What a charge leaves alone\<close>

text \<open>A property of the provider that every request of the charge keeps survives the whole charge.\<close>

lemma provider_call_remote: "net_remote (snd (provider_call opts fetch req s)) = snd (fetch (net_now s) req (net_remote s))"
  by (auto simp: provider_call_def fetch_with_timeout_def read_body_def elapse_def Let_def
      split: prod.splits net_event.splits sum.splits)

lemma guarded_remote:
  assumes "Q (net_remote s)" and "\<And>t. Q (net_remote t) \<Longrightarrow> Q (net_remote (snd (operation t)))"
  shows "Q (net_remote (snd (guarded opts e operation s)))"
  using assms(1) assms(2)[of s] by (auto simp: guarded_def execute_def split: prod.splits option.splits)

lemma with_retry_from_keeps:
  assumes "P s" and "\<And>t. P t \<Longrightarrow> P (snd (operation t))" and "\<And>k t. P t \<Longrightarrow> P (nap k t)"
  shows "P (snd (with_retry_from operation is_transient nap no_attempt n k s))"
  using assms(1)
proof (induction "Suc n - k" arbitrary: k s)
  case (Suc x)
  have next_try: "P (snd (with_retry_from operation is_transient nap no_attempt n (Suc k) (nap k (snd (operation s)))))"
    using Suc by (intro Suc.hyps(1)) (auto intro: assms(2,3))
  show ?case
    using Suc(2) next_try assms(2)[OF Suc.prems] by (subst with_retry_from.simps) (auto split: prod.splits)
qed (subst with_retry_from.simps, simp)

lemma gateway_charge_remote:
  assumes "Q (net_remote s)" and "\<And>now m. Q m \<Longrightarrow> Q (snd (fetch now (post_charge_request c) m))"
  shows "Q (net_remote (snd (gateway_charge opts draw fetch c s)))"
  unfolding gateway_charge_snd run_attempts_def with_retry_def
  by (rule with_retry_from_keeps[where P = "\<lambda>s. Q (net_remote s)"])
    (use assms in \<open>auto intro: guarded_remote simp: provider_call_remote\<close>)

text \<open>A charge under one key never touches another: pending charges are filed under their own key.\<close>

definition apart :: "string \<Rightarrow> string \<Rightarrow> mock \<Rightarrow> bool" where
  "apart key k m \<longleftrightarrow> unused_key k m \<and> (\<forall>p. mk_pending m key = Some p \<longrightarrow> at_key (pc_attempt p) = key)"

lemma store_charge_apart:
  assumes "apart key k m" and "at_key a = key" and "k \<noteq> key"
  shows "apart key k (snd (store_charge now a st m))"
  using assms by (auto simp: apart_def unused_key_def store_charge_def Let_def)

lemma process_charge_apart:
  assumes "apart key k m" and "at_key a = key" and "k \<noteq> key"
  shows "apart key k (snd (process_charge opts now draw a m))"
  using assms(1) store_charge_apart[OF assms] by (simp add: process_charge_def split_beta split: option.split)

lemma charge_arrives_apart:
  assumes "apart key k m" and "at_key a = key" and "k \<noteq> key"
  shows "apart key k (snd (charge_arrives opts now draw a m))"
proof (cases "mk_pending m (at_key a)")
  case None
  have "apart key k (snd (process_charge opts now draw a m))" by (rule process_charge_apart[OF assms])
  with None assms(2,3) show ?thesis
    by (auto simp: charge_arrives_def apart_def unused_key_def split: prod.splits sum.splits)
next
  case (Some p)
  with assms(1) show ?thesis by (simp add: charge_arrives_def)
qed

lemma catch_up_apart:
  assumes "apart key k m" and "k \<noteq> key"
  shows "apart key k (catch_up now key m)"
proof (cases "mk_pending m key")
  case (Some p)
  with assms(1) have own: "at_key (pc_attempt p) = key" by (simp add: apart_def)
  have "apart key k (m\<lparr>mk_pending := (mk_pending m)(key := None)\<rparr>)"
    using assms by (auto simp: apart_def unused_key_def)
  with store_charge_apart[OF this own assms(2)] Some assms(1) show ?thesis
    by (simp add: catch_up_def resume_charge_def own Let_def split_beta split: suspended.split)
qed (use assms in simp)

lemma post_charge_apart:
  assumes "apart key k m" and "k \<noteq> key"
  shows "apart key k (snd (post_charge env now key b m))"
proof -
  have key: "at_key (attempt_of env now key b) = key" by (simp add: attempt_of_def Let_def)
  from charge_arrives_apart[OF catch_up_apart[OF assms] key assms(2)] show ?thesis
    by (simp add: post_charge_def Let_def split_beta split: arrival.split option.split)
qed

lemma gateway_charge_apart:
  assumes "apart (cmd_idempotency_key c) k (net_remote s)" and "k \<noteq> cmd_idempotency_key c" and "sendable c"
  shows "unused_key k (net_remote (snd (gateway_charge opts draw (mock_fetch env) c s)))"
proof -
  have "apart (cmd_idempotency_key c) k (snd (mock_fetch env now (post_charge_request c) m))"
    if "apart (cmd_idempotency_key c) k m" for now m
    using post_charge_apart[OF that assms(2), of env now "body_of_command c"] mock_fetch_sendable[OF assms(3), of env now m]
    by (cases "post_charge env now (cmd_idempotency_key c) (body_of_command c) m") (auto split: prod.splits)
  from gateway_charge_remote[where Q = "apart (cmd_idempotency_key c) k" and fetch = "mock_fetch env", OF assms(1) this] show ?thesis
    by (simp add: apart_def)
qed

end
