(* ===== verification/Geo_Text.thy ===== *)
theory Geo_Text
  imports Redaction Node_Text
begin

section \<open>Normalised addresses\<close>

text \<open>
  \<^verbatim>\<open>src/infrastructure/geocoding/normalisation.ts\<close>, on texts of code units below 256. There canonical
  decomposition followed by the removal of U+0300..U+036F replaces each accented letter by its base
  letter, white space is the ASCII white space and the no-break space, and \<open>toUpperCase\<close> doubles the
  sharp s. Two letters have an upper case outside the range (the micro sign and y with diaeresis);
  they are left alone, and neither can occur in a state code of the table. The table of state names
  is a plain object, so two lower-case names that are not in it still yield a value: what every
  object inherits.
\<close>

subsection \<open>\<open>normalizeText\<close>\<close>

definition base_char :: "char \<Rightarrow> char" where
  "base_char c = (let n = code c in
     if 192 \<le> n \<and> n \<le> 197 then CHR ''A'' else if n = 199 then CHR ''C''
     else if 200 \<le> n \<and> n \<le> 203 then CHR ''E'' else if 204 \<le> n \<and> n \<le> 207 then CHR ''I''
     else if n = 209 then CHR ''N'' else if 210 \<le> n \<and> n \<le> 214 then CHR ''O''
     else if 217 \<le> n \<and> n \<le> 220 then CHR ''U'' else if n = 221 then CHR ''Y''
     else if 224 \<le> n \<and> n \<le> 229 then CHR ''a'' else if n = 231 then CHR ''c''
     else if 232 \<le> n \<and> n \<le> 235 then CHR ''e'' else if 236 \<le> n \<and> n \<le> 239 then CHR ''i''
     else if n = 241 then CHR ''n'' else if 242 \<le> n \<and> n \<le> 246 then CHR ''o''
     else if 249 \<le> n \<and> n \<le> 252 then CHR ''u'' else if n = 253 \<or> n = 255 then CHR ''y''
     else c)"

text \<open>\<open>replace(/\s+/g, ' ')\<close>.\<close>

lemma dropWhile_shorter [termination_simp]: "length (dropWhile p s) < Suc (length s)"
  by (simp add: length_dropWhile_le le_imp_less_Suc)

fun collapse_spaces :: "string \<Rightarrow> string" where
  "collapse_spaces [] = []"
| "collapse_spaces (c # s) =
     (if is_js_space c then CHR '' '' # collapse_spaces (dropWhile is_js_space s) else c # collapse_spaces s)"

definition lower_char :: "char \<Rightarrow> char" where
  "lower_char c = (let n = code c in
     if 65 \<le> n \<and> n \<le> 90 \<or> 192 \<le> n \<and> n \<le> 222 \<and> n \<noteq> 215 then char_of (n + 32) else c)"

definition upper_char :: "char \<Rightarrow> string" where
  "upper_char c = (let n = code c in
     if n = 223 then ''SS''
     else if 97 \<le> n \<and> n \<le> 122 \<or> 224 \<le> n \<and> n \<le> 254 \<and> n \<noteq> 247 then [char_of (n - 32)] else [c])"

definition to_upper_case :: "string \<Rightarrow> string" where
  "to_upper_case s = concat (map upper_char s)"

definition normalize_text :: "string \<Rightarrow> string" where
  "normalize_text s = map lower_char (collapse_spaces (js_trim (map base_char s)))"

subsection \<open>States and countries\<close>

definition STATE_NAME_TO_CODE :: "(string \<times> string) list" where
  "STATE_NAME_TO_CODE =
    [(''alabama'', ''AL''), (''alaska'', ''AK''), (''arizona'', ''AZ''),
     (''arkansas'', ''AR''), (''california'', ''CA''), (''colorado'', ''CO''),
     (''connecticut'', ''CT''), (''delaware'', ''DE''), (''florida'', ''FL''),
     (''georgia'', ''GA''), (''hawaii'', ''HI''), (''idaho'', ''ID''),
     (''illinois'', ''IL''), (''indiana'', ''IN''), (''iowa'', ''IA''),
     (''kansas'', ''KS''), (''kentucky'', ''KY''), (''louisiana'', ''LA''),
     (''maine'', ''ME''), (''maryland'', ''MD''), (''massachusetts'', ''MA''),
     (''michigan'', ''MI''), (''minnesota'', ''MN''), (''mississippi'', ''MS''),
     (''missouri'', ''MO''), (''montana'', ''MT''), (''nebraska'', ''NE''),
     (''nevada'', ''NV''), (''new hampshire'', ''NH''), (''new jersey'', ''NJ''),
     (''new mexico'', ''NM''), (''new york'', ''NY''), (''north carolina'', ''NC''),
     (''north dakota'', ''ND''), (''ohio'', ''OH''), (''oklahoma'', ''OK''),
     (''oregon'', ''OR''), (''pennsylvania'', ''PA''), (''rhode island'', ''RI''),
     (''south carolina'', ''SC''), (''south dakota'', ''SD''), (''tennessee'', ''TN''),
     (''texas'', ''TX''), (''utah'', ''UT''), (''vermont'', ''VT''),
     (''virginia'', ''VA''), (''washington'', ''WA''), (''west virginia'', ''WV''),
     (''wisconsin'', ''WI''), (''wyoming'', ''WY''), (''district of columbia'', ''DC'')]"

definition ACCEPTED_COUNTRIES :: "string list" where
  "ACCEPTED_COUNTRIES = [''us'', ''usa'', ''united states'']"

text \<open>
  What \<open>canonicalizeStateCode\<close> returns: a code, a member of \<open>Object.prototype\<close> (with what \<open>String\<close>
  makes of it), or \<open>undefined\<close>.
\<close>

datatype state_lookup = StateCode string | InheritedMember string | NoState

definition inherited_member :: "string \<Rightarrow> state_lookup" where
  "inherited_member k =
    (if k = ''constructor'' then InheritedMember ''function Object() { [native code] }''
     else if k = ''__proto__'' then InheritedMember ''[object Object]''
     else NoState)"

definition canonicalize_state_code :: "string \<Rightarrow> state_lookup" where
  "canonicalize_state_code raw_state =
    (let normalized = normalize_text raw_state in
     if length normalized = 2 then StateCode (to_upper_case normalized)
     else case map_of STATE_NAME_TO_CODE normalized of
            Some c \<Rightarrow> StateCode c
          | None \<Rightarrow> inherited_member normalized)"

definition is_accepted_country :: "string \<Rightarrow> bool" where
  "is_accepted_country raw_country \<longleftrightarrow> normalize_text raw_country \<in> set ACCEPTED_COUNTRIES"

subsection \<open>The normalised address\<close>

text \<open>An absent field reads as the empty text, as \<open>??\<close> and the truth test of the last line make it.\<close>

definition or_empty :: "string option \<Rightarrow> string" where
  "or_empty f = (case f of None \<Rightarrow> [] | Some s \<Rightarrow> s)"

definition normalize_field :: "string \<Rightarrow> string" where
  "normalize_field f = (if f \<noteq> [] then normalize_text f else [])"

definition state_field :: "address \<Rightarrow> app_error + string" where
  "state_field a = (let raw_state = or_empty (state a) in
     if raw_state \<noteq> [] then
       (case canonicalize_state_code raw_state of
          StateCode c \<Rightarrow> Inr (normalize_field c)
        | NoState \<Rightarrow> Inr (normalize_field raw_state)
        | InheritedMember m \<Rightarrow> Inl (JsError ''value.normalize is not a function''))
     else Inr [])"

definition build_normalised_address :: "address \<Rightarrow> app_error + string" where
  "build_normalised_address a =
     bindR (state_field a) (\<lambda>st. Inr (js_join ''|''
       [normalize_field (or_empty (line1 a)), normalize_field (or_empty (line2 a)),
        normalize_field (or_empty (city a)), st,
        normalize_field (or_empty (postal_code a)), normalize_field (or_empty (country a))]))"

subsection \<open>Normal texts\<close>

text \<open>
  \<open>normalize_text\<close> is a projection onto the normal texts: small plain letters, no space at either end,
  single blanks inside.
\<close>

definition plain_char :: "char \<Rightarrow> bool" where
  "plain_char c \<longleftrightarrow> base_char c = c \<and> lower_char c = c \<and> (is_js_space c \<longrightarrow> c = CHR '' '')"

fun single_spaced :: "string \<Rightarrow> bool" where
  "single_spaced (c # e # s) \<longleftrightarrow> \<not> (is_js_space c \<and> is_js_space e) \<and> single_spaced (e # s)"
| "single_spaced s \<longleftrightarrow> True"

definition normal_text :: "string \<Rightarrow> bool" where
  "normal_text s \<longleftrightarrow> (\<forall>c \<in> set s. plain_char c) \<and> single_spaced s \<and>
     (s \<noteq> [] \<longrightarrow> \<not> is_js_space (hd s) \<and> \<not> is_js_space (last s))"

lemma code_char_of [simp]: "n < 256 \<Longrightarrow> code (char_of n) = n"
  by (simp add: code_def)

lemma char_of_code [simp]: "char_of (code c) = c"
  by (simp add: code_def)

lemma code_less [simp]: "code c < 256"
  by (simp add: code_def)

lemma code_literal [simp]: "code (Char b0 b1 b2 b3 b4 b5 b6 b7) = of_char (Char b0 b1 b2 b3 b4 b5 b6 b7)"
  by (simp add: code_def)

lemma js_space_code: "is_js_space c \<longleftrightarrow> code c \<in> {9, 10, 11, 12, 13, 32, 160}"
  by (simp add: is_js_space_def code_def)

lemma base_char_base [simp]: "base_char (base_char c) = base_char c"
  by (simp add: base_char_def Let_def)

lemma base_char_space [simp]: "is_js_space (base_char c) \<longleftrightarrow> is_js_space c"
  by (auto simp: base_char_def Let_def js_space_code)

lemma lower_char_space [simp]: "is_js_space (lower_char c) \<longleftrightarrow> is_js_space c"
  by (auto simp: lower_char_def Let_def js_space_code)

lemma lower_char_lower [simp]: "lower_char (lower_char c) = lower_char c"
  by (auto simp: lower_char_def Let_def)

text \<open>The letters that have no decomposition.\<close>

definition unmarked :: "nat \<Rightarrow> bool" where
  "unmarked n \<longleftrightarrow> n \<le> 191 \<or> n = 198 \<or> n = 208 \<or> n = 215 \<or> n = 216 \<or> n = 222 \<or> n = 223 \<or> n = 230 \<or>
     n = 240 \<or> n = 247 \<or> n = 248 \<or> n = 254"

lemma letter_gaps:
  assumes "\<not> (192 \<le> n \<and> n \<le> 197)" "n \<noteq> 199" "\<not> (200 \<le> n \<and> n \<le> 203)" "\<not> (204 \<le> n \<and> n \<le> 207)" "n \<noteq> 209"
    "\<not> (210 \<le> n \<and> n \<le> 214)" "\<not> (217 \<le> n \<and> n \<le> 220)" "n \<noteq> 221"
  shows "n < 224 \<Longrightarrow> unmarked n"
  using assms unfolding unmarked_def by presburger

lemma letter_gaps_small:
  assumes "\<not> (224 \<le> n \<and> n \<le> 229)" "n \<noteq> 231" "\<not> (232 \<le> n \<and> n \<le> 235)" "\<not> (236 \<le> n \<and> n \<le> 239)" "n \<noteq> 241"
    "\<not> (242 \<le> n \<and> n \<le> 246)" "\<not> (249 \<le> n \<and> n \<le> 252)" "\<not> (n = 253 \<or> n = 255)"
  shows "224 \<le> n \<Longrightarrow> n < 256 \<Longrightarrow> unmarked n"
  using assms unfolding unmarked_def by presburger

lemma unmarked_if:
  "(p \<Longrightarrow> unmarked (code a)) \<Longrightarrow> (\<not> p \<Longrightarrow> unmarked (code b)) \<Longrightarrow> unmarked (code (if p then a else b))"
  by simp

lemma base_char_unmarked: "unmarked (code (base_char c))"
proof (cases "code c < 224")
  case True
  have rest: "unmarked (code c)"
    if "\<not> (192 \<le> code c \<and> code c \<le> 197)" "code c \<noteq> 199" "\<not> (200 \<le> code c \<and> code c \<le> 203)"
      "\<not> (204 \<le> code c \<and> code c \<le> 207)" "code c \<noteq> 209" "\<not> (210 \<le> code c \<and> code c \<le> 214)"
      "\<not> (217 \<le> code c \<and> code c \<le> 220)" "code c \<noteq> 221"
    using letter_gaps[OF that True] .
  show ?thesis
    unfolding base_char_def Let_def by (intro unmarked_if; (rule rest; assumption)?) (simp_all add: unmarked_def)
next
  case False
  then have "224 \<le> code c" by simp
  then have rest: "unmarked (code c)"
    if "\<not> (224 \<le> code c \<and> code c \<le> 229)" "code c \<noteq> 231" "\<not> (232 \<le> code c \<and> code c \<le> 235)"
      "\<not> (236 \<le> code c \<and> code c \<le> 239)" "code c \<noteq> 241" "\<not> (242 \<le> code c \<and> code c \<le> 246)"
      "\<not> (249 \<le> code c \<and> code c \<le> 252)" "\<not> (code c = 253 \<or> code c = 255)"
    using letter_gaps_small[OF that] code_less by blast
  show ?thesis
    unfolding base_char_def Let_def by (intro unmarked_if; (rule rest; assumption)?) (simp_all add: unmarked_def)
qed

lemma base_char_fixed: "unmarked (code c) \<Longrightarrow> base_char c = c"
  unfolding unmarked_def by (elim disjE) (simp_all add: base_char_def Let_def)

lemma lower_char_unmarked: "unmarked (code c) \<Longrightarrow> unmarked (code (lower_char c))"
proof -
  assume u: "unmarked (code c)"
  have "unmarked (code c + 32)" if "65 \<le> code c \<and> code c \<le> 90" using that by (simp add: unmarked_def)
  moreover have "unmarked (code c + 32)" if "192 \<le> code c \<and> code c \<le> 222 \<and> code c \<noteq> 215"
    using u that unfolding unmarked_def by (elim disjE) simp_all
  moreover have "code c + 32 < 256" if "code c \<le> 222" using that by simp
  ultimately show ?thesis using u by (simp add: lower_char_def Let_def)
qed

lemma base_char_lower [simp]: "base_char (lower_char (base_char c)) = lower_char (base_char c)"
  by (intro base_char_fixed lower_char_unmarked base_char_unmarked)

lemma space_unchanged: "is_js_space c \<Longrightarrow> base_char c = c \<and> lower_char c = c"
  unfolding js_space_code insert_iff empty_iff
  by (elim disjE) (simp_all add: base_char_def lower_char_def Let_def)

lemma collapse_spaces_Nil [simp]: "collapse_spaces s = [] \<longleftrightarrow> s = []"
  by (cases s) simp_all

lemma collapse_spaces_hd: "s \<noteq> [] \<Longrightarrow> is_js_space (hd (collapse_spaces s)) = is_js_space (hd s)"
  by (cases s) (simp_all add: js_space_code)

lemma last_dropWhile: "dropWhile p s \<noteq> [] \<Longrightarrow> last (dropWhile p s) = last s"
  by (induction s) (auto split: if_splits)

lemma collapse_spaces_last:
  "s \<noteq> [] \<Longrightarrow> \<not> is_js_space (last s) \<Longrightarrow> \<not> is_js_space (last (collapse_spaces s))"
proof (induction s rule: collapse_spaces.induct)
  case (2 c s)
  show ?case
  proof (cases "is_js_space c")
    case True
    with 2(3,4) have "s \<noteq> []" "\<not> is_js_space (last s)" by (auto split: if_splits)
    then have "dropWhile is_js_space s \<noteq> []" by (meson dropWhile_eq_Nil_conv last_in_set)
    moreover from this have "\<not> is_js_space (last (collapse_spaces (dropWhile is_js_space s)))"
      using 2(1)[OF True] last_dropWhile[of is_js_space s] \<open>\<not> is_js_space (last s)\<close> by metis
    ultimately show ?thesis using True by (simp del: dropWhile_eq_Nil_conv)
  next
    case False
    with 2(2)[OF False] 2(4) show ?thesis by (cases "s = []") simp_all
  qed
qed simp

lemma single_spaced_Cons: "single_spaced (c # s) \<longleftrightarrow> (s \<noteq> [] \<longrightarrow> \<not> (is_js_space c \<and> is_js_space (hd s))) \<and> single_spaced s"
  by (cases s) auto

lemma collapse_spaces_single: "single_spaced (collapse_spaces s)"
proof (induction s rule: collapse_spaces.induct)
  case (2 c s)
  show ?case
  proof (cases "is_js_space c")
    case True
    have "\<not> is_js_space (hd (collapse_spaces (dropWhile is_js_space s)))" if "dropWhile is_js_space s \<noteq> []"
      using that collapse_spaces_hd[OF that] hd_dropWhile[OF that] by simp
    with 2(1)[OF True] True show ?thesis by (simp add: single_spaced_Cons)
  next
    case False
    with 2(2)[OF False] show ?thesis by (simp add: single_spaced_Cons)
  qed
qed simp

lemma set_collapse_spaces: "c \<in> set (collapse_spaces s) \<Longrightarrow> c = CHR '' '' \<or> (c \<in> set s \<and> \<not> is_js_space c)"
  by (induction s rule: collapse_spaces.induct) (auto split: if_splits dest!: set_dropWhileD)

lemma collapse_spaces_id:
  "single_spaced s \<Longrightarrow> (\<And>c. c \<in> set s \<Longrightarrow> is_js_space c \<Longrightarrow> c = CHR '' '') \<Longrightarrow> collapse_spaces s = s"
proof (induction s)
  case (Cons c s)
  then have "dropWhile is_js_space s = s" if "is_js_space c"
    using that by (cases s) (auto simp: single_spaced_Cons)
  with Cons show ?case by (auto simp: single_spaced_Cons)
qed simp

lemma js_trim_ends: "js_trim s \<noteq> [] \<Longrightarrow> \<not> is_js_space (hd (js_trim s)) \<and> \<not> is_js_space (last (js_trim s))"
proof -
  let ?t = "dropWhile is_js_space s"
  assume "js_trim s \<noteq> []"
  then have ne: "dropWhile is_js_space (rev ?t) \<noteq> []" by (simp add: js_trim_def)
  have "hd (js_trim s) = last (dropWhile is_js_space (rev ?t))" "last (js_trim s) = hd (dropWhile is_js_space (rev ?t))"
    using ne by (simp_all add: js_trim_def hd_rev last_rev)
  moreover have "?t \<noteq> []" using ne by (metis dropWhile.simps(1) rev.simps(1))
  ultimately show ?thesis using hd_dropWhile[OF ne] hd_dropWhile[OF \<open>?t \<noteq> []\<close>] last_dropWhile[OF ne]
    by (simp add: last_rev)
qed

lemma js_trim_id: "(s \<noteq> [] \<Longrightarrow> \<not> is_js_space (hd s) \<and> \<not> is_js_space (last s)) \<Longrightarrow> js_trim s = s"
proof (cases "s = []")
  case False
  assume ends: "s \<noteq> [] \<Longrightarrow> \<not> is_js_space (hd s) \<and> \<not> is_js_space (last s)"
  with False have "dropWhile is_js_space s = s" by (cases s) auto
  moreover from ends False have "dropWhile is_js_space (rev s) = rev s" by (cases s rule: rev_cases) auto
  ultimately show ?thesis by (simp add: js_trim_def)
qed (simp add: js_trim_def)

lemma set_js_trim: "c \<in> set (js_trim s) \<Longrightarrow> c \<in> set s"
  by (auto simp: js_trim_def dest!: set_dropWhileD)

lemma single_spaced_lower [simp]: "single_spaced (map lower_char s) = single_spaced s"
  by (induction s rule: single_spaced.induct) simp_all

lemma plain_blank: "plain_char (lower_char CHR '' '')"
proof -
  have "base_char CHR '' '' = CHR '' ''" "lower_char CHR '' '' = CHR '' ''"
    by (simp_all add: space_unchanged js_space_code)
  then show ?thesis by (simp add: plain_char_def)
qed

lemma normalize_text_normal: "normal_text (normalize_text s)"
proof -
  let ?t = "js_trim (map base_char s)"
  have "plain_char (lower_char c)" if "c \<in> set (collapse_spaces ?t)" for c
  proof -
    from set_collapse_spaces[OF that] set_js_trim[of c "map base_char s"]
    consider "c = CHR '' ''" | e where "c = base_char e" "\<not> is_js_space c" by auto
    then show ?thesis by cases (simp_all add: plain_blank, simp add: plain_char_def)
  qed
  moreover have "\<not> is_js_space (hd (collapse_spaces ?t)) \<and> \<not> is_js_space (last (collapse_spaces ?t))" if "?t \<noteq> []"
    using js_trim_ends[OF that] collapse_spaces_hd[OF that] collapse_spaces_last[OF that] by simp
  ultimately show ?thesis
    using collapse_spaces_single[of ?t]
    by (auto simp: normal_text_def normalize_text_def hd_map last_map)
qed

lemma normalize_text_id: "normal_text s \<Longrightarrow> normalize_text s = s"
proof -
  assume s: "normal_text s"
  then have "map base_char s = s" "map lower_char s = s" by (auto simp: normal_text_def plain_char_def map_idI)
  moreover have "js_trim s = s" using s by (intro js_trim_id) (simp add: normal_text_def)
  moreover have "collapse_spaces s = s" using s by (intro collapse_spaces_id) (auto simp: normal_text_def plain_char_def)
  ultimately show ?thesis by (simp add: normalize_text_def)
qed

subsection \<open>What the normalised address keeps\<close>

lemma base_char_bar: "base_char c = CHR ''|'' \<longleftrightarrow> c = CHR ''|''"
proof
  show "c = CHR ''|''" if "base_char c = CHR ''|''"
  proof (rule ccontr)
    assume "c \<noteq> CHR ''|''"
    with that show False by (auto simp: base_char_def Let_def split: if_splits)
  qed
qed (simp add: base_char_def)

lemma char_eq_code: "c = e \<longleftrightarrow> code c = code e"
  by (metis char_of_code)

lemma lower_char_code:
  "code (lower_char c) =
     (if 65 \<le> code c \<and> code c \<le> 90 \<or> 192 \<le> code c \<and> code c \<le> 222 \<and> code c \<noteq> 215 then code c + 32 else code c)"
proof -
  have "code c + 32 < 256" if "code c \<le> 90 \<or> code c \<le> 222" using that by auto
  then show ?thesis by (simp add: lower_char_def Let_def)
qed

lemma lower_char_bar: "lower_char c = CHR ''|'' \<longleftrightarrow> c = CHR ''|''"
  unfolding char_eq_code[of _ "CHR ''|''"] lower_char_code by simp

lemma normalize_text_bar: "CHR ''|'' \<in> set (normalize_text f) \<Longrightarrow> CHR ''|'' \<in> set f"
proof -
  assume "CHR ''|'' \<in> set (normalize_text f)"
  then obtain c where "c \<in> set (collapse_spaces (js_trim (map base_char f)))" "lower_char c = CHR ''|''"
    by (auto simp: normalize_text_def)
  then have "CHR ''|'' \<in> set (collapse_spaces (js_trim (map base_char f)))" by (simp add: lower_char_bar)
  from set_collapse_spaces[OF this] have "CHR ''|'' \<in> set (map base_char f)" by (auto dest: set_js_trim)
  then show ?thesis by (auto simp: base_char_bar eq_commute[of "CHR ''|''"])
qed

lemma normalize_field_bar: "CHR ''|'' \<notin> set f \<Longrightarrow> CHR ''|'' \<notin> set (normalize_field f)"
  using normalize_text_bar by (auto simp: normalize_field_def)

lemma normalize_field_barD: "CHR ''|'' \<in> set (normalize_field f) \<Longrightarrow> CHR ''|'' \<in> set f"
  using normalize_field_bar by blast

lemma upper_char_code:
  "code c \<noteq> 223 \<Longrightarrow> \<exists>e. upper_char c = [e] \<and> code e =
     (if 97 \<le> code c \<and> code c \<le> 122 \<or> 224 \<le> code c \<and> code c \<le> 254 \<and> code c \<noteq> 247 then code c - 32 else code c)"
proof -
  have "code c - 32 < 256" using code_less[of c] by linarith
  then show "code c \<noteq> 223 \<Longrightarrow> ?thesis" by (simp add: upper_char_def Let_def)
qed

lemma upper_char_bar: "CHR ''|'' \<in> set (upper_char c) \<Longrightarrow> c = CHR ''|''"
proof (cases "code c = 223")
  case False
  assume bar: "CHR ''|'' \<in> set (upper_char c)"
  obtain e where e: "upper_char c = [e]" "code e =
     (if 97 \<le> code c \<and> code c \<le> 122 \<or> 224 \<le> code c \<and> code c \<le> 254 \<and> code c \<noteq> 247 then code c - 32 else code c)"
    using upper_char_code[OF False] by blast
  from bar e(1) have "code e = 124" by auto
  with e(2) have "code c = 124" by (auto split: if_splits)
  then show ?thesis unfolding char_eq_code[of c] by simp
qed (simp add: upper_char_def)

lemma split_at_join:
  "xs \<noteq> [] \<Longrightarrow> (\<And>x. x \<in> set xs \<Longrightarrow> c \<notin> set x) \<Longrightarrow> split_at c (js_join [c] xs) = xs"
proof (induction xs rule: induct_list012)
  case (3 x y zs)
  then show ?case by (simp add: split_at_once)
qed (simp_all add: split_at_none)

text \<open>The codes of the table are two capital letters.\<close>

definition capital :: "char \<Rightarrow> bool" where
  "capital c \<longleftrightarrow> 65 \<le> code c \<and> code c \<le> 90"

lemma state_codes_capital:
  "(n, c) \<in> set STATE_NAME_TO_CODE \<Longrightarrow> length c = 2 \<and> (\<forall>e \<in> set c. capital e) \<and> length n \<noteq> 2"
proof -
  have "\<forall>(n, c) \<in> set STATE_NAME_TO_CODE. length c = 2 \<and> (\<forall>e \<in> set c. capital e) \<and> length n \<noteq> 2"
    by (simp add: STATE_NAME_TO_CODE_def capital_def)
  then show "(n, c) \<in> set STATE_NAME_TO_CODE \<Longrightarrow> ?thesis" by blast
qed

lemma capital_char:
  assumes "capital c"
  shows "base_char c = c" "\<not> is_js_space c" "upper_char (lower_char c) = [c]" "plain_char (lower_char c)"
proof -
  have c: "65 \<le> code c" "code c \<le> 90" using assms by (simp_all add: capital_def)
  show b: "base_char c = c" by (rule base_char_fixed) (use c in \<open>simp add: unmarked_def\<close>)
  show s: "\<not> is_js_space c" using c by (auto simp: js_space_code)
  have l: "code (lower_char c) = code c + 32" using c by (simp add: lower_char_code)
  then show "upper_char (lower_char c) = [c]" using c by (simp add: upper_char_def Let_def)
  show "plain_char (lower_char c)" using base_char_lower[of c] b s by (simp add: plain_char_def)
qed

lemma single_spaced_nonspace: "(\<And>c. c \<in> set s \<Longrightarrow> \<not> is_js_space c) \<Longrightarrow> single_spaced s"
  by (induction s rule: single_spaced.induct) auto

lemma normalize_nonspace: "(\<And>c. c \<in> set s \<Longrightarrow> \<not> is_js_space c) \<Longrightarrow> normalize_text s = map (lower_char \<circ> base_char) s"
proof -
  assume s: "\<And>c. c \<in> set s \<Longrightarrow> \<not> is_js_space c"
  then have "js_trim (map base_char s) = map base_char s"
    by (intro js_trim_id) (auto simp: hd_map last_map)
  moreover have "collapse_spaces (map base_char s) = map base_char s"
    using s by (intro collapse_spaces_id single_spaced_nonspace) auto
  ultimately show ?thesis by (simp add: normalize_text_def)
qed

lemma normalize_capitals:
  assumes "\<forall>e \<in> set c. capital e"
  shows "normalize_field c = map lower_char c" and "to_upper_case (map lower_char c) = c"
proof -
  have "normalize_text c = map lower_char c"
    using assms by (subst normalize_nonspace) (auto simp: capital_char)
  then show "normalize_field c = map lower_char c" by (simp add: normalize_field_def)
  show "to_upper_case (map lower_char c) = c"
    using assms by (induction c) (auto simp: to_upper_case_def capital_char)
qed

text \<open>Every spelling of a state of the table, name or code, in any case, gives its code.\<close>

lemma canonicalize_spelling:
  assumes "(name, c) \<in> set STATE_NAME_TO_CODE" and "map_of STATE_NAME_TO_CODE name = Some c"
    and "normalize_text s = name \<or> normalize_text s = map lower_char c"
  shows "canonicalize_state_code s = StateCode c"
  using assms state_codes_capital[OF assms(1)] normalize_capitals[of c]
  by (auto simp: canonicalize_state_code_def Let_def)

definition bar_free :: "address \<Rightarrow> bool" where
  "bar_free a \<longleftrightarrow> (\<forall>f \<in> {line1 a, line2 a, city a, state a, postal_code a, country a}. CHR ''|'' \<notin> set (or_empty f))"

lemma state_field_bar:
  assumes "CHR ''|'' \<notin> set (or_empty (state a))" and "state_field a = Inr st"
  shows "CHR ''|'' \<notin> set st"
proof -
  let ?n = "normalize_text (or_empty (state a))"
  have n: "CHR ''|'' \<notin> set ?n" using assms(1) normalize_text_bar by blast
  then have up: "CHR ''|'' \<notin> set (to_upper_case ?n)" by (auto simp: to_upper_case_def dest: upper_char_bar)
  have tab: "CHR ''|'' \<notin> set c" if "map_of STATE_NAME_TO_CODE k = Some c" for k c
    using state_codes_capital[OF map_of_SomeD[OF that]] by (auto simp: capital_def)
  show ?thesis
    using assms up n normalize_field_bar tab
    by (auto simp: state_field_def canonicalize_state_code_def inherited_member_def Let_def
        split: if_splits option.splits state_lookup.splits)
qed

lemma build_normalised_address_fields:
  assumes "build_normalised_address a = Inr x" and "bar_free a"
  obtains st where "state_field a = Inr st" and "split_at CHR ''|'' x =
    [normalize_field (or_empty (line1 a)), normalize_field (or_empty (line2 a)), normalize_field (or_empty (city a)),
     st, normalize_field (or_empty (postal_code a)), normalize_field (or_empty (country a))]"
proof -
  from assms(1) obtain st where st: "state_field a = Inr st" and x: "x = js_join ''|''
      [normalize_field (or_empty (line1 a)), normalize_field (or_empty (line2 a)), normalize_field (or_empty (city a)),
       st, normalize_field (or_empty (postal_code a)), normalize_field (or_empty (country a))]"
    by (auto simp: build_normalised_address_def)
  have "CHR ''|'' \<notin> set st" using state_field_bar[OF _ st] assms(2) by (simp add: bar_free_def)
  with assms(2) have "split_at CHR ''|'' x =
      [normalize_field (or_empty (line1 a)), normalize_field (or_empty (line2 a)), normalize_field (or_empty (city a)),
       st, normalize_field (or_empty (postal_code a)), normalize_field (or_empty (country a))]"
    unfolding x by (intro split_at_join) (auto simp: bar_free_def normalize_field_bar dest: normalize_field_barD)
  with st that show ?thesis by blast
qed

text \<open>Equal normalised addresses agree in every field, if no field contains a bar.\<close>

lemma same_normalised_address:
  assumes "build_normalised_address a = Inr x" and "build_normalised_address b = Inr x"
    and "bar_free a" and "bar_free b"
  shows "normalize_field (or_empty (city a)) = normalize_field (or_empty (city b))"
    and "state_field a = state_field b"
    and "normalize_field (or_empty (country a)) = normalize_field (or_empty (country b))"
    and "normalize_field (or_empty (line1 a)) = normalize_field (or_empty (line1 b))"
    and "normalize_field (or_empty (line2 a)) = normalize_field (or_empty (line2 b))"
    and "normalize_field (or_empty (postal_code a)) = normalize_field (or_empty (postal_code b))"
proof -
  obtain st where a: "state_field a = Inr st" "split_at CHR ''|'' x =
    [normalize_field (or_empty (line1 a)), normalize_field (or_empty (line2 a)), normalize_field (or_empty (city a)),
     st, normalize_field (or_empty (postal_code a)), normalize_field (or_empty (country a))]"
    by (rule build_normalised_address_fields[OF assms(1,3)])
  obtain st' where b: "state_field b = Inr st'" "split_at CHR ''|'' x =
    [normalize_field (or_empty (line1 b)), normalize_field (or_empty (line2 b)), normalize_field (or_empty (city b)),
     st', normalize_field (or_empty (postal_code b)), normalize_field (or_empty (country b))]"
    by (rule build_normalised_address_fields[OF assms(2,4)])
  note eqs = trans[OF a(2)[symmetric] b(2), unfolded list.inject]
  show "normalize_field (or_empty (city a)) = normalize_field (or_empty (city b))" using eqs by (elim conjE)
  show "state_field a = state_field b" using eqs a(1) b(1) by simp
  show "normalize_field (or_empty (country a)) = normalize_field (or_empty (country b))" using eqs by (elim conjE)
  show "normalize_field (or_empty (line1 a)) = normalize_field (or_empty (line1 b))" using eqs by (elim conjE)
  show "normalize_field (or_empty (line2 a)) = normalize_field (or_empty (line2 b))" using eqs by (elim conjE)
  show "normalize_field (or_empty (postal_code a)) = normalize_field (or_empty (postal_code b))" using eqs by (elim conjE)
qed

end
