(* ===== verification/Geo_Static.thy ===== *)
theory Geo_Static
  imports Geo_Text Js_Double "HOL-Library.Word"
begin

section \<open>The static geocoder\<close>

text \<open>
  \<^verbatim>\<open>src/infrastructure/geocoding/static-geocoding.provider.ts\<close> and \<^verbatim>\<open>us-cities.ts\<close>, and the geocoding
  port of \<^verbatim>\<open>src/domain/ports/geocoding-provider.ts\<close> as the locale \<open>geocoding_port\<close>. SHA-256 is the
  argument \<open>sha256\<close>, from a text to its bytes. Every arithmetic operation of the source is followed by
  the rounding of \<open>double_of\<close>; multiplying by two and the literals are rounded too, although the first
  is always exact. The dash of the error message, which is no code unit below 256, is a hyphen here.
\<close>

subsection \<open>The port\<close>

text \<open>A failure is the port's own error or an exception of JavaScript, never one that names an order.\<close>

definition geocoding_failure :: "app_error \<Rightarrow> bool" where
  "geocoding_failure e \<longleftrightarrow> (case e of GeocodingFailedError r m \<Rightarrow> True | JsError m \<Rightarrow> True | _ \<Rightarrow> False)"

fun geocode_seq :: "(address \<Rightarrow> 'g \<Rightarrow> 'r \<times> 'g) \<Rightarrow> address list \<Rightarrow> 'g \<Rightarrow> 'r list \<times> 'g" where
  "geocode_seq geocode [] g = ([], g)"
| "geocode_seq geocode (a # as) g =
     (case geocode a g of (r, g') \<Rightarrow> case geocode_seq geocode as g' of (rs, g'') \<Rightarrow> (r # rs, g''))"

locale geocoding_port =
  fixes geocode :: "address \<Rightarrow> 'g \<Rightarrow> (app_error + coordinates) \<times> 'g"
    and inv :: "'g \<Rightarrow> bool"
  assumes inv_step: "inv g \<Longrightarrow> inv (snd (geocode a g))"
    and answer_wf: "inv g \<Longrightarrow> fst (geocode a g) = Inr p \<Longrightarrow> coordinates_wf p"
    and failure: "fst (geocode a g) = Inl e \<Longrightarrow> geocoding_failure e"
begin

text \<open>Several addresses, one after the other.\<close>

lemma all_answers_wf:
  "inv g \<Longrightarrow> Inr p \<in> set (fst (geocode_seq geocode as g)) \<Longrightarrow> coordinates_wf p"
  "inv g \<Longrightarrow> inv (snd (geocode_seq geocode as g))"
proof (induction as arbitrary: g)
  case (Cons a as)
  {
    case 1
    then show ?case
      using Cons.IH(1)[OF inv_step[OF 1(1), of a]] answer_wf[OF 1(1), of a p]
      by (auto simp: split: prod.splits)
  next
    case 2
    then show ?case using Cons.IH(2)[OF inv_step[OF 2(1), of a]] by (auto split: prod.splits)
  }
qed simp_all

end

subsection \<open>The table of cities\<close>

type_synonym city_centre = coordinates

definition city_centre :: "rat \<Rightarrow> rat \<Rightarrow> city_centre" where
  "city_centre lat lng = \<lparr>latitude = double_of lat, longitude = double_of lng\<rparr>"

definition US_CITIES :: "(string \<times> city_centre) list" where
  "US_CITIES =
    [(''newark|NJ'', city_centre 40.735657 (- 74.172363)),
     (''los angeles|CA'', city_centre 34.052235 (- 118.243683)),
     (''dallas|TX'', city_centre 32.776664 (- 96.796988)),
     (''chicago|IL'', city_centre 41.878113 (- 87.629799)),
     (''miami|FL'', city_centre 25.761681 (- 80.191788)),
     (''new york|NY'', city_centre 40.7128 (- 74.006)),
     (''philadelphia|PA'', city_centre 39.9526 (- 75.1652)),
     (''san diego|CA'', city_centre 32.7157 (- 117.1611)),
     (''houston|TX'', city_centre 29.7604 (- 95.3698)),
     (''milwaukee|WI'', city_centre 43.0389 (- 87.9065)),
     (''orlando|FL'', city_centre 28.5383 (- 81.3792)),
     (''seattle|WA'', city_centre 47.6062 (- 122.3321)),
     (''denver|CO'', city_centre 39.7392 (- 104.9903)),
     (''portland|OR'', city_centre 45.5152 (- 122.6784)),
     (''portland|ME'', city_centre 43.6591 (- 70.2568)),
     (''boston|MA'', city_centre 42.3601 (- 71.0589)),
     (''atlanta|GA'', city_centre 33.749 (- 84.388)),
     (''phoenix|AZ'', city_centre 33.4484 (- 112.074)),
     (''san francisco|CA'', city_centre 37.7749 (- 122.4194)),
     (''austin|TX'', city_centre 30.2672 (- 97.7431)),
     (''san antonio|TX'', city_centre 29.4241 (- 98.4936)),
     (''charlotte|NC'', city_centre 35.2271 (- 80.8431)),
     (''columbus|OH'', city_centre 39.9612 (- 82.9988)),
     (''indianapolis|IN'', city_centre 39.7684 (- 86.1581)),
     (''san jose|CA'', city_centre 37.3382 (- 121.8863)),
     (''detroit|MI'', city_centre 42.3314 (- 83.0458)),
     (''nashville|TN'', city_centre 36.1627 (- 86.7816)),
     (''memphis|TN'', city_centre 35.1495 (- 90.049)),
     (''baltimore|MD'', city_centre 39.2904 (- 76.6122)),
     (''las vegas|NV'', city_centre 36.1699 (- 115.1398)),
     (''minneapolis|MN'', city_centre 44.9778 (- 93.265)),
     (''new orleans|LA'', city_centre 29.9511 (- 90.0715))]"

subsection \<open>The provider\<close>

definition STATIC_JITTER_DEGREES :: rat where
  "STATIC_JITTER_DEGREES = double_of 0.05"

definition unknown_address :: app_error where
  "unknown_address = GeocodingFailedError UNKNOWN_ADDRESS
     ''Address could not be resolved by the static geocoder - see README for its supported cities and limits.''"

definition resolve_city_centre :: "string \<Rightarrow> string option \<Rightarrow> app_error + city_centre" where
  "resolve_city_centre raw_city raw_state =
    (let normalized_city = normalize_text raw_city; raw = or_empty raw_state in
     if raw \<noteq> [] then
       (let state_code = (case canonicalize_state_code raw of
              StateCode c \<Rightarrow> c | InheritedMember m \<Rightarrow> m | NoState \<Rightarrow> to_upper_case raw)
        in case map_of US_CITIES (normalized_city @ ''|'' @ state_code) of
             None \<Rightarrow> Inl unknown_address
           | Some centre \<Rightarrow> Inr centre)
     else
       (let matches = filter (\<lambda>(key, _). hd (split_at CHR ''|'' key) = normalized_city) US_CITIES in
        if length matches \<noteq> 1 then Inl unknown_address else Inr (snd (matches ! 0))))"

definition read_uint32_be :: "8 word list \<Rightarrow> nat \<Rightarrow> nat" where
  "read_uint32_be d i =
     ((unat (d ! i) * 256 + unat (d ! (i + 1))) * 256 + unat (d ! (i + 2))) * 256 + unat (d ! (i + 3))"

definition jitter_of :: "nat \<Rightarrow> rat" where
  "jitter_of n =
     double_of (double_of (double_of (double_of (of_nat n / 4294967295) * 2) - 1) * STATIC_JITTER_DEGREES)"

definition compute_jitter :: "(string \<Rightarrow> 8 word list) \<Rightarrow> string \<Rightarrow> rat \<times> rat" where
  "compute_jitter sha256 normalised_address =
    (let hash = sha256 normalised_address in (jitter_of (read_uint32_be hash 0), jitter_of (read_uint32_be hash 4)))"

definition static_geocode :: "(string \<Rightarrow> 8 word list) \<Rightarrow> address \<Rightarrow> app_error + coordinates" where
  "static_geocode sha256 a =
    (if \<not> is_accepted_country (or_empty (country a)) then Inl unknown_address
     else bindR (resolve_city_centre (or_empty (city a)) (state a)) (\<lambda>centre.
          bindR (build_normalised_address a) (\<lambda>normalised.
          let (jlat, jlng) = compute_jitter sha256 normalised in
          coordinates_of (Num (double_of (latitude centre + jlat))) (Num (double_of (longitude centre + jlng))))))"

text \<open>The provider keeps no state.\<close>

definition static_provider ::
  "(string \<Rightarrow> 8 word list) \<Rightarrow> address \<Rightarrow> 'g \<Rightarrow> (app_error + coordinates) \<times> 'g" where
  "static_provider sha256 a g = (static_geocode sha256 a, g)"

subsection \<open>How far a result is from a city's centre\<close>

lemma double_of_minus: "double_of (- q) = - double_of q"
  by (simp add: double_of_def Let_def sgn_minus)

lemma double_of_near: "\<bar>double_of q - q\<bar> \<le> \<bar>q\<bar> / 10 ^ 15"
proof -
  have pos: "\<bar>double_of q - q\<bar> \<le> q / 10 ^ 15" if "0 < q" for q
    using double_of_error[OF that] that by (simp add: field_simps)
  consider "q = 0" | "0 < q" | "0 < - q" by linarith
  then show ?thesis
  proof cases
    case 3
    from pos[OF this] 3 show ?thesis by (simp add: double_of_minus abs_minus_commute)
  qed (use pos[of q] in \<open>auto simp: double_of_def\<close>)
qed

lemma double_of_within: "\<bar>q\<bar> \<le> b \<Longrightarrow> \<bar>double_of q - q\<bar> \<le> b / 10 ^ 15"
  by (rule order_trans[OF double_of_near]) (simp add: divide_right_mono)

lemma jitter_bound:
  assumes "n \<le> 4294967295"
  shows "\<bar>jitter_of n\<bar> \<le> 0.05000001"
proof -
  define x where "x = double_of (of_nat n / 4294967295)"
  define y where "y = double_of (x * 2)"
  define z where "z = double_of (y - 1)"
  define d where "d = STATIC_JITTER_DEGREES"
  have "(of_nat n :: rat) \<le> of_nat 4294967295" using assms by (simp only: of_nat_le_iff)
  then have n: "0 \<le> (of_nat n :: rat) / 4294967295" "(of_nat n :: rat) / 4294967295 \<le> 1" by simp_all
  have x: "\<bar>x - of_nat n / 4294967295\<bar> \<le> 1 / 10 ^ 15"
    unfolding x_def by (rule double_of_within) (use n in simp)
  with n have x2: "- (1 / 10 ^ 15) \<le> x" "x \<le> 1 + 1 / 10 ^ 15" by linarith+
  have "\<bar>y - x * 2\<bar> \<le> 3 / 10 ^ 15" unfolding y_def by (rule double_of_within) (use x2 in simp)
  with x2 have y: "\<bar>y - 1\<bar> \<le> 1 + 5 / 10 ^ 15" unfolding abs_le_iff by simp
  then have "\<bar>y - 1\<bar> \<le> 2" by simp
  then have "\<bar>z - (y - 1)\<bar> \<le> 2 / 10 ^ 15" unfolding z_def by (rule double_of_within)
  with y have z: "\<bar>z\<bar> \<le> 1 + 7 / 10 ^ 15" by linarith
  have "\<bar>d - 0.05\<bar> \<le> 1 / 10 ^ 15" unfolding d_def STATIC_JITTER_DEGREES_def by (rule double_of_within) simp
  then have d: "\<bar>d\<bar> \<le> 0.05 + 1 / 10 ^ 15" unfolding abs_le_iff by simp
  have "\<bar>z * d\<bar> \<le> (1 + 7 / 10 ^ 15) * (0.05 + 1 / 10 ^ 15)"
    unfolding abs_mult using z d by (intro mult_mono) simp_all
  then have zd: "\<bar>z * d\<bar> \<le> 0.05 + 2 / 10 ^ 15" by simp
  then have "\<bar>z * d\<bar> \<le> 1" by simp
  then have "\<bar>double_of (z * d) - z * d\<bar> \<le> 1 / 10 ^ 15" by (rule double_of_within)
  with zd have "\<bar>double_of (z * d)\<bar> \<le> 0.05000001" unfolding abs_le_iff by simp
  then show ?thesis by (simp add: jitter_of_def x_def y_def z_def d_def)
qed

lemma read_uint32_be_bound: "read_uint32_be d i \<le> 4294967295"
proof -
  have "unat w < 256" for w :: "8 word" using unsigned_less[of w] by simp
  then have "unat (d ! i) < 256" "unat (d ! (i + 1)) < 256" "unat (d ! (i + 2)) < 256" "unat (d ! (i + 3)) < 256"
    by blast+
  then show ?thesis unfolding read_uint32_be_def by simp
qed

text \<open>Every key is a city and two capital letters; every centre lies in the contiguous states.\<close>

definition city_key :: "string \<Rightarrow> bool" where
  "city_key key \<longleftrightarrow> (let n = length key - 3 in 3 \<le> length key \<and> CHR ''|'' \<notin> set (take n key) \<and>
     (case drop n key of [b, x, y] \<Rightarrow> b = CHR ''|'' \<and> capital x \<and> capital y | _ \<Rightarrow> False))"

lemma city_keyE:
  assumes "city_key key"
  obtains c x y where "key = c @ ''|'' @ [x, y]" and "CHR ''|'' \<notin> set c" and "capital x" and "capital y"
proof -
  let ?n = "length key - 3"
  from assms obtain x y where "drop ?n key = [CHR ''|'', x, y]" "capital x" "capital y" "CHR ''|'' \<notin> set (take ?n key)"
    by (auto simp: city_key_def Let_def split: list.splits)
  with append_take_drop_id[of ?n key] that[of "take ?n key" x y] show ?thesis by simp
qed

lemma not_capital_bar: "capital c \<Longrightarrow> c \<noteq> CHR ''|''" "capital c \<Longrightarrow> CHR ''|'' \<noteq> c"
  by (auto simp: capital_def)

definition in_states :: "city_centre \<Rightarrow> bool" where
  "in_states p \<longleftrightarrow> \<bar>latitude p - 37\<bar> \<le> 20 \<and> \<bar>longitude p + 96\<bar> \<le> 40"

lemma city_centre_in_states: "\<bar>a - 37\<bar> \<le> 19 \<Longrightarrow> \<bar>b + 96\<bar> \<le> 39 \<Longrightarrow> in_states (city_centre a b)"
  using double_of_within[of a 100] double_of_within[of b 200] unfolding in_states_def city_centre_def abs_le_iff
  by simp

lemma us_cities_keys: "\<forall>key \<in> set (map fst US_CITIES). city_key key"
  by (simp add: US_CITIES_def city_key_def capital_def)

lemma us_cities_in_states: "\<forall>centre \<in> set (map snd US_CITIES). in_states centre"
  unfolding US_CITIES_def by (simp add: city_centre_in_states)

lemma us_cities_distinct: "distinct (map fst US_CITIES)"
  by (simp add: US_CITIES_def)

lemma city_point_near:
  assumes "\<bar>q - m\<bar> \<le> r" and "\<bar>m\<bar> + r \<le> 150" and "\<bar>j\<bar> \<le> 0.05000001"
  shows "\<bar>double_of (q + j) - q\<bar> \<le> 0.0500001"
proof -
  from assms have "\<bar>q + j\<bar> \<le> 151" unfolding abs_le_iff by simp linarith
  then have "\<bar>double_of (q + j) - (q + j)\<bar> \<le> 151 / 10 ^ 15" by (rule double_of_within)
  with assms(3) show ?thesis unfolding abs_le_iff by simp
qed

lemma resolve_city_centre_Inr:
  assumes "resolve_city_centre c st = Inr centre"
  obtains key where "(key, centre) \<in> set US_CITIES" and "hd (split_at CHR ''|'' key) = normalize_text c"
    and "or_empty st \<noteq> [] \<Longrightarrow> \<exists>code. (canonicalize_state_code (or_empty st) = StateCode code \<or>
        canonicalize_state_code (or_empty st) = NoState \<and> code = to_upper_case (or_empty st)) \<and>
        key = normalize_text c @ ''|'' @ code"
proof (cases "or_empty st = []")
  case True
  let ?ms = "filter (\<lambda>(key, _). hd (split_at CHR ''|'' key) = normalize_text c) US_CITIES"
  from assms True have "length ?ms = 1" "centre = snd (?ms ! 0)"
    by (auto simp: resolve_city_centre_def Let_def split: if_splits)
  then have "?ms ! 0 \<in> set ?ms" by (intro nth_mem) (simp only: zero_less_one)
  then have "?ms ! 0 \<in> set US_CITIES" "hd (split_at CHR ''|'' (fst (?ms ! 0))) = normalize_text c" by auto
  then show ?thesis using that[of "fst (?ms ! 0)"] True \<open>centre = _\<close> by simp
next
  case False
  define code where "code = (case canonicalize_state_code (or_empty st) of
    StateCode c \<Rightarrow> c | InheritedMember m \<Rightarrow> m | NoState \<Rightarrow> to_upper_case (or_empty st))"
  let ?key = "normalize_text c @ ''|'' @ code"
  from assms False have mem: "(?key, centre) \<in> set US_CITIES"
    by (auto simp: resolve_city_centre_def code_def Let_def split: option.splits dest!: map_of_SomeD)
  then have "city_key ?key" using us_cities_keys by force
  then obtain b x y where key: "?key = b @ ''|'' @ [x, y]" "CHR ''|'' \<notin> set b" "capital x" "capital y"
    by (rule city_keyE)
  have eq: "b = normalize_text c \<and> [x, y] = code"
    using key append_Cons_eq_iff[of "CHR ''|''" b "[x, y]" "normalize_text c" code]
    by (auto simp: not_capital_bar)
  have "canonicalize_state_code (or_empty st) \<noteq> InheritedMember m" for m
  proof
    assume m: "canonicalize_state_code (or_empty st) = InheritedMember m"
    then have "code = m" by (simp add: code_def)
    moreover from m have "m = ''function Object() { [native code] }'' \<or> m = ''[object Object]''"
      by (auto simp: canonicalize_state_code_def inherited_member_def Let_def split: if_splits option.splits)
    ultimately show False using eq by auto
  qed
  then have "\<exists>code. (canonicalize_state_code (or_empty st) = StateCode code \<or>
        canonicalize_state_code (or_empty st) = NoState \<and> code = to_upper_case (or_empty st)) \<and>
        ?key = normalize_text c @ ''|'' @ code"
    by (cases "canonicalize_state_code (or_empty st)") (auto simp: code_def)
  moreover have "hd (split_at CHR ''|'' ?key) = normalize_text c" using split_at_once[OF key(2), of "[x, y]"] key(1) eq by simp
  ultimately show ?thesis using that mem by blast
qed

lemma unknown_address_failure [simp]: "geocoding_failure unknown_address"
  by (simp add: unknown_address_def geocoding_failure_def)

lemma resolve_city_centre_Inl: "resolve_city_centre c st = Inl e \<Longrightarrow> e = unknown_address"
  by (auto simp: resolve_city_centre_def Let_def split: if_splits option.splits)

lemma build_after_resolve:
  assumes "resolve_city_centre c (state a) = Inr centre"
  shows "\<exists>n. build_normalised_address a = Inr n"
  using assms
  by (rule resolve_city_centre_Inr) (auto simp: build_normalised_address_def state_field_def Let_def)

lemma static_geocode_Inr:
  assumes "static_geocode sha256 a = Inr p"
  obtains centre where "is_accepted_country (or_empty (country a))"
    and "resolve_city_centre (or_empty (city a)) (state a) = Inr centre" and "coordinates_wf p"
    and "\<bar>latitude p - latitude centre\<bar> \<le> 0.0500001" and "\<bar>longitude p - longitude centre\<bar> \<le> 0.0500001"
proof -
  from assms obtain centre n where a: "is_accepted_country (or_empty (country a))"
    "resolve_city_centre (or_empty (city a)) (state a) = Inr centre"
    "coordinates_of (Num (double_of (latitude centre + fst (compute_jitter sha256 n))))
       (Num (double_of (longitude centre + snd (compute_jitter sha256 n)))) = Inr p"
    by (simp add: static_geocode_def case_prod_beta split: if_splits) blast
  from a(2) obtain key where "(key, centre) \<in> set US_CITIES" by (rule resolve_city_centre_Inr)
  with us_cities_in_states have s: "in_states centre" by force
  have j: "\<bar>jitter_of (read_uint32_be d i)\<bar> \<le> 0.05000001" for d i
    by (rule jitter_bound) (rule read_uint32_be_bound)
  have near: "\<bar>double_of (latitude centre + jitter_of (read_uint32_be d i)) - latitude centre\<bar> \<le> 0.0500001"
    "\<bar>double_of (longitude centre + jitter_of (read_uint32_be d i)) - longitude centre\<bar> \<le> 0.0500001" for d i
    using s city_point_near[of "latitude centre" 37 20, OF _ _ j] city_point_near[of "longitude centre" "-96" 40, OF _ _ j]
    by (simp_all add: in_states_def)
  from a(3) have p: "coordinates_wf p"
    "latitude p = double_of (latitude centre + jitter_of (read_uint32_be (sha256 n) 0))"
    "longitude p = double_of (longitude centre + jitter_of (read_uint32_be (sha256 n) 4))"
    by (simp_all add: coordinates_of_Inr_iff compute_jitter_def Let_def)
  show ?thesis by (rule that[OF a(1,2) p(1)]) (unfold p(2,3), rule near, rule near)
qed

lemma static_geocode_total:
  assumes "is_accepted_country (or_empty (country a))"
    and "resolve_city_centre (or_empty (city a)) (state a) = Inr centre"
  obtains p where "static_geocode sha256 a = Inr p"
proof -
  obtain n where n: "build_normalised_address a = Inr n" using build_after_resolve[OF assms(2)] by blast
  from assms(2) obtain key where "(key, centre) \<in> set US_CITIES" by (rule resolve_city_centre_Inr)
  with us_cities_in_states have s: "in_states centre" by force
  have j: "\<bar>jitter_of (read_uint32_be d i)\<bar> \<le> 0.05000001" for d i
    by (rule jitter_bound) (rule read_uint32_be_bound)
  define lat where "lat = double_of (latitude centre + jitter_of (read_uint32_be (sha256 n) 0))"
  define lng where "lng = double_of (longitude centre + jitter_of (read_uint32_be (sha256 n) 4))"
  have "\<bar>lat - latitude centre\<bar> \<le> 0.0500001" "\<bar>lng - longitude centre\<bar> \<le> 0.0500001"
    using s city_point_near[of "latitude centre" 37 20, OF _ _ j] city_point_near[of "longitude centre" "-96" 40, OF _ _ j]
    unfolding lat_def lng_def by (simp_all add: in_states_def)
  with s have "coordinates_wf \<lparr>latitude = lat, longitude = lng\<rparr>"
    unfolding coordinates_wf_def in_states_def abs_le_iff by simp
  from coordinates_of_wf[OF this] n assms that show ?thesis
    by (simp add: static_geocode_def compute_jitter_def lat_def lng_def Let_def)
qed

interpretation static_port: geocoding_port "static_provider sha256" "\<lambda>g. True" for sha256
proof
  fix a and g :: 'g and e p
  show "coordinates_wf p" if "fst (static_provider sha256 a g) = Inr p"
    using that by (auto simp: static_provider_def elim: static_geocode_Inr)
  have "e = unknown_address" if fail: "static_geocode sha256 a = Inl e"
  proof (cases "is_accepted_country (or_empty (country a)) \<and> (\<exists>c. resolve_city_centre (or_empty (city a)) (state a) = Inr c)")
    case True
    with fail show ?thesis using static_geocode_total[of a _ sha256] by fastforce
  next
    case False
    with fail show ?thesis
      by (cases "resolve_city_centre (or_empty (city a)) (state a)")
        (auto simp: static_geocode_def dest: resolve_city_centre_Inl split: if_splits)
  qed
  then show "geocoding_failure e" if "fst (static_provider sha256 a g) = Inl e"
    using that by (simp add: static_provider_def)
qed

text \<open>
  The static geocoder answers exactly for the addresses of an accepted country whose city it
  resolves; the answer is a valid point less than a twentieth of a degree (and a rounding) away from
  the centre of a city of the table with the address's normalised name; everything else, an inherited
  state name included, is \<open>UNKNOWN_ADDRESS\<close>.
\<close>

lemma static_geocode_near_city:
  "case static_geocode sha256 a of
     Inr p \<Rightarrow> is_accepted_country (or_empty (country a)) \<and> coordinates_wf p \<and>
       (\<exists>(key, centre) \<in> set US_CITIES. hd (split_at CHR ''|'' key) = normalize_text (or_empty (city a)) \<and>
          resolve_city_centre (or_empty (city a)) (state a) = Inr centre \<and>
          \<bar>latitude p - latitude centre\<bar> \<le> 0.0500001 \<and> \<bar>longitude p - longitude centre\<bar> \<le> 0.0500001)
   | Inl e \<Rightarrow> e = unknown_address \<and>
       (\<not> is_accepted_country (or_empty (country a)) \<or>
        resolve_city_centre (or_empty (city a)) (state a) = Inl unknown_address)"
proof (cases "static_geocode sha256 a")
  case (Inr p)
  then obtain centre where c: "is_accepted_country (or_empty (country a))" "coordinates_wf p"
    "resolve_city_centre (or_empty (city a)) (state a) = Inr centre"
    "\<bar>latitude p - latitude centre\<bar> \<le> 0.0500001" "\<bar>longitude p - longitude centre\<bar> \<le> 0.0500001"
    by (rule static_geocode_Inr)
  moreover from c(3) obtain key where "(key, centre) \<in> set US_CITIES"
    "hd (split_at CHR ''|'' key) = normalize_text (or_empty (city a))" by (rule resolve_city_centre_Inr)
  ultimately show ?thesis using Inr by auto
next
  case (Inl e)
  show ?thesis
  proof (cases "resolve_city_centre (or_empty (city a)) (state a)")
    case (Inl e')
    with \<open>static_geocode sha256 a = Inl e\<close> show ?thesis
      by (auto simp: static_geocode_def dest: resolve_city_centre_Inl split: if_splits)
  next
    case (Inr c)
    with Inl have "\<not> is_accepted_country (or_empty (country a))"
      using static_geocode_total[of a c sha256] by fastforce
    with Inl show ?thesis by (simp add: static_geocode_def)
  qed
qed

end
