(* ===== verification/Geo_Cache.thy ===== *)
theory Geo_Cache
  imports Geo_Static Json_Text
begin

section \<open>The geocoding cache\<close>

text \<open>
  \<^verbatim>\<open>src/infrastructure/geocoding/caching-geocoding.provider.ts\<close>. The \<open>Map\<close> is the list of its entries
  in insertion order, so the least recently used one comes first. \<open>geocode\<close> awaits the delegate in its
  middle: \<open>begin_geocode\<close> is the part before the \<open>await\<close> and \<open>finish_geocode\<close> the part after it, and the
  step relation interleaves the parts of concurrent calls. \<open>cached_geocode\<close> is the call that nothing
  interleaves with.
\<close>

record geo_cache =
  cache_entries :: "(string \<times> coordinates) list"
  cache_max :: nat

definition GEOCODE_CACHE_MAX_ENTRIES :: nat where
  "GEOCODE_CACHE_MAX_ENTRIES = 10000"

definition new_cache :: "nat option \<Rightarrow> geo_cache" where
  "new_cache max_entries = \<lparr>cache_entries = [],
     cache_max = (case max_entries of None \<Rightarrow> GEOCODE_CACHE_MAX_ENTRIES | Some n \<Rightarrow> n)\<rparr>"

text \<open>\<open>Map.prototype.set\<close> and \<open>delete\<close>: setting a present key keeps its place.\<close>

definition js_map_set :: "'k \<Rightarrow> 'v \<Rightarrow> ('k \<times> 'v) list \<Rightarrow> ('k \<times> 'v) list" where
  "js_map_set k v m =
    (if k \<in> fst ` set m then map (\<lambda>(k', v'). if k' = k then (k', v) else (k', v')) m else m @ [(k, v)])"

definition js_map_delete :: "'k \<Rightarrow> ('k \<times> 'v) list \<Rightarrow> ('k \<times> 'v) list" where
  "js_map_delete k m = filter (\<lambda>(k', v). k' \<noteq> k) m"

definition hex_digest :: "8 word list \<Rightarrow> string" where
  "hex_digest d = concat (map (\<lambda>b. [hex_lower (unat b div 16), hex_lower (unat b mod 16)]) d)"

definition cache_key :: "(string \<Rightarrow> 8 word list) \<Rightarrow> address \<Rightarrow> app_error + string" where
  "cache_key sha256 a = bindR (build_normalised_address a) (\<lambda>n. Inr (hex_digest (sha256 n)))"

definition touch :: "string \<Rightarrow> coordinates \<Rightarrow> geo_cache \<Rightarrow> geo_cache" where
  "touch k v c = c\<lparr>cache_entries := js_map_set k v (js_map_delete k (cache_entries c))\<rparr>"

definition store :: "string \<Rightarrow> coordinates \<Rightarrow> geo_cache \<Rightarrow> geo_cache" where
  "store k v c =
    (let m = js_map_set k v (cache_entries c) in
     c\<lparr>cache_entries :=
         (if cache_max c < length m then
            (case m of [] \<Rightarrow> m | (oldest, _) # _ \<Rightarrow> js_map_delete oldest m)
          else m)\<rparr>)"

datatype lookup_outcome = Answered "app_error + coordinates" | AskDelegate string

definition begin_geocode :: "(string \<Rightarrow> 8 word list) \<Rightarrow> address \<Rightarrow> geo_cache \<Rightarrow> lookup_outcome \<times> geo_cache" where
  "begin_geocode sha256 a c =
    (case cache_key sha256 a of
       Inl e \<Rightarrow> (Answered (Inl e), c)
     | Inr key \<Rightarrow>
         (case map_of (cache_entries c) key of
            Some v \<Rightarrow> (Answered (Inr v), touch key v c)
          | None \<Rightarrow> (AskDelegate key, c)))"

definition finish_geocode :: "string \<Rightarrow> app_error + coordinates \<Rightarrow> geo_cache \<Rightarrow> (app_error + coordinates) \<times> geo_cache" where
  "finish_geocode key r c = (case r of Inl e \<Rightarrow> (Inl e, c) | Inr v \<Rightarrow> (Inr v, store key v c))"

definition cached_geocode ::
  "(string \<Rightarrow> 8 word list) \<Rightarrow> (address \<Rightarrow> 'g \<Rightarrow> (app_error + coordinates) \<times> 'g) \<Rightarrow> address \<Rightarrow>
   'g \<times> geo_cache \<Rightarrow> (app_error + coordinates) \<times> ('g \<times> geo_cache)" where
  "cached_geocode sha256 delegate a s =
    (case s of (g, c) \<Rightarrow>
       (case begin_geocode sha256 a c of
          (Answered r, c') \<Rightarrow> (r, (g, c'))
        | (AskDelegate key, c') \<Rightarrow>
            (case delegate a g of (r, g') \<Rightarrow>
               (case finish_geocode key r c' of (r', c'') \<Rightarrow> (r', (g', c''))))))"

subsection \<open>Entries and keys\<close>

lemma js_map_set_keys [simp]:
  "map fst (js_map_set k v m) = (if k \<in> fst ` set m then map fst m else map fst m @ [k])"
  by (auto simp: js_map_set_def)

lemma js_map_set_entry: "x \<in> set (js_map_set k v m) \<Longrightarrow> x = (k, v) \<or> x \<in> set m"
  by (auto simp: js_map_set_def split: if_splits)

lemma js_map_delete_keys: "map fst (js_map_delete k m) = removeAll k (map fst m)"
  by (induction m) (auto simp: js_map_delete_def)

lemma js_map_delete_entry: "x \<in> set (js_map_delete k m) \<Longrightarrow> x \<in> set m"
  by (auto simp: js_map_delete_def)

lemma touch_keys: "map fst (cache_entries (touch k v c)) = removeAll k (map fst (cache_entries c)) @ [k]"
proof -
  have "k \<notin> fst ` set (js_map_delete k (cache_entries c))" by (auto simp: js_map_delete_def)
  then show ?thesis by (simp add: touch_def js_map_delete_keys)
qed

lemma js_map_set_length: "length (js_map_set k v m) = (if k \<in> fst ` set m then length m else Suc (length m))"
  by (simp add: js_map_set_def)

lemma store_keys:
  assumes "distinct (map fst (cache_entries c))" and "length (cache_entries c) \<le> cache_max c"
  shows "map fst (cache_entries (store k v c)) =
    (if k \<in> fst ` set (cache_entries c) then map fst (cache_entries c)
     else if length (cache_entries c) < cache_max c then map fst (cache_entries c) @ [k]
     else tl (map fst (cache_entries c) @ [k]))"
proof -
  let ?m = "js_map_set k v (cache_entries c)"
  have d: "distinct (map fst ?m)" using assms(1) by auto
  have del: "map fst (case ?m of [] \<Rightarrow> ?m | (oldest, _) # _ \<Rightarrow> js_map_delete oldest ?m) = tl (map fst ?m)"
    using d by (cases ?m) (auto simp: js_map_delete_keys)
  show ?thesis
    using assms(2) del by (auto simp: store_def Let_def js_map_set_length)
qed

lemma touch_sel [simp]: "cache_max (touch k v c) = cache_max c"
  and store_sel [simp]: "cache_max (store k v c) = cache_max c"
  by (simp_all add: touch_def store_def Let_def)

lemma touch_entry: "x \<in> set (cache_entries (touch k v c)) \<Longrightarrow> x = (k, v) \<or> x \<in> set (cache_entries c)"
  by (auto simp: touch_def dest!: js_map_set_entry js_map_delete_entry)

lemma store_entry: "x \<in> set (cache_entries (store k v c)) \<Longrightarrow> x = (k, v) \<or> x \<in> set (cache_entries c)"
proof -
  let ?m = "js_map_set k v (cache_entries c)"
  assume "x \<in> set (cache_entries (store k v c))"
  then have "x \<in> set ?m"
    by (cases ?m) (auto simp: store_def Let_def split: if_splits dest: js_map_delete_entry)
  then show ?thesis by (rule js_map_set_entry)
qed

text \<open>The well-formed caches: distinct keys, no more than allowed.\<close>

definition cache_ok :: "geo_cache \<Rightarrow> bool" where
  "cache_ok c \<longleftrightarrow> distinct (map fst (cache_entries c)) \<and> length (cache_entries c) \<le> cache_max c"

lemma cache_ok_new [simp]: "cache_ok (new_cache n)"
  by (simp add: cache_ok_def new_cache_def)

subsection \<open>Concurrent calls\<close>

text \<open>
  The calls that wait for the delegate, what the delegate has answered so far and what callers have
  been given.
\<close>

record cache_system =
  cs_cache :: geo_cache
  cs_waiting :: "(address \<times> string) list"
  cs_answers :: "(address \<times> coordinates) list"
  cs_given :: "(address \<times> coordinates) list"

definition cache_start :: "nat option \<Rightarrow> cache_system" where
  "cache_start n = \<lparr>cs_cache = new_cache n, cs_waiting = [], cs_answers = [], cs_given = []\<rparr>"

definition success :: "address \<Rightarrow> app_error + coordinates \<Rightarrow> (address \<times> coordinates) list" where
  "success a r = (case r of Inl e \<Rightarrow> [] | Inr v \<Rightarrow> [(a, v)])"

inductive cache_step :: "(string \<Rightarrow> 8 word list) \<Rightarrow> cache_system \<Rightarrow> cache_system \<Rightarrow> bool" for sha256 where
  answered: "begin_geocode sha256 a (cs_cache s) = (Answered r, c') \<Longrightarrow>
    cache_step sha256 s (s\<lparr>cs_cache := c', cs_given := success a r @ cs_given s\<rparr>)"
| asks: "begin_geocode sha256 a (cs_cache s) = (AskDelegate key, c') \<Longrightarrow>
    cache_step sha256 s (s\<lparr>cs_cache := c', cs_waiting := (a, key) # cs_waiting s\<rparr>)"
| resumes: "(a, key) \<in> set (cs_waiting s) \<Longrightarrow> finish_geocode key r (cs_cache s) = (r', c') \<Longrightarrow>
    cache_step sha256 s (s\<lparr>cs_cache := c', cs_waiting := remove1 (a, key) (cs_waiting s),
      cs_answers := success a r @ cs_answers s, cs_given := success a r' @ cs_given s\<rparr>)"

lemma store_ok: "cache_ok c \<Longrightarrow> cache_ok (store k v c)"
proof -
  assume c: "cache_ok c"
  then have keys: "map fst (cache_entries (store k v c)) =
    (if k \<in> fst ` set (cache_entries c) then map fst (cache_entries c)
     else if length (cache_entries c) < cache_max c then map fst (cache_entries c) @ [k]
     else tl (map fst (cache_entries c) @ [k]))" by (intro store_keys) (simp_all add: cache_ok_def)
  have "distinct (map fst (cache_entries (store k v c)))"
    unfolding keys using c by (auto simp: cache_ok_def intro!: distinct_tl)
  moreover have "length (map fst (cache_entries (store k v c))) \<le> cache_max c"
    unfolding keys using c by (simp add: cache_ok_def)
  ultimately show ?thesis by (simp add: cache_ok_def)
qed

lemma touch_ok: "cache_ok c \<Longrightarrow> k \<in> fst ` set (cache_entries c) \<Longrightarrow> cache_ok (touch k v c)"
proof -
  assume c: "cache_ok c" "k \<in> fst ` set (cache_entries c)"
  have keys: "map fst (cache_entries (touch k v c)) = removeAll k (map fst (cache_entries c)) @ [k]" by (rule touch_keys)
  have "length (removeAll k (map fst (cache_entries c))) < length (cache_entries c)"
    using c(2) length_removeAll_less[of k "map fst (cache_entries c)"] by simp
  then have "length (map fst (cache_entries (touch k v c))) \<le> cache_max c"
    unfolding keys using c(1) by (simp add: cache_ok_def)
  moreover have "distinct (map fst (cache_entries (touch k v c)))"
    unfolding keys using c(1) by (simp add: cache_ok_def distinct_removeAll)
  ultimately show ?thesis by (simp add: cache_ok_def)
qed

text \<open>An answer the delegate gave for an address with a given key.\<close>

definition given_for :: "(string \<Rightarrow> 8 word list) \<Rightarrow> (address \<times> coordinates) list \<Rightarrow> app_error + string \<Rightarrow> coordinates \<Rightarrow> bool" where
  "given_for sha256 answers key v \<longleftrightarrow> (\<exists>b. (b, v) \<in> set answers \<and> cache_key sha256 b = key)"

lemma given_for_more: "given_for sha256 as key v \<Longrightarrow> given_for sha256 (bs @ as) key v"
  by (auto simp: given_for_def)

lemma given_for_new: "given_for sha256 ((a, v) # as) (cache_key sha256 a) v"
  by (auto simp: given_for_def)

definition cache_inv :: "(string \<Rightarrow> 8 word list) \<Rightarrow> nat \<Rightarrow> cache_system \<Rightarrow> bool" where
  "cache_inv sha256 n s \<longleftrightarrow> cache_ok (cs_cache s) \<and> cache_max (cs_cache s) = n \<and>
     (\<forall>k v. (k, v) \<in> set (cache_entries (cs_cache s)) \<longrightarrow> given_for sha256 (cs_answers s) (Inr k) v) \<and>
     (\<forall>a v. (a, v) \<in> set (cs_given s) \<longrightarrow> given_for sha256 (cs_answers s) (cache_key sha256 a) v) \<and>
     (\<forall>a k. (a, k) \<in> set (cs_waiting s) \<longrightarrow> cache_key sha256 a = Inr k)"

lemma begin_geocode_cases:
  assumes "begin_geocode sha256 a c = (outcome, c')"
  obtains (fails) e where "cache_key sha256 a = Inl e" "outcome = Answered (Inl e)" "c' = c"
  | (hit) key v where "cache_key sha256 a = Inr key" "map_of (cache_entries c) key = Some v"
      "outcome = Answered (Inr v)" "c' = touch key v c"
  | (miss) key where "cache_key sha256 a = Inr key" "map_of (cache_entries c) key = None"
      "outcome = AskDelegate key" "c' = c"
proof (cases "cache_key sha256 a")
  case (Inl e)
  with assms have "outcome = Answered (Inl e)" "c' = c" by (simp_all add: begin_geocode_def)
  from fails[OF Inl this] show ?thesis .
next
  case (Inr key)
  show ?thesis
  proof (cases "map_of (cache_entries c) key")
    case None
    with assms Inr have "outcome = AskDelegate key" "c' = c" by (simp_all add: begin_geocode_def)
    from miss[OF Inr None this] show ?thesis .
  next
    case (Some v)
    with assms Inr have "outcome = Answered (Inr v)" "c' = touch key v c" by (simp_all add: begin_geocode_def)
    from hit[OF Inr Some this] show ?thesis .
  qed
qed

lemma cache_inv_step:
  assumes "cache_inv sha256 n s" and "cache_step sha256 s s'"
  shows "cache_inv sha256 n s'"
  using assms(2)
proof (cases rule: cache_step.cases)
  case (answered a r c')
  note 1 = answered
  from 1(2) show ?thesis
  proof (cases rule: begin_geocode_cases)
    case (hit key v)
    have mem: "(key, v) \<in> set (cache_entries (cs_cache s))" using hit(2) by (rule map_of_SomeD)
    then have "key \<in> fst ` set (cache_entries (cs_cache s))" by force
    then have ok: "cache_ok (touch key v (cs_cache s))" using assms(1) by (intro touch_ok) (simp add: cache_inv_def)
    have s': "s' = s\<lparr>cs_cache := touch key v (cs_cache s), cs_given := (a, v) # cs_given s\<rparr>"
      using 1 hit by (simp add: success_def)
    have entry: "given_for sha256 (cs_answers s) (Inr key) v" using assms(1) mem by (simp add: cache_inv_def)
    show ?thesis
      using assms(1) ok entry hit(1) unfolding s' cache_inv_def by (auto dest!: touch_entry)
  qed (use 1 assms(1) in \<open>simp_all add: success_def\<close>)
next
  case (asks a key c')
  note 2 = asks
  from 2(2) show ?thesis
    by (cases rule: begin_geocode_cases) (use 2 assms(1) in \<open>auto simp: cache_inv_def\<close>)
next
  case (resumes a key r r' c')
  note 3 = resumes
  from 3(2) assms(1) have key: "cache_key sha256 a = Inr key" by (simp add: cache_inv_def)
  have rest: "x \<in> set (cs_waiting s)" if "x \<in> set (remove1 (a, key) (cs_waiting s))" for x
    using that set_remove1_subset by fast
  show ?thesis
  proof (cases r)
    case (Inl e)
    with 3 assms(1) show ?thesis by (auto simp: cache_inv_def finish_geocode_def success_def dest: rest)
  next
    case (Inr v)
    with 3 have s': "s' = s\<lparr>cs_cache := store key v (cs_cache s), cs_waiting := remove1 (a, key) (cs_waiting s),
        cs_answers := (a, v) # cs_answers s, cs_given := (a, v) # cs_given s\<rparr>"
      by (auto simp: finish_geocode_def success_def)
    have ok: "cache_ok (store key v (cs_cache s))" using assms(1) by (intro store_ok) (simp add: cache_inv_def)
    note new = given_for_new[of sha256 a v "cs_answers s"] given_for_more[where bs = "[(a, v)]", simplified]
    show ?thesis
      using assms(1) key ok new(1) unfolding s' cache_inv_def
      by (auto dest!: store_entry dest: rest intro: new(2))
  qed
qed

lemma cache_inv_start: "cache_inv sha256 (cache_max (new_cache n)) (cache_start n)"
  by (simp add: cache_inv_def cache_start_def) (simp add: new_cache_def)

lemma cache_inv_reachable:
  "(cache_step sha256)\<^sup>*\<^sup>* (cache_start n) s \<Longrightarrow> cache_inv sha256 (cache_max (new_cache n)) s"
  by (induction rule: rtranclp_induct) (auto intro: cache_inv_start cache_inv_step)

text \<open>
  However concurrent lookups interleave, the cache never holds more than its limit nor a key
  twice, every entry is an answer the delegate gave for an address with that key, and what a caller
  is given is an answer the delegate gave for an address with the caller's key.
\<close>

lemma cache_holds_delegate_answers:
  assumes "(cache_step sha256)\<^sup>*\<^sup>* (cache_start n) s"
  shows "length (cache_entries (cs_cache s)) \<le> (case n of None \<Rightarrow> GEOCODE_CACHE_MAX_ENTRIES | Some m \<Rightarrow> m) \<and>
    distinct (map fst (cache_entries (cs_cache s))) \<and>
    (\<forall>(k, v) \<in> set (cache_entries (cs_cache s)). \<exists>b. (b, v) \<in> set (cs_answers s) \<and> cache_key sha256 b = Inr k) \<and>
    (\<forall>(a, p) \<in> set (cs_given s). \<exists>b. (b, p) \<in> set (cs_answers s) \<and> cache_key sha256 b = cache_key sha256 a)"
  using cache_inv_reachable[OF assms] by (auto simp: cache_inv_def cache_ok_def new_cache_def given_for_def)

subsection \<open>The wrapped provider is a provider\<close>

definition cached_wf :: "geo_cache \<Rightarrow> bool" where
  "cached_wf c \<longleftrightarrow> (\<forall>v \<in> snd ` set (cache_entries c). coordinates_wf v)"

lemma cache_key_failure: "cache_key sha256 a = Inl e \<Longrightarrow> geocoding_failure e"
  by (auto simp: cache_key_def build_normalised_address_def state_field_def geocoding_failure_def bindR_eq_Inl Let_def
      split: if_splits state_lookup.splits)

lemma touch_wf: "cached_wf c \<Longrightarrow> coordinates_wf v \<Longrightarrow> cached_wf (touch k v c)"
  by (force simp: cached_wf_def dest!: touch_entry)

lemma store_wf: "cached_wf c \<Longrightarrow> coordinates_wf v \<Longrightarrow> cached_wf (store k v c)"
  by (force simp: cached_wf_def dest!: store_entry)

context geocoding_port
begin

lemma cached_port: "geocoding_port (cached_geocode sha256 geocode) (\<lambda>(g, c). inv g \<and> cached_wf c)"
proof
  fix a and s :: "'g \<times> geo_cache"
  obtain g c where s: "s = (g, c)" by fastforce
  obtain outcome c' where lookup: "begin_geocode sha256 a c = (outcome, c')" by fastforce
  obtain r g' where ask: "geocode a g = (r, g')" by fastforce
  show "geocoding_failure e" if "fst (cached_geocode sha256 geocode a s) = Inl e" for e
    using lookup
  proof (cases rule: begin_geocode_cases)
    case (miss key)
    with lookup ask that failure[of a g e] show ?thesis
      by (cases r) (auto simp: cached_geocode_def s finish_geocode_def)
  qed (use lookup that cache_key_failure in \<open>auto simp: cached_geocode_def s\<close>)
  assume "case s of (g, c) \<Rightarrow> inv g \<and> cached_wf c"
  then have g: "inv g" "cached_wf c" by (simp_all add: s)
  have ask': "inv g'" "r = Inr p \<Longrightarrow> coordinates_wf p" for p
    using inv_step[OF g(1), of a] answer_wf[OF g(1), of a] ask by simp_all
  from lookup have "(case snd (cached_geocode sha256 geocode a s) of (g, c) \<Rightarrow> inv g \<and> cached_wf c) \<and>
    (\<forall>p. fst (cached_geocode sha256 geocode a s) = Inr p \<longrightarrow> coordinates_wf p)"
  proof (cases rule: begin_geocode_cases)
    case (fails e)
    with lookup g show ?thesis by (auto simp: cached_geocode_def s)
  next
    case (hit key v)
    from hit(2) have "coordinates_wf v" using g(2) by (force simp: cached_wf_def dest: map_of_SomeD)
    with hit lookup g show ?thesis by (auto simp: cached_geocode_def s intro: touch_wf)
  next
    case (miss key)
    with lookup ask ask' g show ?thesis
      by (cases r) (auto simp: cached_geocode_def s finish_geocode_def intro: store_wf)
  qed
  then show "case snd (cached_geocode sha256 geocode a s) of (g, c) \<Rightarrow> inv g \<and> cached_wf c"
    "fst (cached_geocode sha256 geocode a s) = Inr p \<Longrightarrow> coordinates_wf p" for p by simp_all
qed

end

interpretation cached_static_port: geocoding_port "cached_geocode sha256 (static_provider sha256)"
  "\<lambda>(g, c). True \<and> cached_wf c" for sha256
  by (rule static_port.cached_port)

subsection \<open>Least recently used\<close>

definition last_n :: "nat \<Rightarrow> 'a list \<Rightarrow> 'a list" where
  "last_n n xs = drop (length xs - n) xs"

text \<open>The keys of the successful calls, in order.\<close>

fun used_keys :: "(string \<Rightarrow> 8 word list) \<Rightarrow> address list \<Rightarrow> (app_error + coordinates) list \<Rightarrow> string list" where
  "used_keys sha256 (a # as) (r # rs) =
     (case (cache_key sha256 a, r) of (Inr k, Inr v) \<Rightarrow> k # used_keys sha256 as rs | _ \<Rightarrow> used_keys sha256 as rs)"
| "used_keys sha256 _ _ = []"

lemma remdups_snoc: "remdups (xs @ [k]) = removeAll k (remdups xs) @ [k]"
  by (induction xs) auto

lemma last_n_append: "n \<le> length ys \<Longrightarrow> last_n n (xs @ ys) = last_n n ys"
  by (simp add: last_n_def)

lemma length_removeAll_distinct: "distinct xs \<Longrightarrow> length xs \<le> Suc (length (removeAll k xs))"
  by (induction xs) (auto simp: removeAll_id)

lemma last_n_removeAll:
  assumes "distinct xs"
  shows "last_n n (removeAll k (last_n n xs) @ [k]) = last_n n (removeAll k xs @ [k])"
proof (cases "length xs \<le> n")
  case False
  let ?older = "take (length xs - n) xs"
  have "length (last_n n xs) = n" "distinct (last_n n xs)" using False assms by (simp_all add: last_n_def)
  then have "n \<le> length (removeAll k (last_n n xs) @ [k])" using length_removeAll_distinct[of "last_n n xs" k] by simp
  moreover have "removeAll k xs = removeAll k ?older @ removeAll k (last_n n xs)"
    by (metis append_take_drop_id last_n_def removeAll_append)
  ultimately show ?thesis by (simp only: append_assoc last_n_append)
qed (simp add: last_n_def)

definition cache_keys :: "geo_cache \<Rightarrow> string list" where
  "cache_keys c = map fst (cache_entries c)"

lemma touch_last_n:
  assumes "cache_ok c" and "k \<in> set (cache_keys c)"
  shows "cache_keys (touch k v c) = last_n (cache_max c) (removeAll k (cache_keys c) @ [k])"
proof -
  have "k \<in> fst ` set (cache_entries c)" using assms(2) by (simp add: cache_keys_def)
  from touch_ok[OF assms(1) this, of v] have "length (cache_keys (touch k v c)) \<le> cache_max c"
    by (simp add: cache_ok_def cache_keys_def)
  moreover have "cache_keys (touch k v c) = removeAll k (cache_keys c) @ [k]"
    by (simp add: cache_keys_def touch_keys)
  ultimately show ?thesis by (simp add: last_n_def)
qed

lemma store_last_n:
  assumes "cache_ok c" and "k \<notin> set (cache_keys c)"
  shows "cache_keys (store k v c) = last_n (cache_max c) (removeAll k (cache_keys c) @ [k])"
proof -
  have "cache_keys (store k v c) = (if length (cache_entries c) < cache_max c then cache_keys c @ [k]
      else tl (cache_keys c @ [k]))"
    using assms store_keys[of c k v] by (simp add: cache_ok_def cache_keys_def)
  moreover have "length (cache_keys c) \<le> cache_max c" "length (cache_keys c) = length (cache_entries c)"
    using assms(1) by (simp_all add: cache_ok_def cache_keys_def)
  ultimately show ?thesis using assms(2) by (cases "cache_keys c") (auto simp: last_n_def drop_Suc)
qed

text \<open>What one call does to the keys of the cache.\<close>

lemma cached_geocode_keys:
  assumes "cached_geocode sha256 delegate a (g, c) = (r, (g', c'))" and "cache_ok c"
  shows "cache_ok c' \<and> cache_max c' = cache_max c \<and> cache_keys c' =
    (case (cache_key sha256 a, r) of (Inr k, Inr v) \<Rightarrow> last_n (cache_max c) (removeAll k (cache_keys c) @ [k])
     | _ \<Rightarrow> cache_keys c)"
proof -
  obtain outcome c1 where lookup: "begin_geocode sha256 a c = (outcome, c1)" by fastforce
  then show ?thesis
  proof (cases rule: begin_geocode_cases)
    case (fails e)
    with lookup assms show ?thesis by (auto simp: cached_geocode_def)
  next
    case (hit key v)
    then have k: "key \<in> set (cache_keys c)" by (force simp: cache_keys_def dest: map_of_SomeD)
    then have "cache_ok (touch key v c)" using assms(2) by (intro touch_ok) (simp_all add: cache_keys_def)
    with hit lookup assms touch_last_n[OF assms(2) k] show ?thesis by (auto simp: cached_geocode_def)
  next
    case (miss key)
    then have k: "key \<notin> set (cache_keys c)" by (simp add: cache_keys_def map_of_eq_None_iff)
    obtain r1 g1 where ask: "delegate a g = (r1, g1)" by fastforce
    with miss lookup assms store_last_n[OF assms(2) k] store_ok[OF assms(2)] show ?thesis
      by (cases r1) (auto simp: cached_geocode_def finish_geocode_def)
  qed
qed

lemma cached_geocode_lru:
  assumes "geocode_seq (cached_geocode sha256 delegate) as (g, c) = (rs, (g', c'))" and "cache_ok c"
    and "cache_keys c = last_n (cache_max c) (remdups ks)"
  shows "cache_keys c' = last_n (cache_max c) (remdups (ks @ used_keys sha256 as rs)) \<and> cache_ok c'"
  using assms
proof (induction as arbitrary: g c rs ks)
  case Nil
  then show ?case by simp
next
  case (Cons a as)
  obtain r g1 c1 where first: "cached_geocode sha256 delegate a (g, c) = (r, (g1, c1))" by (metis prod.exhaust)
  with Cons.prems(1) obtain rs' where rest: "rs = r # rs'"
    "geocode_seq (cached_geocode sha256 delegate) as (g1, c1) = (rs', (g', c'))"
    by (auto split: prod.splits)
  from cached_geocode_keys[OF first Cons.prems(2)] have keys: "cache_ok c1" "cache_max c1 = cache_max c" "cache_keys c1 =
      (case (cache_key sha256 a, r) of (Inr k, Inr v) \<Rightarrow> last_n (cache_max c) (removeAll k (cache_keys c) @ [k])
       | _ \<Rightarrow> cache_keys c)" by blast+
  show ?case
  proof (cases "\<exists>k v. cache_key sha256 a = Inr k \<and> r = Inr v")
    case True
    then obtain k v where k: "cache_key sha256 a = Inr k" "r = Inr v" by blast
    with keys Cons.prems(3) have "cache_keys c1 = last_n (cache_max c1) (remdups (ks @ [k]))"
      by (simp add: remdups_snoc last_n_removeAll)
    from Cons.IH[OF rest(2) keys(1) this] k rest(1) keys(2) show ?thesis by simp
  next
    case False
    then have "cache_keys c1 = last_n (cache_max c1) (remdups ks)" "used_keys sha256 (a # as) rs = used_keys sha256 as rs'"
      using keys(2,3) Cons.prems(3) rest(1) by (auto split: sum.splits)
    from Cons.IH[OF rest(2) keys(1) this(1)] this(2) keys(2) show ?thesis by simp
  qed
qed

text \<open>
  C31. For calls one after the other, over any delegate, the cache holds exactly the keys of the last
  \<open>maxEntries\<close> different addresses that were answered, the least recently used first.
\<close>

theorem cache_is_lru:
  "cache_keys (snd (snd (geocode_seq (cached_geocode sha256 delegate) as (g, new_cache n)))) =
     last_n (case n of None \<Rightarrow> GEOCODE_CACHE_MAX_ENTRIES | Some m \<Rightarrow> m)
       (remdups (used_keys sha256 as (fst (geocode_seq (cached_geocode sha256 delegate) as (g, new_cache n)))))"
proof -
  obtain rs g' c' where run: "geocode_seq (cached_geocode sha256 delegate) as (g, new_cache n) = (rs, (g', c'))"
    by (metis prod.exhaust)
  have "cache_keys (new_cache n) = last_n (cache_max (new_cache n)) (remdups [])"
    by (simp add: cache_keys_def new_cache_def last_n_def)
  from cached_geocode_lru[OF run cache_ok_new this] run show ?thesis by (simp add: new_cache_def)
qed

subsection \<open>The cache in front of the static geocoder\<close>

text \<open>Addresses without bars, whose state is absent or not blank and no inherited name.\<close>

definition keyable_address :: "address \<Rightarrow> bool" where
  "keyable_address a \<longleftrightarrow> bar_free a \<and> (or_empty (state a) = [] \<or> normalize_text (or_empty (state a)) \<noteq> []) \<and>
     (\<exists>n. build_normalised_address a = Inr n)"

lemma normalize_field_text [simp]: "normalize_field f = normalize_text f"
  by (simp add: normalize_field_def normalize_text_def js_trim_def)

lemma us_cities_no_SS: "\<forall>key \<in> set (map fst US_CITIES). drop (length key - 2) key \<noteq> ''SS''"
  by (simp add: US_CITIES_def)

lemma lower_capital_inj: "capital x \<Longrightarrow> capital y \<Longrightarrow> lower_char x = lower_char y \<Longrightarrow> x = y"
proof -
  assume "capital x" "capital y" "lower_char x = lower_char y"
  then have "code x = code y" using lower_char_code[of x] lower_char_code[of y] by (simp add: capital_def)
  then show "x = y" by (simp add: char_eq_code)
qed

lemma capitals_lower_inj:
  "\<forall>e \<in> set c. capital e \<Longrightarrow> \<forall>e \<in> set d. capital e \<Longrightarrow> map lower_char c = map lower_char d \<Longrightarrow> c = d"
proof (induction c d rule: list_induct2')
  case (4 x xs y ys)
  then show ?case using lower_capital_inj[of x y] by simp
qed simp_all

text \<open>The upper case of a plain letter, normalised again.\<close>

lemma upper_plain_char:
  assumes "plain_char p" and "code p \<noteq> 223" and "capital x" and "upper_char p = [u]"
    and "lower_char (base_char u) = lower_char x"
  shows "u = x"
proof -
  have low: "97 \<le> code (lower_char x)" "code (lower_char x) \<le> 122" "code (lower_char x) = code x + 32"
    using assms(3) lower_char_code[of x] by (simp_all add: capital_def)
  obtain e where "upper_char p = [e]" and e: "code e =
     (if 97 \<le> code p \<and> code p \<le> 122 \<or> 224 \<le> code p \<and> code p \<le> 254 \<and> code p \<noteq> 247 then code p - 32 else code p)"
    using upper_char_code[OF assms(2)] by blast
  with assms(4) have u: "code u =
     (if 97 \<le> code p \<and> code p \<le> 122 \<or> 224 \<le> code p \<and> code p \<le> 254 \<and> code p \<noteq> 247 then code p - 32 else code p)"
    by simp
  have p: "base_char p = p" "lower_char p = p" using assms(1) by (simp_all add: plain_char_def)
  consider "97 \<le> code p" "code p \<le> 122" | "224 \<le> code p" "code p \<le> 254" "code p \<noteq> 247" | "code u = code p"
    using u by (auto split: if_splits)
  then show ?thesis
  proof cases
    case 1
    with u have "code u = code p - 32" by simp
    with 1 have "capital u" unfolding capital_def by linarith
    then have "lower_char u = lower_char x" using assms(5) by (simp add: capital_char)
    with \<open>capital u\<close> assms(3) show ?thesis by (rule lower_capital_inj)
  next
    case 2
    from base_char_unmarked[of p] p(1) have "unmarked (code p)" by simp
    with 2 u have "unmarked (code u)" by (auto simp: unmarked_def)
    then have "lower_char (base_char u) = lower_char u" by (simp add: base_char_fixed)
    moreover have "code (lower_char u) = code p" using 2 u lower_char_code[of u] by auto
    ultimately show ?thesis using assms(5) low 2(1) by simp
  next
    case 3
    then have "u = p" by (simp add: char_eq_code)
    with p assms(5) have "p = lower_char x" by simp
    with u 3 low show ?thesis by simp
  qed
qed

lemma upper_char_space: "e \<in> set (upper_char p) \<Longrightarrow> is_js_space e \<Longrightarrow> is_js_space p"
proof (cases "code p = 223")
  case False
  assume e: "e \<in> set (upper_char p)" "is_js_space e"
  from upper_char_code[OF False] e(1) have "code e =
     (if 97 \<le> code p \<and> code p \<le> 122 \<or> 224 \<le> code p \<and> code p \<le> 254 \<and> code p \<noteq> 247 then code p - 32 else code p)"
    by fastforce
  with e(2) show ?thesis by (auto simp: js_space_code split: if_splits)
qed (simp add: upper_char_def js_space_code)

lemma upper_char_length: "length (upper_char p) = (if code p = 223 then 2 else 1)"
  by (simp add: upper_char_def Let_def)

text \<open>A state code, normalised again.\<close>

lemma state_code_cases:
  assumes "canonicalize_state_code s = StateCode c"
  obtains (two) p q where "plain_char p" "plain_char q" "c = upper_char p @ upper_char q"
      "normalize_text c = map (lower_char \<circ> base_char) c"
  | (named) "\<forall>e \<in> set c. capital e" "length c = 2" "normalize_text c = map lower_char c"
proof (cases "length (normalize_text s) = 2")
  case True
  then obtain p q where n: "normalize_text s = [p, q]" by (auto simp: length_Suc_conv numeral_2_eq_2)
  from normalize_text_normal[of s] n have pq: "plain_char p" "plain_char q" "\<not> is_js_space p" "\<not> is_js_space q"
    by (auto simp: normal_text_def)
  from assms(1) True n have c: "c = upper_char p @ upper_char q"
    by (simp add: canonicalize_state_code_def to_upper_case_def Let_def)
  have "normalize_text c = map (lower_char \<circ> base_char) c"
    by (rule normalize_nonspace) (use pq c upper_char_space in auto)
  from two[OF pq(1,2) c this] show ?thesis .
next
  case False
  with assms(1) have "map_of STATE_NAME_TO_CODE (normalize_text s) = Some c"
    by (auto simp: canonicalize_state_code_def inherited_member_def Let_def split: option.splits if_splits)
  note code = state_codes_capital[OF map_of_SomeD[OF this]]
  then have "normalize_text c = map lower_char c" using normalize_capitals(1)[of c] by simp
  with named code show ?thesis by blast
qed

lemma state_code_nonblank:
  assumes "canonicalize_state_code s = StateCode c"
  shows "normalize_text c \<noteq> []"
  using assms
proof (cases rule: state_code_cases)
  case (two p q)
  have "upper_char p \<noteq> []" using upper_char_length[of p] by (auto split: if_splits)
  with two show ?thesis by simp
qed auto

text \<open>A code of two capitals is recognised from its own spelling only.\<close>

lemma canonicalize_code:
  assumes "canonicalize_state_code s = StateCode c" and "\<forall>e \<in> set d. capital e" and "length d = 2"
    and "normalize_text c = map lower_char d"
  shows "c = d"
  using assms(1)
proof (cases rule: state_code_cases)
  case (two p q)
  with assms(4) have low: "map (lower_char \<circ> base_char) c = map lower_char d" by simp
  then have "length c = 2" using assms(3) by (metis length_map)
  with two(3) have no223: "code p \<noteq> 223" "code q \<noteq> 223" by (auto simp: upper_char_length split: if_splits)
  then obtain u w where uw: "upper_char p = [u]" "upper_char q = [w]" using upper_char_code by blast
  obtain x y where d: "d = [x, y]" using assms(3) by (auto simp: length_Suc_conv numeral_2_eq_2)
  from low two(3) uw d have "lower_char (base_char u) = lower_char x" "lower_char (base_char w) = lower_char y" by auto
  with upper_plain_char[OF two(1) no223(1) _ uw(1)] upper_plain_char[OF two(2) no223(2) _ uw(2)] assms(2) d
  have "u = x" "w = y" by auto
  with two(3) uw d show ?thesis by simp
next
  case named
  show ?thesis by (rule capitals_lower_inj[OF named(1) assms(2)]) (simp only: named(3)[symmetric] assms(4))
qed

lemma resolved_state_code:
  assumes "resolve_city_centre c st = Inr centre" and "or_empty st \<noteq> []"
  obtains d where "canonicalize_state_code (or_empty st) = StateCode d" and "\<forall>e \<in> set d. capital e"
    and "length d = 2" and "map_of US_CITIES (normalize_text c @ ''|'' @ d) = Some centre"
proof -
  obtain key d where key: "(key, centre) \<in> set US_CITIES" "key = normalize_text c @ ''|'' @ d"
    and d: "canonicalize_state_code (or_empty st) = StateCode d \<or>
      canonicalize_state_code (or_empty st) = NoState \<and> d = to_upper_case (or_empty st)"
    using assms by (metis resolve_city_centre_Inr)
  have "city_key key" using key(1) us_cities_keys by force
  then obtain b x y where b: "key = b @ ''|'' @ [x, y]" "CHR ''|'' \<notin> set b" "capital x" "capital y"
    by (rule city_keyE)
  with key(2) have xy: "d = [x, y]"
    using append_Cons_eq_iff[of "CHR ''|''" b "[x, y]" "normalize_text c" d] by (auto simp: not_capital_bar)
  have not_SS: "d \<noteq> ''SS''" using us_cities_no_SS key(1) b(1) xy by force
  have "canonicalize_state_code (or_empty st) = StateCode d"
  proof (rule ccontr)
    assume "canonicalize_state_code (or_empty st) \<noteq> StateCode d"
    with d have no: "canonicalize_state_code (or_empty st) = NoState" "[x, y] = to_upper_case (or_empty st)"
      using xy by auto
    obtain p r where raw: "or_empty st = p # r" using assms(2) by (cases "or_empty st") auto
    from no(2) raw have up: "[x, y] = upper_char p @ to_upper_case r" by (simp add: to_upper_case_def)
    have nonspace: "\<not> is_js_space e" if "e \<in> set (or_empty st)" for e
    proof
      assume "is_js_space e"
      then have "upper_char e = [e]" by (auto simp: upper_char_def js_space_code Let_def)
      then have "e \<in> set (to_upper_case (or_empty st))" using that unfolding to_upper_case_def by force
      then have "capital e" using no(2) b(3,4) by (metis empty_iff insert_iff list.set(1) list.set(2))
      with \<open>is_js_space e\<close> show False by (simp add: capital_char)
    qed
    show False
    proof (cases "code p = 223")
      case True
      then have "upper_char p = ''SS''" by (simp add: upper_char_def)
      with up xy not_SS show False by (cases "to_upper_case r") auto
    next
      case False
      then obtain u where "upper_char p = [u]" using upper_char_code by blast
      with up have "to_upper_case r = [y]" by simp
      moreover have "length r \<le> length (to_upper_case r)"
        by (induction r) (simp_all add: to_upper_case_def upper_char_length)
      moreover have "r \<noteq> []" using \<open>to_upper_case r = [y]\<close> by (auto simp: to_upper_case_def)
      ultimately have "length r = 1" by (cases r) auto
      then have "length (normalize_text (or_empty st)) = 2"
        using raw normalize_nonspace[of "or_empty st"] nonspace by simp
      with no(1) show False by (simp add: canonicalize_state_code_def Let_def)
    qed
  qed
  moreover have "map_of US_CITIES key = Some centre" using key(1) us_cities_distinct by (simp add: map_of_eq_Some_iff)
  ultimately show ?thesis using that xy b(3,4) key(2) by auto
qed

lemma state_field_code:
  assumes "canonicalize_state_code (or_empty (state a)) = StateCode d" and "or_empty (state a) \<noteq> []"
  shows "state_field a = Inr (normalize_text d)"
  using assms by (simp add: state_field_def Let_def)

text \<open>The static geocoder does not tell apart what the cache key identifies.\<close>

lemma static_same_key:
  assumes "build_normalised_address a = build_normalised_address b" and "keyable_address a" and "keyable_address b"
    and "static_geocode sha256 b = Inr p"
  shows "static_geocode sha256 a = Inr p"
proof -
  from assms(3) obtain n where n: "build_normalised_address b = Inr n" by (auto simp: keyable_address_def)
  with assms(1) have na: "build_normalised_address a = Inr n" by simp
  from assms(2,3) have bars: "bar_free a" "bar_free b" by (simp_all add: keyable_address_def)
  note same = same_normalised_address[OF na n bars, unfolded normalize_field_text]
  from assms(4) obtain centre where "is_accepted_country (or_empty (country b))"
    and centre: "resolve_city_centre (or_empty (city b)) (state b) = Inr centre" by (rule static_geocode_Inr)
  have country: "is_accepted_country (or_empty (country a)) = is_accepted_country (or_empty (country b))"
    using same(3) by (simp add: is_accepted_country_def)
  have "resolve_city_centre (or_empty (city a)) (state a) = Inr centre"
  proof (cases "or_empty (state b) = []")
    case True
    then have field: "state_field a = Inr []" using same(2) by (simp add: state_field_def)
    have "or_empty (state a) = []"
    proof (rule ccontr)
      assume ne: "or_empty (state a) \<noteq> []"
      with assms(2) have nt: "normalize_text (or_empty (state a)) \<noteq> []" by (simp add: keyable_address_def)
      show False
      proof (cases "canonicalize_state_code (or_empty (state a))")
        case (StateCode d)
        with field ne have "normalize_text d = []" by (simp add: state_field_code)
        with state_code_nonblank[OF StateCode] show False by simp
      next
        case (InheritedMember m)
        with field ne show False by (simp add: state_field_def)
      next
        case NoState
        with field ne nt show False by (simp add: state_field_def)
      qed
    qed
    with True centre same(1) show ?thesis by (simp add: resolve_city_centre_def)
  next
    case False
    with centre obtain d where d: "canonicalize_state_code (or_empty (state b)) = StateCode d" "\<forall>e \<in> set d. capital e"
      "length d = 2" "map_of US_CITIES (normalize_text (or_empty (city b)) @ ''|'' @ d) = Some centre"
      by (rule resolved_state_code)
    have low: "normalize_text d = map lower_char d" using normalize_capitals(1)[OF d(2)] by simp
    with False d(1) same(2) have field: "state_field a = Inr (map lower_char d)" by (simp add: state_field_code)
    then have ne: "or_empty (state a) \<noteq> []" using d(3) by (auto simp: state_field_def)
    have "canonicalize_state_code (or_empty (state a)) = StateCode d"
    proof (cases "canonicalize_state_code (or_empty (state a))")
      case (StateCode c)
      with field ne have "normalize_text c = map lower_char d" by (simp add: state_field_code)
      from canonicalize_code[OF StateCode d(2,3) this] StateCode show ?thesis by simp
    next
      case (InheritedMember m)
      with field ne show ?thesis by (simp add: state_field_def)
    next
      case NoState
      with field ne have "normalize_text (or_empty (state a)) = map lower_char d" by (simp add: state_field_def)
      then have "length (normalize_text (or_empty (state a))) = 2" using d(3) by simp
      with NoState show ?thesis by (simp add: canonicalize_state_code_def Let_def)
    qed
    with ne d(4) same(1) show ?thesis by (simp add: resolve_city_centre_def)
  qed
  with country \<open>is_accepted_country (or_empty (country b))\<close> centre na n assms(4)
  show ?thesis by (simp add: static_geocode_def)
qed

lemma hex_lower_inj: "m < 16 \<Longrightarrow> n < 16 \<Longrightarrow> hex_lower m = hex_lower n \<Longrightarrow> m = n"
proof -
  have code: "code (hex_lower k) = (if k < 10 then 48 + k else 87 + k)" if "k < 16" for k
    using that by (simp add: hex_lower_def)
  assume "m < 16" "n < 16" "hex_lower m = hex_lower n"
  then have "(if m < 10 then 48 + m else 87 + m) = (if n < 10 then 48 + n else 87 + n)" by (metis code)
  then show "m = n" using \<open>m < 16\<close> \<open>n < 16\<close> by (simp split: if_splits)
qed

lemma hex_digest_inj: "hex_digest d = hex_digest e \<Longrightarrow> d = e"
proof (induction d e rule: list_induct2')
  case (4 b d c e)
  have byte: "unat b < 256" "unat c < 256" using unsigned_less[of b] unsigned_less[of c] by simp_all
  from 4(2) have "hex_lower (unat b div 16) = hex_lower (unat c div 16)" "hex_lower (unat b mod 16) = hex_lower (unat c mod 16)"
    "hex_digest d = hex_digest e" by (simp_all add: hex_digest_def)
  with byte have "unat b div 16 = unat c div 16" "unat b mod 16 = unat c mod 16"
    by (auto intro!: hex_lower_inj simp: less_mult_imp_div_less)
  then have "unat b = unat c" by (metis div_mult_mod_eq)
  then have "b = c" by (simp add: word_unat_eq_iff)
  then show ?case using 4(1)[OF \<open>hex_digest d = hex_digest e\<close>] by simp
qed (simp_all add: hex_digest_def)

text \<open>SHA-256 gives the normalised addresses of a run different digests.\<close>

definition collision_free :: "(string \<Rightarrow> 8 word list) \<Rightarrow> address list \<Rightarrow> bool" where
  "collision_free sha256 as \<longleftrightarrow> (\<forall>a \<in> set as. \<forall>b \<in> set as. \<forall>m n.
     build_normalised_address a = Inr m \<and> build_normalised_address b = Inr n \<and> sha256 m = sha256 n \<longrightarrow> m = n)"

lemma same_cache_key:
  assumes "collision_free sha256 as" and "a \<in> set as" and "b \<in> set as"
    and "cache_key sha256 a = Inr k" and "cache_key sha256 b = Inr k"
  shows "build_normalised_address a = build_normalised_address b"
proof -
  from assms(4,5) obtain m n where "build_normalised_address a = Inr m" "build_normalised_address b = Inr n"
    "hex_digest (sha256 m) = hex_digest (sha256 n)" by (auto simp: cache_key_def)
  with assms(1-3) hex_digest_inj show ?thesis unfolding collision_free_def by metis
qed

definition static_entries :: "(string \<Rightarrow> 8 word list) \<Rightarrow> address list \<Rightarrow> geo_cache \<Rightarrow> bool" where
  "static_entries sha256 as c \<longleftrightarrow> (\<forall>k v. (k, v) \<in> set (cache_entries c) \<longrightarrow>
     (\<exists>b \<in> set as. cache_key sha256 b = Inr k \<and> static_geocode sha256 b = Inr v))"

lemma cached_static_call:
  assumes "\<forall>a \<in> set as. keyable_address a" and "collision_free sha256 as" and "a \<in> set as"
    and "static_entries sha256 as c"
  shows "\<exists>c'. cached_geocode sha256 (static_provider sha256) a (g, c) = (static_geocode sha256 a, (g, c')) \<and>
    static_entries sha256 as c'"
proof -
  obtain outcome c1 where lookup: "begin_geocode sha256 a c = (outcome, c1)" by fastforce
  then show ?thesis
  proof (cases rule: begin_geocode_cases)
    case (fails e)
    then have False using assms(1,3) by (auto simp: keyable_address_def cache_key_def)
    then show ?thesis ..
  next
    case (hit key v)
    from map_of_SomeD[OF hit(2)] assms(4) obtain b where b: "b \<in> set as" "cache_key sha256 b = Inr key"
      "static_geocode sha256 b = Inr v" unfolding static_entries_def by blast
    have "build_normalised_address a = build_normalised_address b"
      using same_cache_key[OF assms(2,3) b(1) hit(1) b(2)] .
    then have a: "static_geocode sha256 a = Inr v"
      by (rule static_same_key) (use assms(1,3) b(1,3) in blast)+
    have "static_entries sha256 as (touch key v c)"
      unfolding static_entries_def
    proof (intro allI impI)
      fix k w
      assume "(k, w) \<in> set (cache_entries (touch key v c))"
      from touch_entry[OF this] show "\<exists>b \<in> set as. cache_key sha256 b = Inr k \<and> static_geocode sha256 b = Inr w"
        using assms(3,4) hit(1) a unfolding static_entries_def by blast
    qed
    with hit lookup a show ?thesis by (simp add: cached_geocode_def)
  next
    case (miss key)
    show ?thesis
    proof (cases "static_geocode sha256 a")
      case (Inl e)
      with miss lookup assms(4) show ?thesis
        by (simp add: cached_geocode_def static_provider_def finish_geocode_def)
    next
      case (Inr v)
      have "static_entries sha256 as (store key v c)"
        unfolding static_entries_def
      proof (intro allI impI)
        fix k w
        assume "(k, w) \<in> set (cache_entries (store key v c))"
        from store_entry[OF this] show "\<exists>b \<in> set as. cache_key sha256 b = Inr k \<and> static_geocode sha256 b = Inr w"
          using assms(3,4) miss(1) Inr unfolding static_entries_def by blast
      qed
      with miss lookup Inr show ?thesis by (simp add: cached_geocode_def static_provider_def finish_geocode_def)
    qed
  qed
qed

lemma cached_static_calls:
  assumes "\<forall>a \<in> set as. keyable_address a" and "collision_free sha256 as" and "set bs \<subseteq> set as"
    and "static_entries sha256 as c"
  shows "fst (geocode_seq (cached_geocode sha256 (static_provider sha256)) bs (g, c)) = map (static_geocode sha256) bs"
  using assms(3,4)
proof (induction bs arbitrary: c)
  case (Cons b bs)
  from cached_static_call[OF assms(1,2) _ Cons.prems(2), of b g] Cons.prems(1) obtain c' where
    "cached_geocode sha256 (static_provider sha256) b (g, c) = (static_geocode sha256 b, (g, c'))"
    "static_entries sha256 as c'" by auto
  with Cons.IH[of c'] Cons.prems(1) show ?case
    by (cases "geocode_seq (cached_geocode sha256 (static_provider sha256)) bs (g, c')") simp
qed simp

text \<open>
  In front of the static geocoder the cache changes no answer: for addresses without bars in
  their fields and without blank or inherited state names, and short of a collision of SHA-256, a
  sequence of calls gets what the static geocoder alone would have answered, whatever was evicted.
\<close>

lemma cached_static_is_static:
  assumes "\<forall>a \<in> set as. keyable_address a" and "collision_free sha256 as"
  shows "fst (geocode_seq (cached_geocode sha256 (static_provider sha256)) as (g, new_cache n)) =
    map (static_geocode sha256) as"
  by (rule cached_static_calls[OF assms]) (simp_all add: static_entries_def new_cache_def)

subsection \<open>Concrete addresses\<close>

definition miami :: "string option \<Rightarrow> address" where
  "miami st = \<lparr>recipient = Some ''Ana'', line1 = Some ''1 main'', line2 = None, city = Some ''miami'',
     state = st, postal_code = None, country = Some ''us''\<rparr>"

lemma miami_sel [simp]:
  "line1 (miami st) = Some ''1 main''" "line2 (miami st) = None" "city (miami st) = Some ''miami''"
  "state (miami st) = st" "postal_code (miami st) = None" "country (miami st) = Some ''us''"
  by (simp_all add: miami_def)

lemma sample_letters:
  "char_of (70 :: nat) = CHR ''F''" "char_of (76 :: nat) = CHR ''L''"
  "char_of (102 :: nat) = CHR ''f''" "char_of (108 :: nat) = CHR ''l''"
  by code_simp+

lemma sample_texts:
  "normalize_text [] = []" "normalize_text '' '' = []" "normalize_text ''1 main'' = ''1 main''"
  "normalize_text ''miami'' = ''miami''" "normalize_text ''us'' = ''us''" "normalize_text ''FL'' = ''fl''"
  "normalize_text ''Florida'' = ''florida''"
  by (simp_all add: normalize_text_def js_trim_def base_char_def lower_char_def js_space_code sample_letters)

lemma miami_build:
  "build_normalised_address (miami None) = Inr ''1 main||miami|||us''"
  "build_normalised_address (miami (Some '' '')) = Inr ''1 main||miami|||us''"
  "build_normalised_address (miami (Some ''FL'')) = Inr ''1 main||miami|fl||us''"
  by (simp_all add: build_normalised_address_def state_field_def or_empty_def sample_texts canonicalize_state_code_def
    inherited_member_def to_upper_case_def upper_char_def Let_def STATE_NAME_TO_CODE_def sample_letters)

lemma miami_resolve:
  "resolve_city_centre ''miami'' None = Inr (city_centre 25.761681 (- 80.191788))"
  "resolve_city_centre ''miami'' (Some ''FL'') = Inr (city_centre 25.761681 (- 80.191788))"
  "resolve_city_centre ''miami'' (Some '' '') = Inl unknown_address"
  by (simp_all add: resolve_city_centre_def or_empty_def sample_texts canonicalize_state_code_def
    inherited_member_def to_upper_case_def upper_char_def Let_def STATE_NAME_TO_CODE_def US_CITIES_def sample_letters)

lemma miami_keyable: "keyable_address (miami None)" "keyable_address (miami (Some ''FL''))"
  by (simp_all add: keyable_address_def bar_free_def miami_build or_empty_def sample_texts)

definition sample_sha :: "string \<Rightarrow> 8 word list" where
  "sample_sha s = map (\<lambda>c. of_nat (code c)) s"

lemma sample_sha_inj: "sample_sha m = sample_sha n \<Longrightarrow> m = n"
proof (induction m n rule: list_induct2')
  case (4 c m e n)
  then have "(of_nat (code c) :: 8 word) = of_nat (code e)" "m = n" by (simp_all add: sample_sha_def)
  then have "code c = code e" using code_less[of c] code_less[of e] by (simp add: of_nat_inverse word_of_nat_eq_iff take_bit_nat_eq_self)
  with \<open>m = n\<close> show ?case by (simp add: char_eq_code)
qed (simp_all add: sample_sha_def)

lemma sample_sha_collision_free: "collision_free sample_sha as"
  by (auto simp: collision_free_def dest: sample_sha_inj)

text \<open>Room for one address: the second lookup of the first address is a miss again.\<close>

text \<open>
  A blank state is not an absent one: the static geocoder refuses it, but its cache key is that of
  the address without a state, so behind a cache that has seen that address it is answered.
\<close>

lemma blank_state_is_answered_from_cache:
  "static_geocode sha256 (miami (Some '' '')) = Inl unknown_address \<and>
   (\<exists>p. fst (geocode_seq (cached_geocode sha256 (static_provider sha256)) [miami None, miami (Some '' '')]
      ((), new_cache None)) = [Inr p, Inr p])"
proof
  have us: "is_accepted_country (or_empty (Some ''us''))"
    by (simp add: is_accepted_country_def or_empty_def sample_texts ACCEPTED_COUNTRIES_def)
  have city: "or_empty (Some ''miami'') = ''miami''" by (simp add: or_empty_def)
  show "static_geocode sha256 (miami (Some '' '')) = Inl unknown_address"
    by (simp add: static_geocode_def us city miami_resolve)
  obtain p where p: "static_geocode sha256 (miami None) = Inr p"
    using static_geocode_total[of "miami None" _ sha256] us city miami_resolve(1) by auto
  let ?k = "hex_digest (sha256 ''1 main||miami|||us'')"
  have "cached_geocode sha256 (static_provider sha256) (miami None) ((), new_cache None) =
      (Inr p, ((), store ?k p (new_cache None)))"
    by (simp add: cached_geocode_def begin_geocode_def cache_key_def miami_build new_cache_def
        static_provider_def p finish_geocode_def)
  moreover have "map_of (cache_entries (store ?k p (new_cache None))) ?k = Some p"
    by (simp add: store_def new_cache_def js_map_set_def GEOCODE_CACHE_MAX_ENTRIES_def)
  then have "cached_geocode sha256 (static_provider sha256) (miami (Some '' '')) ((), store ?k p (new_cache None)) =
      (Inr p, ((), touch ?k p (store ?k p (new_cache None))))"
    by (simp add: cached_geocode_def begin_geocode_def cache_key_def miami_build)
  ultimately show "\<exists>p. fst (geocode_seq (cached_geocode sha256 (static_provider sha256)) [miami None, miami (Some '' '')]
      ((), new_cache None)) = [Inr p, Inr p]" by simp
qed

text \<open>A state called after an inherited member makes the cache throw before it asks anybody.\<close>

lemma constructor_state_throws:
  "canonicalize_state_code (or_empty (state a)) = InheritedMember m \<Longrightarrow> or_empty (state a) \<noteq> [] \<Longrightarrow>
   cached_geocode sha256 delegate a s = (Inl (JsError ''value.normalize is not a function''), s)"
  by (cases s) (simp add: cached_geocode_def begin_geocode_def cache_key_def build_normalised_address_def state_field_def)

text \<open>Two calls for one address that both miss: the delegate is asked twice, the second answer stays.\<close>

end
