(* ===== verification/Redact_Url.thy ===== *)
theory Redact_Url
  imports Redaction
begin

section \<open>Redaction of URLs\<close>

text \<open>
  What \<open>redactString\<close> of \<^verbatim>\<open>src/infrastructure/http/redaction.ts\<close> makes of a URL whose query has an
  API key: both of its regular expressions work locally, card numbers stop at the first character that
  is no digit, blank or dash, and the value of a key stops at the next ampersand.
\<close>

subsection \<open>Card numbers do not cross other characters\<close>

definition card_barrier :: "char \<Rightarrow> bool" where
  "card_barrier c \<longleftrightarrow> \<not> is_digit c \<and> \<not> is_separator c"

definition keep_rest :: "string \<Rightarrow> (string \<times> string) option \<Rightarrow> (string \<times> string) option" where
  "keep_rest t m = map_option (\<lambda>(x, r). (x, r @ t)) m"

lemma keep_rest_simps [simp]:
  "keep_rest t None = None" "keep_rest t (Some (x, r)) = Some (x, r @ t)"
  "or_else (keep_rest t a) (keep_rest t b) = keep_rest t (or_else a b)"
  "prepend p (keep_rest t a) = keep_rest t (prepend p a)"
  by (simp_all add: keep_rest_def or_else_def prepend_def option.map_comp split: option.split)
    (auto simp: case_prod_beta comp_def)

lemma keep_rest_or_None [simp]: "or_else (keep_rest t a) None = keep_rest t (or_else a None)"
  by (cases a) (auto simp: or_else_def keep_rest_def)

lemma card_at_Nil: "card_at mn mx [] = None"
  by (cases mx) (simp_all add: one_digit_def or_else_def)

lemma card_at_barrier:
  assumes "card_barrier c"
  shows "card_at mn mx (s @ c # t) = keep_rest (c # t) (card_at mn mx s)"
proof (induction mn mx s rule: card_at.induct)
  case (1 mn s)
  then show ?case using assms by (cases s) (auto simp: one_digit_def card_barrier_def)
next
  case (2 mn mx s)
  show ?case
  proof (cases s)
    case Nil
    then show ?thesis using assms by (auto simp: one_digit_def or_else_def card_barrier_def)
  next
    case (Cons d r)
    have one: "one_digit ((d # r) @ c # t) = keep_rest (c # t) (one_digit (d # r))" by (simp add: one_digit_def)
    show ?thesis
    proof (cases "is_digit d")
      case False
      then show ?thesis unfolding Cons by (simp add: one_digit_def or_else_def)
    next
      case True
      have sep: "(case r @ c # t of [] \<Rightarrow> None
          | e # r' \<Rightarrow> if is_separator e then prepend [d, e] (card_at (mn - 1) mx r') else None) =
        keep_rest (c # t) (case r of [] \<Rightarrow> None
          | e # r' \<Rightarrow> if is_separator e then prepend [d, e] (card_at (mn - 1) mx r') else None)"
        using assms 2(1)[OF Cons] True by (cases r) (auto simp: card_barrier_def)
      have "prepend [d] (card_at (mn - 1) mx (r @ c # t)) = keep_rest (c # t) (prepend [d] (card_at (mn - 1) mx r))"
        using 2(2)[OF Cons] True by simp
      with sep one show ?thesis unfolding Cons using True by simp
    qed
  qed
qed

declare card_at.simps [simp del]

lemma replace_cards_steps:
  "replace_cards [] = []"
  "card_at 12 18 (c # s) = None \<Longrightarrow> replace_cards (c # s) = c # replace_cards s"
  "card_at 12 18 (c # s) = Some (m, r) \<Longrightarrow> replace_cards (c # s) = mask_match m @ replace_cards r"
  by (subst replace_cards.simps, simp)+

lemma replace_api_keys_steps:
  "replace_api_keys [] = []"
  "api_key_at (c # s) = None \<Longrightarrow> replace_api_keys (c # s) = c # replace_api_keys s"
  "api_key_at (c # s) = Some (m, r) \<Longrightarrow> replace_api_keys (c # s) = m @ REDACTED_SECRET @ replace_api_keys r"
  by (subst replace_api_keys.simps, simp)+

lemma card_at_barrier_first: "card_barrier c \<Longrightarrow> card_at mn mx (c # t) = None"
  using card_at_barrier[of c mn mx "[]" t] by (simp add: card_at_Nil)

lemma replace_cards_barrier:
  assumes "card_barrier c"
  shows "replace_cards (s @ c # t) = replace_cards s @ c # replace_cards t"
proof (induction s rule: replace_cards.induct)
  case (1 s)
  show ?case
  proof (cases s)
    case Nil
    have "replace_cards (c # t) = c # replace_cards t"
      using card_at_barrier_first[OF assms, of 12 18 t] by (simp add: replace_cards_steps)
    with Nil show ?thesis by (simp add: replace_cards_steps)
  next
    case (Cons d r)
    show ?thesis
    proof (cases "card_at 12 18 s")
      case None
      then have "card_at 12 18 (s @ c # t) = None" by (simp add: card_at_barrier[OF assms])
      with None Cons 1(1)[OF Cons] show ?thesis by (simp add: replace_cards_steps)
    next
      case (Some p)
      obtain m r' where p: "p = (m, r')" by fastforce
      with Some have "card_at 12 18 (s @ c # t) = Some (m, r' @ c # t)" by (simp add: card_at_barrier[OF assms])
      moreover note IH = 1(2)[OF Cons Some p[symmetric]]
      ultimately show ?thesis using Some unfolding p Cons by (simp add: replace_cards_steps)
    qed
  qed
qed

lemma replace_cards_Cons: "card_barrier c \<Longrightarrow> replace_cards (c # t) = c # replace_cards t"
  using replace_cards_barrier[of c "[]" t] by (simp add: replace_cards_steps)

lemma set_mask_match: "set (mask_match m) \<subseteq> insert CHR ''*'' (set m)"
  by (auto simp: mask_match_def mask_digits_def last4_def Let_def dest!: in_set_dropD)

lemma mask_match_ne: "m \<noteq> [] \<Longrightarrow> mask_match m \<noteq> []"
  by (auto simp: mask_match_def mask_digits_def last4_def Let_def)

lemma set_replace_cards: "set (replace_cards s) \<subseteq> insert CHR ''*'' (set s)"
proof (induction s rule: replace_cards.induct)
  case (1 s)
  show ?case
  proof (cases s)
    case Nil
    then show ?thesis by (simp add: replace_cards_steps)
  next
    case (Cons c cs)
    show ?thesis
    proof (cases "card_at 12 18 s")
      case None
      with Cons 1(1)[OF Cons] show ?thesis by (auto simp: replace_cards_steps)
    next
      case (Some p)
      obtain m r where p: "p = (m, r)" by fastforce
      have "s = m @ r" using card_at_split Some p by blast
      moreover have "replace_cards s = mask_match m @ replace_cards r"
        using Some unfolding p Cons by (rule replace_cards_steps(3))
      ultimately show ?thesis
        using 1(2)[OF Cons Some p[symmetric]] set_mask_match[of m] by auto
    qed
  qed
qed

lemma replace_cards_ne: "s \<noteq> [] \<Longrightarrow> replace_cards s \<noteq> []"
proof (cases s)
  case (Cons c cs)
  then show ?thesis
  proof (cases "card_at 12 18 s")
    case None
    with Cons show ?thesis by (simp add: replace_cards_steps)
  next
    case (Some p)
    obtain m r where p: "p = (m, r)" by fastforce
    with Some have "m \<noteq> []" using card_at_split by blast
    with Some p Cons show ?thesis by (simp add: replace_cards_steps mask_match_ne)
  qed
qed simp

subsection \<open>A key's value stops at the ampersand\<close>

lemma take_prefix_amp: "CHR ''&'' \<notin> set p \<Longrightarrow> take_prefix p (s @ CHR ''&'' # t) = keep_rest (CHR ''&'' # t) (take_prefix p s)"
proof (induction p s rule: take_prefix.induct)
  case (2 p ps)
  have "to_lower CHR ''&'' = CHR ''&''" by (simp add: to_lower_def code_def)
  with 2 show ?case by simp
qed auto

lemma api_key_at_amp:
  assumes "s \<noteq> []"
  shows "api_key_at (s @ CHR ''&'' # t) = keep_rest (CHR ''&'' # t) (api_key_at s)"
proof -
  obtain c cs where s: "s = c # cs" using assms by (cases s) auto
  let ?n = "or_else (take_prefix ''api_key='' cs) (take_prefix ''apikey='' cs)"
  have "or_else (take_prefix ''api_key='' (cs @ CHR ''&'' # t)) (take_prefix ''apikey='' (cs @ CHR ''&'' # t)) =
      keep_rest (CHR ''&'' # t) ?n"
    using take_prefix_amp[of "''api_key=''" cs t] take_prefix_amp[of "''apikey=''" cs t] by simp
  moreover have "takeWhile (\<lambda>c. c \<noteq> CHR ''&'' \<and> \<not> is_js_space c) (r @ CHR ''&'' # t) =
      takeWhile (\<lambda>c. c \<noteq> CHR ''&'' \<and> \<not> is_js_space c) r"
    "dropWhile (\<lambda>c. c \<noteq> CHR ''&'' \<and> \<not> is_js_space c) (r @ CHR ''&'' # t) =
      dropWhile (\<lambda>c. c \<noteq> CHR ''&'' \<and> \<not> is_js_space c) r @ CHR ''&'' # t" for r
    by (induction r) simp_all
  ultimately show ?thesis by (cases ?n) (auto simp: api_key_at_def s)
qed

lemma replace_api_keys_amp:
  "replace_api_keys (s @ CHR ''&'' # t) = replace_api_keys s @ replace_api_keys (CHR ''&'' # t)"
proof (induction s rule: replace_api_keys.induct)
  case (1 s)
  show ?case
  proof (cases s)
    case Nil
    then show ?thesis by (simp add: replace_api_keys_steps)
  next
    case (Cons c cs)
    then have at: "api_key_at (s @ CHR ''&'' # t) = keep_rest (CHR ''&'' # t) (api_key_at s)"
      by (intro api_key_at_amp) simp
    show ?thesis
    proof (cases "api_key_at s")
      case None
      with at Cons 1(1)[OF Cons] show ?thesis by (simp add: replace_api_keys_steps)
    next
      case (Some p)
      obtain m r where p: "p = (m, r)" by fastforce
      note IH = 1(2)[OF Cons Some p[symmetric]]
      from at Some p have "api_key_at (s @ CHR ''&'' # t) = Some (m, r @ CHR ''&'' # t)" by simp
      then show ?thesis using Some IH unfolding p Cons by (simp add: replace_api_keys_steps)
    qed
  qed
qed

lemma key_name_letters:
  "to_lower CHR ''a'' = CHR ''a''" "to_lower CHR ''p'' = CHR ''p''" "to_lower CHR ''i'' = CHR ''i''"
  "to_lower CHR ''K'' = CHR ''k''" "to_lower CHR ''e'' = CHR ''e''" "to_lower CHR ''y'' = CHR ''y''"
  "to_lower CHR ''='' = CHR ''=''"
  by code_simp+

lemma replace_api_keys_value:
  assumes "k \<noteq> []" and "\<And>c. c \<in> set k \<Longrightarrow> c \<noteq> CHR ''&'' \<and> \<not> is_js_space c" and "t = [] \<or> hd t = CHR ''&''"
  shows "replace_api_keys (''&apiKey='' @ k @ t) = ''&apiKey=[REDACTED]'' @ replace_api_keys t"
proof -
  have "takeWhile (\<lambda>c. c \<noteq> CHR ''&'' \<and> \<not> is_js_space c) (k @ t) = k"
    "dropWhile (\<lambda>c. c \<noteq> CHR ''&'' \<and> \<not> is_js_space c) (k @ t) = t"
    using assms(2,3) by (cases t; simp add: takeWhile_append dropWhile_append)+
  moreover have "or_else (take_prefix ''api_key='' (''apiKey='' @ k @ t)) (take_prefix ''apikey='' (''apiKey='' @ k @ t)) =
      Some (''apiKey='', k @ t)"
    by (simp add: key_name_letters or_else_def prepend_def)
  ultimately have "api_key_at (''&apiKey='' @ k @ t) = Some (''&apiKey='', t)"
    using assms(1) by (simp add: api_key_at_def)
  then show ?thesis using replace_api_keys_steps(3)[of "CHR ''&''" "''apiKey='' @ k @ t"] by (simp add: REDACTED_SECRET_def)
qed

text \<open>The value of the key does not reach the redacted text.\<close>

lemma redact_url_key:
  assumes "k \<noteq> []" and "\<And>c. c \<in> set k \<Longrightarrow> c \<noteq> CHR ''&'' \<and> \<not> is_js_space c" and "t = [] \<or> hd t = CHR ''&''"
  shows "redact_string (p @ ''&apiKey='' @ k @ t) =
    replace_api_keys (replace_cards p) @ ''&apiKey=[REDACTED]'' @ replace_api_keys (replace_cards t)"
proof -
  have barrier: "\<forall>c \<in> set ''&apiKey=''. card_barrier c" by (simp add: card_barrier_def is_digit_def is_separator_def)
  have kt: "replace_cards (k @ t) = replace_cards k @ replace_cards t"
    using assms(3) barrier by (cases t) (simp_all add: replace_cards_barrier replace_cards_Cons replace_cards_steps)
  have "replace_cards (p @ ''&apiKey='' @ k @ t) = replace_cards p @ ''&apiKey='' @ replace_cards k @ replace_cards t"
    using barrier by (simp add: replace_cards_barrier replace_cards_Cons kt)
  moreover have "replace_cards t = [] \<or> hd (replace_cards t) = CHR ''&''"
    using assms(3) barrier by (cases t) (simp_all add: replace_cards_Cons replace_cards_steps)
  moreover have "c \<noteq> CHR ''&'' \<and> \<not> is_js_space c" if "c \<in> set (replace_cards k)" for c
    using that set_replace_cards[of k] assms(2) by (auto simp: is_js_space_def)
  ultimately show ?thesis
    using replace_api_keys_amp[of "replace_cards p" "''apiKey='' @ replace_cards k @ replace_cards t"]
      replace_api_keys_value[OF replace_cards_ne[OF assms(1)]]
    by (simp add: redact_string_def)
qed

end
