(* ===== verification/Geoapify.thy ===== *)
theory Geoapify
  imports Payment_Gateway Geo_Cache Redact_Url
begin

section \<open>The Geoapify geocoder\<close>

text \<open>
  \<^verbatim>\<open>src/infrastructure/geocoding/geoapify-geocoding.provider.ts\<close>. Geoapify is the argument \<open>fetch\<close>, as
  in the payment gateway; the lines the provider logs are kept beside the remote state, so that they
  survive the retry loop. A request shows its whole URL. Dashes of messages are hyphens.
\<close>

subsection \<open>Logging\<close>

type_synonym 'p logged = "('p \<times> string list) net"

definition with_log :: "'p fetch \<Rightarrow> ('p \<times> string list) fetch" where
  "with_log fetch t req s = (case fetch t req (fst s) of (event, p) \<Rightarrow> (event, (p, snd s)))"

definition log_error :: "string \<Rightarrow> 'p logged \<Rightarrow> 'p logged" where
  "log_error line s = s\<lparr>net_remote := (fst (net_remote s), snd (net_remote s) @ [line])\<rparr>"

subsection \<open>The request\<close>

record geoapify_options =
  ga_api_key :: string
  ga_base_url :: string
  ga_timeout_ms :: nat
  ga_max_attempts :: nat
  ga_base_delay_ms :: int
  ga_breaker :: breaker_options

definition GEOAPIFY_SEARCH_URL :: string where
  "GEOAPIFY_SEARCH_URL = ''https://api.geoapify.com/v1/geocode/search''"

text \<open>What the module passes: the key, and the defaults for everything else.\<close>

definition default_geoapify_options :: "string \<Rightarrow> geoapify_options" where
  "default_geoapify_options api_key = \<lparr>ga_api_key = api_key, ga_base_url = GEOAPIFY_SEARCH_URL,
     ga_timeout_ms = ATTEMPT_TIMEOUT_MS, ga_max_attempts = MAX_ATTEMPTS, ga_base_delay_ms = BACKOFF_BASE_MS,
     ga_breaker = default_breaker_options\<rparr>"

text \<open>\<open>URLSearchParams.toString\<close> of code units below 256: form encoding, as UTF-8.\<close>

definition form_char :: "char \<Rightarrow> string" where
  "form_char c =
    (if is_digit c \<or> (65 \<le> code c \<and> code c \<le> 90) \<or> (97 \<le> code c \<and> code c \<le> 122) \<or> c \<in> set ''*-._'' then [c]
     else if code c = 32 then ''+''
     else if code c < 128 then percent (code c)
     else percent (192 + code c div 64) @ percent (128 + code c mod 64))"

definition form_encode :: "string \<Rightarrow> string" where
  "form_encode s = concat (map form_char s)"

definition search_params_text :: "(string \<times> string) list \<Rightarrow> string" where
  "search_params_text ps = js_join ''&'' (map (\<lambda>(k, v). form_encode k @ ''='' @ form_encode v) ps)"

definition build_search_url :: "geoapify_options \<Rightarrow> address \<Rightarrow> string" where
  "build_search_url opts a =
    (let params = [(''street'', or_empty (line1 a)), (''city'', or_empty (city a)), (''country'', or_empty (country a)),
           (''filter'', ''countrycode:us''), (''limit'', ''1''), (''apiKey'', ga_api_key opts)];
         params = (if or_empty (state a) \<noteq> [] then params @ [(''state'', or_empty (state a))] else params);
         params = (if or_empty (postal_code a) \<noteq> [] then params @ [(''postcode'', or_empty (postal_code a))] else params)
     in ga_base_url opts @ ''?'' @ search_params_text params)"

definition search_request :: "geoapify_options \<Rightarrow> address \<Rightarrow> http_request" where
  "search_request opts a = \<lparr>rq_method = ''GET'', rq_path = build_search_url opts a, rq_key = None, rq_body = None\<rparr>"

subsection \<open>The response\<close>

text \<open>Only the numbers a feature is read for.\<close>

type_synonym geoapify_feature = "js_num \<times> js_num"

datatype geoapify_response = GaSuccess "geoapify_feature list" | GaConfigurationError nat

datatype geoapify_error =
  GaProviderError nat
| GaTooManyRequests
| GaTimeout
| GaConnectionRefused
| GaNetworkError
| GaCircuitOpen
| GaNoAttempt

fun geoapify_retryable :: "geoapify_error + 'a \<Rightarrow> bool" where
  "geoapify_retryable (Inl GaCircuitOpen) = False"
| "geoapify_retryable (Inl GaNoAttempt) = False"
| "geoapify_retryable (Inl e) = True"
| "geoapify_retryable (Inr a) = False"

definition geoapify_network_error :: "thrown \<Rightarrow> geoapify_error" where
  "geoapify_network_error e = (case classify_fetch_error e of
     FetchTimeout \<Rightarrow> GaTimeout
   | FetchConnectionRefused \<Rightarrow> GaConnectionRefused
   | FetchNetworkError \<Rightarrow> GaNetworkError)"

definition geoapify_feature :: "json \<Rightarrow> geoapify_feature option" where
  "geoapify_feature v =
    (case field (as_record (Some v)) ''properties'' of
       Some (JObj props) \<Rightarrow>
         (case (map_of props ''lat'', map_of props ''lon'') of
            (Some (JNum lat), Some (JNum lon)) \<Rightarrow> Some (lat, lon)
          | _ \<Rightarrow> None)
     | _ \<Rightarrow> None)"

definition parse_features :: "json option \<Rightarrow> geoapify_feature list" where
  "parse_features body =
    (case field (as_record body) ''features'' of
       Some (JArr fs) \<Rightarrow> List.map_filter geoapify_feature fs
     | _ \<Rightarrow> [])"

subsection \<open>The provider\<close>

definition configuration_line :: "geoapify_options \<Rightarrow> address \<Rightarrow> nat \<Rightarrow> string" where
  "configuration_line opts a status =
     redact_string (''Geoapify request failed with HTTP '' @ show_nat status @ '': '' @ build_search_url opts a)"

definition search :: "geoapify_options \<Rightarrow> 'p fetch \<Rightarrow> address \<Rightarrow> 'p logged \<Rightarrow>
   (geoapify_error + geoapify_response) \<times> 'p logged" where
  "search opts fetch a s =
    (case fetch_with_timeout (ga_timeout_ms opts) (with_log fetch) (search_request opts a) s of
       (Inl e, s1) \<Rightarrow> (Inl (geoapify_network_error e), s1)
     | (Inr (ms, status, body_ms, body), s1) \<Rightarrow>
         if status = 401 \<or> status = 403 then
           (Inr (GaConfigurationError status), log_error (configuration_line opts a status) s1)
         else if status = 429 then (Inl GaTooManyRequests, s1)
         else if 500 \<le> status then (Inl (GaProviderError status), s1)
         else (case read_body (ga_timeout_ms opts) ms body_ms body s1 of
           (b, s2) \<Rightarrow> (Inr (GaSuccess (parse_features b)), s2)))"

definition geoapify_attempts :: "geoapify_options \<Rightarrow> (rat \<Rightarrow> nat \<Rightarrow> rat) \<Rightarrow> 'p fetch \<Rightarrow> address \<Rightarrow> 'p logged \<Rightarrow>
   (geoapify_error + geoapify_response) \<times> 'p logged" where
  "geoapify_attempts opts draw fetch a =
     with_retry (guarded (ga_breaker opts) GaCircuitOpen (search opts fetch a)) geoapify_retryable
       (sleep draw (ga_base_delay_ms opts)) GaNoAttempt (ga_max_attempts opts)"

definition geoapify_unavailable :: app_error where
  "geoapify_unavailable = GeocodingFailedError PROVIDER_UNAVAILABLE ''Geoapify is unavailable - see README.''"

definition geoapify_rejected :: "nat \<Rightarrow> app_error" where
  "geoapify_rejected status = GeocodingFailedError PROVIDER_UNAVAILABLE
     (''Geoapify rejected the request (HTTP '' @ show_nat status @ '') - check GEOAPIFY_API_KEY, see README.'')"

definition geoapify_no_match :: app_error where
  "geoapify_no_match = GeocodingFailedError UNKNOWN_ADDRESS
     ''Geoapify found no match for this address - see README.''"

definition geoapify_geocode :: "geoapify_options \<Rightarrow> (rat \<Rightarrow> nat \<Rightarrow> rat) \<Rightarrow> 'p fetch \<Rightarrow> address \<Rightarrow> 'p logged \<Rightarrow>
   (app_error + coordinates) \<times> 'p logged" where
  "geoapify_geocode opts draw fetch a s =
    (case geoapify_attempts opts draw fetch a s of
       (Inl e, s') \<Rightarrow> (Inl geoapify_unavailable, s')
     | (Inr (GaConfigurationError status), s') \<Rightarrow> (Inl (geoapify_rejected status), s')
     | (Inr (GaSuccess features), s') \<Rightarrow>
         (case features of
            [] \<Rightarrow> (Inl geoapify_no_match, s')
          | (lat, lon) # _ \<Rightarrow> (coordinates_of lat lon, s')))"

subsection \<open>The last attempt\<close>

definition logged_lines :: "'p logged \<Rightarrow> string list" where
  "logged_lines s = snd (net_remote s)"

lemma fetch_with_log:
  assumes "fetch_with_timeout t (with_log fetch) req s = (r, s')"
  shows "logged_lines s' = logged_lines s"
    and "r = Inr (ms, status, body_ms, body) \<Longrightarrow>
      fst (fetch (net_now s) req (fst (net_remote s))) = NetResponse ms status body_ms body"
  using assms
  by (auto simp: fetch_with_timeout_def with_log_def logged_lines_def Let_def split: prod.splits net_event.splits if_splits)

lemma read_body_lines [simp]: "logged_lines (snd (read_body t ms body_ms body s)) = logged_lines s"
  by (simp add: read_body_def logged_lines_def)

text \<open>One call of \<open>search\<close>: what it logs, and what it has read.\<close>

lemma search_result:
  assumes "search opts fetch a s = (r, s')"
  obtains (error) e where "r = Inl e" "logged_lines s' = logged_lines s"
  | (config) status ms body_ms body where "r = Inr (GaConfigurationError status)" "status \<in> {401, 403}"
      "logged_lines s' = logged_lines s @ [configuration_line opts a status]"
      "fst (fetch (net_now s) (search_request opts a) (fst (net_remote s))) = NetResponse ms status body_ms body"
  | (features) status ms body_ms body where "r = Inr (GaSuccess (parse_features body)) \<or> r = Inr (GaSuccess [])"
      "logged_lines s' = logged_lines s" "status < 500" "status \<notin> {401, 403, 429}"
      "fst (fetch (net_now s) (search_request opts a) (fst (net_remote s))) = NetResponse ms status body_ms body"
proof -
  obtain q s1 where call: "fetch_with_timeout (ga_timeout_ms opts) (with_log fetch) (search_request opts a) s = (q, s1)"
    by fastforce
  note fetched = fetch_with_log[OF call]
  show ?thesis
  proof (cases q)
    case (Inl e)
    with call assms error fetched(1) show ?thesis by (auto simp: search_def)
  next
    case (Inr p)
    obtain ms status body_ms body where p: "p = (ms, status, body_ms, body)" by (cases p) auto
    with Inr fetched(2) have ev: "fst (fetch (net_now s) (search_request opts a) (fst (net_remote s))) =
        NetResponse ms status body_ms body" by blast
    obtain b s2 where rb: "read_body (ga_timeout_ms opts) ms body_ms body s1 = (b, s2)" by fastforce
    then have s2: "logged_lines s2 = logged_lines s1" "b = body \<or> b = None"
      using read_body_lines[of "ga_timeout_ms opts" ms body_ms body s1] by (auto simp: read_body_def split: if_splits)
    consider "status = 401 \<or> status = 403" | "status = 429 \<or> 500 \<le> status" | "status < 500" "status \<notin> {401, 403, 429}"
      by force
    then show ?thesis
    proof cases
      case 1
      with assms call Inr p have "r = Inr (GaConfigurationError status)"
        "s' = log_error (configuration_line opts a status) s1" by (auto simp: search_def)
      with 1 config ev fetched(1) show ?thesis by (simp add: log_error_def logged_lines_def)
    next
      case 2
      with assms call Inr p error fetched(1) show ?thesis by (auto simp: search_def split: if_splits)
    next
      case 3
      with assms call Inr p rb have "r = Inr (GaSuccess (parse_features b))" "s' = s2" by (auto simp: search_def)
      moreover have "parse_features None = []" by (simp add: parse_features_def as_record_def field_def)
      ultimately show ?thesis using 3 features ev fetched(1) s2 by metis
    qed
  qed
qed

lemma guarded_cases:
  assumes "guarded bo e operation s = (r, s')"
  obtains (blocked) "r = Inl e" "net_remote s' = net_remote s"
  | (ran) s1 where "operation s = (r, s1)" "net_remote s' = net_remote s1"
  using assms by (auto simp: guarded_def execute_def split: prod.splits option.splits)

lemma guarded_search_lines:
  assumes "guarded bo e (search opts fetch a) s = (Inl x, s')"
  shows "logged_lines s' = logged_lines s"
  using assms
proof (cases rule: guarded_cases)
  case blocked
  then show ?thesis by (simp add: logged_lines_def)
next
  case (ran s1)
  from ran(1) have "logged_lines s1 = logged_lines s" by (cases rule: search_result) simp_all
  with ran(2) show ?thesis by (simp add: logged_lines_def)
qed

lemma retry_state_lines:
  assumes "\<And>j. j < k \<Longrightarrow> geoapify_retryable (fst (guarded bo e (search opts fetch a)
      (retry_state (guarded bo e (search opts fetch a)) (sleep draw base) first j s)))"
  shows "logged_lines (retry_state (guarded bo e (search opts fetch a)) (sleep draw base) first k s) = logged_lines s"
  using assms
proof (induction k arbitrary: first s)
  case (Suc k)
  let ?op = "guarded bo e (search opts fetch a)"
  let ?s = "sleep draw base first (snd (?op s))"
  have "geoapify_retryable (fst (?op s))" using Suc.prems[of 0] by simp
  then obtain x s' where op: "?op s = (Inl x, s')" by (cases "?op s"; cases "fst (?op s)") simp_all
  from guarded_search_lines[OF op] op have "logged_lines ?s = logged_lines s" by (simp add: sleep_def logged_lines_def)
  moreover have "logged_lines (retry_state ?op (sleep draw base) (Suc first) k ?s) = logged_lines ?s"
    using Suc.prems[of "Suc _"] by (intro Suc.IH) simp
  ultimately show ?case by simp
qed simp

lemma geoapify_attempts_last:
  assumes "0 < ga_max_attempts opts"
  obtains s0 where "geoapify_attempts opts draw fetch a s = guarded (ga_breaker opts) GaCircuitOpen (search opts fetch a) s0"
    and "logged_lines s0 = logged_lines s"
proof -
  let ?op = "guarded (ga_breaker opts) GaCircuitOpen (search opts fetch a)"
  let ?sleep = "sleep draw (ga_base_delay_ms opts)"
  from assms have "1 \<le> ga_max_attempts opts" by simp
  from with_retry_from_attempts[OF this, of ?op geoapify_retryable ?sleep GaNoAttempt s]
  obtain k where k: "geoapify_attempts opts draw fetch a s = ?op (retry_state ?op ?sleep 1 k s)"
    "\<forall>j < k. geoapify_retryable (fst (?op (retry_state ?op ?sleep 1 j s)))"
    by (auto simp: geoapify_attempts_def with_retry_def)
  from k(2) have "logged_lines (retry_state ?op ?sleep 1 k s) = logged_lines s"
    by (intro retry_state_lines) blast
  with k(1) that show ?thesis by blast
qed

text \<open>What \<open>runAttempts\<close> can end with.\<close>

lemma geoapify_attempts_result:
  assumes "geoapify_attempts opts draw fetch a s = (r, s')" and "0 < ga_max_attempts opts"
  obtains (error) e where "r = Inl e" "logged_lines s' = logged_lines s"
  | (config) status t remote ms body_ms body where "r = Inr (GaConfigurationError status)" "status \<in> {401, 403}"
      "logged_lines s' = logged_lines s @ [configuration_line opts a status]"
      "fst (fetch t (search_request opts a) remote) = NetResponse ms status body_ms body"
  | (features) status t remote ms body_ms body where "r = Inr (GaSuccess (parse_features body)) \<or> r = Inr (GaSuccess [])"
      "logged_lines s' = logged_lines s" "status < 500" "status \<notin> {401, 403, 429}"
      "fst (fetch t (search_request opts a) remote) = NetResponse ms status body_ms body"
proof -
  let ?op = "guarded (ga_breaker opts) GaCircuitOpen (search opts fetch a)"
  obtain s0 where s0: "?op s0 = (r, s')" "logged_lines s0 = logged_lines s"
    using geoapify_attempts_last[OF assms(2)] assms(1) by metis
  show ?thesis
  proof (cases r)
    case (Inl e)
    with s0 guarded_search_lines[of "ga_breaker opts" GaCircuitOpen opts fetch a s0 e s'] error show ?thesis by simp
  next
    case (Inr x)
    from s0(1) show ?thesis
    proof (cases rule: guarded_cases)
      case blocked
      with Inr show ?thesis by simp
    next
      case (ran s1)
      then have lines: "logged_lines s' = logged_lines s1" by (simp add: logged_lines_def)
      from ran(1) show ?thesis
      proof (cases rule: search_result)
        case (error e)
        with Inr show ?thesis by simp
      next
        case (config status ms body_ms body)
        with lines s0(2) that(2) show ?thesis by simp
      next
        case (features status ms body_ms body)
        with lines s0(2) that(3) show ?thesis by simp
      qed
    qed
  qed
qed

subsection \<open>What a log line shows of the URL\<close>

lemma code_hex_digit: "n < 16 \<Longrightarrow> code (hex_digit n) = (if n < 10 then 48 + n else 55 + n)"
  by (simp add: hex_digit_def)

lemma percent_chars: "b < 256 \<Longrightarrow> c \<in> set (percent b) \<Longrightarrow> code c = 37 \<or> 48 \<le> code c \<and> code c \<le> 70"
  using code_hex_digit[of "b div 16"] code_hex_digit[of "b mod 16"] by (auto simp: percent_def split: if_splits)

lemma form_char_safe: "e \<in> set (form_char c) \<Longrightarrow> e \<noteq> CHR ''&'' \<and> \<not> is_js_space e"
proof -
  assume e: "e \<in> set (form_char c)"
  have "code c div 64 \<le> 255 div 64" using code_less[of c] by (intro div_le_mono) linarith
  then have bytes: "192 + code c div 64 < 256" "128 + code c mod 64 < 256" by simp_all
  from e have "e = c \<and> (is_digit c \<or> (65 \<le> code c \<and> code c \<le> 90) \<or> (97 \<le> code c \<and> code c \<le> 122) \<or> c \<in> set ''*-._'') \<or>
      code e = 43 \<or> code e = 37 \<or> 48 \<le> code e \<and> code e \<le> 70"
    using percent_chars[of "code c" e] percent_chars[OF bytes(1), of e] percent_chars[OF bytes(2), of e] code_less[of c]
    by (auto simp: form_char_def split: if_splits)
  then show ?thesis by (auto simp: char_eq_code[of e "CHR ''&''"] js_space_code is_digit_def code_def)
qed

lemma form_encode_safe: "e \<in> set (form_encode s) \<Longrightarrow> e \<noteq> CHR ''&'' \<and> \<not> is_js_space e"
  by (auto simp: form_encode_def dest: form_char_safe)

lemma form_encode_ne: "s \<noteq> [] \<Longrightarrow> form_encode s \<noteq> []"
  by (cases s) (auto simp: form_encode_def form_char_def percent_def)

lemma form_encode_names [simp]: "form_encode ''apiKey'' = ''apiKey''" "form_encode ''street'' = ''street''"
  "form_encode ''city'' = ''city''" "form_encode ''country'' = ''country''" "form_encode ''state'' = ''state''"
  "form_encode ''filter'' = ''filter''" "form_encode ''limit'' = ''limit''" "form_encode ''postcode'' = ''postcode''"
  by (simp_all add: form_encode_def form_char_def)

definition url_before_key :: "geoapify_options \<Rightarrow> address \<Rightarrow> string" where
  "url_before_key opts a = ga_base_url opts @ ''?street='' @ form_encode (or_empty (line1 a)) @ ''&city='' @
     form_encode (or_empty (city a)) @ ''&country='' @ form_encode (or_empty (country a)) @ ''&filter='' @
     form_encode ''countrycode:us'' @ ''&limit='' @ form_encode ''1''"

definition url_after_key :: "address \<Rightarrow> string" where
  "url_after_key a =
     (if or_empty (state a) \<noteq> [] then ''&state='' @ form_encode (or_empty (state a)) else []) @
     (if or_empty (postal_code a) \<noteq> [] then ''&postcode='' @ form_encode (or_empty (postal_code a)) else [])"

lemma build_search_url_parts:
  "build_search_url opts a = url_before_key opts a @ ''&apiKey='' @ form_encode (ga_api_key opts) @ url_after_key a"
  by (simp add: build_search_url_def search_params_text_def url_before_key_def url_after_key_def Let_def)

lemma configuration_line_key:
  assumes "ga_api_key opts \<noteq> []" and "k \<noteq> []"
  shows "configuration_line opts a status = configuration_line (opts\<lparr>ga_api_key := k\<rparr>) a status"
proof -
  let ?p = "''Geoapify request failed with HTTP '' @ show_nat status @ '': '' @ url_before_key opts a"
  have t: "url_after_key a = [] \<or> hd (url_after_key a) = CHR ''&''" by (simp add: url_after_key_def)
  have line: "redact_string (?p @ ''&apiKey='' @ form_encode k @ url_after_key a) =
      replace_api_keys (replace_cards ?p) @ ''&apiKey=[REDACTED]'' @ replace_api_keys (replace_cards (url_after_key a))"
    if "k \<noteq> []" for k
    by (rule redact_url_key[OF form_encode_ne[OF that] form_encode_safe t])
  have parts: "url_before_key (opts\<lparr>ga_api_key := k\<rparr>) a = url_before_key opts a" by (simp add: url_before_key_def)
  from line[OF assms(1)] line[OF assms(2)] show ?thesis
    by (simp add: configuration_line_def build_search_url_parts parts)
qed

subsection \<open>Time\<close>

lemma search_time: "net_clock (snd (search opts fetch a s)) \<le> net_clock s + of_nat (ga_timeout_ms opts)"
proof (cases "fetch_with_timeout (ga_timeout_ms opts) (with_log fetch) (search_request opts a) s")
  case (Pair r s1)
  note t = fetch_with_timeout_time[OF Pair]
  show ?thesis
  proof (cases r)
    case (Inl e)
    with t(1) Pair show ?thesis by (simp add: search_def)
  next
    case (Inr q)
    obtain ms status body_ms body where q: "q = (ms, status, body_ms, body)" by (cases q) auto
    from t(2)[of ms "(status, body_ms, body)"] Inr q
    have ms: "ms < ga_timeout_ms opts" "net_clock s1 = net_clock s + of_nat ms" by auto
    obtain b s2 where b: "read_body (ga_timeout_ms opts) ms body_ms body s1 = (b, s2)" by fastforce
    from read_body_time[OF b ms(1)] have "net_clock s2 \<le> net_clock s1 + of_nat (ga_timeout_ms opts - ms)" .
    moreover have "(of_nat (ga_timeout_ms opts - ms) :: rat) = of_nat (ga_timeout_ms opts) - of_nat ms"
      using ms(1) by (simp add: of_nat_diff)
    ultimately show ?thesis
      using ms Inr q b Pair by (simp add: search_def log_error_def)
  qed
qed

interpretation geoapify_retry:
  timed_retry "guarded (ga_breaker (default_geoapify_options k)) GaCircuitOpen (search (default_geoapify_options k) fetch a)"
    "sleep draw (ga_base_delay_ms (default_geoapify_options k))" net_clock 2000 200
  for k a draw and fetch :: "'p fetch"
proof
  fix s :: "'p logged" and n
  have "net_clock (snd (search (default_geoapify_options k) fetch a s)) \<le> net_clock s + 2000" for s :: "'p logged"
    using search_time[of "default_geoapify_options k" fetch a s]
    by (simp add: default_geoapify_options_def ATTEMPT_TIMEOUT_MS_def)
  then show "net_clock (snd (guarded (ga_breaker (default_geoapify_options k)) GaCircuitOpen
      (search (default_geoapify_options k) fetch a) s)) \<le> net_clock s + 2000"
    by (rule guarded_time) simp
  show "net_clock (sleep draw (ga_base_delay_ms (default_geoapify_options k)) n s) \<le> net_clock s + 200 * 2 ^ (n - 1)"
    using sleep_time[of 200 draw n s] by (simp add: default_geoapify_options_def BACKOFF_BASE_MS_def)
qed simp_all

lemma default_geoapify [simp]: "ga_max_attempts (default_geoapify_options k) = 3"
  "ga_api_key (default_geoapify_options k) = k"
  by (simp_all add: default_geoapify_options_def MAX_ATTEMPTS_def)

lemma geoapify_geocode_snd: "snd (geoapify_geocode opts draw fetch a s) = snd (geoapify_attempts opts draw fetch a s)"
  by (simp add: geoapify_geocode_def split: prod.splits sum.splits geoapify_response.splits list.splits)

lemma geoapify_geocode_time:
  "net_clock (snd (geoapify_geocode (default_geoapify_options k) draw fetch a s)) \<le> net_clock s + 6600"
  using geoapify_retry.with_retry_time[where max_attempts = 3 and is_transient = geoapify_retryable and
      no_attempt = GaNoAttempt and s = s and fetch = fetch and a = a and k = k and draw = draw]
  by (simp add: geoapify_geocode_snd geoapify_attempts_def)

subsection \<open>The port\<close>

interpretation geoapify_port: geocoding_port "geoapify_geocode opts draw fetch" "\<lambda>s. True" for opts draw and fetch :: "'p fetch"
proof
  fix a p e and s :: "'p logged"
  show "coordinates_wf p" if "fst (geoapify_geocode opts draw fetch a s) = Inr p"
    using that
    by (auto simp: geoapify_geocode_def coordinates_of_Inr_iff split: prod.splits sum.splits geoapify_response.splits list.splits)
  show "geocoding_failure e" if "fst (geoapify_geocode opts draw fetch a s) = Inl e"
    using that
    by (auto simp: geoapify_geocode_def geocoding_failure_def geoapify_unavailable_def geoapify_rejected_def
        geoapify_no_match_def coordinates_of_def
        split: prod.splits sum.splits geoapify_response.splits list.splits if_splits)
qed

interpretation cached_geoapify_port:
  geocoding_port "cached_geocode sha256 (geoapify_geocode opts draw fetch)" "\<lambda>(g, c). True \<and> cached_wf c"
  for sha256 opts draw and fetch :: "'p fetch"
  by (rule geoapify_port.cached_port)

subsection \<open>Properties\<close>

text \<open>A status and a body that Geoapify gave to the request of this address, neither an outage nor a refusal.\<close>

definition geoapify_answered :: "string \<Rightarrow> 'p fetch \<Rightarrow> address \<Rightarrow> nat \<Rightarrow> json option \<Rightarrow> bool" where
  "geoapify_answered k fetch a status body \<longleftrightarrow> (\<exists>t remote ms body_ms.
     fst (fetch t (search_request (default_geoapify_options k) a) remote) = NetResponse ms status body_ms body \<and>
     status < 500 \<and> status \<notin> {401, 403, 429})"

lemma geoapify_geocode_cases:
  assumes "geoapify_geocode (default_geoapify_options k) draw fetch a s = (r, s')"
  obtains (unavailable) "r = Inl geoapify_unavailable"
  | (rejected) status where "r = Inl (geoapify_rejected status)"
  | (nothing) status body where "geoapify_answered k fetch a status body" "r = Inl geoapify_no_match"
  | (feature) status body lat lng fs where "geoapify_answered k fetch a status body"
      "parse_features body = (lat, lng) # fs" "r = coordinates_of lat lng"
proof -
  obtain q s1 where att: "geoapify_attempts (default_geoapify_options k) draw fetch a s = (q, s1)" by fastforce
  have pos: "0 < ga_max_attempts (default_geoapify_options k)" by simp
  show ?thesis
  proof (cases rule: geoapify_attempts_result[OF att pos])
    case (1 e)
    with assms att unavailable show ?thesis by (simp add: geoapify_geocode_def)
  next
    case (2 status t remote ms body_ms body)
    with assms att rejected[of status] show ?thesis by (simp add: geoapify_geocode_def)
  next
    case (3 status t remote ms body_ms body)
    then have ans: "geoapify_answered k fetch a status body" unfolding geoapify_answered_def by blast
    show ?thesis
    proof (cases "q = Inr (GaSuccess [])")
      case True
      with assms att have "r = Inl geoapify_no_match" by (simp add: geoapify_geocode_def)
      with ans show thesis by - (rule nothing)
    next
      case False
      with 3(1) obtain lat lng fs where "q = Inr (GaSuccess (parse_features body))"
        "parse_features body = (lat, lng) # fs" by (metis list.exhaust prod.exhaust)
      with assms att have "parse_features body = (lat, lng) # fs" "r = coordinates_of lat lng"
        by (simp_all add: geoapify_geocode_def)
      then show ?thesis by (rule feature[OF ans])
    qed
  qed
qed


text \<open>
  C33. The API key stays out of the log. A call adds at most one line, only after a 401 or 403, and
  that line is the same whatever the key is.
\<close>

theorem geoapify_log_hides_key:
  assumes "geoapify_geocode (default_geoapify_options k) draw fetch a s = (r, s')" and "k \<noteq> []"
  shows "\<exists>ls. logged_lines s' = logged_lines s @ ls \<and>
    (ls = [] \<or> (\<exists>status \<in> {401, 403}. r = Inl (geoapify_rejected status) \<and>
       (\<forall>k'. k' \<noteq> [] \<longrightarrow> ls = [configuration_line (default_geoapify_options k') a status])))"
proof -
  obtain q s1 where att: "geoapify_attempts (default_geoapify_options k) draw fetch a s = (q, s1)" by fastforce
  with assms(1) geoapify_geocode_snd[of "default_geoapify_options k" draw fetch a s] have s1: "s1 = s'" by simp
  have pos: "0 < ga_max_attempts (default_geoapify_options k)" by simp
  show ?thesis
  proof (cases rule: geoapify_attempts_result[OF att pos])
    case (2 status t remote ms body_ms body)
    note config = 2
    have "configuration_line (default_geoapify_options k) a status = configuration_line (default_geoapify_options k') a status"
      if "k' \<noteq> []" for k'
      using configuration_line_key[of "default_geoapify_options k" k' a status] assms(2) that
      by (simp add: default_geoapify_options_def)
    with config s1 att assms(1) show ?thesis
      by (intro exI[of _ "[configuration_line (default_geoapify_options k) a status]"]) (auto simp: geoapify_geocode_def)
  qed (use s1 in auto)
qed

definition refusing :: "unit fetch" where
  "refusing t req p = (NetResponse 10 401 20 None, p)"

definition quiet_net :: "unit logged" where
  "quiet_net = \<lparr>net_clock = 0, net_breaker = new_breaker, net_remote = ((), [])\<rparr>"

lemma refused_search:
  "geoapify_attempts (default_geoapify_options k) draw refusing a quiet_net =
    (Inr (GaConfigurationError 401), snd (geoapify_attempts (default_geoapify_options k) draw refusing a quiet_net))"
  by (simp add: geoapify_attempts_def with_retry_def with_retry_from.simps guarded_def execute_def quiet_net_def
      new_breaker_def begin_call_def maybe_half_open_def Let_def search_def fetch_with_timeout_def with_log_def refusing_def
      default_geoapify_options_def ATTEMPT_TIMEOUT_MS_def MAX_ATTEMPTS_def)

theorem geoapify_log_hides_key_witness:
  "\<exists>s'. geoapify_geocode (default_geoapify_options ''secret'') (\<lambda>_ _. 0) refusing (miami None) quiet_net =
      (Inl (geoapify_rejected 401), s') \<and>
    (\<exists>ls. logged_lines s' = logged_lines quiet_net @ ls \<and>
      (ls = [] \<or> (\<exists>status \<in> {401, 403}. Inl (geoapify_rejected 401) = (Inl (geoapify_rejected status) :: app_error + coordinates) \<and>
       (\<forall>k'. k' \<noteq> [] \<longrightarrow> ls = [configuration_line (default_geoapify_options k') (miami None) status]))))"
proof -
  let ?s' = "snd (geoapify_attempts (default_geoapify_options ''secret'') (\<lambda>_ _. 0) refusing (miami None) quiet_net)"
  have run: "geoapify_geocode (default_geoapify_options ''secret'') (\<lambda>_ _. 0) refusing (miami None) quiet_net =
      (Inl (geoapify_rejected 401), ?s')"
    unfolding geoapify_geocode_def by (subst refused_search) simp
  from geoapify_log_hides_key[OF run] show ?thesis by (intro exI[of _ ?s'] conjI run) simp
qed

text \<open>
  A body that does not arrive in time reads as no match: nothing is retried, the breaker counts a
  success and the customer is told the address is unknown.
\<close>

lemma late_body_is_no_match:
  assumes "fst (fetch (net_now s) (search_request opts a) (fst (net_remote s))) = NetResponse ms 200 body_ms body"
    and "ms < ga_timeout_ms opts" and "ga_timeout_ms opts \<le> body_ms"
  shows "fst (search opts fetch a s) = Inr (GaSuccess [])"
  using assms
  by (auto simp: search_def fetch_with_timeout_def with_log_def read_body_def parse_features_def as_record_def field_def Let_def
      split: prod.splits)

end
