(* ===== verification/Geo_Saga.thy ===== *)
theory Geo_Saga
  imports Replay Geoapify
begin

section \<open>The saga's geocoder\<close>

text \<open>
  What \<^verbatim>\<open>src/modules/shared.module.ts\<close> provides as the geocoding port: the cache around one of the two
  drivers. A failure of either never names an order, which is what the replay of a request relies on.
\<close>

context geocoding_port
begin

lemma geocode_calm: "calm (fst (geocode a g))"
proof (cases "fst (geocode a g)")
  case (Inl e)
  from failure[OF this] have "recorded_order e = None"
    by (auto simp: geocoding_failure_def split: app_error.splits)
  with Inl show ?thesis by simp
qed simp

end

lemma cached_static_calm:
  "(\<And>j d. calm (tx_send (sg_settle env) j d)) \<Longrightarrow> saga_ports_calm (cached_geocode sha256 (static_provider sha256)) env"
  by (simp add: saga_ports_calm_def cached_static_port.geocode_calm)

lemma cached_geoapify_calm:
  "(\<And>j d. calm (tx_send (sg_settle env) j d)) \<Longrightarrow>
   saga_ports_calm (cached_geocode sha256 (geoapify_geocode opts draw fetch)) env"
  by (simp add: saga_ports_calm_def cached_geoapify_port.geocode_calm)

text \<open>The factory of \<open>GEOCODING_PROVIDER\<close>, chosen once from the configuration.\<close>

definition require_geoapify_api_key :: "string option \<Rightarrow> app_error + string" where
  "require_geoapify_api_key key =
    (if or_empty key = [] then Inl (JsError ''GEOAPIFY_API_KEY is required when GEOCODING_DRIVER=geoapify.'')
     else Inr (or_empty key))"

definition geocoding_provider ::
  "(string \<Rightarrow> 8 word list) \<Rightarrow> (rat \<Rightarrow> nat \<Rightarrow> rat) \<Rightarrow> 'p fetch \<Rightarrow> string \<Rightarrow> string option \<Rightarrow>
   app_error + (address \<Rightarrow> 'p logged \<times> geo_cache \<Rightarrow> (app_error + coordinates) \<times> ('p logged \<times> geo_cache))" where
  "geocoding_provider sha256 draw fetch driver key =
    (if driver = ''geoapify'' then
       bindR (require_geoapify_api_key key) (\<lambda>k.
       Inr (cached_geocode sha256 (geoapify_geocode (default_geoapify_options k) draw fetch)))
     else Inr (cached_geocode sha256 (static_provider sha256)))"

lemma geocoding_provider_port:
  assumes "geocoding_provider sha256 draw fetch driver key = Inr geocode"
  shows "geocoding_port geocode (\<lambda>(g, c). True \<and> cached_wf c)"
  using assms cached_static_port.geocoding_port_axioms cached_geoapify_port.geocoding_port_axioms
  by (auto simp: geocoding_provider_def split: if_splits)

lemma geocoding_provider_calm:
  assumes "geocoding_provider sha256 draw fetch driver key = Inr geocode"
    and "\<And>j d. calm (tx_send (sg_settle env) j d)"
  shows "saga_ports_calm geocode env"
  using assms cached_static_calm[of env sha256] cached_geoapify_calm[of env sha256]
  by (auto simp: geocoding_provider_def split: if_splits)

end
