(* ===== verification/Config.thy ===== *)
theory Config
  imports Geo_Saga Js_Double "HOL-Library.Sublist"
begin

section \<open>Configuration\<close>

text \<open>
  \<^verbatim>\<open>src/infrastructure/config/env.schema.ts\<close>: the environment, a map from names to texts, becomes the
  typed configuration or stops the boot. \<open>Number(..)\<close>, which \<open>z.coerce.number()\<close> applies to a variable that
  is set, is written out; whether a text is a URL (\<open>z.url\<close>) and the wording of zod's issues are arguments.
\<close>

subsection \<open>\<open>Number\<close> of a text\<close>

definition js_of_rat :: "rat \<Rightarrow> js_num" where
  "js_of_rat q =
    (if of_int \<lfloor>q\<rfloor> = q then js_of_int \<lfloor>q\<rfloor>
     else let v = double_of q in if 2 ^ 1024 \<le> \<bar>v\<bar> then (if v < 0 then NegInf else PosInf) else Num v)"

definition signed :: "string \<Rightarrow> int \<times> string" where
  "signed s = (case s of [] \<Rightarrow> (1, s)
     | c # r \<Rightarrow> if c = CHR ''+'' then (1, r) else if c = CHR ''-'' then (- 1, r) else (1, s))"

definition exponent_part :: "string \<Rightarrow> int option" where
  "exponent_part s = (case s of [] \<Rightarrow> Some 0
     | c # r \<Rightarrow> if c \<noteq> CHR ''e'' \<and> c \<noteq> CHR ''E'' then None
         else (case signed r of (sg, ds) \<Rightarrow>
           if ds \<noteq> [] \<and> list_all is_digit ds then Some (sg * int (parse_digits ds)) else None))"

definition decimal_literal :: "string \<Rightarrow> rat option" where
  "decimal_literal s =
    (let whole = takeWhile is_digit s; r = dropWhile is_digit s;
         point = (r \<noteq> [] \<and> hd r = CHR ''.'');
         fraction = (if point then takeWhile is_digit (tl r) else []);
         rest = (if point then dropWhile is_digit (tl r) else r)
     in if whole = [] \<and> fraction = [] then None
        else map_option (\<lambda>e. of_nat (parse_digits (whole @ fraction)) * 10 powi (e - int (length fraction))) (exponent_part rest))"

definition radix_digit :: "nat \<Rightarrow> char \<Rightarrow> nat option" where
  "radix_digit b c =
    (let n = of_char c;
         v = (if 48 \<le> n \<and> n \<le> 57 then n - 48 else if 97 \<le> n \<and> n \<le> 102 then n - 87
              else if 65 \<le> n \<and> n \<le> 70 then n - 55 else 16)
     in if v < b then Some v else None)"

fun radix_value :: "nat \<Rightarrow> nat \<Rightarrow> string \<Rightarrow> nat option" where
  "radix_value b acc [] = Some acc"
| "radix_value b acc (c # cs) = (case radix_digit b c of None \<Rightarrow> None | Some v \<Rightarrow> radix_value b (acc * b + v) cs)"

definition radix_of :: "string \<Rightarrow> nat option" where
  "radix_of s = (case s of
     c # x # _ \<Rightarrow> (if c \<noteq> CHR ''0'' then None
        else if x = CHR ''x'' \<or> x = CHR ''X'' then Some 16
        else if x = CHR ''o'' \<or> x = CHR ''O'' then Some 8
        else if x = CHR ''b'' \<or> x = CHR ''B'' then Some 2 else None)
   | _ \<Rightarrow> None)"

definition js_number :: "string \<Rightarrow> js_num" where
  "js_number s =
    (let t = js_trim s in
     if t = [] then Num 0
     else case radix_of t of
       Some b \<Rightarrow> (if length t = 2 then NaN
         else case radix_value b 0 (drop 2 t) of None \<Rightarrow> NaN | Some n \<Rightarrow> js_of_int (int n))
     | None \<Rightarrow> (case signed t of (sg, u) \<Rightarrow>
         if u = ''Infinity'' then (if sg < 0 then NegInf else PosInf)
         else (case decimal_literal u of None \<Rightarrow> NaN | Some q \<Rightarrow> js_of_rat (of_int sg * q))))"

subsection \<open>The schema\<close>

record app_config =
  cf_database_url :: string
  cf_port :: int
  cf_payments_url :: string
  cf_geocoding_driver :: string
  cf_geoapify_api_key :: "string option"
  cf_otel_endpoint :: string
  cf_poll_interval :: int
  cf_reservation_ttl :: int
  cf_cors_origins :: "string list"
  cf_log_pretty :: string

definition with_default :: "string option \<Rightarrow> 'a \<Rightarrow> (string \<Rightarrow> 'a option) \<Rightarrow> 'a option" where
  "with_default v dflt parse = (case v of None \<Rightarrow> Some dflt | Some s \<Rightarrow> parse s)"

text \<open>\<open>z.coerce.number().int().positive()\<close>; zod's \<open>int\<close> takes the safe integers only.\<close>

definition positive_int :: "string \<Rightarrow> int option" where
  "positive_int s =
    (let n = js_number s in
     if is_integer n \<and> \<bar>js_to_int n\<bar> \<le> 2 ^ 53 - 1 \<and> 0 < js_to_int n then Some (js_to_int n) else None)"

fun js_split :: "char \<Rightarrow> string \<Rightarrow> string list" where
  "js_split sep [] = [[]]"
| "js_split sep (c # cs) =
    (if c = sep then [] # js_split sep cs
     else case js_split sep cs of [] \<Rightarrow> [[c]] | p # ps \<Rightarrow> (c # p) # ps)"

definition origins :: "string \<Rightarrow> string list" where
  "origins value = filter (\<lambda>origin. origin \<noteq> []) (map js_trim (js_split CHR '','' value))"

definition one_of :: "string list \<Rightarrow> string \<Rightarrow> string option" where
  "one_of vs s = (if s \<in> set vs then Some s else None)"

definition database_url :: "(string \<Rightarrow> bool) \<Rightarrow> string \<Rightarrow> string option" where
  "database_url is_url s =
    (if is_url s \<and> (prefix ''postgres://'' s \<or> prefix ''postgresql://'' s) then Some s else None)"

definition url :: "(string \<Rightarrow> bool) \<Rightarrow> string \<Rightarrow> string option" where
  "url is_url s = (if is_url s then Some s else None)"

text \<open>\<open>envSchema.safeParse\<close>: \<open>None\<close> stands for the issues.\<close>

definition env_schema :: "(string \<Rightarrow> bool) \<Rightarrow> (string \<rightharpoonup> string) \<Rightarrow> app_config option" where
  "env_schema is_url raw =
    Option.bind (Option.bind (raw ''DATABASE_URL'') (database_url is_url)) (\<lambda>db.
    Option.bind (with_default (raw ''PORT'') 3000 positive_int) (\<lambda>port.
    Option.bind (Option.bind (raw ''PAYMENTS_URL'') (url is_url)) (\<lambda>payments.
    Option.bind (with_default (raw ''GEOCODING_DRIVER'') ''static'' (one_of [''static'', ''geoapify''])) (\<lambda>driver.
    Option.bind (Option.bind (raw ''OTEL_EXPORTER_OTLP_ENDPOINT'') (url is_url)) (\<lambda>otel.
    Option.bind (with_default (raw ''PGBOSS_POLL_INTERVAL_SECONDS'') 15 positive_int) (\<lambda>poll.
    Option.bind (with_default (raw ''RESERVATION_TTL_MINUTES'') 15 positive_int) (\<lambda>ttl.
    Option.bind (with_default (raw ''LOG_PRETTY'') ''false'' (one_of [''true'', ''false''])) (\<lambda>pretty.
      if driver \<noteq> ''geoapify'' \<or> or_empty (raw ''GEOAPIFY_API_KEY'') \<noteq> []
      then Some \<lparr>cf_database_url = db, cf_port = port, cf_payments_url = payments, cf_geocoding_driver = driver,
        cf_geoapify_api_key = raw ''GEOAPIFY_API_KEY'', cf_otel_endpoint = otel, cf_poll_interval = poll,
        cf_reservation_ttl = ttl,
        cf_cors_origins = origins (case raw ''CORS_ORIGINS'' of None \<Rightarrow> ''http://localhost:3000'' | Some v \<Rightarrow> v),
        cf_log_pretty = pretty\<rparr>
      else None))))))))"

definition validate_env ::
  "(string \<Rightarrow> bool) \<Rightarrow> ((string \<rightharpoonup> string) \<Rightarrow> (string list \<times> string) list) \<Rightarrow> (string \<rightharpoonup> string) \<Rightarrow> app_error + app_config" where
  "validate_env is_url issues raw =
    (case env_schema is_url raw of
       Some c \<Rightarrow> Inr c
     | None \<Rightarrow> Inl (JsError (''Invalid environment configuration:'' @ [CHR 0x0A] @ js_join [CHR 0x0A] (map (\<lambda>(path, message).
         ''  - '' @ (if js_join ''.'' path = [] then ''(root)'' else js_join ''.'' path) @ '': '' @ message) (issues raw)))))"

subsection \<open>What is accepted\<close>

lemma not_digits [simp]:
  "\<not> is_digit CHR ''x''" "\<not> is_digit CHR ''X''" "\<not> is_digit CHR ''o''" "\<not> is_digit CHR ''O''" "\<not> is_digit CHR ''b''"
  "\<not> is_digit CHR ''B''" "\<not> is_digit CHR ''+''" "\<not> is_digit CHR ''-''" "\<not> is_digit CHR ''I''"
  by code_simp+

lemma digit_no_space: "is_digit c \<Longrightarrow> \<not> is_js_space c"
  by (auto simp: is_digit_def is_js_space_def)

lemma dropWhile_none: "\<forall>x \<in> set xs. \<not> P x \<Longrightarrow> dropWhile P xs = xs"
  by (cases xs) simp_all

lemma js_trim_no_space: "\<forall>c \<in> set s. \<not> is_js_space c \<Longrightarrow> js_trim s = s"
  by (simp add: js_trim_def dropWhile_none)

text \<open>Decimal digits are read as the number they spell.\<close>

lemma js_number_digits:
  assumes "n \<le> 2 ^ 53"
  shows "js_number (show_nat n) = js_int (int n)"
proof -
  let ?s = "show_nat n"
  have all: "\<And>c. c \<in> set ?s \<Longrightarrow> is_digit c" by (rule show_nat_digits)
  obtain c r where s: "?s = c # r" by (cases ?s) auto
  have c: "is_digit c" using all s by simp
  have trim: "js_trim ?s = ?s" using all digit_no_space by (intro js_trim_no_space) blast
  have radix: "radix_of ?s = None"
  proof (cases r)
    case (Cons a r')
    then have "is_digit a" using all s by simp
    then have "a \<notin> {CHR ''x'', CHR ''X'', CHR ''o'', CHR ''O'', CHR ''b'', CHR ''B''}" by (auto simp del: char.inject)
    then show ?thesis unfolding s Cons radix_of_def by simp
  qed (simp add: s radix_of_def)
  have sign: "signed ?s = (1, ?s)" using c unfolding s signed_def by (auto simp del: char.inject)
  have inf: "?s \<noteq> ''Infinity''" using c unfolding s by (auto simp del: char.inject)
  have "decimal_literal ?s = Some (of_nat n)"
    using all by (simp add: decimal_literal_def takeWhile_eq_all_conv[THEN iffD2] dropWhile_eq_Nil_conv[THEN iffD2] exponent_part_def Let_def)
  moreover have "js_of_rat (of_nat n) = js_int (int n)"
    using assms js_of_int_exact[of "int n"] by (simp add: js_of_rat_def max_safe_def)
  ultimately show ?thesis using trim radix sign inf by (simp add: js_number_def Let_def)
qed

lemma positive_int_Some: "positive_int s = Some n \<Longrightarrow> 0 < n \<and> n < 2 ^ 53"
  by (auto simp: positive_int_def Let_def split: if_splits)

lemma positive_int_digits: "0 < n \<Longrightarrow> n < 2 ^ 53 \<Longrightarrow> positive_int (show_nat n) = Some (int n)"
  by (simp add: positive_int_def js_number_digits Let_def)

lemma js_split_parts: "p \<in> set (js_split sep s) \<Longrightarrow> sep \<notin> set p"
proof (induction s arbitrary: p)
  case (Cons c cs)
  then show ?case by (cases "js_split sep cs") (auto split: if_splits)
qed simp

lemma js_trim_idem [simp]: "js_trim (js_trim s) = js_trim s"
proof -
  let ?u = "rev (dropWhile is_js_space s)" and ?d = "dropWhile is_js_space"
  have inner: "?d (rev (?d ?u)) = rev (?d ?u)"
  proof (cases "?d ?u = []")
    case False
    then have "?u \<noteq> []" by (metis dropWhile.simps(1))
    have "last (?d ?u) = last ?u" using False by (metis last_appendR takeWhile_dropWhile_id)
    moreover have "\<not> is_js_space (hd (?d s))" using \<open>?u \<noteq> []\<close> by (metis hd_dropWhile rev.simps(1))
    ultimately have "\<not> is_js_space (hd (rev (?d ?u)))" using False \<open>?u \<noteq> []\<close> by (simp only: hd_rev last_rev) simp
    then show ?thesis using False by (simp add: dropWhile_eq_self_iff)
  next
    case True
    show ?thesis unfolding True by simp
  qed
  then show ?thesis by (simp add: js_trim_def dropWhile_idem)
qed

lemma origins_clean: "o1 \<in> set (origins v) \<Longrightarrow> o1 \<noteq> [] \<and> js_trim o1 = o1 \<and> CHR '','' \<notin> set o1"
  unfolding origins_def using js_split_parts[of _ "CHR '',''" v] by (auto dest: set_js_trim)

text \<open>
  C38. What boots. A configuration that passes has a database URL of the Postgres scheme, positive
  safe integers for the port and the intervals, each the number the variable spells or its default, origins
  without commas, blanks around them or empty entries, and a driver the geocoding factory can build: the
  later check of the key never fires. The only other answer is the boot error.
\<close>

theorem accepted_environment:
  assumes "validate_env is_url issues raw = Inr c"
  shows "is_url (cf_database_url c) \<and>
    (prefix ''postgres://'' (cf_database_url c) \<or> prefix ''postgresql://'' (cf_database_url c)) \<and>
    {cf_port c, cf_poll_interval c, cf_reservation_ttl c} \<subseteq> {1..<2 ^ 53} \<and>
    (raw ''PORT'' = None \<longrightarrow> cf_port c = 3000) \<and>
    (raw ''PORT'' = Some (show_nat n) \<and> n < 2 ^ 53 \<longrightarrow> 0 < n \<and> cf_port c = int n) \<and>
    (\<forall>x \<in> set (cf_cors_origins c). x \<noteq> [] \<and> js_trim x = x \<and> CHR '','' \<notin> set x) \<and>
    (\<exists>geocode. geocoding_provider sha256 draw fetch (cf_geocoding_driver c) (cf_geoapify_api_key c) = Inr geocode)"
proof (intro conjI impI)
  from assms have c: "env_schema is_url raw = Some c" by (simp add: validate_env_def split: option.splits)
  note parts = c[unfolded env_schema_def, simplified bind_eq_Some_conv]
  from parts show "is_url (cf_database_url c)" "prefix ''postgres://'' (cf_database_url c) \<or> prefix ''postgresql://'' (cf_database_url c)"
    by (auto simp: database_url_def split: if_splits)
  have ports: "with_default v k positive_int = Some m \<Longrightarrow> 0 < k \<Longrightarrow> k < 2 ^ 53 \<Longrightarrow> m \<in> {1..<2 ^ 53}" for v k m
    by (cases v) (auto simp: with_default_def dest!: positive_int_Some)
  have port: "with_default (raw ''PORT'') 3000 positive_int = Some (cf_port c)"
    and poll: "with_default (raw ''PGBOSS_POLL_INTERVAL_SECONDS'') 15 positive_int = Some (cf_poll_interval c)"
    and ttl: "with_default (raw ''RESERVATION_TTL_MINUTES'') 15 positive_int = Some (cf_reservation_ttl c)"
    using parts by (auto split: if_splits)
  from ports[OF port] ports[OF poll] ports[OF ttl]
  show "{cf_port c, cf_poll_interval c, cf_reservation_ttl c} \<subseteq> {1..<2 ^ 53}" by simp
  show "cf_port c = 3000" if "raw ''PORT'' = None" using that port by (simp add: with_default_def)
  have spelled: "0 < n \<and> cf_port c = int n" if "raw ''PORT'' = Some (show_nat n) \<and> n < 2 ^ 53"
  proof -
    have "positive_int (show_nat n) = Some (cf_port c)" using port that by (simp add: with_default_def)
    moreover have "js_number (show_nat n) = js_int (int n)" using that by (intro js_number_digits) simp
    ultimately show ?thesis by (auto simp: positive_int_def Let_def split: if_splits)
  qed
  then show "0 < n" "cf_port c = int n" if "raw ''PORT'' = Some (show_nat n) \<and> n < 2 ^ 53" using that by auto
  show "\<forall>x \<in> set (cf_cors_origins c). x \<noteq> [] \<and> js_trim x = x \<and> CHR '','' \<notin> set x"
  proof -
    have "cf_cors_origins c = origins (case raw ''CORS_ORIGINS'' of None \<Rightarrow> ''http://localhost:3000'' | Some v \<Rightarrow> v)"
      using parts by (auto split: if_splits)
    then show ?thesis by (auto dest: origins_clean)
  qed
  show "\<exists>geocode. geocoding_provider sha256 draw fetch (cf_geocoding_driver c) (cf_geoapify_api_key c) = Inr geocode"
    using parts by (auto simp: geocoding_provider_def require_geoapify_api_key_def split: if_splits)
qed

definition sample_environment :: "string \<rightharpoonup> string" where
  "sample_environment = [''DATABASE_URL'' \<mapsto> ''postgresql://db/canals'', ''PAYMENTS_URL'' \<mapsto> ''http://payments:4000'',
     ''OTEL_EXPORTER_OTLP_ENDPOINT'' \<mapsto> ''http://otel:4318'', ''PORT'' \<mapsto> show_nat 8080,
     ''CORS_ORIGINS'' \<mapsto> '' https://a.example , ,https://b.example'']"

theorem accepted_environment_witness:
  "\<exists>c. validate_env (\<lambda>_. True) (\<lambda>_. []) sample_environment = Inr c \<and> cf_port c = 8080 \<and> cf_poll_interval c \<in> {1..<2 ^ 53} \<and>
     CHR '','' \<notin> \<Union> (set ` set (cf_cors_origins c))"
proof -
  have "env_schema (\<lambda>_. True) sample_environment \<noteq> None"
    by (simp add: env_schema_def sample_environment_def database_url_def url_def with_default_def one_of_def positive_int_digits)
  then obtain c where c: "validate_env (\<lambda>_. True) (\<lambda>_. []) sample_environment = Inr c"
    by (auto simp: validate_env_def)
  have "sample_environment ''PORT'' = Some (show_nat 8080)" by (simp add: sample_environment_def)
  with accepted_environment[OF c, of 8080] have "cf_port c = 8080" "cf_poll_interval c \<in> {1..<2 ^ 53}"
    "\<forall>x \<in> set (cf_cors_origins c). CHR '','' \<notin> set x" by auto
  with c show ?thesis by auto
qed

end
