(* ===== verification/Seed.thy ===== *)
theory Seed
  imports Guarantees Js_Double Json_Text Geo_Static
begin

section \<open>Seeding the database\<close>

text \<open>
  \<^verbatim>\<open>src/infrastructure/database/seed.ts\<close> and the statements it runs on the reference tables, with the
  constraints \<^verbatim>\<open>migrations/1789596059697-InitialSchema.ts\<close> puts on them. Each statement is a
  transaction of its own, so a failure leaves what the earlier ones inserted; statement \<open>i\<close> runs at
  \<open>clock i\<close>. The constraints of a row are checked before its key is compared, so that
  \<open>ON CONFLICT .. DO NOTHING\<close> does not hide a \<open>CHECK\<close>.
\<close>

subsection \<open>Inserting reference data\<close>

definition insert_customer :: "customer_row \<Rightarrow> db \<Rightarrow> app_error + db" where
  "insert_customer r d =
    (if cust_id r \<in> cust_id ` set (customers d) then Inr d
     else if cust_email r \<in> cust_email ` set (customers d) then Inl (QueryFailedError SQL_UNIQUE_23505)
     else Inr (d\<lparr>customers := customers d @ [r]\<rparr>))"

definition insert_warehouse :: "warehouse_row \<Rightarrow> db \<Rightarrow> app_error + db" where
  "insert_warehouse r d =
    (if wh_id r \<in> wh_id ` set (warehouses d) then Inr d else Inr (d\<lparr>warehouses := warehouses d @ [r]\<rparr>))"

definition insert_product :: "product_row \<Rightarrow> db \<Rightarrow> app_error + db" where
  "insert_product r d =
    (if \<not> in_int8 (prod_unit_price_cents r) then Inl (QueryFailedError SQL_RANGE_22003)
     else if prod_id r \<in> prod_id ` set (products d) then Inr d
     else if prod_sku r \<in> prod_sku ` set (products d) then Inl (QueryFailedError SQL_UNIQUE_23505)
     else Inr (d\<lparr>products := products d @ [r]\<rparr>))"

definition insert_inventory :: "inventory_row \<Rightarrow> db \<Rightarrow> app_error + db" where
  "insert_inventory r d =
    (if \<not> in_int4 (qty_available r) \<or> \<not> in_int4 (qty_reserved r) then Inl (QueryFailedError SQL_RANGE_22003)
     else if qty_available r < 0 \<or> qty_reserved r < 0 then Inl (QueryFailedError SQL_CHECK_23514)
     else if inv_key r \<in> inv_key ` set (inventory d) then Inr d
     else if inv_warehouse r \<notin> wh_id ` set (warehouses d) \<or> inv_product r \<notin> prod_id ` set (products d)
     then Inl (QueryFailedError SQL_FK_23503)
     else Inr (d\<lparr>inventory := inventory d @ [r]\<rparr>))"

definition insert_order :: "order_row \<Rightarrow> db \<Rightarrow> app_error + db" where
  "insert_order r d = (if order_exists d (row_id r) then Inl (QueryFailedError SQL_UNIQUE_23505) else save_order r d)"

subsection \<open>The data\<close>

record seed_warehouse =
  sw_id :: uuid
  sw_name :: string
  sw_city :: string
  sw_state :: string
  sw_latitude :: rat
  sw_longitude :: rat

definition seed_warehouse :: "uuid \<Rightarrow> string \<Rightarrow> string \<Rightarrow> string \<Rightarrow> rat \<Rightarrow> rat \<Rightarrow> seed_warehouse" where
  "seed_warehouse i n c s lat lng = \<lparr>sw_id = i, sw_name = n, sw_city = c, sw_state = s,
     sw_latitude = double_of lat, sw_longitude = double_of lng\<rparr>"

record seed_product =
  se_id :: uuid
  se_sku :: string
  se_name :: string
  se_condition :: product_condition
  se_unit_price_cents :: int

definition seed_product :: "uuid \<Rightarrow> string \<Rightarrow> string \<Rightarrow> product_condition \<Rightarrow> int \<Rightarrow> seed_product" where
  "seed_product i s n c p = \<lparr>se_id = i, se_sku = s, se_name = n, se_condition = c, se_unit_price_cents = p\<rparr>"

definition CUSTOMER :: "timestamp \<Rightarrow> customer_row" where
  "CUSTOMER now = \<lparr>cust_id = ''c0000000-0000-0000-0000-000000000001'', cust_email = ''fixed.customer@example.com'',
     cust_full_name = ''Fixed Test Customer'', cust_phone = None, cust_created_at = now, cust_updated_at = now,
     cust_deleted_at = None\<rparr>"

definition WAREHOUSES :: "seed_warehouse list" where
  "WAREHOUSES = [
     seed_warehouse ''a0000000-0000-0000-0000-000000000001'' ''Newark DC'' ''Newark'' ''NJ'' 40.735657 (- 74.172363),
     seed_warehouse ''a0000000-0000-0000-0000-000000000002'' ''Los Angeles DC'' ''Los Angeles'' ''CA'' 34.052235 (- 118.243683),
     seed_warehouse ''a0000000-0000-0000-0000-000000000003'' ''Dallas DC'' ''Dallas'' ''TX'' 32.776664 (- 96.796988),
     seed_warehouse ''a0000000-0000-0000-0000-000000000004'' ''Chicago DC'' ''Chicago'' ''IL'' 41.878113 (- 87.629799),
     seed_warehouse ''a0000000-0000-0000-0000-000000000005'' ''Miami DC'' ''Miami'' ''FL'' 25.761681 (- 80.191788)]"

definition PRODUCTS :: "seed_product list" where
  "PRODUCTS = [
     seed_product ''b0000000-0000-0000-0000-000000000001''
       ''APL-IP16-128-BLK'' ''iPhone 16, 128GB, Black'' COND_NEW 69900,
     seed_product ''b0000000-0000-0000-0000-000000000002''
       ''APL-IP16-128-BLU-RFB'' ''iPhone 16, 128GB, Blue (Refurbished)'' COND_REFURBISHED 54900,
     seed_product ''b0000000-0000-0000-0000-000000000003''
       ''APL-IP16P-256-NTI'' ''iPhone 16 Pro, 256GB, Natural Titanium'' COND_NEW 99900,
     seed_product ''b0000000-0000-0000-0000-000000000004''
       ''APL-IP17-256-BLK'' ''iPhone 17, 256GB, Black'' COND_NEW 89900,
     seed_product ''b0000000-0000-0000-0000-000000000005''
       ''APL-IP17E-256-WHT'' ''iPhone 17e, 256GB, White'' COND_NEW 69900,
     seed_product ''b0000000-0000-0000-0000-000000000006''
       ''APL-IPAIR-512-SBK'' ''iPhone Air, 512GB, Space Black'' COND_NEW 109900,
     seed_product ''b0000000-0000-0000-0000-000000000007''
       ''APL-MBA13-M4-256'' ''MacBook Air 13\", M4, 256GB'' COND_NEW 99900,
     seed_product ''b0000000-0000-0000-0000-000000000008''
       ''APL-MBA13-M3-256-RFB'' ''MacBook Air 13\", M3, 256GB (Refurbished)'' COND_REFURBISHED 74900,
     seed_product ''b0000000-0000-0000-0000-000000000009''
       ''APL-MBP14-M4-512'' ''MacBook Pro 14\", M4, 512GB'' COND_NEW 159900,
     seed_product ''b0000000-0000-0000-0000-000000000010''
       ''APL-MBP16-M4P-1TB'' ''MacBook Pro 16\", M4 Pro, 1TB'' COND_NEW 249900,
     seed_product ''b0000000-0000-0000-0000-000000000011''
       ''APL-IPADAIR11-M3-128'' ''iPad Air 11\", M3, 128GB'' COND_NEW 59900,
     seed_product ''b0000000-0000-0000-0000-000000000012''
       ''APL-IPADAIR13-M3-256'' ''iPad Air 13\", M3, 256GB'' COND_NEW 79900,
     seed_product ''b0000000-0000-0000-0000-000000000013''
       ''APL-IPADPRO11-M4-256'' ''iPad Pro 11\", M4, 256GB'' COND_NEW 99900,
     seed_product ''b0000000-0000-0000-0000-000000000014''
       ''APL-AIRPODSPRO3'' ''AirPods Pro 3'' COND_NEW 24900,
     seed_product ''b0000000-0000-0000-0000-000000000015''
       ''APL-AIRPODS4'' ''AirPods 4'' COND_NEW 12900]"

definition INVENTORY :: "(nat \<times> (nat \<times> int) list) list" where
  "INVENTORY = [
     (0, [(0, 25), (2, 15), (3, 30), (5, 10), (6, 12), (9, 2), (10, 20), (12, 5), (13, 50), (14, 40)]),
     (1, [(1, 10), (3, 25), (4, 20), (5, 8), (7, 5), (8, 6), (9, 2), (14, 35)]),
     (2, [(0, 20), (4, 18), (7, 10), (9, 2), (10, 15), (14, 30)]),
     (3, [(0, 15), (2, 10), (6, 8), (9, 2), (11, 10), (14, 25)]),
     (4, [(1, 8), (3, 20), (6, 6), (8, 4), (9, 2), (11, 8), (14, 20)])]"

subsection \<open>The script\<close>

definition warehouse_of :: "seed_warehouse \<Rightarrow> timestamp \<Rightarrow> warehouse_row" where
  "warehouse_of w now = \<lparr>wh_id = sw_id w, wh_name = sw_name w,
     wh_address = jsonb_value (JObj [(''line1'', JStr (''1 '' @ sw_name w @ '' Way'')), (''city'', JStr (sw_city w)),
       (''state'', JStr (sw_state w)), (''country'', JStr ''US'')]),
     wh_location = \<lparr>latitude = sw_latitude w, longitude = sw_longitude w\<rparr>, wh_is_active = True,
     wh_created_at = now, wh_updated_at = now, wh_deleted_at = None\<rparr>"

definition product_of :: "seed_product \<Rightarrow> timestamp \<Rightarrow> product_row" where
  "product_of p now = \<lparr>prod_id = se_id p, prod_sku = se_sku p, prod_name = se_name p, prod_description = None,
     prod_condition = se_condition p, prod_unit_price_cents = se_unit_price_cents p, prod_is_active = True,
     prod_created_at = now, prod_updated_at = now, prod_deleted_at = None\<rparr>"

text \<open>The pairs of the two loops over \<open>INVENTORY\<close>, by the ids they index.\<close>

definition seed_stock :: "((uuid \<times> uuid) \<times> int) list" where
  "seed_stock = concat (map (\<lambda>(wi, by_product).
     map (\<lambda>(pi, q). ((sw_id (WAREHOUSES ! wi), se_id (PRODUCTS ! pi)), q)) by_product) INVENTORY)"

definition inventory_of :: "(uuid \<times> uuid) \<times> int \<Rightarrow> inventory_row" where
  "inventory_of e = \<lparr>inv_warehouse = fst (fst e), inv_product = snd (fst e), qty_available = snd e, qty_reserved = 0,
     inv_version = 0\<rparr>"

definition seed_statements :: "(timestamp \<Rightarrow> db \<Rightarrow> app_error + db) list" where
  "seed_statements = [\<lambda>now. insert_customer (CUSTOMER now)] @ map (\<lambda>w now. insert_warehouse (warehouse_of w now)) WAREHOUSES @
     map (\<lambda>p now. insert_product (product_of p now)) PRODUCTS @ map (\<lambda>e now. insert_inventory (inventory_of e)) seed_stock"

fun run_statements :: "(nat \<Rightarrow> timestamp) \<Rightarrow> nat \<Rightarrow> (timestamp \<Rightarrow> db \<Rightarrow> app_error + db) list \<Rightarrow> db \<Rightarrow> (app_error + unit) \<times> db" where
  "run_statements clock i [] d = (Inr (), d)"
| "run_statements clock i (s # ss) d =
     (case s (clock i) d of Inl e \<Rightarrow> (Inl e, d) | Inr d' \<Rightarrow> run_statements clock (Suc i) ss d')"

definition seed :: "(nat \<Rightarrow> timestamp) \<Rightarrow> db \<Rightarrow> (app_error + unit) \<times> db" where
  "seed clock d = run_statements clock 0 seed_statements d"

subsection \<open>Running it again\<close>

text \<open>A database with at least the keys of another.\<close>

definition has_keys_of :: "db \<Rightarrow> db \<Rightarrow> bool" where
  "has_keys_of d' d \<longleftrightarrow> cust_id ` set (customers d) \<subseteq> cust_id ` set (customers d') \<and>
     wh_id ` set (warehouses d) \<subseteq> wh_id ` set (warehouses d') \<and> prod_id ` set (products d) \<subseteq> prod_id ` set (products d') \<and>
     inv_key ` set (inventory d) \<subseteq> inv_key ` set (inventory d')"

lemma has_keys_refl [simp]: "has_keys_of d d"
  by (simp add: has_keys_of_def)

lemma has_keys_trans: "has_keys_of d2 d1 \<Longrightarrow> has_keys_of d1 d \<Longrightarrow> has_keys_of d2 d"
  unfolding has_keys_of_def by (elim conjE, intro conjI; erule (1) subset_trans[rotated])

lemmas insert_defs = insert_customer_def insert_warehouse_def insert_product_def insert_inventory_def

lemma inserts_keep_keys:
  "insert_customer r d = Inr d' \<Longrightarrow> has_keys_of d' d" "insert_warehouse w d = Inr d' \<Longrightarrow> has_keys_of d' d"
  "insert_product p d = Inr d' \<Longrightarrow> has_keys_of d' d" "insert_inventory i d = Inr d' \<Longrightarrow> has_keys_of d' d"
  by (auto simp: insert_defs has_keys_of_def split: if_splits)

text \<open>A statement that has run does nothing, whenever it runs again.\<close>

definition settled_statement :: "(timestamp \<Rightarrow> db \<Rightarrow> app_error + db) \<Rightarrow> bool" where
  "settled_statement s \<longleftrightarrow> (\<forall>now d d'. s now d = Inr d' \<longrightarrow> has_keys_of d' d \<and>
     (\<forall>now' d''. has_keys_of d'' d' \<longrightarrow> s now' d'' = Inr d''))"

lemma settled_customer: "settled_statement (\<lambda>now. insert_customer (CUSTOMER now))"
  by (auto simp: settled_statement_def inserts_keep_keys(1))
    (auto simp: insert_customer_def has_keys_of_def CUSTOMER_def split: if_splits)

lemma settled_warehouse: "settled_statement (\<lambda>now. insert_warehouse (warehouse_of w now))"
  by (auto simp: settled_statement_def inserts_keep_keys(2))
    (auto simp: insert_warehouse_def has_keys_of_def warehouse_of_def split: if_splits)

lemma settled_product: "settled_statement (\<lambda>now. insert_product (product_of p now))"
  by (auto simp: settled_statement_def inserts_keep_keys(3))
    (auto simp: insert_product_def has_keys_of_def product_of_def split: if_splits)

lemma inventory_of_key [simp]: "inv_key (inventory_of e) = fst e"
  by (simp add: inventory_of_def inv_key_def)

lemma settled_inventory: "settled_statement (\<lambda>now. insert_inventory (inventory_of e))"
  by (auto simp: settled_statement_def inserts_keep_keys(4))
    (auto simp: insert_inventory_def has_keys_of_def split: if_splits)

lemma settled_seed: "\<forall>s \<in> set seed_statements. settled_statement s"
  by (auto simp: seed_statements_def settled_customer settled_warehouse settled_product settled_inventory)

lemma run_statements_again:
  assumes "run_statements clock i ss d = (Inr (), d')" and "\<forall>s \<in> set ss. settled_statement s" and "has_keys_of d'' d'"
  shows "run_statements clock' j ss d'' = (Inr (), d'') \<and> has_keys_of d' d"
  using assms
proof (induction ss arbitrary: i j d)
  case (Cons s ss)
  from Cons.prems(1) obtain d1 where d1: "s (clock i) d = Inr d1" "run_statements clock (Suc i) ss d1 = (Inr (), d')"
    by (auto split: sum.splits)
  have "settled_statement s" and ss: "\<forall>s \<in> set ss. settled_statement s" using Cons.prems(2) by simp_all
  then have s: "has_keys_of d1 d" "\<And>now' d''. has_keys_of d'' d1 \<Longrightarrow> s now' d'' = Inr d''"
    using d1(1) unfolding settled_statement_def by blast+
  from Cons.IH[OF d1(2) ss Cons.prems(3), of "Suc j"]
  have rest: "run_statements clock' (Suc j) ss d'' = (Inr (), d'')" "has_keys_of d' d1" by blast+
  have "s (clock' j) d'' = Inr d''" by (rule s(2)) (rule has_keys_trans[OF Cons.prems(3) rest(2)])
  then show ?case using rest(1) has_keys_trans[OF rest(2) s(1)] by simp
qed simp

lemma seed_again:
  "seed clock d = (Inr (), d') \<Longrightarrow> has_keys_of d'' d' \<Longrightarrow> seed clock' d'' = (Inr (), d'')"
  unfolding seed_def by (rule conjunct1[OF run_statements_again[OF _ settled_seed]])

subsection \<open>Seeding a migrated database\<close>

lemma run_statements_append:
  "run_statements clock i (ss @ ts) d = (case run_statements clock i ss d of
     (Inl e, d') \<Rightarrow> (Inl e, d') | (Inr u, d') \<Rightarrow> run_statements clock (i + length ss) ts d')"
proof (induction ss arbitrary: i d)
  case (Cons s ss)
  then show ?case by (cases "s (clock i) d") (simp_all split: prod.split sum.split)
qed simp

lemma run_warehouses:
  assumes "distinct (map sw_id ws)" and "sw_id ` set ws \<inter> wh_id ` set (warehouses d) = {}"
  shows "\<exists>rows. run_statements clock i (map (\<lambda>w now. insert_warehouse (warehouse_of w now)) ws) d =
      (Inr (), d\<lparr>warehouses := warehouses d @ rows\<rparr>) \<and> map wh_id rows = map sw_id ws"
  using assms
proof (induction ws arbitrary: i d)
  case (Cons w ws)
  let ?d = "d\<lparr>warehouses := warehouses d @ [warehouse_of w (clock i)]\<rparr>"
  have "insert_warehouse (warehouse_of w (clock i)) d = Inr ?d"
    using Cons.prems(2) by (auto simp: insert_warehouse_def warehouse_of_def)
  moreover obtain rows where "run_statements clock (Suc i) (map (\<lambda>w now. insert_warehouse (warehouse_of w now)) ws) ?d =
      (Inr (), ?d\<lparr>warehouses := warehouses ?d @ rows\<rparr>)" "map wh_id rows = map sw_id ws"
    using Cons.IH[of ?d "Suc i"] Cons.prems by (auto simp: warehouse_of_def)
  ultimately have "run_statements clock i (map (\<lambda>w now. insert_warehouse (warehouse_of w now)) (w # ws)) d =
      (Inr (), d\<lparr>warehouses := warehouses d @ (warehouse_of w (clock i) # rows)\<rparr>) \<and>
      map wh_id (warehouse_of w (clock i) # rows) = map sw_id (w # ws)"
    by (simp add: warehouse_of_def)
  then show ?case by blast
qed simp

lemma run_products:
  assumes "distinct (map se_id ps)" and "distinct (map se_sku ps)" and "\<forall>p \<in> set ps. in_int8 (se_unit_price_cents p)"
    and "se_id ` set ps \<inter> prod_id ` set (products d) = {}" and "se_sku ` set ps \<inter> prod_sku ` set (products d) = {}"
  shows "\<exists>rows. run_statements clock i (map (\<lambda>p now. insert_product (product_of p now)) ps) d =
      (Inr (), d\<lparr>products := products d @ rows\<rparr>) \<and> map prod_id rows = map se_id ps \<and> map prod_sku rows = map se_sku ps"
  using assms
proof (induction ps arbitrary: i d)
  case (Cons p ps)
  let ?d = "d\<lparr>products := products d @ [product_of p (clock i)]\<rparr>"
  have "insert_product (product_of p (clock i)) d = Inr ?d"
    using Cons.prems(3-5) by (auto simp: insert_product_def product_of_def)
  moreover obtain rows where "run_statements clock (Suc i) (map (\<lambda>p now. insert_product (product_of p now)) ps) ?d =
      (Inr (), ?d\<lparr>products := products ?d @ rows\<rparr>)" "map prod_id rows = map se_id ps" "map prod_sku rows = map se_sku ps"
    using Cons.IH[of ?d "Suc i"] Cons.prems by (auto simp: product_of_def)
  ultimately have "run_statements clock i (map (\<lambda>p now. insert_product (product_of p now)) (p # ps)) d =
      (Inr (), d\<lparr>products := products d @ (product_of p (clock i) # rows)\<rparr>) \<and>
      map prod_id (product_of p (clock i) # rows) = map se_id (p # ps)"
    by (simp add: product_of_def)
  moreover have "map prod_sku (product_of p (clock i) # rows) = map se_sku (p # ps)"
    using \<open>map prod_sku rows = _\<close> by (simp add: product_of_def)
  ultimately show ?case by blast
qed simp

lemma run_inventory:
  assumes "distinct (map fst es)" and "\<forall>(k, q) \<in> set es. in_int4 q \<and> 0 \<le> q"
    and "fst ` set es \<inter> inv_key ` set (inventory d) = {}"
    and "\<forall>((w, p), q) \<in> set es. w \<in> wh_id ` set (warehouses d) \<and> p \<in> prod_id ` set (products d)"
  shows "run_statements clock i (map (\<lambda>e now. insert_inventory (inventory_of e)) es) d =
      (Inr (), d\<lparr>inventory := inventory d @ map inventory_of es\<rparr>)"
  using assms
proof (induction es arbitrary: i d)
  case (Cons e es)
  let ?d = "d\<lparr>inventory := inventory d @ [inventory_of e]\<rparr>"
  have "in_int4 0" by (simp add: in_int4_def)
  then have "insert_inventory (inventory_of e) d = Inr ?d"
    using Cons.prems(2-4) by (cases e) (auto simp: insert_inventory_def inventory_of_def inv_key_def)
  moreover have "run_statements clock (Suc i) (map (\<lambda>e now. insert_inventory (inventory_of e)) es) ?d =
      (Inr (), ?d\<lparr>inventory := inventory ?d @ map inventory_of es\<rparr>)"
    using Cons.prems by (intro Cons.IH) (auto simp: inventory_of_def inv_key_def)
  ultimately show ?case by simp
qed simp

lemma seed_ids_distinct:
  "distinct (map sw_id WAREHOUSES)" "distinct (map se_id PRODUCTS)" "distinct (map se_sku PRODUCTS)"
  "\<forall>p \<in> set PRODUCTS. in_int8 (se_unit_price_cents p)"
  by (simp_all add: WAREHOUSES_def PRODUCTS_def seed_warehouse_def seed_product_def in_int8_def)

lemma seed_indexes:
  "\<forall>(wi, ps) \<in> set INVENTORY. wi < 5 \<and> (\<forall>(pi, q) \<in> set ps. pi < 15 \<and> 0 \<le> q \<and> q \<le> 50)"
  by (simp add: INVENTORY_def)

lemma seed_sizes: "length WAREHOUSES = 5" "length PRODUCTS = 15"
  by (simp_all add: WAREHOUSES_def PRODUCTS_def)

lemma seed_stock_in: "((w, p), q) \<in> set seed_stock \<Longrightarrow> w \<in> sw_id ` set WAREHOUSES \<and> p \<in> se_id ` set PRODUCTS \<and> 0 \<le> q \<and> q \<le> 50"
  using seed_indexes seed_sizes unfolding seed_stock_def by fastforce

lemma seed_stock_distinct: "distinct (map fst seed_stock)"
  by (simp add: seed_stock_def INVENTORY_def WAREHOUSES_def PRODUCTS_def seed_warehouse_def seed_product_def)

lemma seed_empty:
  obtains ws ps where "seed clock empty_db = (Inr (), empty_db\<lparr>customers := [CUSTOMER (clock 0)], warehouses := ws,
      products := ps, inventory := map inventory_of seed_stock\<rparr>)"
    and "map wh_id ws = map sw_id WAREHOUSES" and "map prod_id ps = map se_id PRODUCTS" and "map prod_sku ps = map se_sku PRODUCTS"
proof -
  let ?d1 = "empty_db\<lparr>customers := [CUSTOMER (clock 0)]\<rparr>"
  obtain ws where ws: "run_statements clock 1 (map (\<lambda>w now. insert_warehouse (warehouse_of w now)) WAREHOUSES) ?d1 =
      (Inr (), ?d1\<lparr>warehouses := ws\<rparr>)" "map wh_id ws = map sw_id WAREHOUSES"
    using run_warehouses[OF seed_ids_distinct(1), of ?d1 clock 1] by (auto simp: empty_db_def)
  let ?d2 = "?d1\<lparr>warehouses := ws\<rparr>" and ?i = "1 + length WAREHOUSES"
  obtain ps where ps: "run_statements clock ?i (map (\<lambda>p now. insert_product (product_of p now)) PRODUCTS) ?d2 =
      (Inr (), ?d2\<lparr>products := ps\<rparr>)" "map prod_id ps = map se_id PRODUCTS" "map prod_sku ps = map se_sku PRODUCTS"
    using run_products[OF seed_ids_distinct(2-4), of ?d2 clock ?i] by (auto simp: empty_db_def)
  let ?d3 = "?d2\<lparr>products := ps\<rparr>" and ?j = "1 + length WAREHOUSES + length PRODUCTS"
  have ids: "wh_id ` set ws = sw_id ` set WAREHOUSES" "prod_id ` set ps = se_id ` set PRODUCTS"
    using arg_cong[OF ws(2), of set] arg_cong[OF ps(2), of set] by simp_all
  have "run_statements clock ?j (map (\<lambda>e now. insert_inventory (inventory_of e)) seed_stock) ?d3 =
      (Inr (), ?d3\<lparr>inventory := inventory ?d3 @ map inventory_of seed_stock\<rparr>)"
    by (rule run_inventory[OF seed_stock_distinct])
      (use seed_stock_in ids in \<open>fastforce simp: in_int4_def empty_db_def\<close>)+
  then have inv: "run_statements clock ?j (map (\<lambda>e now. insert_inventory (inventory_of e)) seed_stock) ?d3 =
      (Inr (), ?d3\<lparr>inventory := map inventory_of seed_stock\<rparr>)" by (simp add: empty_db_def)
  have first: "insert_customer (CUSTOMER (clock 0)) empty_db = Inr ?d1" by (simp add: insert_customer_def empty_db_def)
  have "seed clock empty_db = (Inr (), ?d3\<lparr>inventory := map inventory_of seed_stock\<rparr>)"
    unfolding seed_def seed_statements_def
    using first ws(1) ps(1) inv by (simp add: run_statements_append)
  from that[OF this ws(2) ps(2,3)] show ?thesis .
qed

subsection \<open>A shop nothing has happened to\<close>

text \<open>Stock without orders, movements, payments, shipments and jobs is consistent.\<close>

lemma unopened_ok:
  assumes "inventory_keys_distinct d" and "\<forall>r \<in> set (inventory d). 0 \<le> qty_available r \<and> qty_reserved r = 0"
    and "orders d = []" "order_items d = []" "movements d = []" "payments d = []" "shipments d = []" "jobs d = []"
  shows "db_ok d"
proof -
  have none: "find_order d oid = None" for oid using assms(3) by (simp add: find_order_def)
  have "keys_ok d" "rows_ok d" "covered_ok d" "ledger_ok d"
    using assms by (simp_all add: keys_ok_def rows_ok_def covered_ok_def ledger_ok_def latest_of_def)
  moreover have "held_ok d"
    using assms by (simp add: held_ok_def order_pending_def none held_def latest_movement_def)
  moreover have "stock_ok d"
    using assms(2,3) by (auto simp: stock_ok_def stock_def reserved_by_def dest!: find_inventory_Some)
  ultimately show ?thesis
    using assms(3-8) by (simp add: db_ok_def shop_inv_def announced_ok_def shop_of_def none payments_ok_def
        shipments_ok_def announced_def)
qed

definition seed_units :: "uuid \<Rightarrow> uuid \<Rightarrow> int" where
  "seed_units w p = (case map_of seed_stock (w, p) of None \<Rightarrow> 0 | Some q \<Rightarrow> q)"

lemma find_inventory_of: "find (\<lambda>r. inv_key r = k) (map inventory_of es) = map_option (\<lambda>q. inventory_of (k, q)) (map_of es k)"
  by (induction es) auto

lemma seeded_ok:
  assumes "seed clock empty_db = (Inr (), d)"
  shows "db_ok d" and "sp_free (shop_of d) w p = seed_units w p" and "taken (shop_of d) w p = 0"
proof -
  obtain ws ps where d: "d = empty_db\<lparr>customers := [CUSTOMER (clock 0)], warehouses := ws, products := ps,
      inventory := map inventory_of seed_stock\<rparr>"
    using seed_empty[of clock] assms by (metis prod.inject)
  have "inventory_keys_distinct d"
    using seed_stock_distinct by (simp add: inventory_keys_distinct_def d comp_def)
  moreover have "\<forall>r \<in> set (inventory d). 0 \<le> qty_available r \<and> qty_reserved r = 0"
    using seed_stock_in by (fastforce simp: d inventory_of_def)
  ultimately show "db_ok d" by (rule unopened_ok) (simp_all add: d empty_db_def)
  show "sp_free (shop_of d) w p = seed_units w p"
    by (cases "map_of seed_stock (w, p)")
      (simp_all add: shop_of_def stock_def find_inventory_def d find_inventory_of seed_units_def inventory_of_def)
  show "taken (shop_of d) w p = 0" by (simp add: taken_def shop_of_def d find_order_def empty_db_def)
qed

subsection \<open>The seed under the program\<close>

text \<open>No transaction touches the reference tables or makes or removes a stock row.\<close>

definition same_reference :: "db \<Rightarrow> db \<Rightarrow> bool" where
  "same_reference d' d \<longleftrightarrow> products d' = products d \<and> warehouses d' = warehouses d \<and> customers d' = customers d \<and>
     map inv_key (inventory d') = map inv_key (inventory d)"

lemma same_reference_keys: "same_reference d' d \<Longrightarrow> has_keys_of d' d"
proof -
  assume same: "same_reference d' d"
  then have "inv_key ` set (inventory d') = inv_key ` set (inventory d)"
    unfolding same_reference_def by (metis list.set_map)
  with same show ?thesis by (simp add: same_reference_def has_keys_of_def)
qed

lemma txn_same_reference:
  assumes "txn d d'" and "db_ok d"
  shows "same_reference d' d"
proof -
  have inv: "shop_inv d" using assms(2) by (simp add: db_ok_def)
  show ?thesis
    using assms(1)
  proof cases
    case (placed aenv env c found number tot a l k w x)
    show ?thesis by (rule attempt_tables[OF placed(2,1) inv]) (simp add: same_reference_def)
  next
    case (settled env s oid pay out o2)
    show ?thesis
    proof (cases "out = SETTLED")
      case True
      with settled have call: "settlement_call s env oid pay d = Inr (SETTLED, o2, d')" by simp
      show ?thesis by (rule settled_tables[OF call settled(1) inv]) (simp add: same_reference_def)
    next
      case False
      with settlement_call_cases[OF settled(2)] show ?thesis by (auto simp: same_reference_def)
    qed
  next
    case (payment_saved r)
    then show ?thesis by (elim save_payment_cases) (simp_all add: same_reference_def)
  next
    case number_drawn
    then show ?thesis by (simp add: same_reference_def)
  next
    case (shipped oid env)
    from shipped(2) show ?thesis by (cases rule: create_shipment_Inr) (simp_all add: same_reference_def)
  qed
qed

lemma txns_same_reference: "txns d d' \<Longrightarrow> db_ok d \<Longrightarrow> same_reference d' d"
proof (induction rule: rtranclp_induct)
  case base
  then show ?case by (simp add: same_reference_def)
next
  case (step y z)
  have "db_ok y" using txns_db_ok[OF step(1)] step(4) by blast
  from txn_same_reference[OF step(2) this] step show ?case by (simp add: same_reference_def)
qed

text \<open>
  C35. From the seed to any reachable state. A migrated and seeded database is consistent, and after
  any transactions of the program on it, in any interleaving, what a warehouse still has of a product
  plus what pending and confirmed orders took is exactly what the seed put there, so the five tablets
  of the boundary case are never sold six times; and running the seed again does nothing, whatever
  the program has done since.
\<close>

theorem seeded_shop_keeps_the_seed:
  assumes "txns (snd (seed clock empty_db)) d"
  shows "db_ok d \<and> sp_free (shop_of d) w p + taken (shop_of d) w p = seed_units w p \<and> 0 \<le> sp_free (shop_of d) w p \<and>
    seed clock' d = (Inr (), d)"
proof (intro conjI)
  obtain d0 where d0: "seed clock empty_db = (Inr (), d0)" using seed_empty[of clock] by blast
  note start = seeded_ok[OF d0]
  from assms d0 have run: "txns d0 d" by simp
  from txns_db_ok[OF run start(1)] have ok: "db_ok d" "shop_run (shop_of d0) (shop_of d)" by auto
  show "db_ok d" by (rule ok(1))
  have "shop_ok (shop_of d0)" using start(1) by (simp add: db_ok_def shop_ok_of)
  from shop_run_ok[OF ok(2) this] start
  show "sp_free (shop_of d) w p + taken (shop_of d) w p = seed_units w p" and "0 \<le> sp_free (shop_of d) w p"
    by (auto simp: shop_ok_def)
  show "seed clock' d = (Inr (), d)" by (rule seed_again[OF d0 same_reference_keys[OF txns_same_reference[OF run start(1)]]])
qed

text \<open>The stock the seed means: the boundary case, and a product every warehouse has two of.\<close>

lemma seed_units_boundary:
  "seed_units ''a0000000-0000-0000-0000-000000000001'' ''b0000000-0000-0000-0000-000000000013'' = 5"
  by (simp add: seed_units_def seed_stock_def INVENTORY_def WAREHOUSES_def PRODUCTS_def seed_warehouse_def seed_product_def)

theorem seeded_shop_keeps_the_seed_witness:
  "\<exists>d. d = (snd (seed (\<lambda>i. int i) empty_db))\<lparr>order_number_seq := 2\<rparr> \<and> db_ok d \<and>
     sp_free (shop_of d) ''a0000000-0000-0000-0000-000000000001'' ''b0000000-0000-0000-0000-000000000013'' +
     taken (shop_of d) ''a0000000-0000-0000-0000-000000000001'' ''b0000000-0000-0000-0000-000000000013'' = 5"
proof -
  let ?d0 = "snd (seed (\<lambda>i. int i) empty_db)"
  obtain ws ps where "seed (\<lambda>i. int i) empty_db = (Inr (), empty_db\<lparr>customers := [CUSTOMER ((\<lambda>i. int i) 0)],
      warehouses := ws, products := ps, inventory := map inventory_of seed_stock\<rparr>)"
    by (rule seed_empty)
  then have "order_number_seq ?d0 = 1" by (simp only: prod.sel) (simp add: empty_db_def)
  then have "txn ?d0 (?d0\<lparr>order_number_seq := 2\<rparr>)" using number_drawn[of ?d0] by (metis one_add_one)
  then have run: "txns ?d0 (?d0\<lparr>order_number_seq := 2\<rparr>)" by blast
  from seeded_shop_keeps_the_seed[OF run] seed_units_boundary show ?thesis by metis
qed

subsection \<open>The table of cities\<close>

text \<open>The static geocoder knows every warehouse's city, exactly where the seed puts the warehouse.\<close>

lemma warehouse_cities:
  "\<forall>w \<in> set WAREHOUSES. map_of US_CITIES (normalize_text (sw_city w) @ ''|'' @ sw_state w) =
     Some \<lparr>latitude = sw_latitude w, longitude = sw_longitude w\<rparr>"
proof -
  have letters: "char_of (108 :: nat) = CHR ''l''" "char_of (110 :: nat) = CHR ''n''" "char_of (97 :: nat) = CHR ''a''"
    "char_of (100 :: nat) = CHR ''d''" "char_of (99 :: nat) = CHR ''c''" "char_of (109 :: nat) = CHR ''m''"
    by code_simp+
  have "normalize_text ''Newark'' = ''newark''" "normalize_text ''Los Angeles'' = ''los angeles''"
    "normalize_text ''Dallas'' = ''dallas''" "normalize_text ''Chicago'' = ''chicago''" "normalize_text ''Miami'' = ''miami''"
    by (simp_all add: normalize_text_def js_trim_def base_char_def lower_char_def js_space_code letters)
  then show ?thesis
    by (simp add: WAREHOUSES_def seed_warehouse_def US_CITIES_def city_centre_def)
qed

end
