(* ===== verification/Migration.thy ===== *)
theory Migration
  imports Domain_Types
begin

section \<open>The schema migration\<close>

text \<open>
  \<^verbatim>\<open>src/infrastructure/database/migrations/1789596059697-InitialSchema.ts\<close> (and the sequence of
  \<^verbatim>\<open>1790028652771-OrderNumberSequence.ts\<close>) as the list of its statements, run against a catalogue: a type must exist before a column uses it and a table before another
  references it or is indexed, a name can be taken once, and \<open>DROP\<close> without \<open>CASCADE\<close> is refused while
  something depends on the object; \<open>IF EXISTS\<close> makes dropping an absent object do nothing. The indexes
  behind keys are not listed. Expressions (defaults, checks, generated columns, the predicate
  of a partial index) are texts. What the constraints of the tables mean for rows is in \<open>Store\<close>,
  \<open>Inventory\<close> and \<open>Seed\<close>.
\<close>

datatype col_constraint =
  PrimaryKey
| NotNull
| Unique
| Default string \<comment> \<open>an expression\<close>
| DefaultLiteral string \<comment> \<open>a quoted constant\<close>
| Check string
| References string string \<comment> \<open>the table (by its \<open>id\<close>) and the \<open>ON DELETE\<close> action\<close>
| Generated string

record column =
  col_name :: string
  col_type :: string
  col_constraints :: "col_constraint list"

record catalogue_table =
  tab_name :: string
  tab_columns :: "column list"
  tab_key :: "string list" \<comment> \<open>a composite \<open>PRIMARY KEY\<close>\<close>

record catalogue_index =
  ix_name :: string
  ix_unique :: bool
  ix_table :: string
  ix_method :: string
  ix_columns :: "string list"
  ix_where :: "(string \<times> string) option" \<comment> \<open>column = quoted constant\<close>

record catalogue =
  cat_extensions :: "string set"
  cat_types :: "(string \<times> string list) list"
  cat_tables :: "catalogue_table list"
  cat_indexes :: "catalogue_index list"
  cat_sequences :: "(string \<times> nat) list"

definition empty_catalogue :: catalogue where
  "empty_catalogue = \<lparr>cat_extensions = {}, cat_types = [], cat_tables = [], cat_indexes = [],
     cat_sequences = []\<rparr>"

datatype ddl =
  CreateExtension string
| CreateType string "string list"
| CreateTable catalogue_table
| CreateIndex catalogue_index
| CreateSequence string nat
| DropTable string
| DropType string
| DropSequence string

datatype ddl_error = DuplicateObject string | UndefinedObject string | DependentObjects string

subsection \<open>Running a statement\<close>

definition builtin_types :: "string list" where
  "builtin_types = [''uuid'', ''varchar'', ''text'', ''timestamptz'', ''bigint'', ''boolean'', ''jsonb'', ''integer'',
     ''smallint'', ''char'', ''numeric'']"

definition type_name :: "string \<Rightarrow> string" where
  "type_name t = takeWhile (\<lambda>c. c \<noteq> CHR ''('') t"

definition type_known :: "catalogue \<Rightarrow> string \<Rightarrow> bool" where
  "type_known c t \<longleftrightarrow> t \<in> set builtin_types \<or> t \<in> fst ` set (cat_types c) \<or>
     (t = ''geography'' \<and> ''postgis'' \<in> cat_extensions c)"

definition col_references :: "column \<Rightarrow> string list" where
  "col_references col = concat (map (\<lambda>k. case k of References t a \<Rightarrow> [t] | _ \<Rightarrow> []) (col_constraints col))"

definition tab_references :: "catalogue_table \<Rightarrow> string list" where
  "tab_references t = concat (map col_references (tab_columns t))"

definition tab_types :: "catalogue_table \<Rightarrow> string list" where
  "tab_types t = map (\<lambda>col. type_name (col_type col)) (tab_columns t)"

definition find_table :: "catalogue \<Rightarrow> string \<Rightarrow> catalogue_table option" where
  "find_table c n = find (\<lambda>t. tab_name t = n) (cat_tables c)"

fun run_ddl :: "ddl \<Rightarrow> catalogue \<Rightarrow> ddl_error + catalogue" where
  "run_ddl (CreateExtension e) c = Inr (c\<lparr>cat_extensions := insert e (cat_extensions c)\<rparr>)"
| "run_ddl (CreateType n ls) c =
     (if n \<in> fst ` set (cat_types c) then Inl (DuplicateObject n)
      else Inr (c\<lparr>cat_types := cat_types c @ [(n, ls)]\<rparr>))"
| "run_ddl (CreateTable t) c =
     (if tab_name t \<in> tab_name ` set (cat_tables c) then Inl (DuplicateObject (tab_name t))
      else case find (\<lambda>ty. \<not> type_known c ty) (tab_types t) of
        Some ty \<Rightarrow> Inl (UndefinedObject ty)
      | None \<Rightarrow>
          (case find (\<lambda>r. r \<noteq> tab_name t \<and> r \<notin> tab_name ` set (cat_tables c)) (tab_references t) of
             Some r \<Rightarrow> Inl (UndefinedObject r)
           | None \<Rightarrow> Inr (c\<lparr>cat_tables := cat_tables c @ [t]\<rparr>)))"
| "run_ddl (CreateIndex i) c =
     (if ix_name i \<in> ix_name ` set (cat_indexes c) then Inl (DuplicateObject (ix_name i))
      else case find_table c (ix_table i) of
        None \<Rightarrow> Inl (UndefinedObject (ix_table i))
      | Some t \<Rightarrow>
          (case find (\<lambda>k. k \<notin> col_name ` set (tab_columns t)) (ix_columns i) of
             Some k \<Rightarrow> Inl (UndefinedObject k)
           | None \<Rightarrow> Inr (c\<lparr>cat_indexes := cat_indexes c @ [i]\<rparr>)))"
| "run_ddl (CreateSequence n k) c =
     (if n \<in> fst ` set (cat_sequences c) then Inl (DuplicateObject n)
      else Inr (c\<lparr>cat_sequences := cat_sequences c @ [(n, k)]\<rparr>))"
| "run_ddl (DropSequence n) c = Inr (c\<lparr>cat_sequences := filter (\<lambda>q. fst q \<noteq> n) (cat_sequences c)\<rparr>)"
| "run_ddl (DropTable n) c =
     (if \<exists>t \<in> set (cat_tables c). tab_name t \<noteq> n \<and> n \<in> set (tab_references t) then Inl (DependentObjects n)
      else Inr (c\<lparr>cat_tables := filter (\<lambda>t. tab_name t \<noteq> n) (cat_tables c),
                  cat_indexes := filter (\<lambda>i. ix_table i \<noteq> n) (cat_indexes c)\<rparr>))"
| "run_ddl (DropType n) c =
     (if \<exists>t \<in> set (cat_tables c). n \<in> set (tab_types t) then Inl (DependentObjects n)
      else Inr (c\<lparr>cat_types := filter (\<lambda>ty. fst ty \<noteq> n) (cat_types c)\<rparr>))"

subsection \<open>The statements\<close>

definition col :: "string \<Rightarrow> string \<Rightarrow> col_constraint list \<Rightarrow> column" where
  "col n t ks = \<lparr>col_name = n, col_type = t, col_constraints = ks\<rparr>"

definition index :: "string \<Rightarrow> bool \<Rightarrow> string \<Rightarrow> string \<Rightarrow> string list \<Rightarrow> (string \<times> string) option \<Rightarrow> ddl" where
  "index n u t m ks w = CreateIndex \<lparr>ix_name = n, ix_unique = u, ix_table = t, ix_method = m, ix_columns = ks, ix_where = w\<rparr>"

definition customers_table :: catalogue_table where
  "customers_table = \<lparr>tab_name = ''customers'', tab_columns = [
     col ''id'' ''uuid'' [PrimaryKey, Default ''gen_random_uuid()''],
     col ''email'' ''varchar(320)'' [NotNull, Unique],
     col ''full_name'' ''varchar(200)'' [NotNull],
     col ''phone'' ''varchar(32)'' [],
     col ''created_at'' ''timestamptz'' [NotNull, Default ''now()''],
     col ''updated_at'' ''timestamptz'' [NotNull, Default ''now()''],
     col ''deleted_at'' ''timestamptz'' []],
     tab_key = []\<rparr>"

definition products_table :: catalogue_table where
  "products_table = \<lparr>tab_name = ''products'', tab_columns = [
     col ''id'' ''uuid'' [PrimaryKey, Default ''gen_random_uuid()''],
     col ''sku'' ''varchar(64)'' [NotNull, Unique],
     col ''name'' ''varchar(200)'' [NotNull],
     col ''description'' ''text'' [],
     col ''condition'' ''product_condition'' [NotNull, DefaultLiteral ''NEW''],
     col ''unit_price_cents'' ''bigint'' [NotNull],
     col ''is_active'' ''boolean'' [NotNull, Default ''true''],
     col ''created_at'' ''timestamptz'' [NotNull, Default ''now()''],
     col ''updated_at'' ''timestamptz'' [NotNull, Default ''now()''],
     col ''deleted_at'' ''timestamptz'' []],
     tab_key = []\<rparr>"

definition warehouses_table :: catalogue_table where
  "warehouses_table = \<lparr>tab_name = ''warehouses'', tab_columns = [
     col ''id'' ''uuid'' [PrimaryKey, Default ''gen_random_uuid()''],
     col ''name'' ''varchar(200)'' [NotNull],
     col ''address'' ''jsonb'' [NotNull],
     col ''location'' ''geography(Point, 4326)'' [NotNull],
     col ''latitude'' ''numeric(9, 6)'' [Generated ''ST_Y(location::geometry)''],
     col ''longitude'' ''numeric(9, 6)'' [Generated ''ST_X(location::geometry)''],
     col ''is_active'' ''boolean'' [NotNull, Default ''true''],
     col ''created_at'' ''timestamptz'' [NotNull, Default ''now()''],
     col ''updated_at'' ''timestamptz'' [NotNull, Default ''now()''],
     col ''deleted_at'' ''timestamptz'' []],
     tab_key = []\<rparr>"

definition inventory_table :: catalogue_table where
  "inventory_table = \<lparr>tab_name = ''inventory'', tab_columns = [
     col ''warehouse_id'' ''uuid'' [NotNull, References ''warehouses'' ''CASCADE''],
     col ''product_id'' ''uuid'' [NotNull, References ''products'' ''RESTRICT''],
     col ''quantity_available'' ''integer'' [NotNull, Default ''0'', Check ''quantity_available >= 0''],
     col ''quantity_reserved'' ''integer'' [NotNull, Default ''0'', Check ''quantity_reserved >= 0''],
     col ''version'' ''integer'' [NotNull, Default ''0''],
     col ''updated_at'' ''timestamptz'' [NotNull, Default ''now()'']],
     tab_key = [''warehouse_id'', ''product_id'']\<rparr>"

definition orders_table :: catalogue_table where
  "orders_table = \<lparr>tab_name = ''orders'', tab_columns = [
     col ''id'' ''uuid'' [PrimaryKey, Default ''gen_random_uuid()''],
     col ''order_number'' ''varchar(32)'' [NotNull, Unique],
     col ''customer_id'' ''uuid'' [NotNull, References ''customers'' ''RESTRICT''],
     col ''warehouse_id'' ''uuid'' [References ''warehouses'' ''RESTRICT''],
     col ''status'' ''order_status'' [NotNull, DefaultLiteral ''PENDING_PAYMENT''],
     col ''currency'' ''char(3)'' [NotNull, DefaultLiteral ''USD''],
     col ''total_cents'' ''bigint'' [NotNull],
     col ''shipping_address'' ''jsonb'' [NotNull],
     col ''shipping_location'' ''geography(Point, 4326)'' [NotNull],
     col ''reservation_expires_at'' ''timestamptz'' [],
     col ''confirmed_at'' ''timestamptz'' [],
     col ''cancelled_at'' ''timestamptz'' [],
     col ''cancellation_reason'' ''varchar(300)'' [],
     col ''created_at'' ''timestamptz'' [NotNull, Default ''now()''],
     col ''updated_at'' ''timestamptz'' [NotNull, Default ''now()'']],
     tab_key = []\<rparr>"

definition order_items_table :: catalogue_table where
  "order_items_table = \<lparr>tab_name = ''order_items'', tab_columns = [
     col ''id'' ''uuid'' [PrimaryKey, Default ''gen_random_uuid()''],
     col ''order_id'' ''uuid'' [NotNull, References ''orders'' ''CASCADE''],
     col ''product_id'' ''uuid'' [NotNull, References ''products'' ''RESTRICT''],
     col ''quantity'' ''integer'' [NotNull, Check ''quantity > 0''],
     col ''product_sku_snapshot'' ''varchar(64)'' [NotNull],
     col ''product_name_snapshot'' ''varchar(200)'' [NotNull],
     col ''unit_price_cents'' ''bigint'' [NotNull],
     col ''created_at'' ''timestamptz'' [NotNull, Default ''now()'']],
     tab_key = []\<rparr>"

definition payments_table :: catalogue_table where
  "payments_table = \<lparr>tab_name = ''payments'', tab_columns = [
     col ''id'' ''uuid'' [PrimaryKey, Default ''gen_random_uuid()''],
     col ''order_id'' ''uuid'' [NotNull, References ''orders'' ''RESTRICT''],
     col ''attempt'' ''smallint'' [NotNull, Default ''1''],
     col ''provider'' ''varchar(32)'' [NotNull, DefaultLiteral ''mock-gateway''],
     col ''provider_payment_id'' ''varchar(128)'' [],
     col ''idempotency_key'' ''varchar(128)'' [NotNull, Unique],
     col ''status'' ''payment_status'' [NotNull, DefaultLiteral ''PENDING''],
     col ''amount_cents'' ''bigint'' [NotNull],
     col ''currency'' ''char(3)'' [NotNull, DefaultLiteral ''USD''],
     col ''card_last4'' ''char(4)'' [],
     col ''card_brand'' ''varchar(20)'' [],
     col ''failure_code'' ''varchar(64)'' [],
     col ''raw_response'' ''jsonb'' [],
     col ''settled_at'' ''timestamptz'' [],
     col ''created_at'' ''timestamptz'' [NotNull, Default ''now()''],
     col ''updated_at'' ''timestamptz'' [NotNull, Default ''now()'']],
     tab_key = []\<rparr>"

definition shipments_table :: catalogue_table where
  "shipments_table = \<lparr>tab_name = ''shipments'', tab_columns = [
     col ''id'' ''uuid'' [PrimaryKey, Default ''gen_random_uuid()''],
     col ''order_id'' ''uuid'' [NotNull, Unique, References ''orders'' ''RESTRICT''],
     col ''warehouse_id'' ''uuid'' [NotNull, References ''warehouses'' ''RESTRICT''],
     col ''status'' ''shipment_status'' [NotNull, DefaultLiteral ''PENDING_DISPATCH''],
     col ''carrier'' ''varchar(64)'' [],
     col ''tracking_number'' ''varchar(128)'' [],
     col ''dispatched_at'' ''timestamptz'' [],
     col ''delivered_at'' ''timestamptz'' [],
     col ''created_at'' ''timestamptz'' [NotNull, Default ''now()''],
     col ''updated_at'' ''timestamptz'' [NotNull, Default ''now()'']],
     tab_key = []\<rparr>"

definition inventory_movements_table :: catalogue_table where
  "inventory_movements_table = \<lparr>tab_name = ''inventory_movements'', tab_columns = [
     col ''id'' ''bigint'' [Generated ''IDENTITY'', PrimaryKey],
     col ''warehouse_id'' ''uuid'' [NotNull, References ''warehouses'' ''RESTRICT''],
     col ''product_id'' ''uuid'' [NotNull, References ''products'' ''RESTRICT''],
     col ''order_id'' ''uuid'' [References ''orders'' ''RESTRICT''],
     col ''type'' ''inventory_movement_type'' [NotNull],
     col ''quantity_delta'' ''integer'' [NotNull],
     col ''available_after'' ''integer'' [NotNull],
     col ''reserved_after'' ''integer'' [NotNull],
     col ''reason'' ''varchar(200)'' [],
     col ''created_at'' ''timestamptz'' [NotNull, Default ''now()'']],
     tab_key = []\<rparr>"

definition idempotency_keys_table :: catalogue_table where
  "idempotency_keys_table = \<lparr>tab_name = ''idempotency_keys'', tab_columns = [
     col ''id'' ''uuid'' [PrimaryKey, Default ''gen_random_uuid()''],
     col ''scope'' ''varchar(64)'' [NotNull, DefaultLiteral ''POST /orders''],
     col ''idempotency_key'' ''varchar(255)'' [NotNull],
     col ''request_fingerprint'' ''char(64)'' [NotNull],
     col ''state'' ''idempotency_state'' [NotNull, DefaultLiteral ''IN_PROGRESS''],
     col ''order_id'' ''uuid'' [References ''orders'' ''SET NULL''],
     col ''response_status'' ''smallint'' [],
     col ''response_body'' ''jsonb'' [],
     col ''created_at'' ''timestamptz'' [NotNull, Default ''now()''],
     col ''expires_at'' ''timestamptz'' [NotNull]],
     tab_key = []\<rparr>"

definition up :: "ddl list" where
  "up = [
     CreateExtension ''postgis'',
     CreateType ''order_status'' [''PENDING_PAYMENT'', ''PAID'', ''CONFIRMED'', ''PAYMENT_FAILED'', ''CANCELLED''],
     CreateType ''payment_status'' [''PENDING'', ''AUTHORIZED'', ''CAPTURED'', ''DECLINED'', ''FAILED'', ''UNKNOWN'', ''REFUNDED''],
     CreateType ''shipment_status'' [''PENDING_DISPATCH'', ''DISPATCHED'', ''IN_TRANSIT'', ''DELIVERED'', ''CANCELLED''],
     CreateType ''product_condition'' [''NEW'', ''REFURBISHED'', ''OPEN_BOX'', ''USED''],
     CreateType ''inventory_movement_type'' [''RESERVE'', ''RELEASE'', ''COMMIT'', ''RESTOCK'', ''ADJUST''],
     CreateType ''idempotency_state'' [''IN_PROGRESS'', ''COMPLETED''],
     CreateTable customers_table,
     CreateTable products_table,
     index ''idx_products_is_active'' False ''products'' ''btree'' [''is_active''] None,
     index ''idx_products_condition'' False ''products'' ''btree'' [''condition''] None,
     CreateTable warehouses_table,
     index ''idx_warehouses_location_gist'' False ''warehouses'' ''gist'' [''location''] None,
     index ''idx_warehouses_is_active'' False ''warehouses'' ''btree'' [''is_active''] None,
     CreateTable inventory_table,
     index ''idx_inventory_by_product'' False ''inventory'' ''btree'' [''product_id'', ''warehouse_id''] None,
     index ''idx_inventory_availability'' False ''inventory'' ''btree'' [''product_id'', ''quantity_available''] None,
     CreateTable orders_table,
     index ''idx_orders_keyset'' False ''orders'' ''btree'' [''created_at'', ''id''] None,
     index ''idx_orders_customer_created'' False ''orders'' ''btree'' [''customer_id'', ''created_at''] None,
     index ''idx_orders_reaper'' False ''orders'' ''btree'' [''status'', ''reservation_expires_at''] None,
     index ''idx_orders_warehouse'' False ''orders'' ''btree'' [''warehouse_id''] None,
     CreateTable order_items_table,
     index ''uq_order_items_order_product'' True ''order_items'' ''btree'' [''order_id'', ''product_id''] None,
     index ''idx_order_items_product'' False ''order_items'' ''btree'' [''product_id''] None,
     CreateTable payments_table,
     index ''uq_payments_order_attempt'' True ''payments'' ''btree'' [''order_id'', ''attempt''] None,
     index ''idx_payments_reconciliation'' False ''payments'' ''btree'' [''status'', ''created_at''] None,
     index ''uq_payments_one_captured_per_order'' True ''payments'' ''btree'' [''order_id''] (Some (''status'', ''CAPTURED'')),
     CreateTable shipments_table,
     index ''idx_shipments_status_created'' False ''shipments'' ''btree'' [''status'', ''created_at''] None,
     index ''idx_shipments_warehouse'' False ''shipments'' ''btree'' [''warehouse_id''] None,
     CreateTable inventory_movements_table,
     index ''idx_inventory_movements_warehouse_product_created'' False ''inventory_movements'' ''btree'' [''warehouse_id'', ''product_id'', ''created_at''] None,
     index ''idx_inventory_movements_order'' False ''inventory_movements'' ''btree'' [''order_id''] None,
     CreateTable idempotency_keys_table,
     index ''uq_idempotency'' True ''idempotency_keys'' ''btree'' [''scope'', ''idempotency_key''] None,
     index ''idx_idempotency_keys_expires'' False ''idempotency_keys'' ''btree'' [''expires_at''] None]"

definition down :: "ddl list" where
  "down = [DropTable ''idempotency_keys'',
     DropTable ''inventory_movements'',
     DropTable ''shipments'',
     DropTable ''payments'',
     DropTable ''order_items'',
     DropTable ''orders'',
     DropTable ''inventory'',
     DropTable ''warehouses'',
     DropTable ''products'',
     DropTable ''customers'',
     DropType ''idempotency_state'',
     DropType ''inventory_movement_type'',
     DropType ''product_condition'',
     DropType ''shipment_status'',
     DropType ''payment_status'',
     DropType ''order_status'']"

text \<open>The second migration, \<^verbatim>\<open>1790028652771-OrderNumberSequence.ts\<close>.\<close>

definition sequence_up :: "ddl list" where
  "sequence_up = [CreateSequence ''order_number_seq'' 1]"

definition sequence_down :: "ddl list" where
  "sequence_down = [DropSequence ''order_number_seq'']"

subsection \<open>Evaluation\<close>

lemmas schema_tables = customers_table_def products_table_def warehouses_table_def inventory_table_def orders_table_def
  order_items_table_def payments_table_def shipments_table_def inventory_movements_table_def idempotency_keys_table_def

definition migrated :: catalogue where
  "migrated = (case foldR run_ddl (up @ sequence_up) empty_catalogue of Inr c \<Rightarrow> c | Inl e \<Rightarrow> empty_catalogue)"

lemma up_runs: "foldR run_ddl (up @ sequence_up) empty_catalogue = Inr migrated"
  by code_simp

lemma down_runs: "foldR run_ddl (up @ sequence_up @ sequence_down @ down) empty_catalogue =
    Inr (empty_catalogue\<lparr>cat_extensions := {''postgis''}\<rparr>)"
  by code_simp

subsection \<open>Beside other objects\<close>

text \<open>
  The database may hold other things (pg-boss's tables, the list of migrations). A catalogue is a
  stranger to a set of names if none of its objects has or uses one of them; statements about those
  names then leave it alone.
\<close>

definition merge_catalogues :: "catalogue \<Rightarrow> catalogue \<Rightarrow> catalogue" where
  "merge_catalogues c d = \<lparr>cat_extensions = cat_extensions c \<union> cat_extensions d, cat_types = cat_types c @ cat_types d,
     cat_tables = cat_tables c @ cat_tables d, cat_indexes = cat_indexes c @ cat_indexes d,
     cat_sequences = cat_sequences c @ cat_sequences d\<rparr>"

definition stranger :: "string set \<Rightarrow> catalogue \<Rightarrow> bool" where
  "stranger ns c \<longleftrightarrow>
     (\<forall>t \<in> set (cat_tables c). tab_name t \<notin> ns \<and> set (tab_references t) \<inter> ns = {} \<and> set (tab_types t) \<inter> ns = {}) \<and>
     (\<forall>i \<in> set (cat_indexes c). ix_name i \<notin> ns \<and> ix_table i \<notin> ns) \<and>
     (\<forall>ty \<in> set (cat_types c). fst ty \<notin> ns) \<and> (\<forall>q \<in> set (cat_sequences c). fst q \<notin> ns)"

fun subjects :: "ddl \<Rightarrow> string list" where
  "subjects (CreateExtension e) = []"
| "subjects (CreateType n ls) = [n]"
| "subjects (CreateTable t) = [tab_name t]"
| "subjects (CreateIndex i) = [ix_name i, ix_table i]"
| "subjects (CreateSequence n k) = [n]"
| "subjects (DropTable n) = [n]"
| "subjects (DropType n) = [n]"
| "subjects (DropSequence n) = [n]"

definition migration_names :: "string list" where
  "migration_names = concat (map subjects (up @ sequence_up))"

lemma merge_sel [simp]:
  "cat_extensions (merge_catalogues c d) = cat_extensions c \<union> cat_extensions d"
  "cat_types (merge_catalogues c d) = cat_types c @ cat_types d"
  "cat_tables (merge_catalogues c d) = cat_tables c @ cat_tables d"
  "cat_indexes (merge_catalogues c d) = cat_indexes c @ cat_indexes d"
  "cat_sequences (merge_catalogues c d) = cat_sequences c @ cat_sequences d"
  by (simp_all add: merge_catalogues_def)

lemma catalogue_eqI:
  "cat_extensions c = cat_extensions d \<Longrightarrow> cat_types c = cat_types d \<Longrightarrow> cat_tables c = cat_tables d \<Longrightarrow>
   cat_indexes c = cat_indexes d \<Longrightarrow> cat_sequences c = cat_sequences d \<Longrightarrow> c = (d :: catalogue)"
  by simp

lemma find_None_weaken: "find p xs = None \<Longrightarrow> (\<And>x. q x \<Longrightarrow> p x) \<Longrightarrow> find q xs = None"
  by (auto simp: find_None_iff)

lemma stranger_absent:
  assumes "stranger ns c" and "n \<in> ns"
  shows "n \<notin> tab_name ` set (cat_tables c)" "n \<notin> fst ` set (cat_types c)" "n \<notin> fst ` set (cat_sequences c)"
    "n \<notin> ix_name ` set (cat_indexes c)"
    "find (\<lambda>t. tab_name t = n) (cat_tables c) = None"
    "filter (\<lambda>t. tab_name t \<noteq> n) (cat_tables c) = cat_tables c"
    "filter (\<lambda>i. ix_table i \<noteq> n) (cat_indexes c) = cat_indexes c"
    "filter (\<lambda>ty. fst ty \<noteq> n) (cat_types c) = cat_types c"
    "filter (\<lambda>q. fst q \<noteq> n) (cat_sequences c) = cat_sequences c"
  using assms by (auto simp: stranger_def find_None_iff filter_id_conv)

lemma run_ddl_frame:
  assumes "stranger ns c" and "set (subjects s) \<subseteq> ns" and "run_ddl s d = Inr d'"
  shows "run_ddl s (merge_catalogues c d) = Inr (merge_catalogues c d')"
proof (cases s)
  case (CreateExtension e)
  with assms(3) show ?thesis by (auto intro: catalogue_eqI)
next
  case (CreateType n ls)
  with assms stranger_absent[OF assms(1), of n] show ?thesis
    by (auto intro!: catalogue_eqI split: if_splits)
next
  case (CreateTable t)
  with assms(2) have absent: "tab_name t \<notin> tab_name ` set (cat_tables c)" using stranger_absent(1)[OF assms(1)] by simp
  from CreateTable assms(3) have d: "tab_name t \<notin> tab_name ` set (cat_tables d)"
    "find (\<lambda>ty. \<not> type_known d ty) (tab_types t) = None"
    "find (\<lambda>r. r \<noteq> tab_name t \<and> r \<notin> tab_name ` set (cat_tables d)) (tab_references t) = None"
    "d' = d\<lparr>cat_tables := cat_tables d @ [t]\<rparr>" by (auto split: if_splits option.splits)
  have "find (\<lambda>ty. \<not> type_known (merge_catalogues c d) ty) (tab_types t) = None"
    by (rule find_None_weaken[OF d(2)]) (auto simp: type_known_def)
  moreover have "find (\<lambda>r. r \<noteq> tab_name t \<and> r \<notin> tab_name ` set (cat_tables (merge_catalogues c d))) (tab_references t) = None"
    by (rule find_None_weaken[OF d(3)]) auto
  ultimately show ?thesis using absent d(1,4) unfolding CreateTable run_ddl.simps
    by (simp add: image_Un catalogue_eqI)
next
  case (CreateIndex i)
  with assms(2) have "ix_name i \<in> ns" "ix_table i \<in> ns" by simp_all
  note absent = stranger_absent(4)[OF assms(1) this(1)] stranger_absent(5)[OF assms(1) this(2)]
  from CreateIndex assms(3) obtain t where d: "ix_name i \<notin> ix_name ` set (cat_indexes d)" "find_table d (ix_table i) = Some t"
    "find (\<lambda>k. k \<notin> col_name ` set (tab_columns t)) (ix_columns i) = None"
    "d' = d\<lparr>cat_indexes := cat_indexes d @ [i]\<rparr>" by (auto split: if_splits option.splits)
  have "find_table (merge_catalogues c d) (ix_table i) = Some t"
    using absent(2) d(2) by (simp add: find_table_def find_append)
  then show ?thesis using absent(1) d(1,3,4) unfolding CreateIndex run_ddl.simps
    by (simp add: image_Un catalogue_eqI)
next
  case (CreateSequence n k)
  with assms stranger_absent[OF assms(1), of n] show ?thesis
    by (auto intro!: catalogue_eqI split: if_splits)
next
  case (DropTable n)
  with assms(1,2) have "\<not> (\<exists>t \<in> set (cat_tables c). tab_name t \<noteq> n \<and> n \<in> set (tab_references t))"
    unfolding stranger_def by auto
  with DropTable assms stranger_absent(6,7)[OF assms(1), of n] show ?thesis
    by (auto intro!: catalogue_eqI split: if_splits)
next
  case (DropType n)
  with assms(1,2) have "\<not> (\<exists>t \<in> set (cat_tables c). n \<in> set (tab_types t))"
    unfolding stranger_def by auto
  with DropType assms stranger_absent(8)[OF assms(1), of n] show ?thesis
    by (auto intro!: catalogue_eqI split: if_splits)
next
  case (DropSequence n)
  with assms stranger_absent(9)[OF assms(1), of n] show ?thesis by (auto intro: catalogue_eqI)
qed

lemma foldR_ddl_frame:
  assumes "stranger ns c" and "\<forall>s \<in> set ss. set (subjects s) \<subseteq> ns" and "foldR run_ddl ss d = Inr d'"
  shows "foldR run_ddl ss (merge_catalogues c d) = Inr (merge_catalogues c d')"
  using assms(2,3)
proof (induction ss arbitrary: d)
  case (Cons s ss)
  then obtain d1 where "run_ddl s d = Inr d1" "foldR run_ddl ss d1 = Inr d'" by auto
  with Cons run_ddl_frame[OF assms(1), of s d d1] show ?case by simp
qed simp

lemma down_names: "\<forall>s \<in> set (up @ sequence_up @ sequence_down @ down). set (subjects s) \<subseteq> set migration_names"
  by code_simp

lemma merge_empty [simp]: "merge_catalogues c empty_catalogue = c"
  by (rule catalogue_eqI) (simp_all add: empty_catalogue_def)

text \<open>
  C34. Both migrations run, in order, in any database that does not use their names, and reverting
  them in the opposite order leaves exactly the objects that were there before, and the PostGIS
  extension: no statement refers to something that does not exist yet, and nothing is dropped while
  another object depends on it.
\<close>

theorem migrations_revert:
  assumes "stranger (set migration_names) c"
  shows "foldR run_ddl (up @ sequence_up) c = Inr (merge_catalogues c migrated) \<and>
    foldR run_ddl (sequence_down @ down) (merge_catalogues c migrated) =
      Inr (c\<lparr>cat_extensions := insert ''postgis'' (cat_extensions c)\<rparr>)"
proof (intro conjI)
  have all: "foldR run_ddl (up @ sequence_up @ sequence_down @ down) c =
      Inr (merge_catalogues c (empty_catalogue\<lparr>cat_extensions := {''postgis''}\<rparr>))"
    using foldR_ddl_frame[OF assms down_names down_runs] by simp
  have "\<forall>s \<in> set (up @ sequence_up). set (subjects s) \<subseteq> set migration_names" using down_names by auto
  from foldR_ddl_frame[OF assms this up_runs] show ups: "foldR run_ddl (up @ sequence_up) c = Inr (merge_catalogues c migrated)"
    by simp
  have "merge_catalogues c (empty_catalogue\<lparr>cat_extensions := {''postgis''}\<rparr>) =
      c\<lparr>cat_extensions := insert ''postgis'' (cat_extensions c)\<rparr>"
    by (rule catalogue_eqI) (simp_all add: empty_catalogue_def)
  with all ups show "foldR run_ddl (sequence_down @ down) (merge_catalogues c migrated) =
      Inr (c\<lparr>cat_extensions := insert ''postgis'' (cat_extensions c)\<rparr>)"
    using foldR_append[of run_ddl "up @ sequence_up" "sequence_down @ down" c] by simp
qed

definition boss_catalogue :: catalogue where
  "boss_catalogue = empty_catalogue\<lparr>cat_tables := [\<lparr>tab_name = ''job'', tab_columns = [col ''id'' ''uuid'' [PrimaryKey]],
     tab_key = []\<rparr>]\<rparr>"

theorem migrations_revert_witness:
  "foldR run_ddl (sequence_down @ down) (merge_catalogues boss_catalogue migrated) =
     Inr (boss_catalogue\<lparr>cat_extensions := {''postgis''}\<rparr>)"
proof -
  have "stranger (set migration_names) boss_catalogue" by code_simp
  from conjunct2[OF migrations_revert[OF this]] show ?thesis by (simp add: boss_catalogue_def empty_catalogue_def)
qed

end
