(* ===== verification/Verify_Schema.thy ===== *)
theory Verify_Schema
  imports Seed Migration "HOL-Library.Sublist"
begin

section \<open>The schema acceptance checks\<close>

text \<open>
  \<^verbatim>\<open>src/infrastructure/database/verify-schema.ts\<close>, run on a catalogue of \<open>Migration\<close> and a database of
  \<open>Seed\<close>. The catalogue views are computed from the catalogue: \<open>indexdef\<close> is the text PostgreSQL
  prints for an index, \<open>check_constraints\<close> the names it gives to column checks. The environment holds
  what PostgreSQL chooses: the version of PostGIS, the row a query without a full order returns first,
  the generated keys, the text of a \<open>numeric\<close>. The insertions of the script differ from those of the
  program and the seed only in refusing an existing primary key.
\<close>

record verify_env =
  ve_postgis_version :: string
  ve_one :: "uuid list \<Rightarrow> uuid list" \<comment> \<open>\<open>LIMIT 1\<close>\<close>
  ve_first_by_name :: "warehouse_row list \<Rightarrow> warehouse_row list" \<comment> \<open>\<open>ORDER BY name LIMIT 1\<close>\<close>
  ve_numeric :: "rat \<Rightarrow> string" \<comment> \<open>the text of a \<open>numeric(9, 6)\<close>\<close>
  ve_customer_id :: uuid
  ve_order_id :: uuid
  ve_item_id :: uuid
  ve_payment_id :: uuid
  ve_second_payment_id :: uuid
  ve_now :: timestamp

record check_result =
  cr_name :: string
  cr_ok :: bool
  cr_detail :: "string option"

definition check :: "string \<Rightarrow> bool \<Rightarrow> string option \<Rightarrow> check_result" where
  "check n ok detail = \<lparr>cr_name = n, cr_ok = ok, cr_detail = detail\<rparr>"

text \<open>An em dash, as its UTF-8 bytes.\<close>

definition em_dash :: string where
  "em_dash = [CHR 0xE2, CHR 0x80, CHR 0x94]"

subsection \<open>The catalogue\<close>

text \<open>\<open>LIKE\<close> patterns; \<open>ILIKE\<close> compares in upper case.\<close>

function like :: "string \<Rightarrow> string \<Rightarrow> bool" where
  "like [] s \<longleftrightarrow> s = []"
| "like (c # p) s \<longleftrightarrow>
     (if c = CHR ''%'' then like p s \<or> (case s of [] \<Rightarrow> False | _ # s' \<Rightarrow> like (c # p) s')
      else (case s of [] \<Rightarrow> False | x # s' \<Rightarrow> (c = CHR ''_'' \<or> c = x) \<and> like p s'))"
  by pat_completeness auto
termination by (relation "measure (\<lambda>(p, s). length p + length s)") auto

definition ilike :: "string \<Rightarrow> string \<Rightarrow> bool" where
  "ilike s p \<longleftrightarrow> like (to_upper_case p) (to_upper_case s)"

definition column_type :: "catalogue \<Rightarrow> string \<Rightarrow> string \<Rightarrow> string" where
  "column_type c t k = (case find_table c t of None \<Rightarrow> [] | Some tab \<Rightarrow>
     (case find (\<lambda>x. col_name x = k) (tab_columns tab) of None \<Rightarrow> [] | Some x \<Rightarrow> col_type x))"

definition indexdef :: "catalogue \<Rightarrow> catalogue_index \<Rightarrow> string" where
  "indexdef c i = ''CREATE '' @ (if ix_unique i then ''UNIQUE '' else []) @ ''INDEX '' @ ix_name i @ '' ON public.'' @
     ix_table i @ '' USING '' @ ix_method i @ '' ('' @ js_join '', '' (ix_columns i) @ '')'' @
     (case ix_where i of None \<Rightarrow> []
      | Some (k, l) \<Rightarrow> '' WHERE ('' @ k @ '' = '' @ [CHR 0x27] @ l @ [CHR 0x27] @ ''::'' @ column_type c (ix_table i) k @ '')'')"

definition check_constraints :: "catalogue \<Rightarrow> string list \<Rightarrow> string list" where
  "check_constraints c ts = concat (map (\<lambda>t. concat (map (\<lambda>k.
     if \<exists>x \<in> set (col_constraints k). (case x of Check _ \<Rightarrow> True | _ \<Rightarrow> False)
     then [tab_name t @ ''_'' @ col_name k @ ''_check''] else []) (tab_columns t)))
     (filter (\<lambda>t. tab_name t \<in> set ts) (cat_tables c)))"

text \<open>An update of a column is refused when there is no such column, or it is generated.\<close>

definition update_refused :: "catalogue \<Rightarrow> string \<Rightarrow> string \<Rightarrow> bool" where
  "update_refused c t k \<longleftrightarrow> (case find_table c t of None \<Rightarrow> True | Some tab \<Rightarrow>
     (case find (\<lambda>x. col_name x = k) (tab_columns tab) of None \<Rightarrow> True
      | Some x \<Rightarrow> \<exists>y \<in> set (col_constraints x). (case y of Generated _ \<Rightarrow> True | _ \<Rightarrow> False)))"

definition check_postgis_extension :: "verify_env \<Rightarrow> catalogue \<Rightarrow> check_result" where
  "check_postgis_extension env c =
    (let rows = (if ''postgis'' \<in> cat_extensions c then [ve_postgis_version env] else []) in
     check ''postgis extension installed'' (length rows = 1) (case rows of [] \<Rightarrow> None | r # _ \<Rightarrow> Some r))"

definition check_gist_index :: "catalogue \<Rightarrow> check_result" where
  "check_gist_index c =
    (let rows = map (indexdef c) (filter (\<lambda>i. ix_name i = ''idx_warehouses_location_gist'' \<and> ix_table i = ''warehouses'') (cat_indexes c)) in
     check ''idx_warehouses_location_gist exists and is a GiST index''
       (length rows = 1 \<and> ilike (hd rows) ''%USING gist%'') None)"

definition check_constraints_exist :: "catalogue \<Rightarrow> check_result" where
  "check_constraints_exist c =
    (let names = check_constraints c [''inventory'', ''order_items''] in
     check ''CHECK constraints present (inventory x2, order_items x1)''
       (list_ex (sublist ''quantity_available'') names \<and> list_ex (sublist ''quantity_reserved'') names \<and>
        list_ex (sublist ''quantity'') names)
       (Some (js_join '', '' names)))"

definition check_partial_unique_index_exists :: "catalogue \<Rightarrow> check_result" where
  "check_partial_unique_index_exists c =
    (let rows = filter (\<lambda>i. ix_table i = ''payments'' \<and> ilike (indexdef c i) ''%WHERE%CAPTURED%'') (cat_indexes c) in
     check ''partial unique index on payments (one CAPTURED per order) exists'' (length rows = 1) None)"

definition check_generated_columns_readable :: "verify_env \<Rightarrow> db \<Rightarrow> check_result" where
  "check_generated_columns_readable env d =
    (case ve_first_by_name env (warehouses d) of
       [w] \<Rightarrow> check ''SELECT name, latitude, longitude FROM warehouses returns numeric coordinates'' True
         (Some (wh_name w @ '': '' @ ve_numeric env (latitude (wh_location w)) @ '', '' @
            ve_numeric env (longitude (wh_location w))))
     | _ \<Rightarrow> check ''SELECT name, latitude, longitude FROM warehouses returns numeric coordinates'' False None)"

definition check_generated_columns_reject_writes :: "catalogue \<Rightarrow> check_result" where
  "check_generated_columns_reject_writes c =
    (if update_refused c ''warehouses'' ''latitude''
     then check ''UPDATE warehouses SET latitude = 0 is rejected by PostgreSQL'' True None
     else check ''UPDATE warehouses SET latitude = 0 is rejected by PostgreSQL'' False (Some (''UPDATE succeeded '' @ em_dash @ '' it should not have'')))"

subsection \<open>The seed scenarios\<close>

definition SEED_SCENARIOS :: "(string \<times> string \<times> nat) list" where
  "SEED_SCENARIOS = [
     (''exactly one warehouse viable (AirPods Pro 3)'', ''APL-AIRPODSPRO3'', 1),
     (''several viable, spread nationally (iPhone 17)'', ''APL-IP17-256-BLK'', 3),
     (''short everywhere, max 2 (MacBook Pro 16\")'', ''APL-MBP16-M4P-1TB'', 5),
     (''exact-quantity boundary, 5 units (iPad Pro 11\")'', ''APL-IPADPRO11-M4-256'', 1)]"

definition quantities_of_sku :: "db \<Rightarrow> string \<Rightarrow> int list" where
  "quantities_of_sku d sku = concat (map (\<lambda>i. map (\<lambda>p. qty_available i)
     (filter (\<lambda>p. prod_id p = inv_product i \<and> prod_sku p = sku) (products d))) (inventory d))"

definition check_four_seed_scenarios :: "db \<Rightarrow> check_result list" where
  "check_four_seed_scenarios d =
     map (\<lambda>(name, sku, expected). let rows = quantities_of_sku d sku in
       check (''seed scenario: '' @ name) (length rows = expected)
         (Some (show_nat (length rows) @ '' warehouse(s), quantities: '' @ js_join '','' (map show_int rows)))) SEED_SCENARIOS @
     [check ''exact-quantity boundary case is exactly 5 units'' (quantities_of_sku d ''APL-IPADPRO11-M4-256'' = [5]) None]"

subsection \<open>The rejections\<close>

definition insert_new_customer :: "customer_row \<Rightarrow> db \<Rightarrow> app_error + db" where
  "insert_new_customer r d =
    (if cust_id r \<in> cust_id ` set (customers d) then Inl (QueryFailedError SQL_UNIQUE_23505) else insert_customer r d)"

definition insert_payment :: "payment_row \<Rightarrow> db \<Rightarrow> app_error + db" where
  "insert_payment r d =
    (if pay_id r \<in> pay_id ` set (payments d) then Inl (QueryFailedError SQL_UNIQUE_23505) else save_payment r d)"

text \<open>A statement that must fail, between a savepoint and the return to it.\<close>

definition expect_rejection :: "string \<Rightarrow> (db \<Rightarrow> app_error + db) \<Rightarrow> db \<Rightarrow> check_result" where
  "expect_rejection name statement d =
    (case statement d of
       Inr _ \<Rightarrow> check name False (Some (''the statement succeeded '' @ em_dash @ '' it should have been rejected''))
     | Inl _ \<Rightarrow> check name True None)"

definition temporary_customer :: "verify_env \<Rightarrow> customer_row" where
  "temporary_customer env = \<lparr>cust_id = ve_customer_id env, cust_email = ''verify-schema@example.com'',
     cust_full_name = ''Verify Schema'', cust_phone = None, cust_created_at = ve_now env, cust_updated_at = ve_now env,
     cust_deleted_at = None\<rparr>"

definition temporary_order :: "verify_env \<Rightarrow> uuid \<Rightarrow> order_row" where
  "temporary_order env w = \<lparr>row_id = ve_order_id env, row_number = ''VERIFY-SCHEMA-TEMP'', row_customer = ve_customer_id env,
     row_warehouse = Some w, row_status = PENDING_PAYMENT, row_currency = ''USD'', row_total_cents = 100,
     row_address = \<lparr>recipient = Some ''Verify'', line1 = Some ''1 Test Way'', line2 = None, city = Some ''Test'', state = None,
       postal_code = None, country = Some ''US''\<rparr>,
     row_location = (0, 0), row_reservation_expires_at = None, row_confirmed_at = None, row_cancelled_at = None,
     row_cancellation_reason = None, row_created_at = ve_now env, row_updated_at = ve_now env\<rparr>"

definition temporary_payment :: "verify_env \<Rightarrow> uuid \<Rightarrow> int \<Rightarrow> string \<Rightarrow> payment_row" where
  "temporary_payment env pid n key = \<lparr>pay_id = pid, pay_order = ve_order_id env, pay_attempt = n,
     pay_provider = ''mock-gateway'', pay_provider_payment_id = None, pay_idempotency_key = key, pay_status = PS_CAPTURED,
     pay_amount_cents = 100, pay_currency = ''USD'', pay_card_last4 = None, pay_card_brand = None, pay_failure_code = None,
     pay_raw_response = None, pay_settled_at = None, pay_created_at = ve_now env, pay_updated_at = ve_now env\<rparr>"

text \<open>The transaction is rolled back however it ends, so only its results remain.\<close>

definition check_rejections :: "verify_env \<Rightarrow> db \<Rightarrow> app_error + check_result list" where
  "check_rejections env d =
    (case (ve_one env (map wh_id (warehouses d)), ve_one env (map prod_id (products d))) of
       (w # _, p # _) \<Rightarrow>
         (let negative = expect_rejection ''inventory.quantity_available = -1 is rejected''
            (insert_inventory \<lparr>inv_warehouse = w, inv_product = p, qty_available = - 1, qty_reserved = 0, inv_version = 0\<rparr>) d in
          bindR (insert_new_customer (temporary_customer env) d) (\<lambda>d1.
          bindR (insert_order (temporary_order env w) d1) (\<lambda>d2.
          let zero = expect_rejection ''order_items.quantity = 0 is rejected''
            (insert_order_item \<lparr>ir_id = ve_item_id env, ir_order = ve_order_id env, ir_product = p, ir_quantity = 0,
               ir_sku = ''TEMP'', ir_name = ''Temp'', ir_unit_price_cents = 100\<rparr>) d2 in
          bindR (insert_payment (temporary_payment env (ve_payment_id env) 1 ''verify-schema-1'') d2) (\<lambda>d3.
          Inr [negative, zero,
            expect_rejection ''a second CAPTURED payment for the same order is rejected''
              (insert_payment (temporary_payment env (ve_second_payment_id env) 2 ''verify-schema-2'')) d3]))))
     | _ \<Rightarrow> Inr [check ''rejection checks (inventory/order_items/payments)'' False
           (Some (''no seeded warehouse or product found '' @ em_dash @ '' run the seed first''))])"

subsection \<open>The script\<close>

definition verify_schema :: "verify_env \<Rightarrow> catalogue \<Rightarrow> db \<Rightarrow> app_error + check_result list" where
  "verify_schema env c d =
     bindR (check_rejections env d) (\<lambda>rejections.
       Inr ([check_postgis_extension env c, check_gist_index c, check_constraints_exist c, check_partial_unique_index_exists c,
         check_generated_columns_readable env d, check_generated_columns_reject_writes c] @
         check_four_seed_scenarios d @ rejections))"

definition verify_exit_code :: "verify_env \<Rightarrow> catalogue \<Rightarrow> db \<Rightarrow> nat" where
  "verify_exit_code env c d = (case verify_schema env c d of
     Inl _ \<Rightarrow> 1
   | Inr results \<Rightarrow> if filter (\<lambda>r. \<not> cr_ok r) results \<noteq> [] then 1 else 0)"

subsection \<open>What passes\<close>

lemma catalogue_checks:
  shows "cr_ok (check_postgis_extension env migrated)" and "cr_ok (check_constraints_exist migrated)"
    and "cr_ok (check_generated_columns_reject_writes migrated)"
  by code_simp+

lemma gist_check: "cr_ok (check_gist_index migrated)"
  by code_simp

lemma partial_index_check: "cr_ok (check_partial_unique_index_exists migrated)"
  by code_simp

lemma cr_sel [simp]: "cr_name (check n ok t) = n" "cr_ok (check n ok t) = ok"
  by (simp_all add: check_def)

lemma failed_expect [simp]: "cr_ok (expect_rejection n s d) \<longleftrightarrow> (\<exists>e. s d = Inl e)"
  by (cases "s d") (simp_all add: expect_rejection_def)

text \<open>The database chooses one row, of the table it is asked about.\<close>

definition picks_one :: "('a list \<Rightarrow> 'a list) \<Rightarrow> bool" where
  "picks_one f \<longleftrightarrow> (\<forall>xs. xs \<noteq> [] \<longrightarrow> (\<exists>x \<in> set xs. f xs = [x]))"

lemma picks_oneE: "picks_one f \<Longrightarrow> xs \<noteq> [] \<Longrightarrow> (\<And>x. x \<in> set xs \<Longrightarrow> f xs = [x] \<Longrightarrow> thesis) \<Longrightarrow> thesis"
  by (auto simp: picks_one_def)

text \<open>The names and keys of the temporary rows are not in use.\<close>

definition verify_names_free :: "verify_env \<Rightarrow> db \<Rightarrow> bool" where
  "verify_names_free env d \<longleftrightarrow> ve_customer_id env \<notin> cust_id ` set (customers d) \<and>
     ''verify-schema@example.com'' \<notin> cust_email ` set (customers d) \<and> \<not> order_exists d (ve_order_id env) \<and>
     ''VERIFY-SCHEMA-TEMP'' \<notin> row_number ` set (orders d) \<and> ve_order_id env \<notin> pay_order ` set (payments d) \<and>
     ve_payment_id env \<notin> pay_id ` set (payments d) \<and> ''verify-schema-1'' \<notin> pay_idempotency_key ` set (payments d)"

lemma rejections_pass:
  assumes "picks_one (ve_one env)" and "verify_names_free env d" and "warehouses d \<noteq> []" and "products d \<noteq> []"
  shows "\<exists>rs. check_rejections env d = Inr rs \<and> length rs = 3 \<and> list_all cr_ok rs"
proof -
  from assms(1,3) obtain w where w: "w \<in> set (map wh_id (warehouses d))" "ve_one env (map wh_id (warehouses d)) = [w]"
    by (elim picks_oneE[where xs = "map wh_id (warehouses d)"]) auto
  from assms(1,4) obtain p where p: "ve_one env (map prod_id (products d)) = [p]"
    by (elim picks_oneE[where xs = "map prod_id (products d)"]) auto
  let ?d1 = "d\<lparr>customers := customers d @ [temporary_customer env]\<rparr>"
  let ?d2 = "?d1\<lparr>orders := orders d @ [temporary_order env w]\<rparr>"
  let ?p1 = "temporary_payment env (ve_payment_id env) 1 ''verify-schema-1''"
  have 1: "insert_new_customer (temporary_customer env) d = Inr ?d1"
    using assms(2) by (simp add: insert_new_customer_def insert_customer_def temporary_customer_def verify_names_free_def)
  have 2: "insert_order (temporary_order env w) ?d1 = Inr ?d2"
    using assms(2) w(1)
    by (auto simp: insert_order_def save_order_def order_exists_def orders_fk_ok_def temporary_order_def temporary_customer_def
        verify_names_free_def in_int8_def) (metis image_eqI)
  have 3: "insert_payment ?p1 ?d2 = Inr (?d2\<lparr>payments := payments d @ [?p1]\<rparr>)"
    using assms(2)
    by (auto simp: insert_payment_def save_payment_def payment_conflicts_def order_exists_def temporary_payment_def
        temporary_order_def verify_names_free_def in_int8_def) (metis image_eqI)+
  show ?thesis
    by (simp add: check_rejections_def w(2) p 1 2 3 Let_def insert_inventory_def insert_order_item_def in_int4_def)
      (auto simp: insert_payment_def save_payment_def payment_conflicts_def temporary_payment_def)
qed

text \<open>The scenarios count rows by the keys of the tables.\<close>

definition seed_keys :: "(uuid \<times> string) list" where
  "seed_keys = zip (map se_id PRODUCTS) (map se_sku PRODUCTS)"

definition stock_products :: "uuid list" where
  "stock_products = map (\<lambda>e. snd (fst e)) seed_stock"

lemma quantities_by_product:
  assumes "filter (\<lambda>p. snd p = sku) (map (\<lambda>p. (prod_id p, prod_sku p)) (products d)) = [(i, sku)]"
  shows "quantities_of_sku d sku = map qty_available (filter (\<lambda>r. inv_product r = i) (inventory d))"
proof -
  let ?k = "\<lambda>p. (prod_id p, prod_sku p)"
  have each: "map (\<lambda>p. qty_available r) (filter (\<lambda>p. prod_id p = inv_product r \<and> prod_sku p = sku) (products d)) =
      (if inv_product r = i then [qty_available r] else [])" for r
  proof -
    have "filter (\<lambda>q. fst q = inv_product r) (filter (\<lambda>q. snd q = sku) (map ?k (products d))) =
        (if inv_product r = i then [(i, sku)] else [])"
      by (simp add: assms)
    from arg_cong[OF this, of length]
    have "length (filter (\<lambda>p. prod_id p = inv_product r \<and> prod_sku p = sku) (products d)) =
        (if inv_product r = i then 1 else 0)"
      by (simp add: filter_map comp_def conj_commute split: if_splits)
    then show ?thesis by (auto simp: map_replicate_const)
  qed
  have "concat (map (\<lambda>r. if inv_product r = i then [qty_available r] else []) rows) =
      map qty_available (filter (\<lambda>r. inv_product r = i) rows)" for rows
    by (induction rows) auto
  then show ?thesis by (simp only: quantities_of_sku_def each)
qed

lemma scenario_products:
  "filter (\<lambda>p. snd p = ''APL-AIRPODSPRO3'') seed_keys = [(''b0000000-0000-0000-0000-000000000014'', ''APL-AIRPODSPRO3'')]"
  "filter (\<lambda>p. snd p = ''APL-IP17-256-BLK'') seed_keys = [(''b0000000-0000-0000-0000-000000000004'', ''APL-IP17-256-BLK'')]"
  "filter (\<lambda>p. snd p = ''APL-MBP16-M4P-1TB'') seed_keys = [(''b0000000-0000-0000-0000-000000000010'', ''APL-MBP16-M4P-1TB'')]"
  "filter (\<lambda>p. snd p = ''APL-IPADPRO11-M4-256'') seed_keys =
    [(''b0000000-0000-0000-0000-000000000013'', ''APL-IPADPRO11-M4-256'')]"
  by (simp_all add: seed_keys_def PRODUCTS_def seed_product_def)

lemma scenario_stock:
  "length (filter (\<lambda>x. x = ''b0000000-0000-0000-0000-000000000014'') stock_products) = 1"
  "length (filter (\<lambda>x. x = ''b0000000-0000-0000-0000-000000000004'') stock_products) = 3"
  "length (filter (\<lambda>x. x = ''b0000000-0000-0000-0000-000000000010'') stock_products) = 5"
  "length (filter (\<lambda>x. x = ''b0000000-0000-0000-0000-000000000013'') stock_products) = 1"
  by (simp_all add: stock_products_def seed_stock_def INVENTORY_def PRODUCTS_def seed_product_def)

text \<open>The one stock row of the boundary product.\<close>

lemma boundary_keys:
  "filter (\<lambda>k. snd k = ''b0000000-0000-0000-0000-000000000013'') (map fst seed_stock) =
     [(''a0000000-0000-0000-0000-000000000001'', ''b0000000-0000-0000-0000-000000000013'')]"
  by (simp add: seed_stock_def INVENTORY_def WAREHOUSES_def PRODUCTS_def seed_warehouse_def seed_product_def)

lemma boundary_quantity:
  assumes "filter (\<lambda>k. snd k = p) (map inv_key (inventory d)) = [(w, p)]"
  shows "\<exists>a r. stock d w p = Some (a, r) \<and> map qty_available (filter (\<lambda>r. inv_product r = p) (inventory d)) = [a]"
proof -
  have "map inv_key (filter (\<lambda>r. inv_product r = p) (inventory d)) = [(w, p)]"
    using assms by (simp add: filter_map comp_def inv_key_def)
  then obtain r where r: "filter (\<lambda>r. inv_product r = p) (inventory d) = [r]" "inv_key r = (w, p)" by auto
  have only: "x = r" if "x \<in> set (inventory d)" "inv_key x = (w, p)" for x
    using that r(1) by (metis (mono_tags, lifting) empty_iff empty_set inv_key_def list.set_intros(1) mem_Collect_eq prod.inject set_ConsD set_filter)
  have "r \<in> set (inventory d)" using r(1) by (metis (mono_tags, lifting) list.set_intros(1) mem_Collect_eq set_filter)
  with r(2) obtain x where "find_inventory d w p = Some x"
    by (cases "find_inventory d w p") (auto simp: find_inventory_def find_None_iff)
  with only find_inventory_Some[OF this] have "find_inventory d w p = Some r" by (simp add: inv_key_def)
  with r(1) show ?thesis by (simp add: stock_def)
qed

text \<open>The tables the scenarios read keep their keys, whatever the program does after the seed.\<close>

lemma seeded_tables:
  assumes "txns (snd (seed clock empty_db)) d"
  shows "warehouses d \<noteq> []" and "products d \<noteq> []"
    and "map (\<lambda>p. (prod_id p, prod_sku p)) (products d) = seed_keys"
    and "map inv_key (inventory d) = map fst seed_stock"
proof -
  obtain ws ps where d0: "seed clock empty_db = (Inr (), empty_db\<lparr>customers := [CUSTOMER (clock 0)],
      warehouses := ws, products := ps, inventory := map inventory_of seed_stock\<rparr>)"
    and ids: "map wh_id ws = map sw_id WAREHOUSES" "map prod_id ps = map se_id PRODUCTS" "map prod_sku ps = map se_sku PRODUCTS"
    by (rule seed_empty)
  have run: "txns (empty_db\<lparr>customers := [CUSTOMER (clock 0)], warehouses := ws, products := ps,
      inventory := map inventory_of seed_stock\<rparr>) d"
    using assms d0 by simp
  from txns_same_reference[OF run seeded_ok(1)[OF d0], unfolded same_reference_def]
  have tables: "warehouses d = ws" "products d = ps" "map inv_key (inventory d) = map fst seed_stock"
    by (simp_all add: inventory_of_def inv_key_def comp_def)
  then show "warehouses d \<noteq> []" "products d \<noteq> []" "map inv_key (inventory d) = map fst seed_stock"
    using ids by (auto simp: WAREHOUSES_def PRODUCTS_def)
  have "map (\<lambda>p. (prod_id p, prod_sku p)) rows = zip (map prod_id rows) (map prod_sku rows)" for rows :: "product_row list"
    by (induction rows) auto
  then show "map (\<lambda>p. (prod_id p, prod_sku p)) (products d) = seed_keys"
    by (simp only: seed_keys_def tables(2) ids(2,3))
qed

lemma scenarios_pass:
  assumes "map (\<lambda>p. (prod_id p, prod_sku p)) (products d) = seed_keys" and "map inv_key (inventory d) = map fst seed_stock"
  obtains n r ss b where "check_four_seed_scenarios d = ss @ [b]" "length ss = 4" "list_all cr_ok ss" "cr_ok b \<longleftrightarrow> n = 5"
    "cr_name b = ''exact-quantity boundary case is exactly 5 units''"
    "stock d ''a0000000-0000-0000-0000-000000000001'' ''b0000000-0000-0000-0000-000000000013'' = Some (n, r)"
proof -
  note quantities = scenario_products[folded assms(1), THEN quantities_by_product]
  have "map inv_product (inventory d) = stock_products"
    using arg_cong[OF assms(2), of "map snd"] by (simp add: stock_products_def comp_def inv_key_def)
  then have counts: "length (filter (\<lambda>r. inv_product r = i) (inventory d)) = length (filter (\<lambda>x. x = i) stock_products)" for i
    by (simp add: filter_map comp_def flip: \<open>map inv_product (inventory d) = stock_products\<close>)
  from boundary_quantity[of _ d] boundary_keys assms(2) obtain n r
    where n: "stock d ''a0000000-0000-0000-0000-000000000001'' ''b0000000-0000-0000-0000-000000000013'' = Some (n, r)"
      "quantities_of_sku d ''APL-IPADPRO11-M4-256'' = [n]"
    unfolding quantities(4) by metis
  let ?rs = "check_four_seed_scenarios d"
  have oks: "map cr_ok ?rs = [True, True, True, True, n = 5]"
    by (simp add: check_four_seed_scenarios_def SEED_SCENARIOS_def Let_def n(2) quantities(1-3) counts scenario_stock)
  have names: "length ?rs = 5" "cr_name (last ?rs) = ''exact-quantity boundary case is exactly 5 units''"
    by (simp_all add: check_four_seed_scenarios_def SEED_SCENARIOS_def)
  then have nonempty: "?rs \<noteq> []" by auto
  have parts: "map cr_ok (butlast ?rs) = [True, True, True, True]" "cr_ok (last ?rs) = (n = 5)"
    using oks nonempty by (simp_all add: map_butlast flip: last_map)
  have "\<forall>x \<in> set (map cr_ok (butlast ?rs)). x" by (simp only: parts(1)) simp
  then have "list_all cr_ok (butlast ?rs)" by (simp add: list_all_iff)
  with parts(2) names nonempty n(1) show thesis by (intro that[of "butlast ?rs" "last ?rs" n r]) simp_all
qed

text \<open>
  C36. The acceptance checks accept what the migrations, the seed and the program make. On the migrated
  catalogue and a database reached from the seeded one by any transactions of the program, the script
  returns its fourteen results if the names of its temporary rows are free; all pass, but for the one
  that asks for exactly five units of the boundary product, which passes as long as none of the five is
  taken.
\<close>

theorem schema_checks_pass:
  assumes "txns (snd (seed clock empty_db)) d" and "verify_names_free env d"
    and "picks_one (ve_one env)" and "picks_one (ve_first_by_name env)"
  shows "\<exists>rs n r. verify_schema env migrated d = Inr rs \<and> length rs = 14 \<and>
     stock d ''a0000000-0000-0000-0000-000000000001'' ''b0000000-0000-0000-0000-000000000013'' = Some (n, r) \<and>
     map cr_name (filter (\<lambda>r. \<not> cr_ok r) rs) =
       (if n = 5 then [] else [''exact-quantity boundary case is exactly 5 units''])"
proof -
  note tables = seeded_tables[OF assms(1)]
  obtain rs where rs: "check_rejections env d = Inr rs" "length rs = 3" "list_all cr_ok rs"
    using rejections_pass[OF assms(3,2) tables(1,2)] by auto
  from assms(4) tables(1) have readable: "cr_ok (check_generated_columns_readable env d)"
    by (auto simp: check_generated_columns_readable_def elim: picks_oneE)
  obtain n r ss b where four: "check_four_seed_scenarios d = ss @ [b]" "length ss = 4" "list_all cr_ok ss" "cr_ok b \<longleftrightarrow> n = 5"
    "cr_name b = ''exact-quantity boundary case is exactly 5 units''"
    "stock d ''a0000000-0000-0000-0000-000000000001'' ''b0000000-0000-0000-0000-000000000013'' = Some (n, r)"
    by (rule scenarios_pass[OF tables(3,4)])
  let ?cat = "[check_postgis_extension env migrated, check_gist_index migrated, check_constraints_exist migrated,
      check_partial_unique_index_exists migrated, check_generated_columns_readable env d,
      check_generated_columns_reject_writes migrated]"
  let ?all = "?cat @ (ss @ [b]) @ rs"
  have "verify_schema env migrated d = Inr ?all" by (simp add: verify_schema_def rs(1) four(1))
  moreover have "length ?all = 14" using four(2) rs(2) by simp
  moreover have "filter (\<lambda>r. \<not> cr_ok r) ?all = (if n = 5 then [] else [b])"
    using catalogue_checks gist_check partial_index_check readable four(3,4) rs(3)
    by (simp add: list_all_iff filter_empty_conv)
  ultimately show ?thesis using four(5,6) by (intro exI[of _ ?all] exI[of _ n] exI[of _ r]) auto
qed

definition sample_verify_env :: verify_env where
  "sample_verify_env = \<lparr>ve_postgis_version = ''3.5.2'', ve_one = take 1, ve_first_by_name = take 1, ve_numeric = (\<lambda>_. []),
     ve_customer_id = ''c1'', ve_order_id = ''o1'', ve_item_id = ''i1'', ve_payment_id = ''p1'',
     ve_second_payment_id = ''p2'', ve_now = 0\<rparr>"

lemma take_picks_one [simp]: "picks_one (take 1)"
  by (auto simp: picks_one_def neq_Nil_conv)

theorem schema_checks_pass_witness:
  "\<exists>rs. verify_schema sample_verify_env migrated (snd (seed (\<lambda>i. int i) empty_db)) = Inr rs \<and> length rs = 14 \<and>
     filter (\<lambda>r. \<not> cr_ok r) rs = []"
proof -
  let ?d = "snd (seed (\<lambda>i. int i) empty_db)"
  obtain ws ps where seeded: "seed (\<lambda>i. int i) empty_db = (Inr (), empty_db\<lparr>customers := [CUSTOMER ((\<lambda>i. int i) 0)],
      warehouses := ws, products := ps, inventory := map inventory_of seed_stock\<rparr>)"
    by (rule seed_empty)
  have free: "verify_names_free sample_verify_env ?d"
    by (simp only: seeded prod.sel)
      (simp add: verify_names_free_def sample_verify_env_def empty_db_def order_exists_def CUSTOMER_def)
  have "picks_one (ve_one sample_verify_env)" "picks_one (ve_first_by_name sample_verify_env)"
    unfolding sample_verify_env_def verify_env.simps by (rule take_picks_one)+
  from schema_checks_pass[OF rtranclp.rtrancl_refl free this] obtain rs n r where rs:
    "verify_schema sample_verify_env migrated ?d = Inr rs" "length rs = 14"
    "stock ?d ''a0000000-0000-0000-0000-000000000001'' ''b0000000-0000-0000-0000-000000000013'' = Some (n, r)"
    "map cr_name (filter (\<lambda>r. \<not> cr_ok r) rs) = (if n = 5 then [] else [''exact-quantity boundary case is exactly 5 units''])"
    by blast
  have "sp_free (shop_of ?d) ''a0000000-0000-0000-0000-000000000001'' ''b0000000-0000-0000-0000-000000000013'' = 5"
    using seeded_ok(2)[OF seeded] seed_units_boundary by (simp add: seeded)
  with rs(3) have "n = 5" by (simp add: shop_of_def)
  with rs show ?thesis by auto
qed

text \<open>
  The third test of \<open>checkConstraintsExist\<close> asks for a name that contains \<open>quantity\<close>, which the names
  of the two constraints of \<open>inventory\<close> do: a catalogue whose \<open>order_items\<close> has lost its check passes.
\<close>

definition without_checks :: "catalogue_table \<Rightarrow> catalogue_table" where
  "without_checks t = t\<lparr>tab_columns := map (\<lambda>c. c\<lparr>col_constraints :=
     filter (\<lambda>k. case k of Check _ \<Rightarrow> False | _ \<Rightarrow> True) (col_constraints c)\<rparr>) (tab_columns t)\<rparr>"

lemma lost_check_passes:
  "cr_ok (check_constraints_exist (migrated\<lparr>cat_tables :=
     map (\<lambda>t. if tab_name t = ''order_items'' then without_checks t else t) (cat_tables migrated)\<rparr>))"
  by code_simp

end
