(* ===== verification/Job_Runner.thy ===== *)
theory Job_Runner
  imports Jobs "HOL-Library.Sublist"
begin

section \<open>Queues and the job runner\<close>

text \<open>
  \<^verbatim>\<open>src/infrastructure/messaging/queue-setup.ts\<close>, \<^verbatim>\<open>pg-boss.provider.ts\<close>, \<^verbatim>\<open>job-runner.ts\<close>,
  \<^verbatim>\<open>observability/dlq-gauge.ts\<close> and the handlers bound in \<^verbatim>\<open>src/modules/worker.module.ts\<close>. pg-boss is
  not part of the program: \<open>boss.createQueue\<close> is an argument, and \<open>keeps_queues\<close> is what its documentation
  promises of it. What the runner does to the outside when it starts is a list of calls, of which
  any may throw.
\<close>

subsection \<open>Topology\<close>

definition QUEUE_RETRY_LIMIT :: nat where "QUEUE_RETRY_LIMIT = 4"
definition QUEUE_RETRY_DELAY_SECONDS :: nat where "QUEUE_RETRY_DELAY_SECONDS = 1"
definition QUEUE_RETRY_DELAY_MAX_SECONDS :: nat where "QUEUE_RETRY_DELAY_MAX_SECONDS = 60"
definition DLQ_RETENTION_DAYS :: nat where "DLQ_RETENTION_DAYS = 30"
definition SECONDS_PER_DAY :: nat where "SECONDS_PER_DAY = 24 * 60 * 60"

definition QUEUE_TOPOLOGY :: "(string \<times> string) list" where
  "QUEUE_TOPOLOGY = [(''shipment.create'', ''shipment.create.dlq''), (''customer.notify'', ''customer.notify.dlq''),
     (''analytics.record'', ''analytics.record.dlq'')]"

definition SCHEDULED_JOBS :: "(string \<times> string) list" where
  "SCHEDULED_JOBS = [(''reservation.reap'', ''* * * * *''), (''payment.reconcile'', ''* * * * *'')]"

text \<open>The options the program passes; an option it does not pass is \<open>None\<close>.\<close>

record queue_options =
  qo_retention_seconds :: "nat option"
  qo_notify :: "bool option"
  qo_dead_letter :: "string option"
  qo_retry_limit :: "nat option"
  qo_retry_backoff :: "bool option"
  qo_retry_delay :: "nat option"
  qo_retry_delay_max :: "nat option"

definition no_options :: queue_options where
  "no_options = \<lparr>qo_retention_seconds = None, qo_notify = None, qo_dead_letter = None, qo_retry_limit = None,
     qo_retry_backoff = None, qo_retry_delay = None, qo_retry_delay_max = None\<rparr>"

definition dlq_options :: queue_options where
  "dlq_options = no_options\<lparr>qo_retention_seconds := Some (DLQ_RETENTION_DAYS * SECONDS_PER_DAY)\<rparr>"

definition event_queue_options :: "string \<Rightarrow> queue_options" where
  "event_queue_options dead_letter = no_options\<lparr>qo_notify := Some True, qo_dead_letter := Some dead_letter,
     qo_retry_limit := Some QUEUE_RETRY_LIMIT, qo_retry_backoff := Some True,
     qo_retry_delay := Some QUEUE_RETRY_DELAY_SECONDS, qo_retry_delay_max := Some QUEUE_RETRY_DELAY_MAX_SECONDS\<rparr>"

definition scheduled_options :: queue_options where
  "scheduled_options = no_options\<lparr>qo_retry_limit := Some 0\<rparr>"

definition queue_plan :: "(string \<times> queue_options) list" where
  "queue_plan = map (\<lambda>(queue, dead_letter). (dead_letter, dlq_options)) QUEUE_TOPOLOGY @
     map (\<lambda>(queue, dead_letter). (queue, event_queue_options dead_letter)) QUEUE_TOPOLOGY @
     map (\<lambda>(queue, cron). (queue, scheduled_options)) SCHEDULED_JOBS"

definition setup_queues :: "(string \<Rightarrow> queue_options \<Rightarrow> 'b \<Rightarrow> 'e + 'b) \<Rightarrow> 'b \<Rightarrow> 'e + 'b" where
  "setup_queues create_queue = foldR (\<lambda>(queue, options). create_queue queue options) queue_plan"

text \<open>One started instance per process; only the worker supervises, schedules and listens.\<close>

datatype boss_role = ApiRole | WorkerRole

record boss_options =
  bo_connection_string :: string
  bo_max :: nat
  bo_supervise :: bool
  bo_schedule :: bool
  bo_use_listen_notify :: bool

definition boss_options :: "boss_role \<Rightarrow> string \<Rightarrow> boss_options" where
  "boss_options role url = \<lparr>bo_connection_string = url, bo_max = (if role = WorkerRole then 5 else 2),
     bo_supervise = (role = WorkerRole), bo_schedule = (role = WorkerRole), bo_use_listen_notify = (role = WorkerRole)\<rparr>"

definition pg_boss_provider ::
  "(boss_options \<Rightarrow> 'e + 'b) \<Rightarrow> (string \<Rightarrow> queue_options \<Rightarrow> 'b \<Rightarrow> 'e + 'b) \<Rightarrow> boss_role \<Rightarrow> string \<Rightarrow> 'e + 'b" where
  "pg_boss_provider started create_queue role url = bindR (started (boss_options role url)) (setup_queues create_queue)"

text \<open>
  What \<open>createQueue\<close> promises: it is refused for a dead letter queue that does not exist; a queue that
  exists is left as it is, and otherwise exactly that queue is added.
\<close>

definition keeps_queues ::
  "(string \<Rightarrow> queue_options \<Rightarrow> 'b \<Rightarrow> 'e + 'b) \<Rightarrow> ('b \<Rightarrow> string \<Rightarrow> queue_options option) \<Rightarrow> bool" where
  "keeps_queues create_queue queues \<longleftrightarrow> (\<forall>q opts b.
     (case qo_dead_letter opts of Some dl \<Rightarrow> queues b dl = None | None \<Rightarrow> False) \<and> (\<exists>e. create_queue q opts b = Inl e) \<or>
     (case qo_dead_letter opts of Some dl \<Rightarrow> queues b dl \<noteq> None | None \<Rightarrow> True) \<and>
       (\<exists>b'. create_queue q opts b = Inr b' \<and>
          queues b' = (if queues b q = None then (queues b)(q \<mapsto> opts) else queues b)))"

definition table_create_queue ::
  "string \<Rightarrow> queue_options \<Rightarrow> (string \<rightharpoonup> queue_options) \<Rightarrow> unit + (string \<rightharpoonup> queue_options)" where
  "table_create_queue q opts b =
    (case qo_dead_letter opts of
       Some dl \<Rightarrow> if b dl = None then Inl () else Inr (if b q = None then b(q \<mapsto> opts) else b)
     | None \<Rightarrow> Inr (if b q = None then b(q \<mapsto> opts) else b))"

lemma table_keeps_queues [simp]: "keeps_queues table_create_queue (\<lambda>b. b)"
  by (auto simp: keeps_queues_def table_create_queue_def split: option.splits)

subsection \<open>Handlers\<close>

text \<open>
  A handler gets the correlation id of its job as the ambient one, and a payload when its jobs carry
  an event; the payload of a scheduled job is empty.
\<close>

datatype 's job_handler =
  OnOrder (handler_queue: string) "string \<Rightarrow> order_confirmed_payload \<Rightarrow> 's \<Rightarrow> (app_error + unit) \<times> 's"
| OnTick (handler_queue: string) "string \<Rightarrow> 's \<Rightarrow> (app_error + unit) \<times> 's"

definition in_correlation :: "string \<Rightarrow> job_env \<Rightarrow> job_env" where
  "in_correlation c env = env\<lparr>jb_settle := \<lambda>k. (jb_settle env k)\<lparr>tx_correlation_id := Some c\<rparr>\<rparr>"

definition worker_handlers ::
  "shipment_env \<Rightarrow> job_env \<Rightarrow> (string \<Rightarrow> 'g \<Rightarrow> charge_result \<times> 'g) \<Rightarrow> 'g worker job_handler list" where
  "worker_handlers senv env get_status =
    [OnOrder ''shipment.create'' (\<lambda>c. shipment_create senv),
     OnOrder ''customer.notify'' (\<lambda>c. customer_notify),
     OnOrder ''analytics.record'' (\<lambda>c. analytics_record),
     OnTick ''reservation.reap'' (\<lambda>c. reap_reservations get_status (in_correlation c env)),
     OnTick ''payment.reconcile'' (\<lambda>c. reconcile_payments get_status (in_correlation c env))]"

subsection \<open>Running a job\<close>

record job_meta =
  meta_correlation_id :: string
  meta_traceparent :: "string option"
  meta_published_at :: timestamp

record 'p delivery =
  dl_id :: uuid
  dl_payload :: 'p
  dl_meta :: "job_meta option"
  dl_retry_count :: nat
  dl_retry_limit :: nat

record 'c consumer_span =
  cs_name :: string
  cs_links :: "'c list"
  cs_attributes :: "(string \<times> string) list"
  cs_exceptions :: "app_error list"
  cs_error :: "string option" \<comment> \<open>the message of an error status\<close>

record job_warning =
  jw_queue :: string
  jw_job_id :: uuid
  jw_attempt :: nat
  jw_retry_limit :: nat
  jw_error :: string
  jw_correlation_id :: string

record ('s, 'c) runner =
  rn_state :: 's
  rn_spans :: "'c consumer_span list" \<comment> \<open>the ended ones\<close>
  rn_warnings :: "job_warning list"

record 'c runner_env =
  re_fresh_id :: string \<comment> \<open>\<open>randomUUID()\<close>\<close>
  re_now :: timestamp
  re_parse_trace_parent :: "string \<Rightarrow> 'c option" \<comment> \<open>of OpenTelemetry\<close>

definition meta_of :: "'c runner_env \<Rightarrow> 'p delivery \<Rightarrow> job_meta" where
  "meta_of env job = (case dl_meta job of
     Some m \<Rightarrow> m
   | None \<Rightarrow> \<lparr>meta_correlation_id = re_fresh_id env, meta_traceparent = None, meta_published_at = re_now env\<rparr>)"

definition parent_contexts :: "'c runner_env \<Rightarrow> job_meta \<Rightarrow> 'c list" where
  "parent_contexts env m = (case meta_traceparent m of
     None \<Rightarrow> []
   | Some t \<Rightarrow> if t = [] then [] else (case re_parse_trace_parent env t of None \<Rightarrow> [] | Some c \<Rightarrow> [c]))"

definition run_job ::
  "'c runner_env \<Rightarrow> string \<Rightarrow> (string \<Rightarrow> 'p \<Rightarrow> 's \<Rightarrow> (app_error + unit) \<times> 's) \<Rightarrow> 'p delivery \<Rightarrow> ('s, 'c) runner \<Rightarrow>
   (app_error + unit) \<times> ('s, 'c) runner" where
  "run_job env queue handle job s =
    (let m = meta_of env job;
         span = \<lparr>cs_name = ''job '' @ queue, cs_links = parent_contexts env m,
           cs_attributes = [(''messaging.destination.name'', queue), (''messaging.message.id'', dl_id job),
             (''app.correlation_id'', meta_correlation_id m)],
           cs_exceptions = [], cs_error = None\<rparr> in
     (case handle (meta_correlation_id m) (dl_payload job) (rn_state s) of
        (Inr _, s1) \<Rightarrow> (Inr (), s\<lparr>rn_state := s1, rn_spans := rn_spans s @ [span]\<rparr>)
      | (Inl e, s1) \<Rightarrow>
          (Inl e, s\<lparr>rn_state := s1,
             rn_spans := rn_spans s @ [span\<lparr>cs_exceptions := [e], cs_error := Some (redact_string (error_message e))\<rparr>],
             rn_warnings := rn_warnings s @ [\<lparr>jw_queue = queue, jw_job_id = dl_id job, jw_attempt = dl_retry_count job + 1,
               jw_retry_limit = dl_retry_limit job, jw_error = error_message e,
               jw_correlation_id = meta_correlation_id m\<rparr>]\<rparr>)))"

text \<open>What pg-boss delivers of a job the program sent, on its \<open>n\<close>-th redelivery.\<close>

definition delivery_of :: "uuid \<Rightarrow> nat \<Rightarrow> nat \<Rightarrow> job \<Rightarrow> order_confirmed_payload delivery" where
  "delivery_of i n limit j = \<lparr>dl_id = i, dl_payload = job_payload j,
     dl_meta = Some \<lparr>meta_correlation_id = job_correlation_id j, meta_traceparent = job_traceparent j,
       meta_published_at = job_published_at j\<rparr>,
     dl_retry_count = n, dl_retry_limit = limit\<rparr>"

subsection \<open>Starting and stopping\<close>

definition GRACEFUL_SHUTDOWN_TIMEOUT_MS :: nat where "GRACEFUL_SHUTDOWN_TIMEOUT_MS = 25000"
definition WORKER_READINESS_FILE_PATH :: string where "WORKER_READINESS_FILE_PATH = ''/tmp/worker-ready''"

datatype boss_call =
  RegisterDlqGauge
| Work string nat \<comment> \<open>the queue and both polling intervals\<close>
| LogWorking string nat
| Schedule string string
| WriteFile string
| UnlinkFile string
| StopGracefully nat

definition start_calls :: "nat \<Rightarrow> string list \<Rightarrow> boss_call list" where
  "start_calls interval handler_queues =
     [RegisterDlqGauge] @ concat (map (\<lambda>q. [Work q interval, LogWorking q interval]) handler_queues) @
     map (\<lambda>(queue, cron). Schedule queue cron) SCHEDULED_JOBS @ [WriteFile WORKER_READINESS_FILE_PATH]"

text \<open>The calls that returned, and whether the last one tried threw.\<close>

fun perform :: "(boss_call \<Rightarrow> bool) \<Rightarrow> boss_call list \<Rightarrow> boss_call list \<times> bool" where
  "perform returns [] = ([], True)"
| "perform returns (c # cs) =
     (if returns c then (case perform returns cs of (done_calls, ok) \<Rightarrow> (c # done_calls, ok)) else ([], False))"

definition start :: "(boss_call \<Rightarrow> bool) \<Rightarrow> nat \<Rightarrow> 's job_handler list \<Rightarrow> boss_call list \<times> bool" where
  "start returns interval handlers = perform returns (start_calls interval (map handler_queue handlers))"

definition on_application_shutdown :: "(boss_call \<Rightarrow> bool) \<Rightarrow> boss_call list \<times> bool" where
  "on_application_shutdown returns =
    (case perform returns [UnlinkFile WORKER_READINESS_FILE_PATH] of (unlinked, _) \<Rightarrow>
      (case perform returns [StopGracefully GRACEFUL_SHUTDOWN_TIMEOUT_MS] of (stopped, ok) \<Rightarrow> (unlinked @ stopped, ok)))"

text \<open>The gauge: one observation per dead letter queue, zero when pg-boss has no row for it.\<close>

definition dlq_observations :: "(string \<Rightarrow> nat list) \<Rightarrow> (string \<times> nat) list" where
  "dlq_observations total_counts = map (\<lambda>(queue, dead_letter).
     (dead_letter, case total_counts dead_letter of [] \<Rightarrow> 0 | n # _ \<Rightarrow> n)) QUEUE_TOPOLOGY"

subsection \<open>Queues, events and workers\<close>

text \<open>A plan whose dead letter queues come before the queues that name them.\<close>

fun planned :: "string list \<Rightarrow> (string \<times> queue_options) list \<Rightarrow> bool" where
  "planned seen [] \<longleftrightarrow> True"
| "planned seen ((q, opts) # plan) \<longleftrightarrow>
     (case qo_dead_letter opts of Some dl \<Rightarrow> dl \<in> set seen | None \<Rightarrow> True) \<and> q \<notin> fst ` set plan \<and> planned (q # seen) plan"

lemma keeps_queuesE:
  assumes "keeps_queues create_queue queues" and "case qo_dead_letter opts of Some dl \<Rightarrow> queues b dl \<noteq> None | None \<Rightarrow> True"
  obtains b' where "create_queue q opts b = Inr b'" "queues b' = [q \<mapsto> opts] ++ queues b"
proof -
  from assms(2) have "\<not> (case qo_dead_letter opts of Some dl \<Rightarrow> queues b dl = None | None \<Rightarrow> False)"
    by (cases "qo_dead_letter opts") simp_all
  with assms(1) obtain b' where b': "create_queue q opts b = Inr b'"
    "queues b' = (if queues b q = None then (queues b)(q \<mapsto> opts) else queues b)"
    unfolding keeps_queues_def by metis
  then have "queues b' = [q \<mapsto> opts] ++ queues b"
    by (auto simp: fun_eq_iff map_add_def split: option.splits)
  with b'(1) that show thesis by blast
qed

lemma foldR_create_queue:
  assumes "keeps_queues create_queue queues" and "planned seen plan" and "set seen \<subseteq> dom (queues b)"
  shows "\<exists>b'. foldR (\<lambda>(q, opts). create_queue q opts) plan b = Inr b' \<and> queues b' = map_of plan ++ queues b"
  using assms(2,3)
proof (induction seen plan arbitrary: b rule: planned.induct)
  case (2 seen q opts plan)
  then have "case qo_dead_letter opts of Some dl \<Rightarrow> queues b dl \<noteq> None | None \<Rightarrow> True"
    by (auto split: option.splits)
  from keeps_queuesE[OF assms(1) this] obtain b1
    where b1: "create_queue q opts b = Inr b1" "queues b1 = [q \<mapsto> opts] ++ queues b" by blast
  have "planned (q # seen) plan" "set (q # seen) \<subseteq> dom (queues b1)"
    using "2.prems" b1(2) by auto
  from "2.IH"[OF this] obtain b2
    where "foldR (\<lambda>(q, opts). create_queue q opts) plan b1 = Inr b2" "queues b2 = map_of plan ++ queues b1" by blast
  moreover have "map_of plan q = None" using "2.prems" by (simp add: map_of_eq_None_iff)
  ultimately show ?case using b1
    by (auto simp: fun_eq_iff map_add_def split: option.splits)
qed simp

lemma dead_letters [simp]:
  "qo_dead_letter dlq_options = None" "qo_dead_letter (event_queue_options dl) = Some dl"
  "qo_dead_letter scheduled_options = None" "qo_retry_limit (event_queue_options dl) = Some 4"
  by (simp_all add: dlq_options_def event_queue_options_def scheduled_options_def no_options_def QUEUE_RETRY_LIMIT_def)

lemma options_differ [simp]: "event_queue_options dl \<noteq> dlq_options" "scheduled_options \<noteq> dlq_options"
  by (simp_all add: dlq_options_def event_queue_options_def scheduled_options_def no_options_def)

lemmas plan_defs = queue_plan_def QUEUE_TOPOLOGY_def SCHEDULED_JOBS_def

lemma queue_plan_planned: "planned [] queue_plan"
  by (simp add: plan_defs)

text \<open>
  C37. The queues the processes create are the ones the program sends to and works on. Setting them up
  succeeds whatever exists, leaves existing queues as they are and can be repeated; every queue an event
  is routed to is planned with four retries (five attempts) and a dead letter queue of its own that is
  planned too; and the worker has exactly one handler for every planned queue that is not a dead letter
  queue.
\<close>

theorem queues_match_routing:
  assumes "keeps_queues create_queue queues"
  shows "(\<exists>b'. setup_queues create_queue b = Inr b' \<and> queues b' = map_of queue_plan ++ queues b \<and>
      (\<exists>b''. setup_queues create_queue b' = Inr b'' \<and> queues b'' = queues b')) \<and>
    (event_routing t = Some qs \<and> q \<in> set qs \<longrightarrow>
      (\<exists>opts dl. map_of queue_plan q = Some opts \<and> qo_retry_limit opts = Some 4 \<and> qo_dead_letter opts = Some dl \<and>
         map_of queue_plan dl = Some dlq_options)) \<and>
    distinct (map handler_queue (worker_handlers senv env get_status)) \<and>
    handler_queue ` set (worker_handlers senv env get_status) =
      fst ` set (filter (\<lambda>(q, opts). opts \<noteq> dlq_options) queue_plan)"
proof (intro conjI impI)
  note runs = foldR_create_queue[OF assms queue_plan_planned, folded setup_queues_def]
  obtain b' where b': "setup_queues create_queue b = Inr b'" "queues b' = map_of queue_plan ++ queues b"
    using runs[of b] by auto
  moreover obtain b'' where "setup_queues create_queue b' = Inr b''" "queues b'' = map_of queue_plan ++ queues b'"
    using runs[of b'] by auto
  moreover have "map_of queue_plan ++ (map_of queue_plan ++ queues b) = map_of queue_plan ++ queues b"
    by (auto simp: fun_eq_iff map_add_def split: option.splits)
  ultimately show "\<exists>b'. setup_queues create_queue b = Inr b' \<and> queues b' = map_of queue_plan ++ queues b \<and>
      (\<exists>b''. setup_queues create_queue b' = Inr b'' \<and> queues b'' = queues b')" by auto
  show "\<exists>opts dl. map_of queue_plan q = Some opts \<and> qo_retry_limit opts = Some 4 \<and> qo_dead_letter opts = Some dl \<and>
      map_of queue_plan dl = Some dlq_options" if "event_routing t = Some qs \<and> q \<in> set qs"
    using that by (auto simp: event_routing_def plan_defs split: if_splits)
  show "distinct (map handler_queue (worker_handlers senv env get_status))"
    by (simp add: worker_handlers_def)
  have "filter (\<lambda>(q, opts). opts \<noteq> dlq_options) queue_plan =
      map (\<lambda>(queue, dead_letter). (queue, event_queue_options dead_letter)) QUEUE_TOPOLOGY @
      map (\<lambda>(queue, cron). (queue, scheduled_options)) SCHEDULED_JOBS"
    by (simp add: plan_defs)
  then show "handler_queue ` set (worker_handlers senv env get_status) =
      fst ` set (filter (\<lambda>(q, opts). opts \<noteq> dlq_options) queue_plan)"
    by (auto simp: worker_handlers_def QUEUE_TOPOLOGY_def SCHEDULED_JOBS_def)
qed

definition sample_shipment_options :: "string \<rightharpoonup> queue_options" where
  "sample_shipment_options = [''shipment.create'' \<mapsto> no_options]"

theorem queues_match_routing_witness:
  "\<exists>b'. setup_queues table_create_queue sample_shipment_options = Inr b' \<and>
     b' ''shipment.create'' = Some no_options \<and> b' ''reservation.reap'' = Some scheduled_options \<and>
     (\<exists>opts. map_of queue_plan ''customer.notify'' = Some opts \<and> qo_retry_limit opts = Some 4)"
proof -
  have route: "event_routing ''order.confirmed'' = Some [''shipment.create'', ''customer.notify'', ''analytics.record'']"
    by (simp add: event_routing_def)
  from conjunct1[OF queues_match_routing[OF table_keeps_queues, of sample_shipment_options]]
  obtain b' where b': "setup_queues table_create_queue sample_shipment_options = Inr b'"
    "b' = map_of queue_plan ++ sample_shipment_options" by auto
  moreover have "\<exists>opts. map_of queue_plan ''customer.notify'' = Some opts \<and> qo_retry_limit opts = Some 4"
    using queues_match_routing[OF table_keeps_queues, of sample_shipment_options "''order.confirmed''"
        "[''shipment.create'', ''customer.notify'', ''analytics.record'']" "''customer.notify''", THEN conjunct2, THEN conjunct1, THEN mp] route by auto
  ultimately show ?thesis by (simp add: sample_shipment_options_def map_add_def plan_defs)
qed

subsection \<open>What a job run does\<close>

text \<open>
  Whatever the job, the handler runs once, its outcome is the job's, one span ends, and a failure leaves
  one warning with the number of the attempt; only the error's redacted text is the span's status.
\<close>

lemma run_job_outcome:
  assumes "run_job env queue handle job s = (r, s')"
  shows "handle (meta_correlation_id (meta_of env job)) (dl_payload job) (rn_state s) = (r, rn_state s')"
    and "\<exists>span. rn_spans s' = rn_spans s @ [span] \<and> cs_name span = ''job '' @ queue \<and>
      (''app.correlation_id'', meta_correlation_id (meta_of env job)) \<in> set (cs_attributes span) \<and>
      cs_error span = (case r of Inr _ \<Rightarrow> None | Inl e \<Rightarrow> Some (redact_string (error_message e)))"
    and "rn_warnings s' = rn_warnings s @ (case r of Inr _ \<Rightarrow> [] | Inl e \<Rightarrow>
      [\<lparr>jw_queue = queue, jw_job_id = dl_id job, jw_attempt = dl_retry_count job + 1, jw_retry_limit = dl_retry_limit job,
        jw_error = error_message e, jw_correlation_id = meta_correlation_id (meta_of env job)\<rparr>])"
  using assms by (auto simp: run_job_def Let_def split: prod.splits sum.splits)

lemma meta_of_delivery [simp]: "meta_correlation_id (meta_of env (delivery_of i n l j)) = job_correlation_id j"
  "dl_payload (delivery_of i n l j) = job_payload j" "dl_retry_count (delivery_of i n l j) = n"
  by (simp_all add: meta_of_def delivery_of_def)

text \<open>
  A job runs in the context of the request that published it. Publishing an event under a correlation
  id queues one job per target, and each of them, whenever and however often it is delivered, calls its
  handler once with the event's payload under that correlation id, gives pg-boss the handler's own outcome
  (so that a failure is retried), leaves one span tagged with the id, and a warning with the attempt number
  and the id exactly when it fails.
\<close>

lemma job_carries_its_request:
  assumes "sends_append (tx_send env)" and "tx_correlation_id env = Some c"
    and "publish env t payload d = Inr d'"
  shows "\<exists>js. jobs d' = jobs d @ js \<and> event_routing t = Some (map job_queue js) \<and>
    (\<forall>j \<in> set js. \<forall>handle i n l (s :: ('s, 'k) runner) r s'. run_job renv (job_queue j) handle (delivery_of i n l j) s = (r, s') \<longrightarrow>
       handle c payload (rn_state s) = (r, rn_state s') \<and>
       (\<exists>span. rn_spans s' = rn_spans s @ [span] \<and> (''app.correlation_id'', c) \<in> set (cs_attributes span)) \<and>
       map (\<lambda>w. (jw_attempt w, jw_correlation_id w)) (rn_warnings s') =
         map (\<lambda>w. (jw_attempt w, jw_correlation_id w)) (rn_warnings s) @
         (case r of Inr _ \<Rightarrow> [] | Inl e \<Rightarrow> [(n + 1, c)]))"
proof -
  from publish_effect[OF assms(1), of t payload d d'] assms(3) have t: "t = ''order.confirmed''" by auto
  from publish_effect[OF assms(1), of t payload d d'] assms(2,3) obtain js where js: "d' = d\<lparr>jobs := jobs d @ js\<rparr>"
    "map job_queue js = [''shipment.create'', ''customer.notify'', ''analytics.record'']"
    "\<forall>j \<in> set js. job_payload j = payload \<and> job_correlation_id j = c" by auto
  show ?thesis
  proof (rule exI[of _ js], intro conjI ballI allI impI)
    show "jobs d' = jobs d @ js" by (simp add: js(1))
    show "event_routing t = Some (map job_queue js)" by (simp add: t js(2) event_routing_def)
    fix j handle i n l and s s' :: "('s, 'k) runner" and r
    assume j: "j \<in> set js" and run: "run_job renv (job_queue j) handle (delivery_of i n l j) s = (r, s')"
    note outcome = run_job_outcome[OF run, simplified meta_of_delivery]
    from js(3) j have c: "job_payload j = payload" "job_correlation_id j = c" by auto
    show "handle c payload (rn_state s) = (r, rn_state s')" using outcome(1) c by simp
    show "\<exists>span. rn_spans s' = rn_spans s @ [span] \<and> (''app.correlation_id'', c) \<in> set (cs_attributes span)"
      using outcome(2) c by auto
    show "map (\<lambda>w. (jw_attempt w, jw_correlation_id w)) (rn_warnings s') =
         map (\<lambda>w. (jw_attempt w, jw_correlation_id w)) (rn_warnings s) @
         (case r of Inr _ \<Rightarrow> [] | Inl e \<Rightarrow> [(n + 1, c)])"
      using outcome(3) c by (simp split: sum.splits)
  qed
qed

definition sample_runner_env :: "unit runner_env" where
  "sample_runner_env = \<lparr>re_fresh_id = ''fresh'', re_now = 0, re_parse_trace_parent = (\<lambda>_. None)\<rparr>"

subsection \<open>Readiness\<close>

text \<open>
  The readiness file is the last thing \<open>start\<close> makes: it exists only if the gauge is registered, every
  handler's queue has its worker and both schedules are in place, and if one of these fails \<open>start\<close> throws.
\<close>

lemma perform_all: "perform returns cs = (cs', ok) \<Longrightarrow> (ok \<longleftrightarrow> cs' = cs) \<and> (ok \<longleftrightarrow> list_all returns cs) \<and> prefix cs' cs"
  by (induction cs arbitrary: cs' ok) (auto split: if_splits prod.splits)

lemma last_of_prefix: "prefix ys (xs @ [x]) \<Longrightarrow> x \<notin> set xs \<Longrightarrow> x \<in> set ys \<longleftrightarrow> ys = xs @ [x]"
  by (auto simp: prefix_snoc dest: set_mono_prefix)

lemma readiness_is_last:
  "WriteFile WORKER_READINESS_FILE_PATH \<in> set (fst (start returns interval handlers)) \<longleftrightarrow>
     list_all returns (start_calls interval (map handler_queue handlers))"
  "snd (start returns interval handlers) \<longleftrightarrow> list_all returns (start_calls interval (map handler_queue handlers))"
proof -
  let ?cs = "start_calls interval (map handler_queue handlers)"
  obtain cs' ok where run: "perform returns ?cs = (cs', ok)" by fastforce
  note all = perform_all[OF run]
  let ?init = "[RegisterDlqGauge] @ concat (map (\<lambda>q. [Work q interval, LogWorking q interval]) (map handler_queue handlers)) @
     map (\<lambda>(queue, cron). Schedule queue cron) SCHEDULED_JOBS"
  have cs: "?cs = ?init @ [WriteFile WORKER_READINESS_FILE_PATH]" by (simp add: start_calls_def)
  have "WriteFile WORKER_READINESS_FILE_PATH \<notin> set ?init" by (auto simp: SCHEDULED_JOBS_def)
  from last_of_prefix[OF _ this, of cs'] all have "WriteFile WORKER_READINESS_FILE_PATH \<in> set cs' \<longleftrightarrow> cs' = ?cs"
    unfolding cs by blast
  moreover have "cs' = ?cs \<longleftrightarrow> list_all returns ?cs" "ok \<longleftrightarrow> list_all returns ?cs" using all by blast+
  ultimately show "WriteFile WORKER_READINESS_FILE_PATH \<in> set (fst (start returns interval handlers)) \<longleftrightarrow>
     list_all returns ?cs" "snd (start returns interval handlers) \<longleftrightarrow> list_all returns ?cs"
    by (simp_all only: start_def run fst_conv snd_conv)
qed

end
