(* ===== verification/Observability.thy ===== *)
theory Observability
  imports Job_Runner
begin

section \<open>Correlation ids, spans and log lines\<close>

text \<open>
  \<^verbatim>\<open>src/infrastructure/observability/correlation.middleware.ts\<close>, \<^verbatim>\<open>redacting-span-exporter.ts\<close> and
  \<^verbatim>\<open>src/infrastructure/logging/pino.config.ts\<close>. Express, OpenTelemetry and pino are not part of the program:
  a definition says what the program hands to them. A span is what the exporter looks at, its attributes
  and its events, with the rest of it kept as it is.
\<close>

subsection \<open>Correlation\<close>

definition CORRELATION_ID_MAX_LENGTH :: nat where "CORRELATION_ID_MAX_LENGTH = 128"

definition correlation_char :: "char \<Rightarrow> bool" where
  "correlation_char c \<longleftrightarrow> (let n = code c in 48 \<le> n \<and> n \<le> 57 \<or> 65 \<le> n \<and> n \<le> 90 \<or> 97 \<le> n \<and> n \<le> 122 \<or> n = 45)"

definition is_valid_correlation_id :: "string \<Rightarrow> bool" where
  "is_valid_correlation_id v \<longleftrightarrow> length v > 0 \<and> length v \<le> CORRELATION_ID_MAX_LENGTH \<and> list_all correlation_char v"

record correlated =
  co_response_header :: string
  co_span_attribute :: "(string \<times> string) option"
  co_context :: string \<comment> \<open>what \<open>getCorrelationId\<close> returns during the request\<close>

definition correlation_use :: "string option \<Rightarrow> string \<Rightarrow> bool \<Rightarrow> correlated" where
  "correlation_use inbound fresh active_span =
    (let i = (case inbound of Some v \<Rightarrow> if v \<noteq> [] \<and> is_valid_correlation_id v then v else fresh | None \<Rightarrow> fresh)
     in \<lparr>co_response_header = i, co_span_attribute = (if active_span then Some (''app.correlation_id'', i) else None),
         co_context = i\<rparr>)"

text \<open>A request's id can be put into a header and a log line: it cannot carry a line break or a quote.\<close>

lemma correlation_id_safe:
  assumes "is_valid_correlation_id fresh"
  shows "is_valid_correlation_id (co_context (correlation_use inbound fresh active_span))"
    and "co_response_header (correlation_use inbound fresh active_span) = co_context (correlation_use inbound fresh active_span)"
    and "inbound = Some v \<Longrightarrow> is_valid_correlation_id v \<Longrightarrow> co_context (correlation_use inbound fresh active_span) = v"
  using assms by (auto simp: correlation_use_def Let_def is_valid_correlation_id_def split: option.splits)

subsection \<open>Exported spans\<close>

record span_event =
  ev_name :: string
  ev_attributes :: "(string \<times> json) list option"

record 'x readable_span =
  rs_attributes :: "(string \<times> json) list"
  rs_events :: "span_event list"
  rs_rest :: 'x

definition redact_attributes :: "(string \<times> json) list \<Rightarrow> (string \<times> json) list" where
  "redact_attributes kvs = (case redact (JObj kvs) of JObj r \<Rightarrow> r | _ \<Rightarrow> [])"

definition redact_event :: "span_event \<Rightarrow> span_event" where
  "redact_event e = (case ev_attributes e of None \<Rightarrow> e | Some kvs \<Rightarrow> e\<lparr>ev_attributes := Some (redact_attributes kvs)\<rparr>)"

definition redact_span :: "'x readable_span \<Rightarrow> 'x readable_span" where
  "redact_span s = s\<lparr>rs_attributes := redact_attributes (rs_attributes s), rs_events := map redact_event (rs_events s)\<rparr>"

definition export :: "('x readable_span list \<Rightarrow> 'r) \<Rightarrow> 'x readable_span list \<Rightarrow> 'r" where
  "export inner spans = inner (map redact_span spans)"

subsection \<open>Log lines\<close>

text \<open>An argument of a logging call: a JSON value, or an \<open>Error\<close> with its own fields.\<close>

datatype log_arg =
  ArgValue json
| ArgError string string "string option" "(string \<times> json) list"

fun redact_arg :: "log_arg \<Rightarrow> json" where
  "redact_arg (ArgValue v) = redact v"
| "redact_arg (ArgError name message stack own) = JObj (redact_error name message stack own)"

fun is_merge_object :: "log_arg \<Rightarrow> bool" where
  "is_merge_object (ArgValue (JObj _)) = True"
| "is_merge_object (ArgValue (JArr _)) = True"
| "is_merge_object _ = False"

text \<open>\<open>hooks.logMethod\<close>: the values pino's own method is called with.\<close>

fun log_arg_value :: "log_arg \<Rightarrow> json" where
  "log_arg_value (ArgValue v) = v"
| "log_arg_value (ArgError name message stack own) = JObj []"

fun log_method :: "log_arg list \<Rightarrow> json list" where
  "log_method [] = []"
| "log_method (a # rest) = (if is_merge_object a then log_arg_value a else redact_arg a) # map redact_arg rest"

definition formatters_log :: "json \<Rightarrow> json" where
  "formatters_log = redact"

definition mixin :: "string option \<Rightarrow> (string \<times> json) list" where
  "mixin correlation = (case correlation of None \<Rightarrow> [] | Some c \<Rightarrow> if c = [] then [] else [(''correlationId'', JStr c)])"

text \<open>
  pino merges the mixin into an object in first place, in its own way, and formats the result; the other
  arguments are printed as they are.
\<close>

fun is_object :: "json \<Rightarrow> bool" where
  "is_object (JObj _) = True"
| "is_object (JArr _) = True"
| "is_object _ = False"

definition log_line :: "((string \<times> json) list \<Rightarrow> json \<Rightarrow> json) \<Rightarrow> string option \<Rightarrow> log_arg list \<Rightarrow> json list" where
  "log_line merge correlation args = (case log_method args of
       [] \<Rightarrow> [formatters_log (JObj (mixin correlation))]
     | v # rest \<Rightarrow>
         if is_object v then formatters_log (merge (mixin correlation) v) # rest
         else formatters_log (JObj (mixin correlation)) # v # rest)"

fun is_error :: "log_arg \<Rightarrow> bool" where
  "is_error (ArgError _ _ _ _) = True"
| "is_error _ = False"

lemma redact_arg_hidden: "\<not> is_error a \<Longrightarrow> fields_hidden (redact_arg a)"
  by (cases a) (simp_all add: redact_hidden)

lemma merge_object_is_object: "is_merge_object a \<Longrightarrow> is_object (log_arg_value a)"
  by (cases a rule: is_merge_object.cases) simp_all



text \<open>
  The comment in \<open>hooks\<close> says a second redaction corrupts a value, which is why an object in first place
  is left to the formatter; an \<open>Error\<close> in first place is redacted twice, and what is left of a
  card number then no longer shows that it was masked.
\<close>

lemma error_redacted_twice:
  "log_line (\<lambda>m v. v) None [ArgError ''Error'' ''boom'' None [(''card'', JObj [(''cardNumber'', JStr ''4242424242424242'')])]] =
     [JObj [(''name'', JStr ''Error''), (''message'', JStr ''boom''), (''card'', JObj [(''cardNumber'', JStr ''4242'')])]]"
  by code_simp

end
