(* ===== verification/Concurrency_Check.thy ===== *)
theory Concurrency_Check
  imports Seed Config
begin

section \<open>The concurrency check\<close>

text \<open>
  \<^verbatim>\<open>src/scripts/concurrency-check.ts\<close>: more attempts than there is stock race for one product through
  \<open>reserve\<close> and \<open>commit\<close> of \<open>Inventory\<close>. Every statement and every transaction of the script is a step;
  the order in which PostgreSQL lets the transactions of the attempts through, the clock of each and
  whether it times out on the row lock are the schedule, a list of turns. The environment holds the
  generated ids and numbers. The connection pool, its URL, the printed report and the protocol's limit of
  65535 parameters in a statement (21845 attempts of three each) are not modelled.
\<close>

subsection \<open>Arguments and fixtures\<close>

definition DEFAULT_N :: int where
  "DEFAULT_N = 5"

definition EXTRA_LOSING_ATTEMPTS :: nat where
  "EXTRA_LOSING_ATTEMPTS = 20"

definition HARNESS_CUSTOMER_ID :: uuid where
  "HARNESS_CUSTOMER_ID = ''d0000000-0000-0000-0000-000000000001''"

definition HARNESS_WAREHOUSE_ID :: uuid where
  "HARNESS_WAREHOUSE_ID = ''d0000000-0000-0000-0000-000000000002''"

definition HARNESS_PRODUCT_ID :: uuid where
  "HARNESS_PRODUCT_ID = ''d0000000-0000-0000-0000-000000000003''"

definition parse_n :: "string option \<Rightarrow> app_error + int" where
  "parse_n arg =
    (case arg of None \<Rightarrow> Inr DEFAULT_N
     | Some s \<Rightarrow>
         (let n = js_number s in
          if \<not> is_integer n \<or> js_to_int n \<le> 0
          then Inl (JsError (''N must be a positive integer, got \"'' @ s @ ''\"''))
          else Inr (js_to_int n)))"

definition harness_customer :: "timestamp \<Rightarrow> customer_row" where
  "harness_customer now = \<lparr>cust_id = HARNESS_CUSTOMER_ID, cust_email = ''concurrency-check@example.com'',
     cust_full_name = ''Concurrency Check Customer'', cust_phone = None, cust_created_at = now, cust_updated_at = now,
     cust_deleted_at = None\<rparr>"

definition harness_warehouse :: "timestamp \<Rightarrow> warehouse_row" where
  "harness_warehouse now = \<lparr>wh_id = HARNESS_WAREHOUSE_ID, wh_name = ''Concurrency Check WH'', wh_address = JObj [],
     wh_location = \<lparr>latitude = double_of 40.7128, longitude = double_of (- 74.006)\<rparr>, wh_is_active = True,
     wh_created_at = now, wh_updated_at = now, wh_deleted_at = None\<rparr>"

definition harness_product :: "timestamp \<Rightarrow> product_row" where
  "harness_product now = \<lparr>prod_id = HARNESS_PRODUCT_ID, prod_sku = ''CONCURRENCY-CHECK-SKU'',
     prod_name = ''Concurrency Check Product'', prod_description = None, prod_condition = COND_NEW,
     prod_unit_price_cents = 1000, prod_is_active = True, prod_created_at = now, prod_updated_at = now,
     prod_deleted_at = None\<rparr>"

text \<open>The one place that deletes from the ledger.\<close>

definition delete_movements :: "uuid \<Rightarrow> uuid \<Rightarrow> db \<Rightarrow> app_error + db" where
  "delete_movements w p d =
     Inr (d\<lparr>movements := filter (\<lambda>m. \<not> (mv_warehouse m = w \<and> mv_product m = p)) (movements d)\<rparr>)"

text \<open>\<open>INSERT .. ON CONFLICT (warehouse_id, product_id) DO UPDATE\<close>, which leaves the version alone.\<close>

definition upsert_inventory :: "uuid \<Rightarrow> uuid \<Rightarrow> int \<Rightarrow> db \<Rightarrow> app_error + db" where
  "upsert_inventory w p n d =
    (let row = \<lparr>inv_warehouse = w, inv_product = p, qty_available = n, qty_reserved = 0, inv_version = 0\<rparr> in
     if in_int4 n \<and> 0 \<le> n \<and> (w, p) \<in> inv_key ` set (inventory d)
     then Inr (d\<lparr>inventory := update_rows (\<lambda>r. inv_key r = (w, p))
       (\<lambda>r. r\<lparr>qty_available := n, qty_reserved := 0\<rparr>) (inventory d)\<rparr>)
     else insert_inventory row d)"

text \<open>The five statements that reset a fixture, from the rows they would insert.\<close>

definition reset_rows :: "customer_row \<Rightarrow> warehouse_row \<Rightarrow> product_row \<Rightarrow> int \<Rightarrow> db \<Rightarrow> app_error + db" where
  "reset_rows c w p n = foldR (\<lambda>statement. statement)
     [insert_customer c, insert_warehouse w, insert_product p, delete_movements (wh_id w) (prod_id p),
      upsert_inventory (wh_id w) (prod_id p) n]"

definition reset_fixtures :: "timestamp \<Rightarrow> int \<Rightarrow> db \<Rightarrow> app_error + db" where
  "reset_fixtures now n = reset_rows (harness_customer now) (harness_warehouse now) (harness_product now) n"

record turn =
  turn_attempt :: nat
  turn_now :: timestamp
  turn_contended :: bool

record harness_env =
  hr_order_id :: "nat \<Rightarrow> uuid" \<comment> \<open>\<open>randomUUID()\<close>\<close>
  hr_number :: "nat \<Rightarrow> nat" \<comment> \<open>\<open>Math.floor(Math.random() * 1_000_000_000)\<close>\<close>
  hr_now :: timestamp
  hr_schedule :: "turn list"

definition harness_order :: "harness_env \<Rightarrow> nat \<Rightarrow> order_row" where
  "harness_order env i = \<lparr>row_id = hr_order_id env i, row_number = ''CNL-CC-'' @ show_nat (hr_number env i),
     row_customer = HARNESS_CUSTOMER_ID, row_warehouse = None, row_status = PENDING_PAYMENT, row_currency = ''USD'',
     row_total_cents = 1000,
     row_address = \<lparr>recipient = None, line1 = Some ''1 Test Way'', line2 = None, city = Some ''Test City'', state = None,
       postal_code = None, country = Some ''US''\<rparr>,
     row_location = (double_of (- 74.006), double_of 40.7128), row_reservation_expires_at = None,
     row_confirmed_at = None, row_cancelled_at = None, row_cancellation_reason = None,
     row_created_at = hr_now env, row_updated_at = hr_now env\<rparr>"

text \<open>One statement with a row per attempt.\<close>

definition insert_orders :: "harness_env \<Rightarrow> nat \<Rightarrow> db \<Rightarrow> app_error + db" where
  "insert_orders env total_attempts = foldR insert_order (map (harness_order env) [0..<total_attempts])"

subsection \<open>The attempts\<close>

datatype phase = Waiting | Reserved | Ended bool | Raised app_error

definition reserve_turn :: "timestamp \<Rightarrow> bool \<Rightarrow> uuid \<Rightarrow> db \<Rightarrow> phase \<times> db" where
  "reserve_turn now contended oid d =
    (case reserve now contended \<lparr>rc_order = oid, rc_warehouse = HARNESS_WAREHOUSE_ID,
         rc_lines = [\<lparr>line_product = HARNESS_PRODUCT_ID, line_quantity = 1\<rparr>]\<rparr> d of
       Inr d' \<Rightarrow> (Reserved, d')
     | Inl (InsufficientStockError _) \<Rightarrow> (Ended False, d)
     | Inl e \<Rightarrow> (Raised e, d))"

definition commit_turn :: "bool \<Rightarrow> uuid \<Rightarrow> db \<Rightarrow> phase \<times> db" where
  "commit_turn contended oid d =
    (case commit contended \<lparr>lc_order = oid, lc_warehouse = HARNESS_WAREHOUSE_ID, lc_products = [HARNESS_PRODUCT_ID]\<rparr> d of
       Inr d' \<Rightarrow> (Ended True, d')
     | Inl e \<Rightarrow> (Raised e, d))"

fun run_attempt :: "timestamp \<Rightarrow> bool \<Rightarrow> uuid \<Rightarrow> phase \<Rightarrow> db \<Rightarrow> phase \<times> db" where
  "run_attempt now contended oid Waiting d = reserve_turn now contended oid d"
| "run_attempt now contended oid Reserved d = commit_turn contended oid d"
| "run_attempt now contended oid ph d = (ph, d)"

text \<open>\<open>Promise.all\<close> is rejected with the first error raised.\<close>

record gate =
  gt_db :: db
  gt_phases :: "phase list"
  gt_rejection :: "app_error option"

definition take_turn :: "harness_env \<Rightarrow> turn \<Rightarrow> gate \<Rightarrow> gate" where
  "take_turn env t g =
    (let i = turn_attempt t in
     if length (gt_phases g) \<le> i then g
     else case run_attempt (turn_now t) (turn_contended t) (hr_order_id env i) (gt_phases g ! i) (gt_db g) of
       (ph, d) \<Rightarrow> \<lparr>gt_db = d, gt_phases = (gt_phases g)[i := ph],
         gt_rejection = (case (gt_rejection g, ph) of (None, Raised e) \<Rightarrow> Some e | (r, _) \<Rightarrow> r)\<rparr>)"

definition open_gate :: "nat \<Rightarrow> db \<Rightarrow> gate" where
  "open_gate total_attempts d = \<lparr>gt_db = d, gt_phases = replicate total_attempts Waiting, gt_rejection = None\<rparr>"

definition race :: "harness_env \<Rightarrow> int \<Rightarrow> db \<Rightarrow> app_error + gate" where
  "race env n d =
    (let total_attempts = nat n + EXTRA_LOSING_ATTEMPTS in
     bindR (reset_fixtures (hr_now env) n d) (\<lambda>d1.
     bindR (insert_orders env total_attempts d1) (\<lambda>d2.
     Inr (fold (take_turn env) (hr_schedule env) (open_gate total_attempts d2)))))"

subsection \<open>The verdict\<close>

definition succeeded :: "phase \<Rightarrow> bool option" where
  "succeeded ph = (case ph of Ended b \<Rightarrow> Some b | _ \<Rightarrow> None)"

definition successes :: "phase list \<Rightarrow> nat" where
  "successes phases = length (filter (\<lambda>ph. succeeded ph = Some True) phases)"

definition check_problems :: "int \<Rightarrow> nat \<Rightarrow> nat \<Rightarrow> int \<times> int \<Rightarrow> ledger_mismatch list \<Rightarrow> string list" where
  "check_problems n won lost balances discrepancies =
     (if int won \<noteq> n then [''expected '' @ show_int n @ '' successes, got '' @ show_nat won] else []) @
     (if lost \<noteq> EXTRA_LOSING_ATTEMPTS
      then [''expected '' @ show_nat EXTRA_LOSING_ATTEMPTS @ '' failures, got '' @ show_nat lost] else []) @
     (if fst balances \<noteq> 0 then [''expected quantity_available = 0, got '' @ show_int (fst balances)] else []) @
     (if snd balances \<noteq> 0 then [''expected quantity_reserved = 0, got '' @ show_int (snd balances)] else []) @
     (if discrepancies \<noteq> []
      then [''expected verify-ledger.sql to return zero rows, got '' @ show_nat (length discrepancies)] else [])"

text \<open>\<open>None\<close>: some attempt has not returned within the schedule.\<close>

definition concurrency_check :: "harness_env \<Rightarrow> string option \<Rightarrow> db \<Rightarrow> (app_error + string list) option" where
  "concurrency_check env arg d =
    (case parse_n arg of Inl e \<Rightarrow> Some (Inl e)
     | Inr n \<Rightarrow> (case race env n d of Inl e \<Rightarrow> Some (Inl e)
       | Inr g \<Rightarrow> (case gt_rejection g of Some e \<Rightarrow> Some (Inl e)
         | None \<Rightarrow>
             if list_all (\<lambda>ph. succeeded ph \<noteq> None) (gt_phases g)
             then (case find_inventory (gt_db g) HARNESS_WAREHOUSE_ID HARNESS_PRODUCT_ID of
                 None \<Rightarrow> Some (Inl (JsError ''Cannot read properties of undefined''))
               | Some row \<Rightarrow>
                   (let won = successes (gt_phases g) in
                    Some (Inr (check_problems n won (length (gt_phases g) - won)
                      (qty_available row, qty_reserved row) (verify_ledger (gt_db g))))))
             else None)))"

definition exit_code :: "app_error + string list \<Rightarrow> nat" where
  "exit_code verdict = (case verdict of Inl _ \<Rightarrow> 1 | Inr problems \<Rightarrow> if problems \<noteq> [] then 1 else 0)"

subsection \<open>Resetting\<close>

text \<open>
  A fixture can be reset: stock keys are unique, the ledger agrees with the balances, and its e-mail and
  SKU are its own. Afterwards its rows are there.
\<close>

definition fixture_ready :: "uuid \<Rightarrow> string \<Rightarrow> uuid \<Rightarrow> string \<Rightarrow> db \<Rightarrow> bool" where
  "fixture_ready c email p sku d \<longleftrightarrow> inventory_keys_distinct d \<and> ledger_ok d \<and>
     (c \<in> cust_id ` set (customers d) \<or> email \<notin> cust_email ` set (customers d)) \<and>
     (p \<in> prod_id ` set (products d) \<or> sku \<notin> prod_sku ` set (products d))"

definition rows_present :: "uuid \<Rightarrow> uuid \<Rightarrow> uuid \<Rightarrow> db \<Rightarrow> bool" where
  "rows_present c w p d \<longleftrightarrow> c \<in> cust_id ` set (customers d) \<and> w \<in> wh_id ` set (warehouses d) \<and>
     p \<in> prod_id ` set (products d)"

definition harness_ready :: "db \<Rightarrow> bool" where
  "harness_ready = fixture_ready HARNESS_CUSTOMER_ID ''concurrency-check@example.com'' HARNESS_PRODUCT_ID
     ''CONCURRENCY-CHECK-SKU''"

definition fixtures_present :: "db \<Rightarrow> bool" where
  "fixtures_present = rows_present HARNESS_CUSTOMER_ID HARNESS_WAREHOUSE_ID HARNESS_PRODUCT_ID"

lemma upsert_inventory_ok:
  assumes "in_int4 n" and "0 \<le> n" and "w \<in> wh_id ` set (warehouses d)" and "p \<in> prod_id ` set (products d)"
    and "inventory_keys_distinct d"
  obtains iv where "upsert_inventory w p n d = Inr (d\<lparr>inventory := iv\<rparr>)"
    and "inventory_keys_distinct (d\<lparr>inventory := iv\<rparr>)"
    and "\<And>w' p'. stock (d\<lparr>inventory := iv\<rparr>) w' p' = (if w' = w \<and> p' = p then Some (n, 0) else stock d w' p')"
proof (cases "(w, p) \<in> inv_key ` set (inventory d)")
  case True
  let ?f = "\<lambda>r. r\<lparr>qty_available := n, qty_reserved := 0\<rparr>"
  let ?iv = "update_rows (\<lambda>r. inv_key r = (w, p)) ?f (inventory d)"
  have key: "inv_key (?f r) = inv_key r" for r by (simp add: inv_key_def)
  have "upsert_inventory w p n d = Inr (d\<lparr>inventory := ?iv\<rparr>)"
    using assms(1,2) True by (simp add: upsert_inventory_def Let_def)
  moreover have "inventory_keys_distinct (d\<lparr>inventory := ?iv\<rparr>)"
    using assms(5) by (simp add: inventory_keys_distinct_def map_update_rows key)
  moreover have "stock (d\<lparr>inventory := ?iv\<rparr>) w' p' = (if w' = w \<and> p' = p then Some (n, 0) else stock d w' p')" for w' p'
  proof (cases "w' = w \<and> p' = p")
    case True
    from \<open>(w, p) \<in> _\<close> obtain r where "find_inventory d w p = Some r"
      using stock_keys[of d w p] by (auto simp: stock_def)
    with True show ?thesis
      by (simp add: stock_def find_inventory_def find_update_rows_same key)
  next
    case False
    then have "(w, p) \<noteq> (w', p')" by auto
    from find_update_rows_other[of inv_key ?f, OF key this] False show ?thesis
      by (auto simp: stock_def find_inventory_def)
  qed
  ultimately show ?thesis by (rule that)
next
  case False
  let ?row = "\<lparr>inv_warehouse = w, inv_product = p, qty_available = n, qty_reserved = 0, inv_version = 0\<rparr>"
  have key: "inv_key ?row = (w, p)" by (simp add: inv_key_def)
  have "in_int4 0" by (simp add: in_int4_def)
  with assms(1-4) False have "upsert_inventory w p n d = Inr (d\<lparr>inventory := inventory d @ [?row]\<rparr>)"
    by (simp add: upsert_inventory_def insert_inventory_def key Let_def)
  moreover have "inventory_keys_distinct (d\<lparr>inventory := inventory d @ [?row]\<rparr>)"
    using assms(5) False by (simp add: inventory_keys_distinct_def key)
  moreover have "stock (d\<lparr>inventory := inventory d @ [?row]\<rparr>) w' p' =
      (if w' = w \<and> p' = p then Some (n, 0) else stock d w' p')" for w' p'
  proof -
    have "find_inventory d w p = None" using False stock_keys[of d w p] by (simp add: stock_def)
    then show ?thesis
      by (auto simp: stock_def find_inventory_def find_append key split: option.splits)
  qed
  ultimately show ?thesis by (rule that)
qed

lemma ledger_ok_forget:
  assumes "ledger_ok d" and "\<And>w' p'. (w', p') \<noteq> (w, p) \<Longrightarrow> stock d' w' p' = stock d w' p'"
    and "movements d' = filter (\<lambda>m. \<not> (mv_warehouse m = w \<and> mv_product m = p)) (movements d)"
  shows "ledger_ok d'"
proof -
  have latest: "latest_of d' w' p' = (if (w', p') = (w, p) then None else latest_of d w' p')" for w' p'
  proof -
    have "find (\<lambda>m. mv_key m = (w', p')) (filter (\<lambda>m. \<not> (mv_warehouse m = w \<and> mv_product m = p)) ms) =
        (if (w', p') = (w, p) then None else find (\<lambda>m. mv_key m = (w', p')) ms)" for ms
      by (induction ms) (auto simp: mv_key_def)
    then show ?thesis by (simp add: latest_of_def assms(3))
  qed
  show ?thesis
    unfolding ledger_ok_def
  proof (intro allI impI)
    fix w' p' m assume m: "latest_of d' w' p' = Some m"
    with latest[of w' p'] have other: "(w', p') \<noteq> (w, p)" "latest_of d w' p' = Some m" by (auto split: if_splits)
    with assms(1) show "stock d' w' p' = None \<or> stock d' w' p' = Some (mv_available_after m, mv_reserved_after m)"
      by (simp add: ledger_ok_def assms(2)[OF other(1)])
  qed
qed

text \<open>An insertion that nothing conflicts with makes its row present.\<close>

lemma insert_customer_present:
  assumes "cust_id r \<in> cust_id ` set (customers d) \<or> cust_email r \<notin> cust_email ` set (customers d)"
  shows "\<exists>cs. insert_customer r d = Inr (d\<lparr>customers := cs\<rparr>) \<and> cust_id r \<in> cust_id ` set cs"
proof (cases "cust_id r \<in> cust_id ` set (customers d)")
  case True
  then show ?thesis by (intro exI[of _ "customers d"]) (simp add: insert_customer_def)
next
  case False
  with assms show ?thesis by (intro exI[of _ "customers d @ [r]"]) (simp add: insert_customer_def)
qed

lemma insert_warehouse_present:
  "\<exists>ws. insert_warehouse r d = Inr (d\<lparr>warehouses := ws\<rparr>) \<and> wh_id r \<in> wh_id ` set ws"
proof (cases "wh_id r \<in> wh_id ` set (warehouses d)")
  case True
  then show ?thesis by (intro exI[of _ "warehouses d"]) (simp add: insert_warehouse_def)
next
  case False
  then show ?thesis by (intro exI[of _ "warehouses d @ [r]"]) (simp add: insert_warehouse_def)
qed

lemma insert_product_present:
  assumes "in_int8 (prod_unit_price_cents r)"
    and "prod_id r \<in> prod_id ` set (products d) \<or> prod_sku r \<notin> prod_sku ` set (products d)"
  shows "\<exists>ps. insert_product r d = Inr (d\<lparr>products := ps\<rparr>) \<and> prod_id r \<in> prod_id ` set ps"
proof (cases "prod_id r \<in> prod_id ` set (products d)")
  case True
  with assms(1) show ?thesis by (intro exI[of _ "products d"]) (simp add: insert_product_def)
next
  case False
  with assms show ?thesis by (intro exI[of _ "products d @ [r]"]) (simp add: insert_product_def)
qed

lemma harness_rows [simp]:
  "cust_id (harness_customer now) = HARNESS_CUSTOMER_ID"
  "cust_email (harness_customer now) = ''concurrency-check@example.com''"
  "wh_id (harness_warehouse now) = HARNESS_WAREHOUSE_ID" "prod_id (harness_product now) = HARNESS_PRODUCT_ID"
  "prod_sku (harness_product now) = ''CONCURRENCY-CHECK-SKU''" "in_int8 (prod_unit_price_cents (harness_product now))"
  by (simp_all add: harness_customer_def harness_warehouse_def harness_product_def in_int8_def)

lemma reset_rows_ok:
  assumes ready: "fixture_ready (cust_id c) (cust_email c) (prod_id p) (prod_sku p) d"
    and n: "in_int4 n" "0 \<le> n" and price: "in_int8 (prod_unit_price_cents p)"
  obtains d' where "reset_rows c w p n d = Inr d'"
    and "fixture_ready (cust_id c) (cust_email c) (prod_id p) (prod_sku p) d'"
    and "rows_present (cust_id c) (wh_id w) (prod_id p) d'" and "stock d' (wh_id w) (prod_id p) = Some (n, 0)"
    and "orders d' = orders d" and "set (movements d') \<subseteq> set (movements d)"
proof -
  let ?w = "wh_id w" and ?p = "prod_id p"
  obtain cs where cs: "insert_customer c d = Inr (d\<lparr>customers := cs\<rparr>)" "cust_id c \<in> cust_id ` set cs"
    using insert_customer_present[of c d] ready by (auto simp: fixture_ready_def)
  let ?d1 = "d\<lparr>customers := cs\<rparr>"
  obtain ws where ws: "insert_warehouse w ?d1 = Inr (?d1\<lparr>warehouses := ws\<rparr>)" "?w \<in> wh_id ` set ws"
    using insert_warehouse_present[of w ?d1] by auto
  let ?d2 = "?d1\<lparr>warehouses := ws\<rparr>"
  obtain ps where ps: "insert_product p ?d2 = Inr (?d2\<lparr>products := ps\<rparr>)" "?p \<in> prod_id ` set ps"
    using insert_product_present[OF price, of ?d2] ready by (auto simp: fixture_ready_def)
  let ?d3 = "?d2\<lparr>products := ps\<rparr>"
  let ?ms = "filter (\<lambda>m. \<not> (mv_warehouse m = ?w \<and> mv_product m = ?p)) (movements d)"
  let ?d4 = "?d3\<lparr>movements := ?ms\<rparr>"
  have del: "delete_movements ?w ?p ?d3 = Inr ?d4" by (simp add: delete_movements_def)
  have present: "?w \<in> wh_id ` set (warehouses ?d4)" "?p \<in> prod_id ` set (products ?d4)"
    using ws(2) ps(2) by simp_all
  have keys: "inventory_keys_distinct ?d4" using ready by (simp add: fixture_ready_def inventory_keys_distinct_def)
  from upsert_inventory_ok[OF n present keys] obtain iv where
    up: "upsert_inventory ?w ?p n ?d4 = Inr (?d4\<lparr>inventory := iv\<rparr>)"
    and k: "inventory_keys_distinct (?d4\<lparr>inventory := iv\<rparr>)"
    and st: "\<And>w' p'. stock (?d4\<lparr>inventory := iv\<rparr>) w' p' = (if w' = ?w \<and> p' = ?p then Some (n, 0) else stock ?d4 w' p')"
    by blast
  have same: "stock ?d4 = stock d" by (simp add: fun_eq_iff stock_def find_inventory_def)
  have led: "ledger_ok (?d4\<lparr>inventory := iv\<rparr>)"
  proof (rule ledger_ok_forget)
    show "ledger_ok d" using ready by (simp add: fixture_ready_def)
    show "stock (?d4\<lparr>inventory := iv\<rparr>) w' p' = stock d w' p'" if "(w', p') \<noteq> (?w, ?p)" for w' p'
      using that by (auto simp only: st same prod.inject split: if_splits)
  qed simp
  show thesis
  proof (rule that)
    show "reset_rows c w p n d = Inr (?d4\<lparr>inventory := iv\<rparr>)"
      by (simp only: reset_rows_def foldR.simps bindR_def sum.case cs(1) ws(1) ps(1) del up)
    show "fixture_ready (cust_id c) (cust_email c) ?p (prod_sku p) (?d4\<lparr>inventory := iv\<rparr>)"
      using k led cs(2) ps(2) by (simp add: fixture_ready_def)
    show "rows_present (cust_id c) ?w ?p (?d4\<lparr>inventory := iv\<rparr>)" using cs(2) ws(2) ps(2) by (simp add: rows_present_def)
    show "stock (?d4\<lparr>inventory := iv\<rparr>) ?w ?p = Some (n, 0)" by (simp only: st) simp
  qed auto
qed

lemma reset_ok:
  assumes "harness_ready d" and "in_int4 n" and "0 \<le> n"
  obtains d' where "reset_fixtures now n d = Inr d'" and "harness_ready d'" and "fixtures_present d'"
    and "stock d' HARNESS_WAREHOUSE_ID HARNESS_PRODUCT_ID = Some (n, 0)"
    and "orders d' = orders d" and "set (movements d') \<subseteq> set (movements d)"
proof -
  have "fixture_ready (cust_id (harness_customer now)) (cust_email (harness_customer now)) (prod_id (harness_product now))
      (prod_sku (harness_product now)) d" using assms(1) by (simp add: harness_ready_def)
  from reset_rows_ok[OF this assms(2,3), of "harness_warehouse now"] that show thesis
    by (auto simp: reset_fixtures_def harness_ready_def fixtures_present_def)
qed

text \<open>The generated ids and numbers are new, and different from each other.\<close>

definition fresh_orders :: "harness_env \<Rightarrow> nat \<Rightarrow> db \<Rightarrow> bool" where
  "fresh_orders env total_attempts d \<longleftrightarrow>
     distinct (map (hr_order_id env) [0..<total_attempts]) \<and> distinct (map (hr_number env) [0..<total_attempts]) \<and>
     (\<forall>i < total_attempts. \<not> order_exists d (hr_order_id env i) \<and>
        ''CNL-CC-'' @ show_nat (hr_number env i) \<notin> row_number ` set (orders d) \<and>
        (\<forall>m \<in> set (movements d). mv_order m \<noteq> Some (hr_order_id env i)))"

lemma insert_orders_ok:
  assumes "fresh_orders env k d" and "HARNESS_CUSTOMER_ID \<in> cust_id ` set (customers d)"
  shows "insert_orders env k d = Inr (d\<lparr>orders := orders d @ map (harness_order env) [0..<k]\<rparr>)"
  using assms(1)
proof (induction k)
  case (Suc k)
  let ?d = "d\<lparr>orders := orders d @ map (harness_order env) [0..<k]\<rparr>" and ?r = "harness_order env k"
  from Suc.prems have new: "\<not> order_exists d (hr_order_id env k)"
    "''CNL-CC-'' @ show_nat (hr_number env k) \<notin> row_number ` set (orders d)"
    "\<forall>i < k. hr_order_id env i \<noteq> hr_order_id env k" "\<forall>i < k. hr_number env i \<noteq> hr_number env k"
    by (auto simp: fresh_orders_def image_iff) (metis atLeastLessThan_iff le0)+
  have absent: "\<not> order_exists ?d (row_id ?r)" "row_number ?r \<notin> row_number ` set (orders ?d)"
    using new by (fastforce simp: order_exists_def harness_order_def)+
  have fk: "orders_fk_ok ?d ?r" "in_int8 (row_total_cents ?r)"
    using assms(2) by (simp_all add: orders_fk_ok_def harness_order_def in_int8_def)
  from absent(2) have "\<not> (\<exists>x \<in> set (orders ?d). row_id x \<noteq> row_id ?r \<and> row_number x = row_number ?r)"
    by (metis imageI)
  with absent(1) fk have "insert_order ?r ?d = Inr (?d\<lparr>orders := orders ?d @ [?r]\<rparr>)"
    by (simp add: insert_order_def save_order_def)
  moreover have "fresh_orders env k d" using Suc.prems by (simp add: fresh_orders_def)
  ultimately show ?case
    using Suc.IH by (simp add: insert_orders_def foldR_append)
qed (simp add: insert_orders_def)

subsection \<open>One turn\<close>

lemma harness_ready_frame:
  assumes "harness_ready d" and "inventory_keys_distinct d'" and "ledger_ok d'"
    and "customers d' = customers d" and "products d' = products d"
  shows "harness_ready d'"
  using assms by (simp add: harness_ready_def fixture_ready_def)

lemma set_reservation_ledger: "set_reservation w t oid d = Inr d' \<Longrightarrow> ledger_ok d' \<longleftrightarrow> ledger_ok d"
  by (auto simp: set_reservation_def split: if_splits)

lemma reserve_ledger:
  assumes "reserve now contended c d = Inr d'" and "inventory_keys_distinct d" and "ledger_ok d"
  shows "ledger_ok d'"
  using reserve_Inr(3)[OF assms(1,2)] assms(3) ledger_ok_batch set_reservation_ledger by blast

lemma reserve_turn_wins:
  assumes "harness_ready d" and "fixtures_present d" and "order_exists d oid"
    and "stock d HARNESS_WAREHOUSE_ID HARNESS_PRODUCT_ID = Some (a, r)" and "1 \<le> a" and "0 \<le> r" and "a + r < 2 ^ 31"
  obtains d' where "reserve_turn now False oid d = (Reserved, d')" and "harness_ready d'" and "fixtures_present d'"
    and "\<And>i. order_exists d' i = order_exists d i"
    and "stock d' HARNESS_WAREHOUSE_ID HARNESS_PRODUCT_ID = Some (a - 1, r + 1)"
    and "\<And>i. held d' i HARNESS_PRODUCT_ID = (if i = oid then 1 else held d i HARNESS_PRODUCT_ID)"
proof -
  let ?c = "\<lparr>rc_order = oid, rc_warehouse = HARNESS_WAREHOUSE_ID,
      rc_lines = [\<lparr>line_product = HARNESS_PRODUCT_ID, line_quantity = 1\<rparr>]\<rparr>"
  have keys: "inventory_keys_distinct d" and led: "ledger_ok d" using assms(1) by (simp_all add: harness_ready_def fixture_ready_def)
  have lines: "distinct (map line_product (rc_lines ?c))" by simp
  have "\<exists>d'. reserve now False ?c d = Inr d'"
    using assms(2-7) by (intro reserve_ok[OF keys lines]) (auto simp: fixtures_present_def rows_present_def)
  then obtain d' where call: "reserve now False ?c d = Inr d'" by blast
  note same = reserve_unchanged[OF call keys lines]
  show thesis
  proof (rule that)
    show "reserve_turn now False oid d = (Reserved, d')" by (simp add: reserve_turn_def call)
    show "harness_ready d'"
      using same(1) reserve_ledger[OF call keys led] same(2,3) by (rule harness_ready_frame[OF assms(1)])
    show "fixtures_present d'" using assms(2) by (simp add: fixtures_present_def rows_present_def same(2-4))
    show "order_exists d' i = order_exists d i" for i by (rule same(10))
    show "stock d' HARNESS_WAREHOUSE_ID HARNESS_PRODUCT_ID = Some (a - 1, r + 1)"
      using reserve_stock[OF call keys lines, of HARNESS_WAREHOUSE_ID HARNESS_PRODUCT_ID] assms(4)
      by (simp add: lines_total_find)
    show "held d' i HARNESS_PRODUCT_ID = (if i = oid then 1 else held d i HARNESS_PRODUCT_ID)" for i
      using reserve_held[OF call keys lines, of i HARNESS_PRODUCT_ID] by (simp add: lines_total_find)
  qed
qed

lemma reserve_turn_loses:
  assumes "contended \<or> inventory_keys_distinct d \<and> stock d HARNESS_WAREHOUSE_ID HARNESS_PRODUCT_ID = Some (0, r)"
  shows "reserve_turn now contended oid d = (Ended False, d)"
proof (cases contended)
  case True
  then show ?thesis by (simp add: reserve_turn_def reserve_contended)
next
  case False
  with assms show ?thesis by (simp add: reserve_turn_def reserve_eq lacks_def)
qed

lemma commit_turn_wins:
  assumes "harness_ready d" and "fixtures_present d" and "order_exists d oid"
    and "stock d HARNESS_WAREHOUSE_ID HARNESS_PRODUCT_ID = Some (a, r)" and "0 \<le> a" and "1 \<le> r" and "a + r < 2 ^ 31"
    and "held d oid HARNESS_PRODUCT_ID = 1"
  obtains d' where "commit_turn False oid d = (Ended True, d')" and "harness_ready d'" and "fixtures_present d'"
    and "\<And>i. order_exists d' i = order_exists d i"
    and "stock d' HARNESS_WAREHOUSE_ID HARNESS_PRODUCT_ID = Some (a, r - 1)"
    and "\<And>i. held d' i HARNESS_PRODUCT_ID = (if i = oid then 0 else held d i HARNESS_PRODUCT_ID)"
proof -
  let ?c = "\<lparr>lc_order = oid, lc_warehouse = HARNESS_WAREHOUSE_ID, lc_products = [HARNESS_PRODUCT_ID]\<rparr>"
  have keys: "inventory_keys_distinct d" and led: "ledger_ok d" using assms(1) by (simp_all add: harness_ready_def fixture_ready_def)
  have one: "distinct (lc_products ?c)" by simp
  have "\<exists>d'. settle COMMIT False ?c d = Inr d'"
    using assms(2-8) by (intro settle_ok[OF _ keys one]) (auto simp: fixtures_present_def rows_present_def)
  then obtain d' where call: "settle COMMIT False ?c d = Inr d'" by blast
  note same = settle_unchanged[OF call settle_type_simps(2) keys one]
  have "foldR post_movement (settle_batch COMMIT ?c d) d = Inr d'"
    using call settle_eq[OF settle_type_simps(2) keys one] by simp
  then have led': "ledger_ok d'" by (rule ledger_ok_batch) (rule led)
  show thesis
  proof (rule that)
    show "commit_turn False oid d = (Ended True, d')" by (simp add: commit_turn_def settle_commit call)
    show "harness_ready d'"
      using same(1) led' same(2,3) by (rule harness_ready_frame[OF assms(1)])
    show "fixtures_present d'" using assms(2) by (simp add: fixtures_present_def rows_present_def same(2-4))
    show "order_exists d' i = order_exists d i" for i by (rule same(11))
    show "stock d' HARNESS_WAREHOUSE_ID HARNESS_PRODUCT_ID = Some (a, r - 1)"
      using settle_stock[OF call settle_type_simps(2) keys one, of HARNESS_WAREHOUSE_ID HARNESS_PRODUCT_ID] assms(4,8)
      by (simp add: returned_def)
    show "held d' i HARNESS_PRODUCT_ID = (if i = oid then 0 else held d i HARNESS_PRODUCT_ID)" for i
      using settle_held[OF call settle_type_simps(2) keys one, of i HARNESS_PRODUCT_ID] assms(4) by simp
  qed
qed

lemma commit_turn_contended: "commit_turn True oid d = (Raised (QueryFailedError SQL_LOCK_55P03), d)"
  by (simp add: commit_turn_def commit_def lock_inventory_rows_def)

subsection \<open>The race\<close>

definition count :: "(phase \<Rightarrow> bool) \<Rightarrow> phase list \<Rightarrow> int" where
  "count f phases = int (length (filter f phases))"

lemma count_update: "i < length ps \<Longrightarrow> count f (ps[i := ph]) = count f ps - of_bool (f (ps ! i)) + of_bool (f ph)"
proof (induction ps arbitrary: i)
  case (Cons x ps)
  then show ?case by (cases i) (auto simp: count_def)
qed simp

lemma count_bounds: "0 \<le> count f ps" "count f ps \<le> int (length ps)"
  by (simp_all add: count_def)

lemma count_mono: "(\<And>ph. ph \<in> set ps \<Longrightarrow> f ph \<Longrightarrow> g ph) \<Longrightarrow> count f ps \<le> count g ps"
  by (induction ps) (auto simp: count_def)

text \<open>Who holds a unit, who has taken one, and what an attempt on its own has left to do.\<close>

fun holding :: "phase \<Rightarrow> bool" where
  "holding Reserved \<longleftrightarrow> True"
| "holding (Raised _) \<longleftrightarrow> True"
| "holding _ \<longleftrightarrow> False"

definition took :: "phase \<Rightarrow> bool" where
  "took ph \<longleftrightarrow> holding ph \<or> ph = Ended True"

fun turns_taken :: "phase \<Rightarrow> nat" where
  "turns_taken Waiting = 0"
| "turns_taken Reserved = 1"
| "turns_taken _ = 2"

text \<open>
  The invariant. The units that are gone are those of the attempts that took one, those reserved are
  of the attempts that still hold one, and without lock timeouts an attempt loses only when nothing is
  left.
\<close>

definition racing :: "harness_env \<Rightarrow> int \<Rightarrow> nat \<Rightarrow> bool \<Rightarrow> gate \<Rightarrow> bool" where
  "racing env n k patient g \<longleftrightarrow> length (gt_phases g) = k \<and> distinct (map (hr_order_id env) [0..<k]) \<and>
     harness_ready (gt_db g) \<and> fixtures_present (gt_db g) \<and>
     (\<forall>i < k. order_exists (gt_db g) (hr_order_id env i) \<and>
        held (gt_db g) (hr_order_id env i) HARNESS_PRODUCT_ID = of_bool (holding (gt_phases g ! i))) \<and>
     stock (gt_db g) HARNESS_WAREHOUSE_ID HARNESS_PRODUCT_ID =
       Some (n - count took (gt_phases g), count holding (gt_phases g)) \<and>
     count took (gt_phases g) \<le> n \<and>
     (patient \<longrightarrow> gt_rejection g = None \<and> (\<forall>e. Raised e \<notin> set (gt_phases g)) \<and>
        (Ended False \<in> set (gt_phases g) \<longrightarrow> count took (gt_phases g) = n))"

lemma racingD:
  assumes "racing env n k patient g"
  shows "length (gt_phases g) = k" and "distinct (map (hr_order_id env) [0..<k])" and "harness_ready (gt_db g)"
    and "fixtures_present (gt_db g)" and "i < k \<Longrightarrow> order_exists (gt_db g) (hr_order_id env i)"
    and "i < k \<Longrightarrow> held (gt_db g) (hr_order_id env i) HARNESS_PRODUCT_ID = of_bool (holding (gt_phases g ! i))"
    and "stock (gt_db g) HARNESS_WAREHOUSE_ID HARNESS_PRODUCT_ID =
       Some (n - count took (gt_phases g), count holding (gt_phases g))"
    and "count took (gt_phases g) \<le> n"
    and "patient \<Longrightarrow> gt_rejection g = None" and "patient \<Longrightarrow> Raised e \<notin> set (gt_phases g)"
    and "patient \<Longrightarrow> Ended False \<in> set (gt_phases g) \<Longrightarrow> count took (gt_phases g) = n"
  using assms by (auto simp: racing_def)

text \<open>A turn that keeps the book-keeping keeps the invariant.\<close>

lemma racing_step:
  assumes g: "racing env n k patient g" and i: "i < k"
    and "harness_ready d" and "fixtures_present d" and "\<And>j. order_exists d j = order_exists (gt_db g) j"
    and "stock d HARNESS_WAREHOUSE_ID HARNESS_PRODUCT_ID =
      Some (n - count took ((gt_phases g)[i := ph]), count holding ((gt_phases g)[i := ph]))"
    and "count took ((gt_phases g)[i := ph]) \<le> n"
    and "\<And>j. held d j HARNESS_PRODUCT_ID =
      (if j = hr_order_id env i then of_bool (holding ph) else held (gt_db g) j HARNESS_PRODUCT_ID)"
    and "patient \<Longrightarrow> r = None \<and> (\<forall>e. ph \<noteq> Raised e) \<and>
      (Ended False \<in> set ((gt_phases g)[i := ph]) \<longrightarrow> count took ((gt_phases g)[i := ph]) = n)"
  shows "racing env n k patient \<lparr>gt_db = d, gt_phases = (gt_phases g)[i := ph], gt_rejection = r\<rparr>"
proof -
  note inv = racingD[OF g]
  have "held d (hr_order_id env j) HARNESS_PRODUCT_ID = of_bool (holding ((gt_phases g)[i := ph] ! j))" if j: "j < k" for j
  proof (cases "j = i")
    case True
    with assms(8) inv(1) i show ?thesis by simp
  next
    case False
    with inv(2) i j have "hr_order_id env j \<noteq> hr_order_id env i" by (auto simp: distinct_map inj_on_def)
    with assms(8) False inv(6)[OF j] show ?thesis by simp
  qed
  moreover have "\<forall>e. Raised e \<notin> set ((gt_phases g)[i := ph])" if patient
    using inv(10)[OF that] assms(9)[OF that] set_update_subset_insert[of "gt_phases g" i ph] by blast
  ultimately show ?thesis
    using assms(3-7,9) inv(1,2,5) by (auto simp: racing_def)
qed

lemma take_turn_quiet:
  assumes "turn_attempt t < length (gt_phases g)"
    and "run_attempt (turn_now t) (turn_contended t) (hr_order_id env (turn_attempt t)) (gt_phases g ! turn_attempt t) (gt_db g) = (ph, d)"
    and "\<And>e. ph \<noteq> Raised e"
  shows "take_turn env t g =
    \<lparr>gt_db = d, gt_phases = (gt_phases g)[turn_attempt t := ph], gt_rejection = gt_rejection g\<rparr>"
  using assms by (cases ph) (auto simp: take_turn_def Let_def split: option.splits)

lemma waiting_turn:
  assumes g: "racing env n k patient g" and i: "i < k" "gt_phases g ! i = Waiting" and n: "n < 2 ^ 31"
    and "patient \<longrightarrow> \<not> turn_contended t" and t: "turn_attempt t = i"
  shows "racing env n k patient (take_turn env t g)"
proof -
  note inv = racingD[OF g]
  have ps: "i < length (gt_phases g)" using inv(1) i(1) by simp
  note upd = count_update[OF ps]
  have le: "count holding (gt_phases g) \<le> count took (gt_phases g)" by (rule count_mono) (simp add: took_def)
  have keys: "inventory_keys_distinct (gt_db g)" using inv(3) by (simp add: harness_ready_def fixture_ready_def)
  consider (wins) "\<not> turn_contended t" "count took (gt_phases g) < n"
    | (loses) "turn_contended t \<or> count took (gt_phases g) = n"
    using inv(8) by fastforce
  then show ?thesis
  proof cases
    case wins
    obtain d where d: "reserve_turn (turn_now t) False (hr_order_id env i) (gt_db g) = (Reserved, d)"
      "harness_ready d" "fixtures_present d" "\<And>j. order_exists d j = order_exists (gt_db g) j"
      "stock d HARNESS_WAREHOUSE_ID HARNESS_PRODUCT_ID =
        Some (n - count took (gt_phases g) - 1, count holding (gt_phases g) + 1)"
      "\<And>j. held d j HARNESS_PRODUCT_ID = (if j = hr_order_id env i then 1 else held (gt_db g) j HARNESS_PRODUCT_ID)"
      by (rule reserve_turn_wins[OF inv(3,4) inv(5)[OF i(1)] inv(7)]) (use wins(2) le n count_bounds in auto)
    have "Ended False \<notin> set (gt_phases g)" if patient using inv(11)[OF that] wins(2) by blast
    then have no_loser: "Ended False \<notin> set ((gt_phases g)[i := Reserved])" if patient
      using that set_update_subset_insert[of "gt_phases g" i Reserved] by blast
    have "racing env n k patient \<lparr>gt_db = d, gt_phases = (gt_phases g)[i := Reserved], gt_rejection = gt_rejection g\<rparr>"
      by (rule racing_step[OF g i(1) d(2,3,4)]) (use d(5,6) wins(2) i(2) no_loser inv(9) in \<open>auto simp: upd took_def\<close>)
    then show ?thesis using wins(1) d(1) i(2) ps t by (simp add: take_turn_quiet)
  next
    case loses
    then have "reserve_turn (turn_now t) (turn_contended t) (hr_order_id env i) (gt_db g) = (Ended False, gt_db g)"
      using inv(7) keys by (intro reserve_turn_loses) auto
    moreover have "racing env n k patient
        \<lparr>gt_db = gt_db g, gt_phases = (gt_phases g)[i := Ended False], gt_rejection = gt_rejection g\<rparr>"
      by (rule racing_step[OF g i(1) inv(3,4)])
        (use inv(7,8,9) inv(6)[OF i(1)] i(2) loses assms(5) in \<open>auto simp: upd took_def\<close>)
    ultimately show ?thesis using i(2) ps t by (simp add: take_turn_quiet)
  qed
qed

lemma reserved_turn:
  assumes g: "racing env n k patient g" and i: "i < k" "gt_phases g ! i = Reserved" and n: "n < 2 ^ 31"
    and "patient \<longrightarrow> \<not> turn_contended t" and t: "turn_attempt t = i"
  shows "racing env n k patient (take_turn env t g)"
proof -
  note inv = racingD[OF g]
  have ps: "i < length (gt_phases g)" using inv(1) i(1) by simp
  note upd = count_update[OF ps]
  have le: "count holding (gt_phases g) \<le> count took (gt_phases g)" by (rule count_mono) (simp add: took_def)
  have "Reserved \<in> set (filter holding (gt_phases g))" using nth_mem[OF ps] i(2) by simp
  then have one: "1 \<le> count holding (gt_phases g)" by (cases "filter holding (gt_phases g)") (auto simp: count_def)
  show ?thesis
  proof (cases "turn_contended t")
    case True
    have "racing env n k patient \<lparr>gt_db = gt_db g, gt_phases = (gt_phases g)[i := Raised (QueryFailedError SQL_LOCK_55P03)],
        gt_rejection = r\<rparr>" for r
      by (rule racing_step[OF g i(1) inv(3,4)])
        (use inv(7,8) inv(6)[OF i(1)] i(2) True assms(5) in \<open>auto simp: upd took_def\<close>)
    then show ?thesis
      using True i(2) ps t by (simp add: take_turn_def Let_def commit_turn_contended split: option.splits)
  next
    case False
    obtain d where d: "commit_turn False (hr_order_id env i) (gt_db g) = (Ended True, d)"
      "harness_ready d" "fixtures_present d" "\<And>j. order_exists d j = order_exists (gt_db g) j"
      "stock d HARNESS_WAREHOUSE_ID HARNESS_PRODUCT_ID =
        Some (n - count took (gt_phases g), count holding (gt_phases g) - 1)"
      "\<And>j. held d j HARNESS_PRODUCT_ID = (if j = hr_order_id env i then 0 else held (gt_db g) j HARNESS_PRODUCT_ID)"
      by (rule commit_turn_wins[OF inv(3,4) inv(5)[OF i(1)] inv(7)])
        (use inv(8) inv(6)[OF i(1)] i(2) one le n in auto)
    have old: "Ended False \<in> set (gt_phases g)" if "Ended False \<in> set ((gt_phases g)[i := Ended True])"
      using that set_update_subset_insert[of "gt_phases g" i "Ended True"] by blast
    have "racing env n k patient \<lparr>gt_db = d, gt_phases = (gt_phases g)[i := Ended True], gt_rejection = gt_rejection g\<rparr>"
      by (rule racing_step[OF g i(1) d(2,3,4)]) (use d(5,6) inv(8,9,11) i(2) old in \<open>auto simp: upd took_def\<close>)
    then show ?thesis using False d(1) i(2) ps t by (simp add: take_turn_quiet)
  qed
qed

lemma take_turn_racing:
  assumes g: "racing env n k patient g" and "n < 2 ^ 31" and "patient \<longrightarrow> \<not> turn_contended t"
  shows "racing env n k patient (take_turn env t g)"
proof (cases "turn_attempt t < k")
  case False
  with racingD(1)[OF g] have "take_turn env t g = g" by (simp add: take_turn_def)
  with g show ?thesis by simp
next
  case i: True
  have ps: "turn_attempt t < length (gt_phases g)" using racingD(1)[OF g] i by simp
  show ?thesis
  proof (cases "gt_phases g ! turn_attempt t")
    case Waiting
    then show ?thesis by (rule waiting_turn[OF g i _ assms(2,3) refl])
  next
    case Reserved
    then show ?thesis by (rule reserved_turn[OF g i _ assms(2,3) refl])
  next
    case (Ended b)
    then have "take_turn env t g = g" using ps by (simp add: take_turn_quiet list_update_same_conv)
    with g show ?thesis by simp
  next
    case (Raised e)
    then have "(gt_phases g)[turn_attempt t := Raised e] = gt_phases g" using ps by (simp add: list_update_same_conv)
    moreover have "\<not> patient" using Raised ps racingD(10)[OF g, of e] nth_mem[OF ps] by auto
    ultimately show ?thesis
      using g Raised ps by (auto simp: take_turn_def Let_def racing_def split: option.splits)
  qed
qed

lemma race_racing:
  assumes "racing env n k patient g" and "n < 2 ^ 31" and "patient \<longrightarrow> (\<forall>t \<in> set ts. \<not> turn_contended t)"
  shows "racing env n k patient (fold (take_turn env) ts g)"
  using assms(1,3)
proof (induction ts arbitrary: g)
  case (Cons t ts)
  from take_turn_racing[OF Cons.prems(1) assms(2)] Cons show ?case by simp
qed simp

text \<open>Two turns are enough for an attempt, whatever the others do.\<close>

lemma turns_taken_le: "turns_taken ph \<le> 2"
  by (cases ph) auto

lemma run_attempt_progress:
  "run_attempt now contended oid ph d = (ph', d') \<Longrightarrow> min 2 (Suc (turns_taken ph)) \<le> turns_taken ph'"
  by (cases ph) (auto simp: reserve_turn_def commit_turn_def split: sum.splits app_error.splits)

lemma take_turn_progress:
  assumes "i < length (gt_phases g)"
  shows "length (gt_phases (take_turn env t g)) = length (gt_phases g)"
    and "min 2 (turns_taken (gt_phases g ! i) + of_bool (turn_attempt t = i)) \<le> turns_taken (gt_phases (take_turn env t g) ! i)"
proof -
  obtain ph d where run: "run_attempt (turn_now t) (turn_contended t) (hr_order_id env (turn_attempt t))
      (gt_phases g ! turn_attempt t) (gt_db g) = (ph, d)" by fastforce
  have phases: "gt_phases (take_turn env t g) = (gt_phases g)[turn_attempt t := ph]"
    using run by (auto simp: take_turn_def Let_def list_update_beyond)
  then show "length (gt_phases (take_turn env t g)) = length (gt_phases g)" by simp
  show "min 2 (turns_taken (gt_phases g ! i) + of_bool (turn_attempt t = i)) \<le> turns_taken (gt_phases (take_turn env t g) ! i)"
    using run_attempt_progress[OF run] assms phases by (cases "turn_attempt t = i") auto
qed

lemma race_progress:
  assumes "i < length (gt_phases g)"
  shows "min 2 (turns_taken (gt_phases g ! i) + count_list (map turn_attempt ts) i) \<le>
    turns_taken (gt_phases (fold (take_turn env) ts g) ! i)"
  using assms
proof (induction ts arbitrary: g)
  case (Cons t ts)
  let ?g = "take_turn env t g"
  note one = take_turn_progress[OF Cons.prems, where env = env and t = t]
  from Cons.IH[of ?g] one(1) Cons.prems
  have "min 2 (turns_taken (gt_phases ?g ! i) + count_list (map turn_attempt ts) i) \<le>
      turns_taken (gt_phases (fold (take_turn env) ts ?g) ! i)" by simp
  with one(2) show ?case by (auto simp: min_def split: if_splits)
qed simp

lemma open_gate_racing:
  assumes "harness_ready d" and "fixtures_present d" and "0 \<le> n"
    and "stock d HARNESS_WAREHOUSE_ID HARNESS_PRODUCT_ID = Some (n, 0)"
    and "distinct (map (hr_order_id env) [0..<k])" and "\<And>i. i < k \<Longrightarrow> order_exists d (hr_order_id env i)"
    and "\<And>i m. i < k \<Longrightarrow> m \<in> set (movements d) \<Longrightarrow> mv_order m \<noteq> Some (hr_order_id env i)"
  shows "racing env n k patient (open_gate k d)"
proof -
  have none: "count took (replicate k Waiting) = 0" "count holding (replicate k Waiting) = 0"
    by (simp_all add: count_def took_def)
  have "held d (hr_order_id env i) HARNESS_PRODUCT_ID = 0" if "i < k" for i
  proof -
    have "latest_movement (movements d) (hr_order_id env i) HARNESS_PRODUCT_ID = None"
      using assms(7)[OF that] by (auto simp: latest_movement_None)
    then show ?thesis by (simp add: held_def)
  qed
  then show ?thesis using assms(1-6) none by (auto simp: racing_def open_gate_def)
qed

lemma race_start:
  assumes "harness_ready d" and "in_int4 n" and "0 \<le> n" and "fresh_orders env (nat n + EXTRA_LOSING_ATTEMPTS) d"
  obtains d' where "race env n d =
      Inr (fold (take_turn env) (hr_schedule env) (open_gate (nat n + EXTRA_LOSING_ATTEMPTS) d'))"
    and "\<And>patient. racing env n (nat n + EXTRA_LOSING_ATTEMPTS) patient (open_gate (nat n + EXTRA_LOSING_ATTEMPTS) d')"
proof -
  let ?k = "nat n + EXTRA_LOSING_ATTEMPTS"
  obtain d1 where d1: "reset_fixtures (hr_now env) n d = Inr d1" "harness_ready d1" "fixtures_present d1"
    "stock d1 HARNESS_WAREHOUSE_ID HARNESS_PRODUCT_ID = Some (n, 0)" "orders d1 = orders d"
    "set (movements d1) \<subseteq> set (movements d)"
    using reset_ok[OF assms(1-3)] by metis
  have fresh: "fresh_orders env ?k d1"
    using assms(4) d1(5,6) by (auto simp: fresh_orders_def order_exists_def)
  let ?d2 = "d1\<lparr>orders := orders d1 @ map (harness_order env) [0..<?k]\<rparr>"
  have "HARNESS_CUSTOMER_ID \<in> cust_id ` set (customers d1)" using d1(3) by (simp add: fixtures_present_def rows_present_def)
  note placed = insert_orders_ok[OF fresh this]
  have "race env n d = Inr (fold (take_turn env) (hr_schedule env) (open_gate ?k ?d2))"
    by (simp add: race_def Let_def d1(1) placed)
  moreover have "racing env n ?k patient (open_gate ?k ?d2)" for patient
  proof (rule open_gate_racing)
    show "harness_ready ?d2" using d1(2) by (simp add: harness_ready_def fixture_ready_def inventory_keys_distinct_def)
    show "fixtures_present ?d2" using d1(3) by (simp add: fixtures_present_def rows_present_def)
    show "order_exists ?d2 (hr_order_id env i)" if "i < ?k" for i
    proof -
      have "harness_order env i \<in> set (orders ?d2)" using that by simp
      then have "row_id (harness_order env i) \<in> row_id ` set (orders ?d2)" by (rule imageI)
      then show ?thesis by (simp add: order_exists_def harness_order_def)
    qed
    show "mv_order m \<noteq> Some (hr_order_id env i)" if "i < ?k" "m \<in> set (movements ?d2)" for i m
      using that fresh by (auto simp: fresh_orders_def)
    show "distinct (map (hr_order_id env) [0..<?k])" using fresh by (simp add: fresh_orders_def)
  qed (use d1(4) assms(3) in simp_all)
  ultimately show ?thesis by (rule that)
qed

subsection \<open>The check passes\<close>

lemma succeeded_cases: "succeeded ph \<noteq> None \<longleftrightarrow> (\<exists>b. ph = Ended b)"
  by (cases ph) (simp_all add: succeeded_def)

lemma successes_count: "int (successes ps) = count (\<lambda>ph. ph = Ended True) ps"
proof -
  have "(succeeded ph = Some True) = (ph = Ended True)" for ph by (cases ph) (auto simp: succeeded_def)
  then show ?thesis by (simp add: successes_def count_def)
qed

lemma parse_n_pos: "parse_n arg = Inr n \<Longrightarrow> 0 < n"
  by (auto simp: parse_n_def DEFAULT_N_def Let_def split: option.splits if_splits)

text \<open>When every attempt has returned and none timed out, exactly \<open>n\<close> of them have won.\<close>

lemma race_over:
  assumes g: "racing env n (nat n + EXTRA_LOSING_ATTEMPTS) True g" and "0 \<le> n"
    and ended: "\<And>i. i < nat n + EXTRA_LOSING_ATTEMPTS \<Longrightarrow> 2 \<le> turns_taken (gt_phases g ! i)"
  shows "\<forall>ph \<in> set (gt_phases g). succeeded ph \<noteq> None" and "int (successes (gt_phases g)) = n"
    and "stock (gt_db g) HARNESS_WAREHOUSE_ID HARNESS_PRODUCT_ID = Some (0, 0)"
proof -
  let ?ps = "gt_phases g"
  note inv = racingD[OF g]
  have all: "\<exists>b. ph = Ended b" if ph: "ph \<in> set ?ps" for ph
  proof -
    from ph inv(1) obtain i where "i < nat n + EXTRA_LOSING_ATTEMPTS" "?ps ! i = ph" by (auto simp: in_set_conv_nth)
    with ended[of i] have "2 \<le> turns_taken ph" by simp
    moreover have "ph \<noteq> Raised e" for e using inv(10)[of e] ph by auto
    ultimately show ?thesis by (cases ph) auto
  qed
  then show "\<forall>ph \<in> set ?ps. succeeded ph \<noteq> None" using succeeded_cases by blast
  from all have same: "filter took ?ps = filter (\<lambda>ph. ph = Ended True) ?ps" "filter holding ?ps = []"
    by (force simp: took_def intro!: filter_cong filter_False)+
  then have won: "count took ?ps = int (successes ?ps)" "count holding ?ps = 0"
    by (simp_all add: successes_count) (simp_all add: count_def)
  have "filter took ?ps \<noteq> ?ps"
  proof
    assume "filter took ?ps = ?ps"
    then have "count took ?ps = int (length ?ps)" by (simp add: count_def)
    with inv(1,8) assms(2) show False by (simp add: EXTRA_LOSING_ATTEMPTS_def)
  qed
  then obtain ph where "ph \<in> set ?ps" "\<not> took ph" by (metis filter_True)
  with all[of ph] have "Ended False \<in> set ?ps" by (auto simp: took_def) (metis (full_types))
  with inv(11) have "count took ?ps = n" by simp
  with won inv(7) show "int (successes ?ps) = n"
    and "stock (gt_db g) HARNESS_WAREHOUSE_ID HARNESS_PRODUCT_ID = Some (0, 0)" by simp_all
qed

text \<open>
  C15. The concurrency check. On any database whose ledger agrees with its balances, with new order
  ids and numbers, and in whatever order the transactions of the attempts run and time out: the race
  starts from the reset fixtures, never more attempts succeed than there were units, and the ledger
  still agrees, so the check can be run again. When no attempt times out on the row lock and each gets
  its two turns, every attempt returns, exactly the number of units succeed and twenty fail, nothing is
  left available or reserved, and the script finds no problem.
\<close>

theorem concurrency_check_passes:
  assumes "parse_n arg = Inr n" and "n < 2 ^ 31" and "harness_ready d"
    and "fresh_orders env (nat n + EXTRA_LOSING_ATTEMPTS) d"
  shows "\<exists>g. race env n d = Inr g \<and> int (successes (gt_phases g)) \<le> n \<and> verify_ledger (gt_db g) = [] \<and>
    harness_ready (gt_db g) \<and>
    ((\<forall>t \<in> set (hr_schedule env). \<not> turn_contended t) \<and>
     (\<forall>i < nat n + EXTRA_LOSING_ATTEMPTS. 2 \<le> count_list (map turn_attempt (hr_schedule env)) i) \<longrightarrow>
     stock (gt_db g) HARNESS_WAREHOUSE_ID HARNESS_PRODUCT_ID = Some (0, 0) \<and>
     concurrency_check env arg d = Some (Inr []))"
proof -
  let ?k = "nat n + EXTRA_LOSING_ATTEMPTS" and ?ts = "hr_schedule env"
  have n: "0 \<le> n" "in_int4 n" using parse_n_pos[OF assms(1)] assms(2) by (auto simp: in_int4_def)
  obtain d2 where run: "race env n d = Inr (fold (take_turn env) ?ts (open_gate ?k d2))"
    and start: "\<And>patient. racing env n ?k patient (open_gate ?k d2)"
    using race_start[OF assms(3) n(2,1) assms(4)] by blast
  let ?g = "fold (take_turn env) ?ts (open_gate ?k d2)"
  have any: "racing env n ?k False ?g" by (rule race_racing[OF start assms(2)]) simp
  have "int (successes (gt_phases ?g)) \<le> count took (gt_phases ?g)"
    unfolding successes_count by (rule count_mono) (simp add: took_def)
  then have few: "int (successes (gt_phases ?g)) \<le> n" using racingD(8)[OF any] by simp
  have ready: "harness_ready (gt_db ?g)" by (rule racingD(3)[OF any])
  then have clean: "verify_ledger (gt_db ?g) = []" by (simp add: harness_ready_def fixture_ready_def verify_ledger_ok)
  have "stock (gt_db ?g) HARNESS_WAREHOUSE_ID HARNESS_PRODUCT_ID = Some (0, 0) \<and>
      concurrency_check env arg d = Some (Inr [])"
    if fair: "\<forall>t \<in> set ?ts. \<not> turn_contended t" "\<forall>i < ?k. 2 \<le> count_list (map turn_attempt ?ts) i"
  proof -
    have g: "racing env n ?k True ?g" by (rule race_racing[OF start assms(2)]) (use fair(1) in simp)
    have "2 \<le> turns_taken (gt_phases ?g ! i)" if i: "i < ?k" for i
      using race_progress[of i "open_gate ?k d2" ?ts env] fair(2) i by (auto simp: open_gate_def)
    note over = race_over[OF g n(1) this]
    from over(3) obtain row where row: "find_inventory (gt_db ?g) HARNESS_WAREHOUSE_ID HARNESS_PRODUCT_ID = Some row"
      "qty_available row = 0" "qty_reserved row = 0" by (auto simp: stock_def)
    have lost: "length (gt_phases ?g) - successes (gt_phases ?g) = EXTRA_LOSING_ATTEMPTS"
      using racingD(1)[OF g] over(2) by linarith
    have "check_problems n (successes (gt_phases ?g)) EXTRA_LOSING_ATTEMPTS (0, 0) [] = []"
      using over(2) by (simp add: check_problems_def)
    then have "concurrency_check env arg d = Some (Inr [])"
      using over(1) racingD(9)[OF g] row lost clean
      by (simp add: concurrency_check_def assms(1) run list_all_iff Let_def)
    with over(3) show ?thesis by simp
  qed
  with run few ready clean show ?thesis by blast
qed

text \<open>The harness can run on the seeded database, whatever the program has done since.\<close>

lemma seeded_harness_ready:
  assumes "txns (snd (seed clock empty_db)) d"
  shows "harness_ready d"
proof -
  obtain ws ps where start: "seed clock empty_db = (Inr (), empty_db\<lparr>customers := [CUSTOMER (clock 0)],
      warehouses := ws, products := ps, inventory := map inventory_of seed_stock\<rparr>)" "map prod_sku ps = map se_sku PRODUCTS"
    by (rule seed_empty)
  let ?d0 = "snd (seed clock empty_db)"
  have ok: "db_ok ?d0" using start(1) seeded_ok(1) by (metis prod.sel(2))
  from txns_db_ok[OF assms ok] have "shop_inv d" by (simp add: db_ok_def)
  then have "inventory_keys_distinct d" "ledger_ok d" using shop_invD by (auto simp: keys_ok_def)
  moreover from txns_same_reference[OF assms ok]
  have "customers d = [CUSTOMER (clock 0)]" "products d = ps"
    by (simp_all add: same_reference_def start(1))
  moreover have "''CONCURRENCY-CHECK-SKU'' \<notin> se_sku ` set PRODUCTS" by (simp add: PRODUCTS_def seed_product_def)
  then have "''CONCURRENCY-CHECK-SKU'' \<notin> prod_sku ` set ps" using arg_cong[OF start(2), of set] by simp
  ultimately show ?thesis by (simp add: harness_ready_def fixture_ready_def CUSTOMER_def)
qed

definition sample_harness :: harness_env where
  "sample_harness = \<lparr>hr_order_id = (\<lambda>i. CHR ''e'' # show_nat i), hr_number = (\<lambda>i. i), hr_now = 0,
     hr_schedule = map (\<lambda>i. \<lparr>turn_attempt = i, turn_now = 0, turn_contended = False\<rparr>) ([0..<25] @ rev [0..<25])\<rparr>"

lemma sample_schedule:
  "(\<forall>t \<in> set (hr_schedule sample_harness). \<not> turn_contended t) \<and>
   (\<forall>i < nat 5 + EXTRA_LOSING_ATTEMPTS. 2 \<le> count_list (map turn_attempt (hr_schedule sample_harness)) i)"
proof -
  have "count_list [0..<25] i = 1" if "i < 25" for i :: nat
    using that distinct_upt[of 0 25] by (simp add: count_list_eq_length_filter distinct_length_filter) 
  then show ?thesis
    by (auto simp: sample_harness_def EXTRA_LOSING_ATTEMPTS_def comp_def count_list_append count_list_rev simp del: upt.simps)
qed

theorem concurrency_check_passes_witness:
  "concurrency_check sample_harness None (snd (seed (\<lambda>i. int i) empty_db)) = Some (Inr [])"
proof -
  let ?d = "snd (seed (\<lambda>i. int i) empty_db)"
  have ready: "harness_ready ?d" by (rule seeded_harness_ready[of "\<lambda>i. int i"]) blast
  obtain ws ps where "seed (\<lambda>i. int i) empty_db = (Inr (), empty_db\<lparr>customers := [CUSTOMER ((\<lambda>i. int i) 0)],
      warehouses := ws, products := ps, inventory := map inventory_of seed_stock\<rparr>)"
    by (rule seed_empty)
  then have empty: "orders ?d = []" "movements ?d = []" by (simp_all only: prod.sel) (simp_all add: empty_db_def)
  have fresh: "fresh_orders sample_harness (nat 5 + EXTRA_LOSING_ATTEMPTS) ?d"
    using empty by (auto simp: fresh_orders_def sample_harness_def order_exists_def distinct_map inj_on_def simp del: upt.simps)
  have "parse_n None = Inr 5" by (simp add: parse_n_def DEFAULT_N_def)
  from concurrency_check_passes[OF this _ ready fresh] sample_schedule show ?thesis by auto
qed

end
