(* ===== verification/Concurrency_E2e.thy ===== *)
theory Concurrency_E2e
  imports Concurrency_Check Create_Order_Dto
begin

section \<open>The end-to-end concurrency check\<close>

text \<open>
  \<^verbatim>\<open>src/scripts/concurrency-e2e.ts\<close>: the check of \<open>Concurrency_Check\<close> through \<open>POST /orders\<close> of a running
  api. What the api answers to the \<open>i\<close>-th attempt and the database afterwards are arguments; the argument
  of the script is parsed as there, and its fixtures are reset by the same statements. The limit of
  \<^verbatim>\<open>src/modules/api.module.ts\<close> is the one it refuses to exceed. Ids, headers and URLs are left out.
\<close>

subsection \<open>The request\<close>

definition RATE_LIMIT_PER_MINUTE :: nat where
  "RATE_LIMIT_PER_MINUTE = 600"

definition E2E_CUSTOMER_ID :: uuid where
  "E2E_CUSTOMER_ID = ''f0000000-0000-0000-0000-000000000001''"

definition E2E_WAREHOUSE_ID :: uuid where
  "E2E_WAREHOUSE_ID = ''f0000000-0000-0000-0000-000000000002''"

definition E2E_PRODUCT_ID :: uuid where
  "E2E_PRODUCT_ID = ''f0000000-0000-0000-0000-000000000003''"

definition assert_burst_fits_rate_limit :: "nat \<Rightarrow> app_error + unit" where
  "assert_burst_fits_rate_limit total_attempts =
    (if RATE_LIMIT_PER_MINUTE < total_attempts
     then Inl (JsError (''N + '' @ show_nat EXTRA_LOSING_ATTEMPTS @ '' = '' @ show_nat total_attempts @
       '' attempts would exceed RATE_LIMIT_PER_MINUTE ('' @ show_nat RATE_LIMIT_PER_MINUTE @
       '', api.module.ts) within the throttler's one-minute window '' @ [CHR 0xE2, CHR 0x80, CHR 0x94] @ '' choose a smaller N.''))
     else Inr ())"

definition e2e_customer :: "timestamp \<Rightarrow> customer_row" where
  "e2e_customer now = \<lparr>cust_id = E2E_CUSTOMER_ID, cust_email = ''concurrency-e2e@example.com'',
     cust_full_name = ''Concurrency E2E Customer'', cust_phone = None, cust_created_at = now, cust_updated_at = now,
     cust_deleted_at = None\<rparr>"

definition e2e_warehouse :: "timestamp \<Rightarrow> warehouse_row" where
  "e2e_warehouse now = \<lparr>wh_id = E2E_WAREHOUSE_ID, wh_name = ''Concurrency E2E WH'', wh_address = JObj [],
     wh_location = \<lparr>latitude = double_of 40.7128, longitude = double_of (- 74.006)\<rparr>, wh_is_active = True,
     wh_created_at = now, wh_updated_at = now, wh_deleted_at = None\<rparr>"

definition e2e_product :: "timestamp \<Rightarrow> product_row" where
  "e2e_product now = \<lparr>prod_id = E2E_PRODUCT_ID, prod_sku = ''CONCURRENCY-E2E-SKU'', prod_name = ''Concurrency E2E Product'',
     prod_description = None, prod_condition = COND_NEW, prod_unit_price_cents = 1000, prod_is_active = True,
     prod_created_at = now, prod_updated_at = now, prod_deleted_at = None\<rparr>"

definition e2e_reset_fixtures :: "timestamp \<Rightarrow> int \<Rightarrow> db \<Rightarrow> app_error + db" where
  "e2e_reset_fixtures now n = reset_rows (e2e_customer now) (e2e_warehouse now) (e2e_product now) n"

definition e2e_request :: fields_of where
  "e2e_request = [(''customerId'', JStr E2E_CUSTOMER_ID),
     (''shippingAddress'', JObj [(''recipient'', JStr ''Concurrency E2E''), (''line1'', JStr ''1 Broadway''),
       (''city'', JStr ''New York''), (''state'', JStr ''NY''), (''country'', JStr ''US'')]),
     (''items'', JArr [JObj [(''productId'', JStr E2E_PRODUCT_ID), (''quantity'', JNum (js_int 1))]]),
     (''payment'', JObj [(''cardNumber'', JStr ''4242424242424242'')])]"

subsection \<open>The verdict\<close>

record attempt_result =
  at_http_status :: nat
  at_order_status :: "string option"

definition attempt_result :: "nat \<Rightarrow> json \<Rightarrow> attempt_result" where
  "attempt_result status body = \<lparr>at_http_status = status, at_order_status = (if status = 201
     then (case body of JObj kvs \<Rightarrow> (case map_of kvs ''status'' of Some (JStr t) \<Rightarrow> Some t | _ \<Rightarrow> None) | _ \<Rightarrow> None)
     else None)\<rparr>"

definition confirmed_result :: "attempt_result \<Rightarrow> bool" where
  "confirmed_result r \<longleftrightarrow> at_http_status r = 201 \<and> at_order_status r = Some ''CONFIRMED''"

definition losing_result :: "attempt_result \<Rightarrow> bool" where
  "losing_result r \<longleftrightarrow> at_http_status r = 422 \<or> at_http_status r = 409"

definition e2e_problems :: "int \<Rightarrow> attempt_result list \<Rightarrow> int \<times> int \<Rightarrow> ledger_mismatch list \<Rightarrow> string list" where
  "e2e_problems n results balances discrepancies =
    (let won = length (filter confirmed_result results); lost = length (filter losing_result results);
         unexpected = filter (\<lambda>r. \<not> confirmed_result r \<and> at_http_status r \<noteq> 422 \<and> at_http_status r \<noteq> 409) results in
     (if int won \<noteq> n then [''expected '' @ show_int n @ '' 201 CONFIRMED, got '' @ show_nat won] else []) @
     (if lost \<noteq> EXTRA_LOSING_ATTEMPTS
      then [''expected '' @ show_nat EXTRA_LOSING_ATTEMPTS @ '' 422/409 responses, got '' @ show_nat lost] else []) @
     (if 0 < length unexpected
      then [show_nat (length unexpected) @ '' attempt(s) returned an unexpected outcome: '' @
        js_join '', '' (map (\<lambda>r. show_nat (at_http_status r)) unexpected)] else []) @
     (if fst balances \<noteq> 0 then [''expected quantity_available = 0, got '' @ show_int (fst balances)] else []) @
     (if snd balances \<noteq> 0 then [''expected quantity_reserved = 0, got '' @ show_int (snd balances)] else []) @
     (if discrepancies \<noteq> []
      then [''expected verify-ledger.sql to return zero rows, got '' @ show_nat (length discrepancies)] else []))"

definition concurrency_e2e ::
  "timestamp \<Rightarrow> string option \<Rightarrow> (nat \<Rightarrow> db \<Rightarrow> (nat \<times> json) list \<times> db) \<Rightarrow> db \<Rightarrow> app_error + string list" where
  "concurrency_e2e now arg attempts d =
     bindR (parse_n arg) (\<lambda>n.
     let total_attempts = nat n + EXTRA_LOSING_ATTEMPTS in
     bindR (assert_burst_fits_rate_limit total_attempts) (\<lambda>_.
     bindR (e2e_reset_fixtures now n d) (\<lambda>d1.
     case attempts total_attempts d1 of (answers, d2) \<Rightarrow>
       (case find_inventory d2 E2E_WAREHOUSE_ID E2E_PRODUCT_ID of
          None \<Rightarrow> Inl (JsError ''Cannot read properties of undefined'')
        | Some row \<Rightarrow> Inr (e2e_problems n (map (\<lambda>(status, body). attempt_result status body) answers)
            (qty_available row, qty_reserved row) (verify_ledger d2))))))"

subsection \<open>The requests are accepted and never oversell\<close>

text \<open>The body of every attempt passes the validation of \<open>POST /orders\<close>, as an order of one unit.\<close>

lemma e2e_request_accepted:
  assumes "va_uuid v E2E_CUSTOMER_ID" and "va_uuid v E2E_PRODUCT_ID"
  shows "create_order_body v e2e_request"
    and "\<exists>dto. dto_of_fields e2e_request = Some dto \<and> dto_customer dto = E2E_CUSTOMER_ID \<and>
      dto_items dto = [\<lparr>line_product = E2E_PRODUCT_ID, line_quantity = 1\<rparr>]"
  using assms
  by (simp_all add: create_order_body_def e2e_request_def only_def uuid_text_def nested_def shipping_address_dto_def
      optional_text_def SUPPORTED_COUNTRY_def order_line_dto_def payment_dto_def card_number_shape_def is_digit_def
      unique_product_ids_def product_id_of_def dto_of_fields_def text_field_def)

text \<open>
  Once the fixture holds \<open>n\<close> units that no order has taken, at most \<open>n\<close> orders of the product can be
  confirmed at its warehouse, whatever transactions of the program run in whatever order.
\<close>

lemma e2e_never_oversells:
  assumes "db_ok d" and "sp_free (shop_of d) w p = n" and "taken (shop_of d) w p = 0" and "txns d d'"
    and "\<forall>oid \<in> won. \<exists>o1. sp_orders (shop_of d') oid = Some o1 \<and> so_status o1 = CONFIRMED \<and> so_warehouse o1 = w \<and>
      1 \<le> so_units o1 p"
  shows "int (card won) \<le> n"
proof -
  let ?s = "shop_of d'" and ?takes = "\<lambda>oid. takes (the (sp_orders (shop_of d') oid)) w p"
  from txns_db_ok[OF assms(4,1)] have ok: "db_ok d'" "shop_run (shop_of d) ?s" by auto
  have "shop_ok (shop_of d)" using assms(1) by (simp add: db_ok_def shop_ok_of)
  from shop_run_ok[OF ok(2) this] have s: "shop_ok ?s" "sp_free ?s w p + taken ?s w p = n"
    using assms(2,3) by auto
  have won: "won \<subseteq> dom (sp_orders ?s)" using assms(5) by fastforce
  have fin: "finite (dom (sp_orders ?s))" and free: "0 \<le> sp_free ?s w p" using s(1) by (auto simp: shop_ok_def)
  have nonneg: "0 \<le> ?takes oid" if "oid \<in> dom (sp_orders ?s)" for oid
    using s(1) that by (auto simp: shop_ok_def takes_def)
  have "int (card won) = (\<Sum>oid \<in> won. 1)" by simp
  also have "\<dots> \<le> (\<Sum>oid \<in> won. ?takes oid)"
    using assms(5) by (intro sum_mono) (fastforce simp: takes_def)
  also have "\<dots> \<le> taken ?s w p"
    unfolding taken_def using won fin nonneg by (intro sum_mono2) auto
  finally show ?thesis using s(2) free by simp
qed

end
