(* ===== verification/Payments_Check.thy ===== *)
theory Payments_Check
  imports Mock_Server Order_Views
begin

section \<open>The payments check\<close>

text \<open>
  \<^verbatim>\<open>src/scripts/payments-check.ts\<close>: the four test cards through the gateway of \<open>Payment_Gateway\<close>, each
  with a fresh breaker, against a provider that is the parameter \<open>fetch\<close>; the claim is about the
  provider of \<open>Mock_Server\<close>. The clock does not advance between \<open>startedAt\<close> and the key of the charge.
  The base URL is a setting of \<open>fetch\<close>.
\<close>

subsection \<open>The script\<close>

record test_card =
  tc_card_number :: string
  tc_expected_status :: payment_status
  tc_expected_failure_code :: "payment_failure_code option"

definition TEST_CARDS :: "test_card list" where
  "TEST_CARDS = [
     \<lparr>tc_card_number = ''4242424242424242'', tc_expected_status = PS_CAPTURED, tc_expected_failure_code = None\<rparr>,
     \<lparr>tc_card_number = ''4000000000000002'', tc_expected_status = PS_DECLINED, tc_expected_failure_code = Some CARD_DECLINED\<rparr>,
     \<lparr>tc_card_number = ''4000000000090003'', tc_expected_status = PS_UNKNOWN, tc_expected_failure_code = Some PROVIDER_ERROR\<rparr>,
     \<lparr>tc_card_number = ''4000000000080004'', tc_expected_status = PS_UNKNOWN, tc_expected_failure_code = Some TIMEOUT\<rparr>]"

definition build_command :: "test_card \<Rightarrow> int \<Rightarrow> charge_command" where
  "build_command c now = \<lparr>cmd_card_number = tc_card_number c, cmd_amount_minor = 9900, cmd_currency = ''USD'',
     cmd_description = ''payments-check'',
     cmd_idempotency_key = ''payments-check:'' @ tc_card_number c @ '':'' @ show_int now\<rparr>"

definition text_or_null :: "string option \<Rightarrow> string" where
  "text_or_null v = (case v of None \<Rightarrow> ''null'' | Some t \<Rightarrow> t)"

definition format_line :: "test_card \<Rightarrow> charge_result \<Rightarrow> int \<Rightarrow> bool \<Rightarrow> string" where
  "format_line c r elapsed_ms matches =
    (let outcome = payment_status_text (res_status r) @
       (case res_failure_code r of None \<Rightarrow> [] | Some fc \<Rightarrow> ''/'' @ failure_code_text fc) in
     (if matches then ''OK  '' else ''FAIL'') @ '' card=...'' @ last4 (tc_card_number c) @ '' outcome='' @ outcome @
     '' last4='' @ text_or_null (res_card_last4 r) @ '' brand='' @ text_or_null (res_card_brand r) @
     '' elapsedMs='' @ show_int elapsed_ms)"

definition check_card ::
  "(rat \<Rightarrow> nat \<Rightarrow> rat) \<Rightarrow> 'p fetch \<Rightarrow> test_card \<Rightarrow> 'p net \<Rightarrow> (bool \<times> string) \<times> 'p net" where
  "check_card draw fetch c s =
    (let started_at = net_now s in
     case gateway_charge default_gateway_options draw fetch (build_command c started_at) (s\<lparr>net_breaker := new_breaker\<rparr>) of
       (r, s1) \<Rightarrow>
         (let elapsed_ms = net_now s1 - started_at;
              matches = (res_status r = tc_expected_status c \<and> res_failure_code r = tc_expected_failure_code c) in
          ((matches, format_line c r elapsed_ms matches), s1)))"

fun check_cards ::
  "(rat \<Rightarrow> nat \<Rightarrow> rat) \<Rightarrow> 'p fetch \<Rightarrow> test_card list \<Rightarrow> 'p net \<Rightarrow> (bool \<times> string) list \<times> 'p net" where
  "check_cards draw fetch [] s = ([], s)"
| "check_cards draw fetch (c # cs) s =
    (case check_card draw fetch c s of (line, s1) \<Rightarrow>
       (case check_cards draw fetch cs s1 of (lines, s2) \<Rightarrow> (line # lines, s2)))"

text \<open>What is printed, and the exit code.\<close>

definition payments_check :: "(rat \<Rightarrow> nat \<Rightarrow> rat) \<Rightarrow> 'p fetch \<Rightarrow> 'p net \<Rightarrow> (string list \<times> nat) \<times> 'p net" where
  "payments_check draw fetch s =
    (case check_cards draw fetch TEST_CARDS s of (lines, s1) \<Rightarrow>
       (let all_matched = list_all fst lines in
        ((map snd lines @
            [if all_matched then ''payments-check PASSED''
             else ''payments-check FAILED: at least one card did not match its expected outcome.''],
          if all_matched then 0 else 1), s1)))"

subsection \<open>The check passes\<close>

lemma build_command_sel [simp]:
  "cmd_card_number (build_command c now) = tc_card_number c"
  "cmd_idempotency_key (build_command c now) = ''payments-check:'' @ tc_card_number c @ '':'' @ show_int now"
  "sendable (build_command c now) \<longleftrightarrow> tc_card_number c \<noteq> []"
  by (simp_all add: build_command_def sendable_def)

text \<open>A card whose expectation is the verdict of \<open>Mock_Server\<close> on its last four digits.\<close>

definition expects_verdict :: "test_card \<Rightarrow> bool" where
  "expects_verdict c \<longleftrightarrow> length (tc_card_number c) = 16 \<and>
     (tc_expected_status c, tc_expected_failure_code c) =
       (fst (charge_verdict (card_last4 (tc_card_number c))), fst (snd (charge_verdict (card_last4 (tc_card_number c)))))"

text \<open>The provider has seen none of the keys the script could use for a card.\<close>

definition keys_unused :: "test_card \<Rightarrow> mock \<Rightarrow> bool" where
  "keys_unused c m \<longleftrightarrow> (\<forall>t. unused_key (cmd_idempotency_key (build_command c t)) m)"

lemma check_card_matches:
  assumes "expects_verdict c" and "keys_unused c (net_remote s)" and "me_options env = default_mock_options"
    and "check_card draw (mock_fetch env) c s = ((matches, line), s1)"
  shows "matches"
    and "length (tc_card_number c') = 16 \<Longrightarrow> tc_card_number c' \<noteq> tc_card_number c \<Longrightarrow> keys_unused c' (net_remote s) \<Longrightarrow>
      keys_unused c' (net_remote s1)"
proof -
  let ?c = "build_command c (net_now s)" and ?s = "s\<lparr>net_breaker := new_breaker\<rparr>"
  have send: "sendable ?c" using assms(1) by (auto simp: expects_verdict_def)
  have unused: "unused_key (cmd_idempotency_key ?c) (net_remote ?s)" using assms(2) by (simp add: keys_unused_def)
  have breaker: "current_state (net_breaker ?s) = CLOSED" "consecutive_failures (net_breaker ?s) = 0"
    by (simp_all add: new_breaker_def)
  from charge_outcome_of_card[OF breaker send unused assms(3), of draw] obtain r t v where
    r: "gateway_charge default_gateway_options draw (mock_fetch env) ?c ?s = (r, t)"
    "(res_status r, res_failure_code r, v) = charge_verdict (card_last4 (cmd_card_number ?c))" by (meson order_refl)
  then have "charge_verdict (card_last4 (tc_card_number c)) = (res_status r, res_failure_code r, v)"
    by (metis build_command_sel(1))
  then show matches
    using assms(1,4) r(1) by (simp add: check_card_def Let_def expects_verdict_def)
  have s1: "s1 = snd (gateway_charge default_gateway_options draw (mock_fetch env) ?c ?s)"
    using assms(4) r(1) by (simp add: check_card_def Let_def)
  show "keys_unused c' (net_remote s1)"
    if "length (tc_card_number c') = 16" "tc_card_number c' \<noteq> tc_card_number c" "keys_unused c' (net_remote s)"
    unfolding keys_unused_def
  proof
    fix u
    let ?k = "cmd_idempotency_key (build_command c' u)"
    have "?k \<noteq> cmd_idempotency_key ?c" using that(1,2) assms(1) by (simp add: expects_verdict_def)
    moreover have "apart (cmd_idempotency_key ?c) ?k (net_remote ?s)"
      using that(3) unused by (simp add: apart_def keys_unused_def unused_key_def)
    ultimately show "unused_key ?k (net_remote s1)" unfolding s1 by (intro gateway_charge_apart send)
  qed
qed

lemma check_cards_match:
  assumes "distinct (map tc_card_number cs)" and "\<forall>c \<in> set cs. expects_verdict c \<and> keys_unused c (net_remote s)"
    and "me_options env = default_mock_options"
  shows "list_all fst (fst (check_cards draw (mock_fetch env) cs s)) \<and>
    length (fst (check_cards draw (mock_fetch env) cs s)) = length cs"
  using assms(1,2)
proof (induction cs arbitrary: s)
  case (Cons c cs)
  obtain b line s1 where first: "check_card draw (mock_fetch env) c s = ((b, line), s1)" by (metis surj_pair)
  have c: "expects_verdict c" "keys_unused c (net_remote s)" using Cons.prems(2) by simp_all
  note one = check_card_matches[OF c assms(3) first]
  have "expects_verdict c' \<and> keys_unused c' (net_remote s1)" if "c' \<in> set cs" for c'
  proof -
    have "tc_card_number c' \<noteq> tc_card_number c" using that Cons.prems(1) by simp (metis imageI)
    with one(2)[of c'] that Cons.prems(2) show ?thesis by (simp add: expects_verdict_def)
  qed
  with Cons.IH[of s1] Cons.prems(1) one(1) first show ?case by (auto split: prod.splits)
qed simp

lemma test_cards_expect: "\<forall>c \<in> set TEST_CARDS. expects_verdict c"
  by code_simp

text \<open>
  The payments check. Against a provider with its default options that has not seen the keys of the
  check, at any time and with any jitter, every one of the four cards gets its expected outcome, one
  line is printed for each, and the script passes.
\<close>

lemma payments_check_passes:
  assumes "me_options env = default_mock_options" and "\<forall>c \<in> set TEST_CARDS. keys_unused c (net_remote s)"
  shows "\<exists>lines. fst (payments_check draw (mock_fetch env) s) = (lines @ [''payments-check PASSED''], 0) \<and> length lines = 4"
proof -
  have "distinct (map tc_card_number TEST_CARDS)" by (simp add: TEST_CARDS_def)
  from check_cards_match[OF this _ assms(1), of s draw] assms(2) test_cards_expect
  have "list_all fst (fst (check_cards draw (mock_fetch env) TEST_CARDS s))"
    "length (fst (check_cards draw (mock_fetch env) TEST_CARDS s)) = 4" by (auto simp: TEST_CARDS_def)
  then show ?thesis by (simp add: payments_check_def split_beta Let_def)
qed

end
