(* ===== verification/Events_Check.thy ===== *)
theory Events_Check
  imports Seed Job_Runner
begin

section \<open>The events check\<close>

text \<open>
  \<^verbatim>\<open>src/scripts/events-check.ts\<close>: a confirmed order is inserted, \<open>order.confirmed\<close> is published through
  \<open>Events\<close>, and the rows pg-boss shows for its jobs are polled until all have settled. The running
  worker is \<open>Job_Runner\<close> on the handlers of \<open>Jobs\<close>: a list of deliveries, in any order and repeated at
  will, between which other sessions commit. What the \<open>k\<close>-th poll shows, and when, are arguments;
  \<open>boss_reports\<close> is what pg-boss promises of them. Connections and printed lines are not modelled.
\<close>

subsection \<open>The script\<close>

definition TIMEOUT_MS :: int where "TIMEOUT_MS = 45000"
definition POLL_INTERVAL_MS :: int where "POLL_INTERVAL_MS = 1000"

definition EVENTS_CUSTOMER_ID :: uuid where
  "EVENTS_CUSTOMER_ID = ''e0000000-0000-0000-0000-000000000001''"

definition EVENTS_WAREHOUSE_ID :: uuid where
  "EVENTS_WAREHOUSE_ID = ''e0000000-0000-0000-0000-000000000002''"

definition events_customer :: "timestamp \<Rightarrow> customer_row" where
  "events_customer now = \<lparr>cust_id = EVENTS_CUSTOMER_ID, cust_email = ''events-check@example.com'',
     cust_full_name = ''Events Check Customer'', cust_phone = None, cust_created_at = now, cust_updated_at = now,
     cust_deleted_at = None\<rparr>"

definition events_warehouse :: "timestamp \<Rightarrow> warehouse_row" where
  "events_warehouse now = \<lparr>wh_id = EVENTS_WAREHOUSE_ID, wh_name = ''Events Check WH'', wh_address = JObj [],
     wh_location = \<lparr>latitude = double_of 40.7128, longitude = double_of (- 74.006)\<rparr>, wh_is_active = True,
     wh_created_at = now, wh_updated_at = now, wh_deleted_at = None\<rparr>"

definition events_order :: "timestamp \<Rightarrow> uuid \<Rightarrow> nat \<Rightarrow> order_row" where
  "events_order now oid number = \<lparr>row_id = oid, row_number = ''CNL-EC-'' @ show_nat number,
     row_customer = EVENTS_CUSTOMER_ID, row_warehouse = Some EVENTS_WAREHOUSE_ID, row_status = CONFIRMED,
     row_currency = ''USD'', row_total_cents = 1000,
     row_address = \<lparr>recipient = None, line1 = Some ''1 Test Way'', line2 = None, city = Some ''Test City'', state = None,
       postal_code = None, country = Some ''US''\<rparr>,
     row_location = (double_of (- 74.006), double_of 40.7128), row_reservation_expires_at = None,
     row_confirmed_at = None, row_cancelled_at = None, row_cancellation_reason = None,
     row_created_at = now, row_updated_at = now\<rparr>"

definition seed_fixture_order :: "timestamp \<Rightarrow> uuid \<Rightarrow> nat \<Rightarrow> db \<Rightarrow> app_error + db" where
  "seed_fixture_order now oid number = foldR (\<lambda>statement. statement)
     [insert_customer (events_customer now), insert_warehouse (events_warehouse now), insert_order (events_order now oid number)]"

text \<open>What \<open>main\<close> does before it polls, the set-up of the queues apart.\<close>

definition publish_fixture :: "tx_env \<Rightarrow> timestamp \<Rightarrow> uuid \<Rightarrow> nat \<Rightarrow> timestamp \<Rightarrow> db \<Rightarrow> app_error + db" where
  "publish_fixture env now oid number occurred d =
     bindR (seed_fixture_order now oid number d)
       (publish env ''order.confirmed'' \<lparr>payload_order_id = oid, payload_occurred_at = occurred\<rparr>)"

text \<open>A row of \<open>pgboss.job\<close>: queue and state. A \<open>Map\<close> keeps the last of two rows with one key.\<close>

type_synonym job_rows = "(string \<times> string) list"

definition settled_state :: "string option \<Rightarrow> bool" where
  "settled_state st \<longleftrightarrow> st = Some ''completed'' \<or> st = Some ''failed'' \<or> st = Some ''cancelled''"

definition all_settled :: "string list \<Rightarrow> job_rows \<Rightarrow> bool" where
  "all_settled queues rows \<longleftrightarrow> list_all (\<lambda>q. settled_state (map_of (rev rows) q)) queues"

partial_function (option) poll_jobs ::
  "string list \<Rightarrow> (nat \<Rightarrow> job_rows) \<Rightarrow> (nat \<Rightarrow> int) \<Rightarrow> int \<Rightarrow> nat \<Rightarrow> (app_error + job_rows) option" where
  "poll_jobs queues shown clock deadline k =
    (if all_settled queues (shown k) then Some (Inr (shown k))
     else if deadline < clock k
     then Some (Inl (JsError (''Timed out after '' @ show_int TIMEOUT_MS @ ''ms waiting for jobs to settle. Last seen: '' @
       js_join '', '' (map (\<lambda>q. q @ ''='' @ (case map_of (rev (shown k)) q of None \<Rightarrow> ''missing'' | Some st \<Rightarrow> st)) queues))))
     else poll_jobs queues shown clock deadline (Suc k))"

definition events_problems :: "string list \<Rightarrow> job_rows \<Rightarrow> shipment_row list \<Rightarrow> string list" where
  "events_problems queues rows shipped =
     concat (map (\<lambda>q. case find (\<lambda>(n, st). n = q) rows of
         Some (n, st) \<Rightarrow> if st \<noteq> ''completed'' then [q @ '': expected state \"completed\", got \"'' @ st @ ''\"''] else []
       | None \<Rightarrow> [q @ '': expected state \"completed\", got \"missing\"'']) queues) @
     (if shipped = [] then [''expected exactly one shipment row, got none''] else [])"

text \<open>The database when the shipment is looked for is an argument, as are the polls.\<close>

definition events_queues :: "string list" where
  "events_queues = (case event_routing ''order.confirmed'' of Some qs \<Rightarrow> qs | None \<Rightarrow> [])"

definition events_check ::
  "(nat \<Rightarrow> job_rows) \<Rightarrow> (nat \<Rightarrow> int) \<Rightarrow> int \<Rightarrow> uuid \<Rightarrow> db \<Rightarrow> (app_error + string list) option" where
  "events_check shown clock started_at oid d =
    Option.bind (poll_jobs events_queues shown clock (started_at + TIMEOUT_MS) 0) (\<lambda>r.
      Some (bindR r (\<lambda>rows. Inr (events_problems events_queues rows
        (filter (\<lambda>x. shp_order x = oid) (shipments d))))))"

subsection \<open>Polling ends\<close>

text \<open>A poll waits for the interval, so the deadline is passed after at most 46 waits.\<close>

lemma poll_jobs_returns:
  assumes "started_at \<le> clock 0" and "\<And>k. clock k + POLL_INTERVAL_MS \<le> clock (Suc k)"
  shows "\<exists>r. poll_jobs queues shown clock (started_at + TIMEOUT_MS) 0 = Some r \<and>
    (\<forall>rows. r = Inr rows \<longrightarrow> (\<exists>k \<le> 46. rows = shown k \<and> all_settled queues rows)) \<and>
    (\<forall>e. r = Inl e \<longrightarrow> (\<exists>k. started_at + TIMEOUT_MS < clock k \<and> (\<forall>i \<le> k. \<not> all_settled queues (shown i))))"
proof -
  let ?dl = "started_at + TIMEOUT_MS"
  have late: "started_at + 1000 * int k \<le> clock k" for k
  proof (induction k)
    case (Suc k)
    with assms(2)[of k] show ?case by (simp add: POLL_INTERVAL_MS_def)
  qed (use assms(1) in simp)
  have "\<exists>r. poll_jobs queues shown clock ?dl k = Some r \<and>
      (\<forall>rows. r = Inr rows \<longrightarrow> (\<exists>k \<le> 46. rows = shown k \<and> all_settled queues rows)) \<and>
      (\<forall>e. r = Inl e \<longrightarrow> (\<exists>k. ?dl < clock k \<and> (\<forall>i \<le> k. \<not> all_settled queues (shown i))))"
    if "k \<le> 46" "\<forall>i < k. \<not> all_settled queues (shown i)" for k
    using that
  proof (induction "46 - k" arbitrary: k)
    case 0
    then have "k = 46" by simp
    moreover from late[of 46] have "?dl < clock 46" by (simp add: TIMEOUT_MS_def)
    ultimately show ?case
      using 0(3) by (subst poll_jobs.simps) (auto simp: le_less)
  next
    case (Suc x)
    from Suc(2) have k: "x = 46 - Suc k" "Suc k \<le> 46" by simp_all
    show ?case
    proof (cases "all_settled queues (shown k) \<or> ?dl < clock k")
      case True
      with Suc.prems show ?thesis by (subst poll_jobs.simps) (auto simp: le_less)
    next
      case False
      with Suc.prems(2) have "\<forall>i < Suc k. \<not> all_settled queues (shown i)" by (auto simp: less_Suc_eq)
      from Suc(1)[OF k this] False show ?thesis by (subst poll_jobs.simps) simp
    qed
  qed
  from this[of 0] show ?thesis by simp
qed

lemma poll_jobs_settles:
  assumes "started_at \<le> clock 0" and step: "\<And>k. clock k + POLL_INTERVAL_MS \<le> clock (Suc k)"
    and "all_settled queues (shown m)" and "clock m \<le> started_at + TIMEOUT_MS"
  shows "\<exists>k. poll_jobs queues shown clock (started_at + TIMEOUT_MS) 0 = Some (Inr (shown k)) \<and> all_settled queues (shown k)"
proof -
  from poll_jobs_returns[where clock = clock, OF assms(1) step, of queues shown] obtain r where
    r: "poll_jobs queues shown clock (started_at + TIMEOUT_MS) 0 = Some r"
    "\<And>rows. r = Inr rows \<Longrightarrow> \<exists>k. rows = shown k \<and> all_settled queues rows"
    "\<And>e. r = Inl e \<Longrightarrow> \<exists>k. started_at + TIMEOUT_MS < clock k \<and> (\<forall>i \<le> k. \<not> all_settled queues (shown i))" by blast
  have "clock k \<le> clock (Suc k)" for k using step[of k] by (simp add: POLL_INTERVAL_MS_def)
  then have mono: "i \<le> j \<Longrightarrow> clock i \<le> clock j" for i j by (rule lift_Suc_mono_le)
  show ?thesis
  proof (cases r)
    case (Inl e)
    from r(3)[OF this] obtain k where "started_at + TIMEOUT_MS < clock k" "\<forall>i \<le> k. \<not> all_settled queues (shown i)" by blast
    with assms(3,4) mono[of k m] show ?thesis by (metis leD nle_le order_trans)
  qed (use r(1,2) in blast)
qed

subsection \<open>The worker\<close>

record handed_job =
  hj_job :: job
  hj_id :: uuid
  hj_retry_count :: nat
  hj_retry_limit :: nat
  hj_shipment_env :: shipment_env
  hj_others :: "db \<Rightarrow> db" \<comment> \<open>what other sessions commit before it\<close>

definition runner_db :: "('g worker, 'c) runner \<Rightarrow> db" where
  "runner_db s = w_db (wk_world (rn_state s))"

definition set_runner_db :: "db \<Rightarrow> ('g worker, 'c) runner \<Rightarrow> ('g worker, 'c) runner" where
  "set_runner_db d s = s\<lparr>rn_state := (rn_state s)\<lparr>wk_world := (wk_world (rn_state s))\<lparr>w_db := d\<rparr>\<rparr>\<rparr>"

text \<open>A job goes to the handler of its queue.\<close>

definition hand_over ::
  "'c runner_env \<Rightarrow> job_env \<Rightarrow> (string \<Rightarrow> 'g \<Rightarrow> charge_result \<times> 'g) \<Rightarrow> handed_job \<Rightarrow> ('g worker, 'c) runner \<Rightarrow>
   (app_error + unit) \<times> ('g worker, 'c) runner" where
  "hand_over renv jenv get_status x s =
    (let s1 = set_runner_db (hj_others x (runner_db s)) s;
         q = job_queue (hj_job x) in
     case find (\<lambda>h. handler_queue h = q) (worker_handlers (hj_shipment_env x) jenv get_status) of
       Some (OnOrder _ handle) \<Rightarrow>
         run_job renv q handle (delivery_of (hj_id x) (hj_retry_count x) (hj_retry_limit x) (hj_job x)) s1
     | _ \<Rightarrow> (Inl (JsError ''no handler''), s1))"

fun hand_over_all ::
  "'c runner_env \<Rightarrow> job_env \<Rightarrow> (string \<Rightarrow> 'g \<Rightarrow> charge_result \<times> 'g) \<Rightarrow> handed_job list \<Rightarrow> ('g worker, 'c) runner \<Rightarrow>
   (string \<times> (app_error + unit)) list \<times> ('g worker, 'c) runner" where
  "hand_over_all renv jenv get_status [] s = ([], s)"
| "hand_over_all renv jenv get_status (x # xs) s =
    (case hand_over renv jenv get_status x s of (r, s1) \<Rightarrow>
       (case hand_over_all renv jenv get_status xs s1 of (rs, s2) \<Rightarrow> ((job_queue (hj_job x), r) # rs, s2)))"

text \<open>The order can be shipped, and its shipments.\<close>

definition shippable :: "uuid \<Rightarrow> uuid \<Rightarrow> db \<Rightarrow> bool" where
  "shippable oid w d \<longleftrightarrow> (\<exists>r. find_order d oid = Some r \<and> row_warehouse r = Some w) \<and>
     w \<in> wh_id ` set (warehouses d) \<and> distinct (map shp_order (shipments d))"

definition shipments_of :: "uuid \<Rightarrow> db \<Rightarrow> shipment_row list" where
  "shipments_of oid d = filter (\<lambda>x. shp_order x = oid) (shipments d)"

text \<open>Other sessions ship other orders, under identifiers of their own.\<close>

definition leaves_order :: "uuid \<Rightarrow> uuid set \<Rightarrow> (db \<Rightarrow> db) \<Rightarrow> bool" where
  "leaves_order oid ids f \<longleftrightarrow> (\<forall>w d. shippable oid w d \<longrightarrow> shippable oid w (f d) \<and> shipments_of oid (f d) = shipments_of oid d \<and>
     shp_id ` set (shipments (f d)) \<inter> ids \<subseteq> shp_id ` set (shipments d))"

lemma shipments_of_short:
  assumes "shippable oid w d" and "shipments_of oid d \<noteq> []"
  shows "\<exists>x. shipments_of oid d = [x]"
proof -
  have "\<exists>x. filter (\<lambda>x. shp_order x = oid) xs = [x]"
    if "distinct (map shp_order xs)" "filter (\<lambda>x. shp_order x = oid) xs \<noteq> []" for xs
    using that by (induction xs) (auto simp: filter_empty_conv image_iff)
  from this[of "shipments d"] assms show ?thesis by (simp add: shippable_def shipments_of_def)
qed

lemma create_shipment_effect:
  assumes "shippable oid w d" and "sh_id env \<notin> shp_id ` set (shipments d)"
  obtains d' where "create_shipment_for_order env oid d = Inr d'" and "shippable oid w d'"
    and "shipments_of oid d' \<noteq> []" and "shipments_of oid d \<noteq> [] \<Longrightarrow> shipments_of oid d' = shipments_of oid d"
    and "shp_id ` set (shipments d') \<subseteq> insert (sh_id env) (shp_id ` set (shipments d))"
proof -
  from assms(1) obtain r where r: "find_order d oid = Some r" "row_warehouse r = Some w" "w \<in> wh_id ` set (warehouses d)"
    "distinct (map shp_order (shipments d))" by (auto simp: shippable_def)
  show thesis
  proof (cases "oid \<in> shp_order ` set (shipments d)")
    case True
    then have "shipments_of oid d \<noteq> []" by (auto simp: shipments_of_def filter_empty_conv)
    moreover have "create_shipment_for_order env oid d = Inr d"
      using r assms(2) True by (simp add: create_shipment_for_order_def insert_shipment_def Let_def)
    ultimately show thesis using assms(1) by (intro that[of d]) auto
  next
    case False
    then obtain x where x: "create_shipment_for_order env oid d = Inr (d\<lparr>shipments := shipments d @ [x]\<rparr>)"
      "shp_order x = oid" "shp_id x = sh_id env"
      using r assms(2) by (simp add: create_shipment_for_order_def insert_shipment_def Let_def)
    have "shipments_of oid d = []" using False by (auto simp: shipments_of_def filter_empty_conv)
    moreover have "shippable oid w (d\<lparr>shipments := shipments d @ [x]\<rparr>)"
      using r False x(2) by (auto simp: shippable_def find_order_def)
    ultimately show thesis
      using x by (intro that[of "d\<lparr>shipments := shipments d @ [x]\<rparr>"]) (auto simp: shipments_of_def)
  qed
qed

lemma runner_db_set [simp]: "runner_db (set_runner_db d s) = d"
  by (simp add: runner_db_def set_runner_db_def)

text \<open>One delivery of one of the three jobs.\<close>

lemma hand_over_effect:
  assumes "job_queue (hj_job x) \<in> set events_queues" and "payload_order_id (job_payload (hj_job x)) = oid"
    and "shippable oid w (runner_db s)" and "leaves_order oid ids (hj_others x)"
    and "sh_id (hj_shipment_env x) \<in> ids" and "sh_id (hj_shipment_env x) \<notin> shp_id ` set (shipments (runner_db s))"
    and "hand_over renv jenv get_status x s = (r, s')"
  shows "r = Inr ()" and "shippable oid w (runner_db s')"
    and "shipments_of oid (runner_db s) \<noteq> [] \<Longrightarrow> shipments_of oid (runner_db s') = shipments_of oid (runner_db s)"
    and "job_queue (hj_job x) = ''shipment.create'' \<Longrightarrow> shipments_of oid (runner_db s') \<noteq> []"
    and "shp_id ` set (shipments (runner_db s')) \<inter> ids \<subseteq>
      insert (sh_id (hj_shipment_env x)) (shp_id ` set (shipments (runner_db s)))"
proof -
  let ?d = "hj_others x (runner_db s)" and ?q = "job_queue (hj_job x)"
  let ?s = "set_runner_db ?d s"
  from assms(3,4) have d: "shippable oid w ?d" "shipments_of oid ?d = shipments_of oid (runner_db s)"
    "shp_id ` set (shipments ?d) \<inter> ids \<subseteq> shp_id ` set (shipments (runner_db s))"
    by (auto simp: leaves_order_def)
  then have fresh: "sh_id (hj_shipment_env x) \<notin> shp_id ` set (shipments ?d)" using assms(5,6) by blast
  from assms(1) consider (ship) "?q = ''shipment.create''" | (notify) "?q = ''customer.notify''" | (analytics) "?q = ''analytics.record''"
    by (auto simp: events_queues_def event_routing_def)
  then have "r = Inr () \<and> shippable oid w (runner_db s') \<and>
    (shipments_of oid ?d \<noteq> [] \<longrightarrow> shipments_of oid (runner_db s') = shipments_of oid ?d) \<and>
    (?q = ''shipment.create'' \<longrightarrow> shipments_of oid (runner_db s') \<noteq> []) \<and>
    shp_id ` set (shipments (runner_db s')) \<subseteq> insert (sh_id (hj_shipment_env x)) (shp_id ` set (shipments ?d))"
  proof cases
    case ship
    obtain d' where d': "create_shipment_for_order (hj_shipment_env x) oid ?d = Inr d'" "shippable oid w d'"
      "shipments_of oid d' \<noteq> []" "shipments_of oid ?d \<noteq> [] \<Longrightarrow> shipments_of oid d' = shipments_of oid ?d"
      "shp_id ` set (shipments d') \<subseteq> insert (sh_id (hj_shipment_env x)) (shp_id ` set (shipments ?d))"
      using create_shipment_effect[OF d(1) fresh] by blast
    have run: "run_job renv ?q (\<lambda>c. shipment_create (hj_shipment_env x))
        (delivery_of (hj_id x) (hj_retry_count x) (hj_retry_limit x) (hj_job x)) ?s = (r, s')"
      using assms(7) ship by (simp add: hand_over_def worker_handlers_def Let_def)
    from run_job_outcome(1)[OF run] have step: "shipment_create (hj_shipment_env x) (job_payload (hj_job x)) (rn_state ?s) = (r, rn_state s')"
      by simp
    then have "r = fst (shipment_create (hj_shipment_env x) (job_payload (hj_job x)) (rn_state ?s))"
      "runner_db s' = w_db (wk_world (snd (shipment_create (hj_shipment_env x) (job_payload (hj_job x)) (rn_state ?s))))"
      by (simp_all add: runner_db_def)
    then have "r = Inr ()" "runner_db s' = d'"
      using d'(1) assms(2) by (simp_all add: shipment_create_def in_transaction_def set_runner_db_def)
    with d' show ?thesis by simp
  next
    case notify
    have run: "run_job renv ?q (\<lambda>c. customer_notify)
        (delivery_of (hj_id x) (hj_retry_count x) (hj_retry_limit x) (hj_job x)) ?s = (r, s')"
      using assms(7) notify by (simp add: hand_over_def worker_handlers_def Let_def)
    from run_job_outcome(1)[OF run] have step: "customer_notify (job_payload (hj_job x)) (rn_state ?s) = (r, rn_state s')" by simp
    from arg_cong[OF step, of fst] arg_cong[OF step, of "\<lambda>p. w_db (wk_world (snd p))"]
    have "r = Inr ()" "runner_db s' = ?d" by (simp_all add: customer_notify_def runner_db_def set_runner_db_def)
    with d notify show ?thesis by auto
  next
    case analytics
    have run: "run_job renv ?q (\<lambda>c. analytics_record)
        (delivery_of (hj_id x) (hj_retry_count x) (hj_retry_limit x) (hj_job x)) ?s = (r, s')"
      using assms(7) analytics by (simp add: hand_over_def worker_handlers_def Let_def)
    from run_job_outcome(1)[OF run] have step: "analytics_record (job_payload (hj_job x)) (rn_state ?s) = (r, rn_state s')" by simp
    from arg_cong[OF step, of fst] arg_cong[OF step, of "\<lambda>p. w_db (wk_world (snd p))"]
    have "r = Inr ()" "runner_db s' = ?d" by (simp_all add: analytics_record_def runner_db_def set_runner_db_def)
    with d analytics show ?thesis by auto
  qed
  note result = this
  show "r = Inr ()" and "shippable oid w (runner_db s')" using result by blast+
  show "shipments_of oid (runner_db s') = shipments_of oid (runner_db s)" if "shipments_of oid (runner_db s) \<noteq> []"
    using result that unfolding d(2) by blast
  show "shipments_of oid (runner_db s') \<noteq> []" if "?q = ''shipment.create''" using result that by blast
  show "shp_id ` set (shipments (runner_db s')) \<inter> ids \<subseteq>
      insert (sh_id (hj_shipment_env x)) (shp_id ` set (shipments (runner_db s)))" using result d(3) by blast
qed

lemma hand_over_all_effect:
  assumes "\<forall>x \<in> set xs. job_queue (hj_job x) \<in> set events_queues \<and> payload_order_id (job_payload (hj_job x)) = oid \<and>
      leaves_order oid ids (hj_others x) \<and> sh_id (hj_shipment_env x) \<in> ids"
    and "distinct (map (\<lambda>x. sh_id (hj_shipment_env x)) xs)" and "shippable oid w (runner_db s)"
    and "\<forall>x \<in> set xs. sh_id (hj_shipment_env x) \<notin> shp_id ` set (shipments (runner_db s))"
    and "hand_over_all renv jenv get_status xs s = (results, s')"
  shows "results = map (\<lambda>x. (job_queue (hj_job x), Inr ())) xs \<and> shippable oid w (runner_db s') \<and>
    (shipments_of oid (runner_db s) \<noteq> [] \<longrightarrow> shipments_of oid (runner_db s') = shipments_of oid (runner_db s)) \<and>
    (''shipment.create'' \<in> (\<lambda>x. job_queue (hj_job x)) ` set xs \<longrightarrow> shipments_of oid (runner_db s') \<noteq> [])"
  using assms
proof (induction xs arbitrary: s results)
  case (Cons x xs)
  obtain r s1 where first: "hand_over renv jenv get_status x s = (r, s1)" by fastforce
  obtain rs where others: "hand_over_all renv jenv get_status xs s1 = (rs, s')" "results = (job_queue (hj_job x), r) # rs"
    using Cons.prems(5) first by (auto split: prod.splits)
  have x: "job_queue (hj_job x) \<in> set events_queues" "payload_order_id (job_payload (hj_job x)) = oid"
    "leaves_order oid ids (hj_others x)" "sh_id (hj_shipment_env x) \<in> ids"
    "sh_id (hj_shipment_env x) \<notin> shp_id ` set (shipments (runner_db s))" using Cons.prems(1,4) by auto
  note one = hand_over_effect[OF x(1,2) Cons.prems(3) x(3-5) first]
  have "\<forall>y \<in> set xs. sh_id (hj_shipment_env y) \<notin> shp_id ` set (shipments (runner_db s1))"
  proof
    fix y assume y: "y \<in> set xs"
    then have "sh_id (hj_shipment_env y) \<in> (\<lambda>x. sh_id (hj_shipment_env x)) ` set xs" by (rule imageI)
    moreover have "sh_id (hj_shipment_env x) \<notin> (\<lambda>x. sh_id (hj_shipment_env x)) ` set xs" using Cons.prems(2) by simp
    ultimately have "sh_id (hj_shipment_env y) \<noteq> sh_id (hj_shipment_env x)" by metis
    moreover have "sh_id (hj_shipment_env y) \<in> ids" "sh_id (hj_shipment_env y) \<notin> shp_id ` set (shipments (runner_db s))"
      using y Cons.prems(1,4) by simp_all
    ultimately show "sh_id (hj_shipment_env y) \<notin> shp_id ` set (shipments (runner_db s1))" using one(5) by blast
  qed
  with Cons.prems(1,2) one(2) others(1) have
    "rs = map (\<lambda>x. (job_queue (hj_job x), Inr ())) xs \<and> shippable oid w (runner_db s') \<and>
     (shipments_of oid (runner_db s1) \<noteq> [] \<longrightarrow> shipments_of oid (runner_db s') = shipments_of oid (runner_db s1)) \<and>
     (''shipment.create'' \<in> (\<lambda>x. job_queue (hj_job x)) ` set xs \<longrightarrow> shipments_of oid (runner_db s') \<noteq> [])"
    by (intro Cons.IH) auto
  note rest = this
  have shipped: "shipments_of oid (runner_db s') = shipments_of oid (runner_db s)" if "shipments_of oid (runner_db s) \<noteq> []"
    using one(3)[OF that] rest that by metis
  have "shipments_of oid (runner_db s') \<noteq> []" if "''shipment.create'' \<in> (\<lambda>x. job_queue (hj_job x)) ` set (x # xs)"
  proof (cases "''shipment.create'' \<in> (\<lambda>x. job_queue (hj_job x)) ` set xs")
    case False
    with that have "job_queue (hj_job x) = ''shipment.create''" by auto
    from one(4)[OF this] rest show ?thesis by metis
  qed (use rest in blast)
  with shipped rest one(1) others(2) show ?case by simp
qed simp

subsection \<open>The check passes\<close>

text \<open>
  What pg-boss promises of the rows it shows, when nobody cancels a job: a published job has one row, it is
  completed only when a delivery of it returned, and it fails only when a delivery of it threw.
\<close>

definition boss_reports :: "(nat \<Rightarrow> job_rows) \<Rightarrow> (string \<times> (app_error + unit)) list \<Rightarrow> bool" where
  "boss_reports shown results \<longleftrightarrow> (\<forall>k. distinct (map fst (shown k)) \<and>
     (\<forall>(q, st) \<in> set (shown k). (st = ''completed'' \<longrightarrow> (q, Inr ()) \<in> set results) \<and>
        (st = ''failed'' \<or> st = ''cancelled'' \<longrightarrow> (\<exists>e. (q, Inl e) \<in> set results))))"

lemma seed_fixture_shippable:
  assumes "seed_fixture_order now oid number d = Inr d'" and "distinct (map shp_order (shipments d))"
  shows "shippable oid EVENTS_WAREHOUSE_ID d'" and "jobs d' = jobs d" and "shipments d' = shipments d"
proof -
  from assms(1) obtain d1 d2 where steps: "insert_customer (events_customer now) d = Inr d1"
    "insert_warehouse (events_warehouse now) d1 = Inr d2" "insert_order (events_order now oid number) d2 = Inr d'"
    by (auto simp: seed_fixture_order_def)
  from steps(1,2) have same: "jobs d2 = jobs d" "shipments d2 = shipments d"
    by (auto simp: insert_customer_def insert_warehouse_def split: if_splits)
  have wh: "EVENTS_WAREHOUSE_ID \<in> wh_id ` set (warehouses d2)"
    using steps(2) by (auto simp: insert_warehouse_def events_warehouse_def split: if_splits)
  from steps(3) have d': "d' = d2\<lparr>orders := orders d2 @ [events_order now oid number]\<rparr>" "\<not> order_exists d2 oid"
    by (auto simp: insert_order_def save_order_def events_order_def split: if_splits)
  from d'(2) have "find (\<lambda>r. row_id r = oid) (orders d2) = None"
    by (simp flip: find_order_def add: find_order_None)
  with wh same assms(2) show "shippable oid EVENTS_WAREHOUSE_ID d'" and "jobs d' = jobs d" and "shipments d' = shipments d"
    by (auto simp: d'(1) shippable_def find_order_def find_append events_order_def)
qed

lemma settled_rows_pass:
  assumes "all_settled queues rows" and "distinct (map fst rows)"
    and "\<And>q st. (q, st) \<in> set rows \<Longrightarrow> st \<noteq> ''failed'' \<and> st \<noteq> ''cancelled''" and "shipped \<noteq> []"
  shows "events_problems queues rows shipped = [] \<and> (\<forall>q \<in> set queues. (q, ''completed'') \<in> set rows)"
proof -
  have done_row: "(q, ''completed'') \<in> set rows" if "q \<in> set queues" for q
  proof -
    from that assms(1) obtain st where "map_of (rev rows) q = Some st" "settled_state (Some st)"
      by (auto simp: all_settled_def list_all_iff settled_state_def)
    moreover from this(1) have "(q, st) \<in> set rows" by (auto dest: map_of_SomeD)
    ultimately show ?thesis using assms(3) by (auto simp: settled_state_def)
  qed
  have "find (\<lambda>(n, st). n = q) rows = Some (q, ''completed'')" if "q \<in> set queues" for q
  proof -
    have "(\<lambda>(n, st). n = q) = (\<lambda>r :: string \<times> string. fst r = q)" by auto
    then show ?thesis
      using find_distinct_key[of fst rows "(q, ''completed'')"] done_row[OF that] assms(2) by simp
  qed
  with done_row assms(4) show ?thesis by (auto simp: events_problems_def)
qed

text \<open>
  C40. A published order is shipped once. When \<open>order.confirmed\<close> is published for the order of the check, its
  jobs are delivered to the worker in any order and as often as pg-boss likes, and other sessions commit in
  between whatever leaves the order alone, then every delivery returns; and if every job settles before the
  deadline, polling ends, exactly one shipment exists and the script finds no problem.
\<close>

theorem events_check_passes:
  assumes "publish_fixture env now oid number occurred d = Inr d1" and "distinct (map shp_order (shipments d))"
    and "sends_append (tx_send env)"
    and "\<forall>x \<in> set xs. hj_job x \<in> set (drop (length (jobs d)) (jobs d1)) \<and> leaves_order oid ids (hj_others x) \<and>
      sh_id (hj_shipment_env x) \<in> ids"
    and "distinct (map (\<lambda>x. sh_id (hj_shipment_env x)) xs)" and "ids \<inter> shp_id ` set (shipments d) = {}"
    and "hand_over_all renv jenv get_status xs s = (results, s')" and "runner_db s = d1"
  shows "(\<forall>(q, r) \<in> set results. r = Inr ()) \<and>
    (boss_reports shown results \<and> started_at \<le> clock 0 \<and> (\<forall>k. clock k + POLL_INTERVAL_MS \<le> clock (Suc k)) \<and>
     (\<exists>k. all_settled events_queues (shown k) \<and> clock k \<le> started_at + TIMEOUT_MS) \<longrightarrow>
     events_check shown clock started_at oid (runner_db s') = Some (Inr []) \<and>
     (\<exists>x. shipments_of oid (runner_db s') = [x]))"
proof -
  from assms(1) obtain d0 where seeded: "seed_fixture_order now oid number d = Inr d0" and published:
    "publish env ''order.confirmed'' \<lparr>payload_order_id = oid, payload_occurred_at = occurred\<rparr> d0 = Inr d1"
    by (auto simp: publish_fixture_def)
  note fixture = seed_fixture_shippable[OF seeded assms(2)]
  have d1: "d1 = d0\<lparr>jobs := jobs d0 @ map (job_for env \<lparr>payload_order_id = oid, payload_occurred_at = occurred\<rparr>) events_queues\<rparr>"
    using publish_confirmed_Inr[OF assms(3) published] by (simp add: events_queues_def event_routing_def)
  have ship: "shippable oid EVENTS_WAREHOUSE_ID (runner_db s)"
    using fixture(1) by (simp add: assms(8) d1 shippable_def find_order_def)
  have jobs: "\<forall>x \<in> set xs. job_queue (hj_job x) \<in> set events_queues \<and> payload_order_id (job_payload (hj_job x)) = oid \<and>
      leaves_order oid ids (hj_others x) \<and> sh_id (hj_shipment_env x) \<in> ids"
    using assms(4) fixture(2) by (auto simp: d1)
  have "\<forall>x \<in> set xs. sh_id (hj_shipment_env x) \<notin> shp_id ` set (shipments (runner_db s))"
    using assms(4,6) fixture(3) by (auto simp: assms(8) d1)
  note run = hand_over_all_effect[OF jobs assms(5) ship this assms(7)]
  have passes: "events_check shown clock started_at oid (runner_db s') = Some (Inr []) \<and> (\<exists>x. shipments_of oid (runner_db s') = [x])"
    if boss: "boss_reports shown results" and clock: "started_at \<le> clock 0" "\<forall>k. clock k + POLL_INTERVAL_MS \<le> clock (Suc k)"
      and settles: "all_settled events_queues (shown m)" "clock m \<le> started_at + TIMEOUT_MS" for m
  proof -
    from poll_jobs_settles[where clock = clock and shown = shown and m = m, OF clock(1) clock(2)[rule_format] settles] obtain k where
      r: "poll_jobs events_queues shown clock (started_at + TIMEOUT_MS) 0 = Some (Inr (shown k))"
      and k: "all_settled events_queues (shown k)" by blast
    let ?rows = "shown k"
    from boss have rows_ok: "distinct (map fst ?rows)"
      "\<And>q st. (q, st) \<in> set ?rows \<Longrightarrow> st = ''completed'' \<Longrightarrow> (q, Inr ()) \<in> set results"
      "\<And>q st. (q, st) \<in> set ?rows \<Longrightarrow> st \<noteq> ''failed'' \<and> st \<noteq> ''cancelled''"
      using run by (fastforce simp: boss_reports_def)+
    from settled_rows_pass[OF k rows_ok(1,3), where shipped = "[undefined]"]
    have "(''shipment.create'', ''completed'') \<in> set ?rows" by (simp add: events_queues_def event_routing_def)
    from rows_ok(2)[OF this refl] run have "shipments_of oid (runner_db s') \<noteq> []" by auto
    with settled_rows_pass[OF k rows_ok(1,3) this] shipments_of_short[OF _ this] run r show ?thesis
      by (auto simp: events_check_def shipments_of_def)
  qed
  from run passes show ?thesis by auto
qed

definition sample_handed :: "handed_job list" where
  "sample_handed = map (\<lambda>(q, i). \<lparr>hj_job = job_for sample_env \<lparr>payload_order_id = ''o9'', payload_occurred_at = 0\<rparr> q,
     hj_id = i, hj_retry_count = 0, hj_retry_limit = 4, hj_shipment_env = sample_shipment_env\<lparr>sh_id := i\<rparr>,
     hj_others = (\<lambda>d. d)\<rparr>)
     [(''analytics.record'', ''j1''), (''shipment.create'', ''j2''), (''customer.notify'', ''j3''), (''shipment.create'', ''j4'')]"

theorem events_check_passes_witness:
  "\<exists>d1 s'. publish sample_env ''order.confirmed'' \<lparr>payload_order_id = ''o9'', payload_occurred_at = 0\<rparr>
       (empty_db\<lparr>customers := [events_customer 0], warehouses := [events_warehouse 0], orders := [events_order 0 ''o9'' 1]\<rparr>) = Inr d1 \<and>
     s' = snd (hand_over_all sample_runner_env sample_job_env (sample_status PS_CAPTURED) sample_handed
       \<lparr>rn_state = worker_on d1 0, rn_spans = [], rn_warnings = []\<rparr>) \<and>
     events_check (\<lambda>k. map (\<lambda>q. (q, ''completed'')) events_queues) (\<lambda>k. 1000 * int k) 0 ''o9'' (runner_db s') = Some (Inr [])"
proof -
  let ?d0 = "empty_db\<lparr>customers := [events_customer 0], warehouses := [events_warehouse 0], orders := [events_order 0 ''o9'' 1]\<rparr>"
  let ?p = "\<lparr>payload_order_id = ''o9'', payload_occurred_at = 0\<rparr>" and ?ids = "{''j1'', ''j2'', ''j3'', ''j4''}"
  let ?shown = "\<lambda>k :: nat. map (\<lambda>q. (q, ''completed'')) events_queues" and ?clock = "\<lambda>k. 1000 * int k"
  have queues: "events_queues = [''shipment.create'', ''customer.notify'', ''analytics.record'']"
    by (simp add: events_queues_def event_routing_def)
  have seeded: "seed_fixture_order 0 ''o9'' 1 empty_db = Inr ?d0"
    by (simp add: seed_fixture_order_def insert_customer_def insert_warehouse_def insert_order_def save_order_def
        order_exists_def orders_fk_ok_def events_order_def events_customer_def events_warehouse_def empty_db_def in_int8_def)
  have send: "sends_append (tx_send sample_env)" "tx_send sample_env = plain_send" by (simp_all add: sample_env_def)
  obtain d1 where d1: "publish sample_env ''order.confirmed'' ?p ?d0 = Inr d1" "jobs d1 = map (job_for sample_env ?p) events_queues"
    by (simp add: publish_plain[OF send(2)] queues empty_db_def)
  let ?s = "\<lparr>rn_state = worker_on d1 (0 :: nat), rn_spans = [], rn_warnings = []\<rparr> :: (nat worker, unit) runner"
  obtain results s' where run: "hand_over_all sample_runner_env sample_job_env (sample_status PS_CAPTURED) sample_handed ?s = (results, s')"
    by fastforce
  have jobs: "\<forall>x \<in> set sample_handed. hj_job x \<in> set (drop (length (jobs empty_db)) (jobs d1)) \<and>
      leaves_order ''o9'' ?ids (hj_others x) \<and> sh_id (hj_shipment_env x) \<in> ?ids"
    by (simp add: sample_handed_def d1(2) queues empty_db_def leaves_order_def)
  have new: "distinct (map (\<lambda>x. sh_id (hj_shipment_env x)) sample_handed)" "?ids \<inter> shp_id ` set (shipments empty_db) = {}"
    "distinct (map shp_order (shipments empty_db))" "runner_db ?s = d1"
    by (simp_all add: sample_handed_def empty_db_def runner_db_def worker_on_def)
  have "publish_fixture sample_env 0 ''o9'' 1 0 empty_db = Inr d1" unfolding publish_fixture_def seeded bindR_simps by (rule d1(1))
  note check = events_check_passes[OF this new(3) send(1) jobs new(1,2) run new(4)]
  have "map fst results = map (\<lambda>x. job_queue (hj_job x)) sample_handed"
    using run by (simp add: sample_handed_def split: prod.splits) auto
  then have "set (map fst results) = set events_queues" by (simp add: sample_handed_def queues insert_commute)
  with check have returned: "(q, Inr ()) \<in> set results" if "q \<in> set events_queues" for q
    using that by (fastforce simp: image_iff)
  then have "boss_reports ?shown results" by (auto simp: boss_reports_def comp_def queues)
  moreover have "all_settled events_queues (?shown 0)" by (simp add: all_settled_def queues settled_state_def)
  ultimately have "events_check ?shown ?clock 0 ''o9'' (runner_db s') = Some (Inr [])"
    using check[of ?shown 0 ?clock] by (auto simp: POLL_INTERVAL_MS_def TIMEOUT_MS_def intro!: exI[of _ 0])
  with d1(1) run show ?thesis by (metis snd_conv)
qed

end
