(* ===== verification/Health.thy ===== *)
theory Health
  imports Job_Runner Config
begin

section \<open>Health of the two processes\<close>

text \<open>
  \<^verbatim>\<open>src/infrastructure/health/\<close>: the probes of the api, the indicator of the queue and the healthcheck
  of the worker, with what \<^verbatim>\<open>src/main.worker.ts\<close> makes of a start that throws and the parts of
  \<^verbatim>\<open>src/infrastructure/observability/tracing.ts\<close> that depend on the process. Terminus and PostgreSQL are
  not part of the program: \<open>HealthCheckService.check\<close> is the argument \<open>check\<close>, and \<open>terminus\<close> is what its
  documentation promises.
\<close>

subsection \<open>The probes of the api\<close>

datatype health_indicator = Up string | Down string string \<comment> \<open>the key, the message\<close>

definition queue_ping_check :: "(string \<Rightarrow> app_error + 'q) \<Rightarrow> string \<Rightarrow> health_indicator" where
  "queue_ping_check get_queue key =
    (case get_queue ''shipment.create'' of Inr _ \<Rightarrow> Up key | Inl e \<Rightarrow> Down key (error_message e))"

definition liveness :: "(health_indicator list \<Rightarrow> nat) \<Rightarrow> nat" where
  "liveness check = check []"

definition readiness ::
  "(health_indicator list \<Rightarrow> nat) \<Rightarrow> (string \<Rightarrow> health_indicator) \<Rightarrow> (string \<Rightarrow> app_error + 'q) \<Rightarrow> nat" where
  "readiness check database_ping get_queue =
     check [database_ping ''database'', queue_ping_check get_queue ''queue'']"

text \<open>200 when every indicator is up, 503 otherwise.\<close>

fun is_up :: "health_indicator \<Rightarrow> bool" where
  "is_up (Up _) \<longleftrightarrow> True"
| "is_up (Down _ _) \<longleftrightarrow> False"

definition terminus :: "(health_indicator list \<Rightarrow> nat) \<Rightarrow> bool" where
  "terminus check \<longleftrightarrow> (\<forall>is. check is = (if list_all is_up is then 200 else 503))"

lemma probes:
  assumes "terminus check"
  shows "liveness check = 200"
    and "readiness check database_ping get_queue =
      (if is_up (database_ping ''database'') \<and> (\<exists>q. get_queue ''shipment.create'' = Inr q) then 200 else 503)"
  using assms by (auto simp: terminus_def liveness_def readiness_def queue_ping_check_def split: sum.splits)

subsection \<open>The healthcheck of the worker\<close>

text \<open>The exit code, from the readiness file, the environment and the four answers of the database client.\<close>

record pg_client =
  pg_connects :: "string \<Rightarrow> bool"
  pg_answers :: bool
  pg_ends :: bool

definition worker_healthcheck :: "bool \<Rightarrow> app_error + app_config \<Rightarrow> pg_client \<Rightarrow> nat" where
  "worker_healthcheck ready_file env client =
    (if \<not> ready_file then 1
     else (case env of Inl e \<Rightarrow> 1
       | Inr c \<Rightarrow> if pg_connects client (cf_database_url c) \<and> pg_answers client \<and> pg_ends client then 0 else 1))"

subsection \<open>The telemetry of a process\<close>

record telemetry =
  tm_service_name :: string
  tm_metrics_interval_ms :: "nat option"

definition DLQ_GAUGE_INTERVAL_MS :: nat where "DLQ_GAUGE_INTERVAL_MS = 60000"

definition is_worker :: "string option \<Rightarrow> bool" where
  "is_worker argv1 = (case argv1 of None \<Rightarrow> False | Some path \<Rightarrow> sublist ''main.worker'' path)"

definition sdk_options :: "string option \<Rightarrow> telemetry" where
  "sdk_options argv1 = \<lparr>tm_service_name = (if is_worker argv1 then ''canals-worker'' else ''canals-api''),
     tm_metrics_interval_ms = (if is_worker argv1 then Some DLQ_GAUGE_INTERVAL_MS else None)\<rparr>"

subsection \<open>The life of a worker container\<close>

text \<open>
  What is left of \<open>JobRunner.start\<close> while the process boots, or when it is told to stop before it is
  done: \<open>onApplicationShutdown\<close> does not wait for \<open>start\<close>. A container keeps its files when its process
  ends and is started again; a new container starts without them.
\<close>

datatype worker_phase = Exited | Booting "boss_call list" | Running | Draining "boss_call list"

record container =
  ct_ready_file :: bool
  ct_phase :: worker_phase

definition new_container :: container where
  "new_container = \<lparr>ct_ready_file = False, ct_phase = Exited\<rparr>"

definition after_call :: "boss_call \<Rightarrow> bool \<Rightarrow> bool" where
  "after_call c ready_file = (if c = WriteFile WORKER_READINESS_FILE_PATH then True
     else if c = UnlinkFile WORKER_READINESS_FILE_PATH then False else ready_file)"

text \<open>
  An orderly life has no \<open>SIGKILL\<close> (nor a crash of the process) and no \<open>SIGTERM\<close> before \<open>start\<close> is done.
\<close>

inductive worker_step :: "bool \<Rightarrow> boss_call list \<Rightarrow> container \<Rightarrow> container \<Rightarrow> bool" for orderly calls where
  boot: "worker_step orderly calls \<lparr>ct_ready_file = f, ct_phase = Exited\<rparr> \<lparr>ct_ready_file = f, ct_phase = Booting calls\<rparr>"
| call_returns: "worker_step orderly calls \<lparr>ct_ready_file = f, ct_phase = Booting (c # cs)\<rparr>
    \<lparr>ct_ready_file = after_call c f, ct_phase = (if cs = [] then Running else Booting cs)\<rparr>"
| call_throws: "worker_step orderly calls \<lparr>ct_ready_file = f, ct_phase = Booting cs\<rparr> \<lparr>ct_ready_file = f, ct_phase = Exited\<rparr>"
| sigterm: "worker_step orderly calls \<lparr>ct_ready_file = f, ct_phase = Running\<rparr>
    \<lparr>ct_ready_file = after_call (UnlinkFile WORKER_READINESS_FILE_PATH) f, ct_phase = Draining []\<rparr>"
| stopped: "worker_step orderly calls \<lparr>ct_ready_file = f, ct_phase = Draining cs\<rparr> \<lparr>ct_ready_file = f, ct_phase = Exited\<rparr>"
| recreated: "worker_step orderly calls \<lparr>ct_ready_file = f, ct_phase = Exited\<rparr> new_container"
| early_sigterm: "\<not> orderly \<Longrightarrow> worker_step orderly calls \<lparr>ct_ready_file = f, ct_phase = Booting cs\<rparr>
    \<lparr>ct_ready_file = after_call (UnlinkFile WORKER_READINESS_FILE_PATH) f, ct_phase = Draining cs\<rparr>"
| late_return: "worker_step orderly calls \<lparr>ct_ready_file = f, ct_phase = Draining (c # cs)\<rparr>
    \<lparr>ct_ready_file = after_call c f, ct_phase = Draining cs\<rparr>"
| killed: "\<not> orderly \<Longrightarrow> worker_step orderly calls \<lparr>ct_ready_file = f, ct_phase = p\<rparr> \<lparr>ct_ready_file = f, ct_phase = Exited\<rparr>"

definition worker_life :: "bool \<Rightarrow> nat \<Rightarrow> 's job_handler list \<Rightarrow> container \<Rightarrow> bool" where
  "worker_life orderly interval handlers s \<longleftrightarrow>
     (worker_step orderly (start_calls interval (map handler_queue handlers)))\<^sup>*\<^sup>* new_container s"

subsection \<open>When the worker looks ready\<close>

text \<open>The start makes the readiness file with its last call, and only then.\<close>

definition writes_last :: "boss_call list \<Rightarrow> bool" where
  "writes_last cs \<longleftrightarrow> cs \<noteq> [] \<and> last cs = WriteFile WORKER_READINESS_FILE_PATH \<and>
     (\<forall>c \<in> set (butlast cs). \<forall>f. after_call c f = f)"

lemma writes_last_Cons:
  "writes_last (c # cs) \<Longrightarrow> if cs = [] then after_call c f else writes_last cs \<and> after_call c f = f"
  by (auto simp: writes_last_def after_call_def split: if_splits)

lemma start_writes_last: "writes_last (start_calls interval queues)"
proof -
  let ?init = "[RegisterDlqGauge] @ concat (map (\<lambda>q. [Work q interval, LogWorking q interval]) queues) @
     map (\<lambda>(queue, cron). Schedule queue cron) SCHEDULED_JOBS"
  have calls: "start_calls interval queues = ?init @ [WriteFile WORKER_READINESS_FILE_PATH]"
    by (simp add: start_calls_def)
  have "after_call c f = f" if "c \<in> set ?init" for c f
    using that by (auto simp: SCHEDULED_JOBS_def after_call_def)
  then show ?thesis by (simp only: calls writes_last_def butlast_snoc last_snoc) simp
qed

text \<open>The invariant: a draining process had nothing left to call unless it was told to stop too early.\<close>

definition container_ok :: "bool \<Rightarrow> container \<Rightarrow> bool" where
  "container_ok orderly s \<longleftrightarrow> (case ct_phase s of
     Exited \<Rightarrow> orderly \<longrightarrow> \<not> ct_ready_file s
   | Booting cs \<Rightarrow> writes_last cs \<and> (orderly \<longrightarrow> \<not> ct_ready_file s)
   | Running \<Rightarrow> ct_ready_file s
   | Draining cs \<Rightarrow> orderly \<longrightarrow> cs = [] \<and> \<not> ct_ready_file s)"

lemma container_ok_step:
  assumes "worker_step orderly calls s s'" and "container_ok orderly s" and "writes_last calls"
  shows "container_ok orderly s'"
  using assms
proof (induction rule: worker_step.induct)
  case (call_returns f c cs)
  with writes_last_Cons[of c cs f] show ?case by (auto simp: container_ok_def split: if_splits)
qed (auto simp: container_ok_def new_container_def after_call_def split: worker_phase.splits)

lemma worker_life_ok:
  assumes "worker_life orderly interval handlers s"
  shows "container_ok orderly s"
  using assms[unfolded worker_life_def]
proof (induction rule: rtranclp_induct)
  case base
  then show ?case by (simp add: container_ok_def new_container_def)
next
  case (step y z)
  from container_ok_step[OF step(2,3) start_writes_last] show ?case .
qed

text \<open>A process whose calls all return ends up running.\<close>

lemma boot_completes:
  "cs \<noteq> [] \<Longrightarrow> \<exists>f'. (worker_step orderly calls)\<^sup>*\<^sup>* \<lparr>ct_ready_file = f, ct_phase = Booting cs\<rparr> \<lparr>ct_ready_file = f', ct_phase = Running\<rparr>"
proof (induction cs arbitrary: f)
  case (Cons c cs)
  note one = call_returns[of orderly calls f c cs]
  show ?case
  proof (cases "cs = []")
    case True
    with one show ?thesis by auto
  next
    case False
    with Cons.IH[OF False, of "after_call c f"] one show ?thesis
      by (auto intro: converse_rtranclp_into_rtranclp)
  qed
qed simp

lemma worker_can_run: "\<exists>s. worker_life orderly interval handlers s \<and> ct_phase s = Running"
proof -
  let ?calls = "start_calls interval (map handler_queue handlers)"
  have "?calls \<noteq> []" using start_writes_last by (auto simp: writes_last_def)
  from boot_completes[OF this] obtain f where
    "(worker_step orderly ?calls)\<^sup>*\<^sup>* \<lparr>ct_ready_file = False, ct_phase = Booting ?calls\<rparr> \<lparr>ct_ready_file = f, ct_phase = Running\<rparr>"
    by blast
  with boot[of orderly ?calls False] have "(worker_step orderly ?calls)\<^sup>*\<^sup>* new_container \<lparr>ct_ready_file = f, ct_phase = Running\<rparr>"
    unfolding new_container_def by (rule converse_rtranclp_into_rtranclp)
  then show ?thesis by (auto simp: worker_life_def)
qed

text \<open>
  What the worker's healthcheck tells. In any life of a container the check of a worker whose start is
  done fails only for its environment or its database. In an orderly life it also passes only then: while
  the process boots, drains or is gone, it fails, so every queue has its worker and both schedules are set
  whenever it passes.
\<close>

lemma healthcheck_tells_ready:
  assumes "worker_life orderly interval handlers s"
  shows "(ct_phase s = Running \<longrightarrow> worker_healthcheck (ct_ready_file s) env client =
      (case env of Inl e \<Rightarrow> 1
       | Inr c \<Rightarrow> if pg_connects client (cf_database_url c) \<and> pg_answers client \<and> pg_ends client then 0 else 1)) \<and>
    (orderly \<and> worker_healthcheck (ct_ready_file s) env client = 0 \<longrightarrow> ct_phase s = Running)"
  using worker_life_ok[OF assms] by (auto simp: container_ok_def worker_healthcheck_def split: worker_phase.splits)

definition sample_client :: pg_client where
  "sample_client = \<lparr>pg_connects = (\<lambda>_. True), pg_answers = True, pg_ends = True\<rparr>"

text \<open>
  A worker that was killed looks ready while it boots again in the same container: nothing removes the
  file of the process before.
\<close>

lemma killed_worker_looks_ready:
  "\<exists>s. worker_life False interval handlers s \<and> ct_phase s = Booting (start_calls interval (map handler_queue handlers)) \<and>
     worker_healthcheck (ct_ready_file s) (Inr c) sample_client = 0"
proof -
  let ?calls = "start_calls interval (map handler_queue handlers)"
  obtain s where s: "worker_life False interval handlers s" "ct_phase s = Running" using worker_can_run by blast
  then have f: "ct_ready_file s" using worker_life_ok[OF s(1)] by (simp add: container_ok_def)
  obtain g p where sp: "s = \<lparr>ct_ready_file = g, ct_phase = p\<rparr>" by (cases s) auto
  have "worker_step False ?calls s \<lparr>ct_ready_file = g, ct_phase = Exited\<rparr>" unfolding sp by (rule killed) simp
  moreover have "worker_step False ?calls \<lparr>ct_ready_file = g, ct_phase = Exited\<rparr> \<lparr>ct_ready_file = g, ct_phase = Booting ?calls\<rparr>"
    by (rule boot)
  ultimately have "worker_life False interval handlers \<lparr>ct_ready_file = g, ct_phase = Booting ?calls\<rparr>"
    using s(1) unfolding worker_life_def by (meson rtranclp.rtrancl_into_rtrancl)
  with f sp show ?thesis
    by (intro exI[of _ "\<lparr>ct_ready_file = g, ct_phase = Booting ?calls\<rparr>"]) (simp add: worker_healthcheck_def sample_client_def)
qed

end
