(* ===== verification/Demo_Harness.thy ===== *)
theory Demo_Harness
  imports Seed Json_Text Js_Date Create_Order_Dto
begin

section \<open>The helpers of the demo\<close>

text \<open>
  \<^verbatim>\<open>src/scripts/demo/harness.ts\<close>: what the scenarios of \<open>Demo\<close> do to a running stack. The stack is a
  state \<open>'w\<close> beside the database; its answers to HTTP requests and to \<open>docker compose\<close> and \<open>npm\<close>, what it
  does while the script waits and the generated identifiers are the record \<open>stack\<close>. Every request and
  command says how long it took, so the clock of the script never goes back. The fields of \<open>stack\<close> also hold
  what belongs to the libraries: the text of a value in a template and collation keys. A message is the
  only thing kept of a thrown error, and an \<open>orderId\<close> that is no string counts as absent.
\<close>

definition CARD_0004_MOCK_DELAY_MS :: nat where "CARD_0004_MOCK_DELAY_MS = 30000"
definition APPROVED_CARD :: string where "APPROVED_CARD = ''4242424242424242''"
definition DECLINED_CARD :: string where "DECLINED_CARD = ''4000000000000002''"
definition TIMEOUT_CARD :: string where "TIMEOUT_CARD = ''4000000000000004''"
definition TEST_CARD_NUMBERS :: "string list" where "TEST_CARD_NUMBERS = [APPROVED_CARD, DECLINED_CARD, TIMEOUT_CARD]"

subsection \<open>The stack and the script\<close>

datatype demo_request = Post_order fields_of string | Get_order "string option" | Mock_health

text \<open>\<open>fetch\<close> throws a \<open>TypeError\<close> or something else; \<open>response.json()\<close> throws or gives the body.\<close>

datatype fetch_error = Type_error string | Other_error string

record 'w stack =
  sk_fetch :: "demo_request \<Rightarrow> db \<Rightarrow> 'w \<Rightarrow> (fetch_error + nat \<times> (string + json)) \<times> nat \<times> db \<times> 'w"
  sk_command :: "string list \<Rightarrow> db \<Rightarrow> 'w \<Rightarrow> (string + string) \<times> nat \<times> db \<times> 'w"
  sk_meanwhile :: "nat \<Rightarrow> db \<Rightarrow> 'w \<Rightarrow> db \<times> 'w"
  sk_uuid :: "'w \<Rightarrow> uuid \<times> 'w"
  sk_geoapify_key :: "string option"
  sk_shown :: "json option \<Rightarrow> string"
  sk_fraction_text :: "rat \<Rightarrow> string"
  sk_collate :: "string \<Rightarrow> string"

record demo_fixture =
  fx_customer :: uuid
  fx_warehouse :: uuid
  fx_product :: uuid

record demo_context =
  cx_fixture :: demo_fixture
  cx_scenario1 :: "(string \<times> fields_of \<times> json) option"
  cx_scenario3 :: "string option"
  cx_scenario5 :: "(string option list \<times> int) option"

record 'w demo =
  dm_now :: int
  dm_db :: db
  dm_world :: 'w
  dm_context :: demo_context
  dm_printed :: "string list"

type_synonym ('a, 'w) script = "'w demo \<Rightarrow> (app_error + 'a) \<times> 'w demo"

definition pass_time :: "nat \<Rightarrow> db \<Rightarrow> 'w \<Rightarrow> 'w demo \<Rightarrow> 'w demo" where
  "pass_time ms d w s = s\<lparr>dm_now := dm_now s + int ms, dm_db := d, dm_world := w\<rparr>"

definition script_sleep :: "'w stack \<Rightarrow> nat \<Rightarrow> 'w demo \<Rightarrow> 'w demo" where
  "script_sleep sk ms s = (case sk_meanwhile sk ms (dm_db s) (dm_world s) of (d, w) \<Rightarrow> pass_time ms d w s)"

definition fetch_once :: "'w stack \<Rightarrow> demo_request \<Rightarrow> 'w demo \<Rightarrow> (fetch_error + nat \<times> (string + json)) \<times> 'w demo" where
  "fetch_once sk r s = (case sk_fetch sk r (dm_db s) (dm_world s) of (a, ms, d, w) \<Rightarrow> (a, pass_time ms d w s))"

definition random_uuid :: "'w stack \<Rightarrow> (uuid, 'w) script" where
  "random_uuid sk s = (case sk_uuid sk (dm_world s) of (i, w) \<Rightarrow> (Inr i, s\<lparr>dm_world := w\<rparr>))"

text \<open>A statement sees what others have committed before it; statements take no time.\<close>

definition query :: "'w stack \<Rightarrow> (db \<Rightarrow> app_error + 'a \<times> db) \<Rightarrow> ('a, 'w) script" where
  "query sk f s =
    (let s1 = script_sleep sk 0 s in
     case f (dm_db s1) of Inl e \<Rightarrow> (Inl e, s1) | Inr (a, d) \<Rightarrow> (Inr a, s1\<lparr>dm_db := d\<rparr>))"

definition statement :: "'w stack \<Rightarrow> (db \<Rightarrow> app_error + db) \<Rightarrow> (unit, 'w) script" where
  "statement sk f = query sk (\<lambda>d. bindR (f d) (\<lambda>d'. Inr ((), d')))"

definition run_command :: "'w stack \<Rightarrow> string list \<Rightarrow> (string, 'w) script" where
  "run_command sk args s = (case sk_command sk args (dm_db s) (dm_world s) of
     (Inl m, ms, d, w) \<Rightarrow> (Inl (JsError m), pass_time ms d w s)
   | (Inr out, ms, d, w) \<Rightarrow> (Inr out, pass_time ms d w s))"

subsection \<open>Requests\<close>

record http_result =
  hr_status :: nat
  hr_body :: json
  hr_elapsed_ms :: int

definition fetch_with_network_blip_retry ::
  "'w stack \<Rightarrow> demo_request \<Rightarrow> 'w demo \<Rightarrow> (fetch_error + nat \<times> (string + json)) \<times> 'w demo" where
  "fetch_with_network_blip_retry sk r s =
    (case fetch_once sk r s of
       (Inl (Type_error m), s1) \<Rightarrow> fetch_once sk r (script_sleep sk 1000 s1)
     | answer \<Rightarrow> answer)"

definition exchange :: "'w stack \<Rightarrow> demo_request \<Rightarrow> (http_result, 'w) script" where
  "exchange sk r s =
    (let started_at = dm_now s in
     case fetch_with_network_blip_retry sk r s of
       (Inl (Type_error m), s1) \<Rightarrow> (Inl (JsError m), s1)
     | (Inl (Other_error m), s1) \<Rightarrow> (Inl (JsError m), s1)
     | (Inr (status, Inl m), s1) \<Rightarrow> (Inl (JsError m), s1)
     | (Inr (status, Inr body), s1) \<Rightarrow>
         (Inr \<lparr>hr_status = status, hr_body = body, hr_elapsed_ms = dm_now s1 - started_at\<rparr>, s1))"

definition post_order :: "'w stack \<Rightarrow> fields_of \<Rightarrow> string \<Rightarrow> (http_result, 'w) script" where
  "post_order sk body key = exchange sk (Post_order body key)"

definition get_order :: "'w stack \<Rightarrow> string option \<Rightarrow> (http_result, 'w) script" where
  "get_order sk oid = exchange sk (Get_order oid)"

text \<open>A property of a parsed body: \<open>None\<close> is \<open>undefined\<close>, and only \<open>null\<close> throws.\<close>

definition own_field :: "json \<Rightarrow> string \<Rightarrow> json option" where
  "own_field j name = (case j of JObj kvs \<Rightarrow> map_of kvs name | _ \<Rightarrow> None)"

definition read_prop :: "json \<Rightarrow> string \<Rightarrow> app_error + json option" where
  "read_prop j name =
    (if j = JNull then Inl (JsError (''Cannot read properties of null (reading '' @ [CHR 0x27] @ name @ [CHR 0x27] @ '')''))
     else Inr (own_field j name))"

lemma script_sleep_now [simp]: "dm_now (script_sleep sk ms s) = dm_now s + int ms"
  by (simp add: script_sleep_def pass_time_def split: prod.splits)

lemma fetch_once_now: "fetch_once sk r s = (a, s1) \<Longrightarrow> dm_now s \<le> dm_now s1"
  by (auto simp: fetch_once_def pass_time_def split: prod.splits)

lemma exchange_now:
  assumes "exchange sk r s = (a, s1)"
  shows "dm_now s \<le> dm_now s1"
proof -
  obtain b s2 where once: "fetch_once sk r s = (b, s2)" by fastforce
  obtain c s3 where again: "fetch_once sk r (script_sleep sk 1000 s2) = (c, s3)" by fastforce
  from fetch_once_now[OF once] fetch_once_now[OF again] show ?thesis
    using assms once again
    by (auto simp: exchange_def fetch_with_network_blip_retry_def Let_def
        split: sum.splits fetch_error.splits prod.splits)
qed

subsection \<open>Polling\<close>

text \<open>The status wanted is a predicate on the value; the message quotes the last body seen.\<close>

definition last_seen :: "'w stack \<Rightarrow> json option \<Rightarrow> string" where
  "last_seen sk last_body = (case last_body of None \<Rightarrow> ''undefined'' | Some b \<Rightarrow> json_text (sk_fraction_text sk) b)"

definition order_path :: "string option \<Rightarrow> string" where
  "order_path oid = (case oid of None \<Rightarrow> ''undefined'' | Some i \<Rightarrow> i)"

function poll_until ::
  "'w stack \<Rightarrow> string option \<Rightarrow> (json option \<Rightarrow> bool) \<Rightarrow> nat \<Rightarrow> int \<Rightarrow> json option \<Rightarrow> (json, 'w) script" where
  "poll_until sk oid wanted limit_ms deadline last_body s =
    (if \<not> dm_now s < deadline
     then (Inl (JsError (''pollOrderStatus: order '' @ order_path oid @ '' did not reach the expected status within '' @
       show_nat limit_ms @ ''ms (last seen: '' @ last_seen sk last_body @ '')'')), s)
     else case get_order sk oid s of
       (Inl e, s1) \<Rightarrow> (Inl e, s1)
     | (Inr r, s1) \<Rightarrow>
         (case (if hr_status r = 200 then bindR (read_prop (hr_body r) ''status'') (\<lambda>st. Inr (wanted st)) else Inr False) of
            Inl e \<Rightarrow> (Inl e, s1)
          | Inr True \<Rightarrow> (Inr (hr_body r), s1)
          | Inr False \<Rightarrow> poll_until sk oid wanted limit_ms deadline (Some (hr_body r)) (script_sleep sk 2000 s1)))"
  by pat_completeness auto

termination poll_until
  by (relation "measure (\<lambda>(sk, oid, wanted, limit_ms, deadline, last_body, s). nat (deadline - dm_now s))")
     (auto simp: get_order_def dest!: exchange_now[OF sym])

definition poll_order_status :: "'w stack \<Rightarrow> string option \<Rightarrow> (json option \<Rightarrow> bool) \<Rightarrow> nat \<Rightarrow> (json, 'w) script" where
  "poll_order_status sk oid wanted limit_ms s =
     poll_until sk oid wanted limit_ms (dm_now s + int limit_ms) None s"

subsection \<open>Fixtures\<close>

text \<open>An insert without a conflict clause.\<close>

definition insert_new :: "'k \<Rightarrow> (db \<Rightarrow> 'k list) \<Rightarrow> (db \<Rightarrow> app_error + db) \<Rightarrow> db \<Rightarrow> app_error + db" where
  "insert_new k keys insert_row d = (if k \<in> set (keys d) then Inl (QueryFailedError SQL_UNIQUE_23505) else insert_row d)"

definition demo_customer :: "timestamp \<Rightarrow> uuid \<Rightarrow> customer_row" where
  "demo_customer now i = \<lparr>cust_id = i, cust_email = ''demo-'' @ i @ ''@example.com'', cust_full_name = ''Demo Customer'',
     cust_phone = None, cust_created_at = now, cust_updated_at = now, cust_deleted_at = None\<rparr>"

definition demo_warehouse :: "timestamp \<Rightarrow> uuid \<Rightarrow> warehouse_row" where
  "demo_warehouse now i = \<lparr>wh_id = i, wh_name = ''Demo Warehouse'', wh_address = JObj [],
     wh_location = \<lparr>latitude = double_of 40.7128, longitude = double_of (- 74.006)\<rparr>, wh_is_active = True,
     wh_created_at = now, wh_updated_at = now, wh_deleted_at = None\<rparr>"

definition demo_product :: "timestamp \<Rightarrow> uuid \<Rightarrow> product_row" where
  "demo_product now i = \<lparr>prod_id = i, prod_sku = ''DEMO-SKU-'' @ take 8 i, prod_name = ''Demo Product'',
     prod_description = None, prod_condition = COND_NEW, prod_unit_price_cents = 1000, prod_is_active = True,
     prod_created_at = now, prod_updated_at = now, prod_deleted_at = None\<rparr>"

definition demo_stock :: "uuid \<Rightarrow> uuid \<Rightarrow> int \<Rightarrow> inventory_row" where
  "demo_stock w p n = \<lparr>inv_warehouse = w, inv_product = p, qty_available = n, qty_reserved = 0, inv_version = 0\<rparr>"

definition create_fixture :: "'w stack \<Rightarrow> int \<Rightarrow> (demo_fixture, 'w) script" where
  "create_fixture sk n s =
    (let now = dm_now s in
     bindE (random_uuid sk) (\<lambda>c. bindE (random_uuid sk) (\<lambda>w. bindE (random_uuid sk) (\<lambda>p.
     bindE (statement sk (insert_new c (\<lambda>d. map cust_id (customers d)) (insert_customer (demo_customer now c)))) (\<lambda>_.
     bindE (statement sk (insert_new w (\<lambda>d. map wh_id (warehouses d)) (insert_warehouse (demo_warehouse now w)))) (\<lambda>_.
     bindE (statement sk (insert_new p (\<lambda>d. map prod_id (products d)) (insert_product (demo_product now p)))) (\<lambda>_.
     bindE (statement sk (insert_new (w, p) (\<lambda>d. map inv_key (inventory d)) (insert_inventory (demo_stock w p n)))) (\<lambda>_.
     returnE \<lparr>fx_customer = c, fx_warehouse = w, fx_product = p\<rparr>))))))) s)"

definition build_order_body :: "demo_fixture \<Rightarrow> string \<Rightarrow> int \<Rightarrow> fields_of" where
  "build_order_body f card_number quantity =
     [(''customerId'', JStr (fx_customer f)),
      (''shippingAddress'', JObj [(''recipient'', JStr ''Demo Recipient''), (''line1'', JStr ''1 Broadway''),
        (''city'', JStr ''New York''), (''state'', JStr ''NY''), (''country'', JStr ''US'')]),
      (''items'', JArr [JObj [(''productId'', JStr (fx_product f)), (''quantity'', JNum (js_int quantity))]]),
      (''payment'', JObj [(''cardNumber'', JStr card_number)])]"

subsection \<open>The database seen from outside\<close>

record balances =
  bl_available :: int
  bl_reserved :: int

definition get_inventory :: "'w stack \<Rightarrow> demo_fixture \<Rightarrow> (balances, 'w) script" where
  "get_inventory sk f = query sk (\<lambda>d.
     case find_inventory d (fx_warehouse f) (fx_product f) of
       None \<Rightarrow> Inl (JsError (''Cannot read properties of undefined (reading '' @ [CHR 0x27] @ ''quantity_available'' @ [CHR 0x27] @ '')''))
     | Some r \<Rightarrow> Inr (\<lparr>bl_available = qty_available r, bl_reserved = qty_reserved r\<rparr>, d))"

definition count_payments :: "'w stack \<Rightarrow> string option \<Rightarrow> (nat, 'w) script" where
  "count_payments sk oid = query sk (\<lambda>d. Inr (length (filter (\<lambda>p. Some (pay_order p) = oid) (payments d)), d))"

definition expire_reservation :: "'w stack \<Rightarrow> string option \<Rightarrow> (unit, 'w) script" where
  "expire_reservation sk oid s = statement sk (\<lambda>d. Inr (d\<lparr>orders := update_rows (\<lambda>r. Some (row_id r) = oid)
     (\<lambda>r. r\<lparr>row_reservation_expires_at := Some (dm_now s - 60000)\<rparr>) (orders d)\<rparr>)) s"

definition verify_ledger_discrepancies :: "'w stack \<Rightarrow> (nat, 'w) script" where
  "verify_ledger_discrepancies sk = query sk (\<lambda>d. Inr (length (verify_ledger d), d))"

subsection \<open>The containers\<close>

definition run_compose_command :: "'w stack \<Rightarrow> string list \<Rightarrow> (string, 'w) script" where
  "run_compose_command sk args = run_command sk ([''docker'', ''compose''] @ args)"

definition stop_payments_mock :: "'w stack \<Rightarrow> (unit, 'w) script" where
  "stop_payments_mock sk = bindE (run_compose_command sk [''stop'', ''payments-mock'']) (\<lambda>_. returnE ())"

function await_health :: "'w stack \<Rightarrow> nat \<Rightarrow> int \<Rightarrow> (unit, 'w) script" where
  "await_health sk limit_ms deadline s =
    (if \<not> dm_now s < deadline
     then (Inl (JsError (''startPaymentsMockAndWait: payments-mock did not become healthy within '' @
       show_nat limit_ms @ ''ms'')), s)
     else case fetch_once sk Mock_health s of
       (Inr (status, _), s1) \<Rightarrow>
         if 200 \<le> status \<and> status \<le> 299 then (Inr (), s1) else await_health sk limit_ms deadline (script_sleep sk 1000 s1)
     | (Inl _, s1) \<Rightarrow> await_health sk limit_ms deadline (script_sleep sk 1000 s1))"
  by pat_completeness auto

termination await_health
  by (relation "measure (\<lambda>(sk, limit_ms, deadline, s). nat (deadline - dm_now s))")
     (auto dest!: fetch_once_now[OF sym])

definition start_payments_mock_and_wait :: "'w stack \<Rightarrow> (unit, 'w) script" where
  "start_payments_mock_and_wait sk = bindE (run_compose_command sk [''start'', ''payments-mock''])
     (\<lambda>_ s. await_health sk 30000 (dm_now s + 30000) s)"

definition get_compose_logs_since :: "'w stack \<Rightarrow> string \<Rightarrow> (string, 'w) script" where
  "get_compose_logs_since sk since = run_compose_command sk [''logs'', ''--no-color'', ''--since'', since]"

end
