(* ===== verification/Demo.thy ===== *)
theory Demo
  imports Demo_Harness Shop_State "HOL-Library.Sublist"
begin

section \<open>The demo\<close>

text \<open>
  \<^verbatim>\<open>src/scripts/demo/scenarios.ts\<close> and \<^verbatim>\<open>src/scripts/demo/index.ts\<close>: eight scenarios against a running
  stack, the end-to-end concurrency script as a child process, the ledger check and a search of the logs.
  The two polls of scenario 6, concurrent in the source, run one after the other towards their common
  deadline; they only read, and the status they wait for is final. The line that names the api is left out.
\<close>

subsection \<open>Scenarios\<close>

definition REAPER_WAIT_TIMEOUT_MS :: nat where "REAPER_WAIT_TIMEOUT_MS = 75000"
definition REAPER_WAIT_AFTER_BREAKER_TRIP_MS :: nat where "REAPER_WAIT_AFTER_BREAKER_TRIP_MS = 150000"
definition UNSATISFIABLE_QUANTITY :: int where "UNSATISFIABLE_QUANTITY = 999999"

record scenario_result =
  sr_name :: string
  sr_expected :: string
  sr_actual :: string
  sr_passed :: bool

definition run_scenario :: "string \<Rightarrow> string \<Rightarrow> (unit, 'w) script \<Rightarrow> 'w demo \<Rightarrow> scenario_result \<times> 'w demo" where
  "run_scenario name expected body s = (case body s of
     (Inr _, s1) \<Rightarrow> (\<lparr>sr_name = name, sr_expected = expected, sr_actual = expected, sr_passed = True\<rparr>, s1)
   | (Inl e, s1) \<Rightarrow> (\<lparr>sr_name = name, sr_expected = expected, sr_actual = ''FAILED: '' @ error_message e, sr_passed = False\<rparr>, s1))"

definition assert_that :: "bool \<Rightarrow> string \<Rightarrow> (unit, 'w) script" where
  "assert_that condition m = (if condition then returnE () else throwE (JsError m))"

definition read_body :: "json \<Rightarrow> string \<Rightarrow> (json option, 'w) script" where
  "read_body j name s = (read_prop j name, s)"

definition context_of :: "('w demo \<Rightarrow> 'a) \<Rightarrow> ('a, 'w) script" where
  "context_of f s = (Inr (f s), s)"

definition set_context :: "(demo_context \<Rightarrow> demo_context) \<Rightarrow> (unit, 'w) script" where
  "set_context f s = (Inr (), s\<lparr>dm_context := f (dm_context s)\<rparr>)"

definition fixture_of :: "'w demo \<Rightarrow> demo_fixture" where
  "fixture_of s = cx_fixture (dm_context s)"

text \<open>\<open>v as string\<close>, where anything else counts as absent.\<close>

definition as_string :: "json option \<Rightarrow> string option" where
  "as_string v = (case v of Some (JStr t) \<Rightarrow> Some t | _ \<Rightarrow> None)"

definition names_warehouse :: "json \<Rightarrow> bool" where
  "names_warehouse body = (case own_field body ''warehouse'' of None \<Rightarrow> False
     | Some w \<Rightarrow> (\<exists>t. own_field w ''name'' = Some (JStr t)) \<and> (\<exists>n. own_field w ''distanceMeters'' = Some (JNum n)))"

definition balances_text :: "balances \<Rightarrow> string" where
  "balances_text b = ''{'' @ json_string ''quantityAvailable'' @ '':'' @ show_int (bl_available b) @ '','' @
     json_string ''quantityReserved'' @ '':'' @ show_int (bl_reserved b) @ ''}''"

definition expect_status :: "string \<Rightarrow> nat \<Rightarrow> http_result \<Rightarrow> (unit, 'w) script" where
  "expect_status what n r = assert_that (hr_status r = n) (what @ ''expected '' @ show_nat n @ '', got '' @ show_nat (hr_status r))"

definition scenario1_happy_path :: "'w stack \<Rightarrow> 'w demo \<Rightarrow> scenario_result \<times> 'w demo" where
  "scenario1_happy_path sk = run_scenario ''1. Happy path'' ''201, status CONFIRMED, warehouse name + distance present''
    (bindE (random_uuid sk) (\<lambda>key.
     bindE (context_of fixture_of) (\<lambda>f.
     let request = build_order_body f APPROVED_CARD 1 in
     bindE (post_order sk request key) (\<lambda>r.
     bindE (expect_status [] 201 r) (\<lambda>_.
     bindE (read_body (hr_body r) ''status'') (\<lambda>st.
     bindE (assert_that (st = Some (JStr ''CONFIRMED'')) (''expected status CONFIRMED, got '' @ sk_shown sk st)) (\<lambda>_.
     bindE (assert_that (names_warehouse (hr_body r)) ''expected warehouse.name and warehouse.distanceMeters in the response'') (\<lambda>_.
     set_context (\<lambda>c. c\<lparr>cx_scenario1 := Some (key, request, hr_body r)\<rparr>)))))))))"

definition scenario2_declined :: "'w stack \<Rightarrow> 'w demo \<Rightarrow> scenario_result \<times> 'w demo" where
  "scenario2_declined sk = run_scenario ''2. Declined card (...0002)'' ''402, stock released back''
    (bindE (context_of fixture_of) (\<lambda>f.
     bindE (get_inventory sk f) (\<lambda>before_order.
     bindE (random_uuid sk) (\<lambda>key.
     bindE (post_order sk (build_order_body f DECLINED_CARD 1) key) (\<lambda>r.
     bindE (expect_status [] 402 r) (\<lambda>_.
     bindE (get_inventory sk f) (\<lambda>after_order.
     assert_that (bl_available after_order = bl_available before_order \<and> bl_reserved after_order = bl_reserved before_order)
       (''expected inventory unchanged ('' @ balances_text before_order @ ''), got '' @ balances_text after_order))))))))"

definition scenario3_provider_timeout :: "'w stack \<Rightarrow> 'w demo \<Rightarrow> scenario_result \<times> 'w demo" where
  "scenario3_provider_timeout sk = run_scenario ''3. Provider timeout (...0004)''
     ''502 with orderId, order PENDING_PAYMENT, reservation held''
    (bindE (context_of fixture_of) (\<lambda>f.
     bindE (get_inventory sk f) (\<lambda>before_order.
     bindE (random_uuid sk) (\<lambda>key.
     bindE (post_order sk (build_order_body f TIMEOUT_CARD 1) key) (\<lambda>r.
     bindE (expect_status [] 502 r) (\<lambda>_.
     bindE (read_body (hr_body r) ''orderId'') (\<lambda>v.
     let oid = as_string v in
     bindE (assert_that (oid \<noteq> None) ''expected body.orderId'') (\<lambda>_.
     bindE (get_order sk oid) (\<lambda>o1.
     bindE (read_body (hr_body o1) ''status'') (\<lambda>st.
     bindE (assert_that (st = Some (JStr ''PENDING_PAYMENT'')) (''expected PENDING_PAYMENT, got '' @ sk_shown sk st)) (\<lambda>_.
     bindE (get_inventory sk f) (\<lambda>after_order.
     bindE (assert_that (bl_reserved after_order = bl_reserved before_order + 1)
       (''expected quantity_reserved to hold +1, got '' @ show_int (bl_reserved after_order) @
        '' (was '' @ show_int (bl_reserved before_order) @ '')'')) (\<lambda>_.
     set_context (\<lambda>c. c\<lparr>cx_scenario3 := oid\<rparr>))))))))))))))"

text \<open>\<open>!!orderId\<close>: absent and empty ids are false.\<close>

definition scenario4_reaper_resolves_timeout :: "'w stack \<Rightarrow> 'w demo \<Rightarrow> scenario_result \<times> 'w demo" where
  "scenario4_reaper_resolves_timeout sk = run_scenario ''4. Reaper resolves scenario 3''
     (''CONFIRMED within '' @ show_nat (REAPER_WAIT_TIMEOUT_MS div 1000) @ ''s (the mock recorded the charge)'')
    (bindE (context_of (\<lambda>s. cx_scenario3 (dm_context s))) (\<lambda>oid.
     bindE (assert_that (oid \<noteq> None \<and> oid \<noteq> Some []) ''scenario 3 must run first'') (\<lambda>_.
     bindE (expire_reservation sk oid) (\<lambda>_.
     bindE (poll_order_status sk oid (\<lambda>st. st = Some (JStr ''CONFIRMED'')) REAPER_WAIT_TIMEOUT_MS) (\<lambda>body.
     bindE (read_body body ''status'') (\<lambda>st.
     assert_that (st = Some (JStr ''CONFIRMED'')) (''expected CONFIRMED, got '' @ sk_shown sk st)))))))"

definition scenario5_provider_down :: "'w stack \<Rightarrow> 'w demo \<Rightarrow> scenario_result \<times> 'w demo" where
  "scenario5_provider_down sk = run_scenario ''5. Provider down (docker compose stop payments-mock)''
     ''502 on both orders, breaker opens (second order fails faster)''
    (bindE (context_of fixture_of) (\<lambda>f.
     bindE (get_inventory sk f) (\<lambda>before_orders.
     bindE (stop_payments_mock sk) (\<lambda>_.
     bindE (random_uuid sk) (\<lambda>key_a.
     bindE (post_order sk (build_order_body f APPROVED_CARD 1) key_a) (\<lambda>a.
     bindE (expect_status ''order A: '' 502 a) (\<lambda>_.
     bindE (random_uuid sk) (\<lambda>key_b.
     bindE (post_order sk (build_order_body f APPROVED_CARD 1) key_b) (\<lambda>b.
     bindE (expect_status ''order B: '' 502 b) (\<lambda>_.
     bindE (assert_that (hr_elapsed_ms b < hr_elapsed_ms a)
       (''expected order B (breaker already open) to fail faster than order A ('' @ show_int (hr_elapsed_ms b) @ ''ms vs '' @
        show_int (hr_elapsed_ms a) @ ''ms)'')) (\<lambda>_.
     bindE (read_body (hr_body a) ''orderId'') (\<lambda>oid_a.
     bindE (read_body (hr_body b) ''orderId'') (\<lambda>oid_b.
     set_context (\<lambda>c. c\<lparr>cx_scenario5 := Some ([as_string oid_a, as_string oid_b], bl_available before_orders)\<rparr>))))))))))))))"

text \<open>\<open>Promise.all\<close> over the two orders.\<close>

fun each_order :: "('i \<Rightarrow> ('a, 'w) script) \<Rightarrow> 'i list \<Rightarrow> ('a list, 'w) script" where
  "each_order f [] = returnE []"
| "each_order f (i # is) = bindE (f i) (\<lambda>a. bindE (each_order f is) (\<lambda>rest. returnE (a # rest)))"

definition cancelled_order :: "'w stack \<Rightarrow> string option \<times> json \<Rightarrow> (unit, 'w) script" where
  "cancelled_order sk x = bindE (read_body (snd x) ''status'') (\<lambda>st.
     assert_that (st = Some (JStr ''CANCELLED''))
       (''order '' @ order_path (fst x) @ '': expected CANCELLED, got '' @ sk_shown sk st))"

definition scenario6_reaper_cancels_after_restart :: "'w stack \<Rightarrow> 'w demo \<Rightarrow> scenario_result \<times> 'w demo" where
  "scenario6_reaper_cancels_after_restart sk = run_scenario ''6. Mock restarted, scenario 5 orders expire''
     ''CANCELLED, stock back to its pre-scenario-5 balance''
    (bindE (context_of (\<lambda>s. cx_scenario5 (dm_context s))) (\<lambda>earlier.
     bindE (assert_that (earlier \<noteq> None) ''scenario 5 must run first'') (\<lambda>_.
     let (oids, before_orders) = the earlier in
     bindE (start_payments_mock_and_wait sk) (\<lambda>_.
     bindE (each_order (expire_reservation sk) oids) (\<lambda>_.
     bindE (context_of dm_now) (\<lambda>now.
     bindE (each_order (\<lambda>oid. poll_until sk oid (\<lambda>st. st = Some (JStr ''CANCELLED'')) REAPER_WAIT_AFTER_BREAKER_TRIP_MS
       (now + int REAPER_WAIT_AFTER_BREAKER_TRIP_MS) None) oids) (\<lambda>bodies.
     bindE (each_order (cancelled_order sk) (zip oids bodies)) (\<lambda>_.
     bindE (context_of fixture_of) (\<lambda>f.
     bindE (get_inventory sk f) (\<lambda>after_orders.
     assert_that (bl_available after_orders = before_orders \<and> bl_reserved after_orders = 0)
       (''expected quantity_available back to '' @ show_int before_orders @ '' and quantity_reserved 0, got '' @
        balances_text after_orders)))))))))))"

definition scenario7_unsatisfiable :: "'w stack \<Rightarrow> 'w demo \<Rightarrow> scenario_result \<times> 'w demo" where
  "scenario7_unsatisfiable sk = run_scenario ''7. Unsatisfiable order'' ''422''
    (bindE (context_of fixture_of) (\<lambda>f.
     bindE (random_uuid sk) (\<lambda>key.
     bindE (post_order sk (build_order_body f APPROVED_CARD UNSATISFIABLE_QUANTITY) key) (expect_status [] 422))))"

definition same_body :: "'w stack \<Rightarrow> json \<Rightarrow> json \<Rightarrow> bool" where
  "same_body sk a b \<longleftrightarrow> json_text (sk_fraction_text sk) (canonicalize (sk_collate sk) a) =
     json_text (sk_fraction_text sk) (canonicalize (sk_collate sk) b)"

definition scenario8_duplicate_key :: "'w stack \<Rightarrow> 'w demo \<Rightarrow> scenario_result \<times> 'w demo" where
  "scenario8_duplicate_key sk = run_scenario ''8. Duplicate Idempotency-Key'' ''identical body, exactly one payments row''
    (bindE (context_of (\<lambda>s. cx_scenario1 (dm_context s))) (\<lambda>earlier.
     bindE (assert_that (earlier \<noteq> None) ''scenario 1 must run first'') (\<lambda>_.
     let (key, request, body) = the earlier in
     bindE (post_order sk request key) (\<lambda>r.
     bindE (expect_status [] 201 r) (\<lambda>_.
     bindE (assert_that (same_body sk (hr_body r) body) ''expected the replayed body to equal the original field-for-field'') (\<lambda>_.
     bindE (count_payments sk (as_string (own_field body ''id''))) (\<lambda>n.
     assert_that (n = 1) (''expected exactly one payments row, got '' @ show_nat n))))))))"

subsection \<open>The script\<close>

definition INITIAL_STOCK :: int where "INITIAL_STOCK = 10"
definition WARMUP_ORDER_COUNT :: nat where "WARMUP_ORDER_COUNT = 3"

definition warm_up_before_concurrency :: "'w stack \<Rightarrow> demo_fixture \<Rightarrow> (unit, 'w) script" where
  "warm_up_before_concurrency sk f = bindE (each_order (\<lambda>_. bindE (random_uuid sk)
     (\<lambda>key. post_order sk (build_order_body f APPROVED_CARD 1) key)) [0..<WARMUP_ORDER_COUNT]) (\<lambda>_. returnE ())"

definition run_scenario9_concurrency_e2e :: "'w stack \<Rightarrow> 'w demo \<Rightarrow> scenario_result \<times> 'w demo" where
  "run_scenario9_concurrency_e2e sk = run_scenario ''9. concurrency-e2e'' ''npm run concurrency-e2e exits 0''
     (bindE (run_command sk [''npm'', ''run'', ''concurrency-e2e'']) (\<lambda>_. returnE ()))"

definition leaks_in :: "string option \<Rightarrow> string \<Rightarrow> string list" where
  "leaks_in geoapify_key logs =
     map (\<lambda>pan. ''card ...'' @ last4 pan) (filter (\<lambda>pan. sublist pan logs) TEST_CARD_NUMBERS) @
     (case geoapify_key of Some k \<Rightarrow> if k \<noteq> [] \<and> sublist k logs then [''GEOAPIFY_API_KEY value''] else [] | None \<Rightarrow> [])"

definition run_scenario10_log_grep :: "'w stack \<Rightarrow> string \<Rightarrow> 'w demo \<Rightarrow> scenario_result \<times> 'w demo" where
  "run_scenario10_log_grep sk since = run_scenario ''10. Log grep for secrets''
     ''no test card number, and no GEOAPIFY_API_KEY value, anywhere in docker compose logs''
    (bindE (get_compose_logs_since sk since) (\<lambda>logs.
     assert_that (leaks_in (sk_geoapify_key sk) logs = [])
       (''found in logs: '' @ js_join '', '' (leaks_in (sk_geoapify_key sk) logs))))"

definition print_lines :: "string list \<Rightarrow> (unit, 'w) script" where
  "print_lines ls s = (Inr (), s\<lparr>dm_printed := dm_printed s @ ls\<rparr>)"

definition print_result :: "scenario_result \<Rightarrow> (unit, 'w) script" where
  "print_result r = print_lines [(if sr_passed r then ''OK  '' else ''FAIL'') @ '' '' @ sr_name r,
     ''     expected: '' @ sr_expected r, ''     actual:   '' @ sr_actual r]"

text \<open>\<open>record\<close>: a scenario never throws, so neither does this.\<close>

fun record_all :: "('w demo \<Rightarrow> scenario_result \<times> 'w demo) list \<Rightarrow> (scenario_result list, 'w) script" where
  "record_all [] = returnE []"
| "record_all (scenario # rest) = (\<lambda>s. case scenario s of (r, s1) \<Rightarrow>
     bindE (print_result r) (\<lambda>_. bindE (record_all rest) (\<lambda>rs. returnE (r # rs))) s1)"

definition ledger_result :: "nat \<Rightarrow> scenario_result" where
  "ledger_result n = \<lparr>sr_name = ''Ledger reconciles'', sr_expected = ''0 discrepancies'',
     sr_actual = show_nat n @ '' discrepancies'', sr_passed = (n = 0)\<rparr>"

definition first_scenarios :: "'w stack \<Rightarrow> ('w demo \<Rightarrow> scenario_result \<times> 'w demo) list" where
  "first_scenarios sk = [scenario1_happy_path sk, scenario2_declined sk, scenario3_provider_timeout sk,
     scenario4_reaper_resolves_timeout sk, scenario5_provider_down sk, scenario6_reaper_cancels_after_restart sk,
     scenario7_unsatisfiable sk, scenario8_duplicate_key sk]"

definition demo_results :: "'w stack \<Rightarrow> (scenario_result list, 'w) script" where
  "demo_results sk s =
    (let started_at = iso_string (dm_now s) in
     bindE (create_fixture sk INITIAL_STOCK) (\<lambda>f.
     bindE (set_context (\<lambda>_. \<lparr>cx_fixture = f, cx_scenario1 = None, cx_scenario3 = None, cx_scenario5 = None\<rparr>)) (\<lambda>_.
     bindE (record_all (first_scenarios sk)) (\<lambda>firsts.
     bindE (warm_up_before_concurrency sk f) (\<lambda>_.
     bindE (record_all [run_scenario9_concurrency_e2e sk]) (\<lambda>ninth.
     bindE (verify_ledger_discrepancies sk) (\<lambda>n.
     bindE (record_all [Pair (ledger_result n), run_scenario10_log_grep sk started_at]) (\<lambda>lasts.
     returnE (firsts @ ninth @ lasts)))))))) s)"

definition demo :: "'w stack \<Rightarrow> (nat, 'w) script" where
  "demo sk = bindE (demo_results sk) (\<lambda>rs.
     let failed = filter (\<lambda>r. \<not> sr_passed r) rs in
     bindE (print_lines [[], if 0 < length failed then show_nat (length failed) @ '' scenario(s) FAILED.'' else ''PASSED'']) (\<lambda>_.
     returnE (if 0 < length failed then 1 else 0)))"

definition demo_exit_code :: "app_error + nat \<Rightarrow> nat" where
  "demo_exit_code r = (case r of Inl _ \<Rightarrow> 1 | Inr n \<Rightarrow> n)"

subsection \<open>What a run of the demo tells\<close>

lemma run_scenario_sel [simp]:
  "sr_name (fst (run_scenario name expected body s)) = name"
  "sr_passed (fst (run_scenario name expected body s)) \<longleftrightarrow> (\<exists>u. fst (body s) = Inr u)"
  by (auto simp: run_scenario_def split: prod.splits sum.splits)

lemma print_lines_total [simp]: "print_lines ls s = (Inr (), s\<lparr>dm_printed := dm_printed s @ ls\<rparr>)"
  by (simp add: print_lines_def)

definition bears_name :: "('w demo \<Rightarrow> scenario_result \<times> 'w demo) \<Rightarrow> string \<Rightarrow> bool" where
  "bears_name scenario name \<longleftrightarrow> (\<forall>s. sr_name (fst (scenario s)) = name)"

lemma bears_name_run [simp]: "bears_name (run_scenario name expected body) name' \<longleftrightarrow> name = name'"
  by (auto simp: bears_name_def)

text \<open>A failing scenario stops none of the others, and every one is recorded under its name.\<close>

lemma record_all_total:
  assumes "list_all2 bears_name scenarios names"
  obtains rs s' where "record_all scenarios s = (Inr rs, s')" "map sr_name rs = names"
  using assms
proof (induction scenarios names arbitrary: s thesis rule: list_all2_induct)
  case Nil
  then show ?case by (simp add: returnE_def)
next
  case (Cons scenario scenarios name names)
  obtain r s1 where r: "scenario s = (r, s1)" by fastforce
  with Cons.hyps(1) have "sr_name r = name" by (metis bears_name_def fst_conv)
  moreover obtain rs s2 where "record_all scenarios (s1\<lparr>dm_printed := dm_printed s1 @
      [(if sr_passed r then ''OK  '' else ''FAIL'') @ '' '' @ sr_name r, ''     expected: '' @ sr_expected r,
       ''     actual:   '' @ sr_actual r]\<rparr>) = (Inr rs, s2)" "map sr_name rs = names"
    by (rule Cons.IH)
  ultimately show ?case
    using r by (intro Cons.prems[of "r # rs" s2]) (simp_all add: bindE_def print_result_def returnE_def)
qed

definition first_names :: "string list" where
  "first_names = [''1. Happy path'', ''2. Declined card (...0002)'', ''3. Provider timeout (...0004)'',
     ''4. Reaper resolves scenario 3'', ''5. Provider down (docker compose stop payments-mock)'',
     ''6. Mock restarted, scenario 5 orders expire'', ''7. Unsatisfiable order'', ''8. Duplicate Idempotency-Key'']"

lemma scenario_names:
  "list_all2 bears_name (first_scenarios sk) first_names"
  "list_all2 bears_name [run_scenario9_concurrency_e2e sk] [''9. concurrency-e2e'']"
  "list_all2 bears_name [Pair (ledger_result n), run_scenario10_log_grep sk since] [''Ledger reconciles'', ''10. Log grep for secrets'']"
  by (simp_all add: first_scenarios_def first_names_def scenario1_happy_path_def scenario2_declined_def
      scenario3_provider_timeout_def scenario4_reaper_resolves_timeout_def scenario5_provider_down_def
      scenario6_reaper_cancels_after_restart_def scenario7_unsatisfiable_def scenario8_duplicate_key_def
      run_scenario9_concurrency_e2e_def run_scenario10_log_grep_def)
    (simp add: bears_name_def ledger_result_def)

lemma ledger_query_total: "\<exists>n s'. verify_ledger_discrepancies sk s = (Inr n, s')"
  by (simp add: verify_ledger_discrepancies_def query_def Let_def)

text \<open>
  Every run records all eleven results in order, unless the fixture cannot be created or a request of the
  warm-up throws; nothing catches those.
\<close>

lemma demo_results_cases:
  obtains (recorded) rs s' where "demo_results sk s = (Inr rs, s')"
      "map sr_name rs = first_names @ [''9. concurrency-e2e'', ''Ledger reconciles'', ''10. Log grep for secrets'']"
  | (no_fixture) e where "fst (create_fixture sk INITIAL_STOCK s) = Inl e" "fst (demo_results sk s) = Inl e"
  | (cold) f s1 e where "fst (warm_up_before_concurrency sk f s1) = Inl e" "fst (demo_results sk s) = Inl e"
proof (cases "create_fixture sk INITIAL_STOCK s")
  case (Pair made s1)
  show thesis
  proof (cases made)
    case (Inl e)
    with Pair show thesis by (intro no_fixture[of e]) (simp_all add: demo_results_def Let_def bindE_def)
  next
    case (Inr f)
    let ?s2 = "s1\<lparr>dm_context := \<lparr>cx_fixture = f, cx_scenario1 = None, cx_scenario3 = None, cx_scenario5 = None\<rparr>\<rparr>"
    obtain firsts s3 where firsts: "record_all (first_scenarios sk) ?s2 = (Inr firsts, s3)" "map sr_name firsts = first_names"
      by (rule record_all_total[OF scenario_names(1)])
    obtain warm s4 where warm: "warm_up_before_concurrency sk f s3 = (warm, s4)" by fastforce
    show thesis
    proof (cases warm)
      case (Inl e)
      with Pair Inr firsts(1) warm show thesis
        by (intro cold[of f s3 e]) (simp_all add: demo_results_def Let_def bindE_def set_context_def)
    next
      case up: (Inr u)
      obtain ninth s5 where ninth: "record_all [run_scenario9_concurrency_e2e sk] s4 = (Inr ninth, s5)"
        "map sr_name ninth = [''9. concurrency-e2e'']" by (rule record_all_total[OF scenario_names(2)])
      obtain n s6 where n: "verify_ledger_discrepancies sk s5 = (Inr n, s6)" using ledger_query_total by blast
      obtain lasts s7 where lasts: "record_all [Pair (ledger_result n), run_scenario10_log_grep sk (iso_string (dm_now s))] s6 =
          (Inr lasts, s7)" "map sr_name lasts = [''Ledger reconciles'', ''10. Log grep for secrets'']"
        by (rule record_all_total[OF scenario_names(3)])
      from Pair Inr firsts warm up ninth n lasts show thesis
        by (intro recorded[of "firsts @ ninth @ lasts" s7])
          (simp_all add: demo_results_def Let_def bindE_def set_context_def returnE_def)
    qed
  qed
qed

text \<open>The demo exits with 0 exactly when every result was recorded and passed.\<close>

lemma demo_verdict:
  "demo_exit_code (fst (demo sk s)) = 0 \<longleftrightarrow> (\<exists>rs. fst (demo_results sk s) = Inr rs \<and> list_all sr_passed rs)"
  by (cases "demo_results sk s"; cases "fst (demo_results sk s)")
    (auto simp: demo_def bindE_def demo_exit_code_def returnE_def filter_empty_conv list_all_iff)

text \<open>
  When scenario 5 has failed, scenario 6 does nothing: the provider that scenario 5 stopped is not started
  again, and every later scenario runs without it.
\<close>

lemma failed_scenario5_leaves_mock_stopped:
  assumes "cx_scenario5 (dm_context s) = None"
  shows "scenario6_reaper_cancels_after_restart sk s =
    (\<lparr>sr_name = ''6. Mock restarted, scenario 5 orders expire'',
      sr_expected = ''CANCELLED, stock back to its pre-scenario-5 balance'',
      sr_actual = ''FAILED: scenario 5 must run first'', sr_passed = False\<rparr>, s)"
  using assms by (simp add: scenario6_reaper_cancels_after_restart_def run_scenario_def bindE_def context_of_def
      assert_that_def throwE_def)

text \<open>Scenario 8 compares what the database gives back with what was stored: a replayed body passes.\<close>

fun plain_json :: "json \<Rightarrow> bool" where
  "plain_json (JArr xs) \<longleftrightarrow> (\<forall>x \<in> set xs. plain_json x)"
| "plain_json (JObj kvs) \<longleftrightarrow> distinct (map fst kvs) \<and> (\<forall>kv \<in> set kvs. plain_json (snd kv))"
| "plain_json (JNum n) \<longleftrightarrow> is_finite n"
| "plain_json _ \<longleftrightarrow> True"

lemma same_fields_jsonb: "plain_json j \<Longrightarrow> same_fields j (jsonb_value j)"
proof (induction j rule: jsonb_value.induct)
  case (1 xs)
  then have "list_all2 same_fields xs (map jsonb_value xs)" by (simp add: list_all2_conv_all_nth)
  then show ?case by (simp add: same_fields.arrays)
next
  case (2 kvs)
  let ?f = "\<lambda>(k, v). (k, jsonb_value v)"
  have "list_all2 (\<lambda>e e'. fst e = fst e' \<and> same_fields (snd e) (snd e')) kvs (map ?f kvs)"
    using "2.IH" "2.prems" by (fastforce simp: list.rel_map list_all2_same split_beta)
  moreover have "mset (map ?f kvs) = mset (map ?f (sort_key (\<lambda>e. length (fst e)) (sort_key fst kvs)))"
    by simp
  ultimately show ?case using "2.prems" by (auto intro: same_fields.objects)
qed (auto intro: same_fields.atom)

lemma replayed_body_passes:
  assumes "inj (sk_collate sk)" and "plain_json body"
  shows "same_body sk (jsonb_value body) body"
  using canonicalize_same_fields[OF assms(1) same_fields_jsonb[OF assms(2)]] by (simp add: same_body_def)

end
