(* ===== verification/Order_Outcome.thy ===== *)
theory Order_Outcome
  imports Saga Jobs Mock_Server
begin

section \<open>The outcome of an order\<close>

text \<open>
  The saga of \<open>Create_Order\<close>, the reaper of \<open>Jobs\<close>, the gateway of \<open>Payment_Gateway\<close> and the provider of
  \<open>Mock_Server\<close> together: an order that can be served ends as its card says, at once or when its
  reservation has run out. The reaper runs in the worker, so its gateway has a breaker and a clock of its
  own; only the provider is shared.
\<close>

subsection \<open>What the reaper does with one expired order\<close>

lemma update_payment_fresh:
  assumes "\<forall>x \<in> set ps. pay_order x \<noteq> pay_order p \<and> pay_id x \<noteq> pay_id p \<and> pay_idempotency_key x \<noteq> pay_idempotency_key p"
    and "unresolved (pay_status p)" and "payments d = ps @ [p]"
  shows "update_payment now \<lparr>pr_payment_id = pay_id p, pr_charge_result = r\<rparr> d =
    Inr (d\<lparr>payments := ps @ [resolved_payment now r p]\<rparr>)"
proof -
  have "find (\<lambda>x. pay_id x = pay_id p) (qs @ [p]) = Some p" if "\<forall>x \<in> set qs. pay_id x \<noteq> pay_id p" for qs
    using that by (induction qs) auto
  with assms(1,3) have "find_payment d (pay_id p) = Some p" by (simp add: find_payment_def)
  moreover have "\<not> payment_conflicts d (resolved_payment now r p)"
    using assms(1,3) by (auto simp: payment_conflicts_def resolved_payment_def)
  moreover have "update_rows (\<lambda>x. pay_id x = pay_id p) f ps = ps" for f
    using assms(1) by (intro update_rows_absent) auto
  then have "update_rows (\<lambda>x. pay_id x = pay_id p) f (ps @ [p]) = ps @ [f p]" for f
    by (simp add: update_rows_def)
  ultimately show ?thesis using assms(2,3) by (simp add: update_payment_def)
qed

lemma select_only_expired:
  assumes "orders d = os @ [row]" and "\<forall>x \<in> set os. \<not> expired jenv x" and "expired jenv row"
    and "\<not> jb_locked jenv (row_id row)" and "payments d = ps @ [p]" and "pay_order p = row_id row"
    and "\<forall>x \<in> set ps. pay_order x \<noteq> row_id row"
  shows "select_expired_reservations jenv d = [\<lparr>er_id = row_id row, er_expires_at = the (row_reservation_expires_at row),
    er_payment = Some (pay_id p, pay_idempotency_key p)\<rparr>]"
proof -
  have "filter (\<lambda>x. pay_order x = row_id row) (payments d) = [p]" using assms(5-7) by (simp add: filter_empty_conv)
  then have "latest_payment d (row_id row) = Some p" by (simp add: latest_payment_def)
  moreover have "filter (\<lambda>r. expired jenv r \<and> \<not> jb_locked jenv (row_id r)) (orders d) = [row]"
    using assms(1-4) by (simp add: filter_empty_conv)
  ultimately show ?thesis by (simp add: select_expired_reservations_def REAPER_BATCH_SIZE_def)
qed

lemma reap_nothing:
  assumes "\<forall>x \<in> set (orders (w_db (wk_world ws))). \<not> expired jenv x"
  shows "wk_world (snd (reap_reservations get_status jenv ws)) = wk_world ws"
proof -
  have "select_expired_reservations jenv (w_db (wk_world ws)) = []"
    using assms by (simp add: select_expired_reservations_def filter_empty_conv)
  then show ?thesis by (simp add: reap_reservations_def bindE_def with_job_span_def)
qed

text \<open>The settlement a status answers to.\<close>

definition reaper_settlement :: "payment_status \<Rightarrow> settlement option" where
  "reaper_settlement st = (if st = PS_CAPTURED then Some SettleCaptured else if st = PS_DECLINED then Some SettleDeclined
     else if st = PS_FAILED then Some (SettleUnpaid ''RESERVATION_EXPIRED_NOT_CHARGED'') else None)"

lemma resolve_world:
  assumes "er_payment x = Some (pid, key)" and "pid \<noteq> []" and "key \<noteq> []"
    and "get_status key (w_ext (wk_world s)) = (c, g)" and "reaper_settlement (res_status c) = Some how"
    and "jb_others jenv k = (\<lambda>d. d)"
  shows "wk_world (snd (resolve_reservation get_status jenv k x s)) =
    \<lparr>w_db = settled_db (settlement_call how (jb_settle jenv k) (er_id x)
       (Some \<lparr>pr_payment_id = pid, pr_charge_result = c\<rparr>) (w_db (wk_world s))) (w_db (wk_world s)), w_ext = g\<rparr>"
proof -
  have "resolve_reservation get_status jenv k x s = settle_row jenv k how (er_id x)
      (Some \<lparr>pr_payment_id = pid, pr_charge_result = c\<rparr>) (s\<lparr>wk_world := (wk_world s)\<lparr>w_ext := g\<rparr>\<rparr>)"
    using assms(1-5) by (auto simp: resolve_reservation_def bindE_def status_step_eq reaper_settlement_def split: if_splits)
  then show ?thesis using assms(6) by (simp add: settle_row_world Let_def)
qed

lemma each_single: "wk_world (each_row resolve failed k [r] s) = wk_world (snd (resolve k r s))"
  by (cases "resolve k r s") (auto split: sum.splits)

lemma reap_one:
  assumes "select_expired_reservations jenv (w_db (wk_world ws)) = [x]"
    and "er_payment x = Some (pid, key)" and "pid \<noteq> []" and "key \<noteq> []"
    and "get_status key (w_ext (wk_world ws)) = (c, g)" and "reaper_settlement (res_status c) = Some how"
    and "jb_others jenv 0 = (\<lambda>d. d)"
  shows "wk_world (snd (reap_reservations get_status jenv ws)) =
    \<lparr>w_db = settled_db (settlement_call how (jb_settle jenv 0) (er_id x)
       (Some \<lparr>pr_payment_id = pid, pr_charge_result = c\<rparr>) (w_db (wk_world ws))) (w_db (wk_world ws)), w_ext = g\<rparr>"
proof -
  obtain ws1 where ws1: "with_job_span ''select expired reservations'' []
      (\<lambda>s. (Inr (select_expired_reservations jenv (w_db (wk_world s))), s)) ws = (Inr [x], ws1)" "wk_world ws1 = wk_world ws"
    using assms(1) by (simp add: with_job_span_def)
  have "wk_world (snd (reap_reservations get_status jenv ws)) = wk_world (snd (resolve_reservation get_status jenv 0 x ws1))"
    by (simp add: reap_reservations_def bindE_def ws1(1) each_single del: each_row.simps)
  with resolve_world[OF assms(2-4) _ assms(6,7), of get_status ws1 g] assms(5) ws1(2) show ?thesis by simp
qed

subsection \<open>The outcome\<close>

definition left_open :: "string \<Rightarrow> bool" where
  "left_open l4 \<longleftrightarrow> l4 = CARD_PROVIDER_ERROR_LAST4 \<or> l4 = CARD_TIMEOUT_LAST4"

definition card_outcome :: "string \<Rightarrow> order_status \<times> payment_status" where
  "card_outcome l4 = (if l4 = CARD_DECLINED_LAST4 then (PAYMENT_FAILED, PS_DECLINED)
     else if l4 = CARD_PROVIDER_ERROR_LAST4 then (CANCELLED, PS_FAILED) else (CONFIRMED, PS_CAPTURED))"

text \<open>What the client is told.\<close>

definition answer_of_card :: "string \<Rightarrow> uuid \<Rightarrow> app_error + saga_result \<Rightarrow> bool" where
  "answer_of_card l4 oid answer \<longleftrightarrow>
     (if l4 = CARD_DECLINED_LAST4 then answer = Inl (PaymentDeclinedError oid (Some ''CARD_DECLINED''))
      else if l4 = CARD_PROVIDER_ERROR_LAST4 then answer = Inl (PaymentProviderUnavailableError oid (Some ''PROVIDER_ERROR''))
      else if l4 = CARD_TIMEOUT_LAST4 then answer = Inl (PaymentProviderUnavailableError oid (Some ''TIMEOUT''))
      else (\<exists>res. answer = Inr res \<and> ord_id (sr_order res) = oid \<and> ord_status (sr_order res) = CONFIRMED))"

text \<open>
  The order, its one payment, the stock and the queued jobs, when the order has ended: a confirmed order
  has taken its units from the available balance of its warehouse, any other has given them back.
\<close>

definition ended :: "saga_env \<Rightarrow> create_order_command \<Rightarrow> uuid \<Rightarrow> db \<Rightarrow> order_status \<times> payment_status \<Rightarrow> db \<Rightarrow> bool" where
  "ended env c w d outcome d' \<longleftrightarrow>
     (let oid = al_order_id (sg_alloc env) in
      (\<exists>row. find_order d' oid = Some row \<and> row_status row = fst outcome) \<and>
      (\<exists>p. payments d' = payments d @ [p] \<and> pay_order p = oid \<and> pay_status p = snd outcome \<and> pay_settled_at p \<noteq> None) \<and>
      (\<forall>w' p. stock d' w' p = (if w' = w \<and> fst outcome = CONFIRMED
         then map_option (\<lambda>(a, r). (a - lines_total (co_lines c) p, r)) (stock d w p) else stock d w' p)) \<and>
      map job_queue (jobs d') = map job_queue (jobs d) @ (if fst outcome = CONFIRMED
         then [''shipment.create'', ''customer.notify'', ''analytics.record''] else []))"

lemma saga_left_ended:
  assumes "saga_left env c w d r d'" and "res_status r = PS_CAPTURED \<or> res_status r = PS_DECLINED"
  shows "ended env c w d (status_after (res_status r), res_status r) d'"
proof -
  have "map_option (stock_after PS_DECLINED q) x = x" for q x by (cases x) auto
  moreover have "stock_after PS_CAPTURED q = (\<lambda>(a, r). (a - q, r))" for q by auto
  ultimately show ?thesis using assms by (auto simp: saga_left_def ended_def Let_def)
qed

text \<open>The reaper runs once the reservation has run out, no other has, and nothing is in its way.\<close>

definition reaper_ready :: "job_env \<Rightarrow> saga_env \<Rightarrow> db \<Rightarrow> bool" where
  "reaper_ready jenv env d \<longleftrightarrow> (\<forall>x \<in> set (orders d). \<not> expired jenv x) \<and> \<not> jb_locked jenv (al_order_id (sg_alloc env)) \<and>
     al_now (sg_alloc env) 0 + reservation_ttl_minutes * ms_per_minute < jb_now jenv \<and> jb_others jenv 0 = (\<lambda>d. d) \<and>
     \<not> tx_contended (jb_settle jenv 0) \<and> sends_ok (tx_send (jb_settle jenv 0))"

lemma expired_order_ends:
  assumes ready: "orderable d c" "catalogue_distinct d" "fresh_ids d env"
    and w: "nearest knn d l (co_lines c) wh" "stock_bounded d (wh_id wh)" and l: "coordinates_wf l"
    and res: "reserve (al_now (sg_alloc env) 0) False \<lparr>rc_order = al_order_id (sg_alloc env),
      rc_warehouse = wh_id wh, rc_lines = co_lines c\<rparr> (placed_db env d c l (wh_id wh)) = Inr d2"
    and r: "unresolved (res_status r)" and reaper: "reaper_ready jenv env d" and pid: "sg_payment_id env \<noteq> []"
    and world: "wk_world ws = \<lparr>w_db = charged_db env d c l (wh_id wh) r d2, w_ext = g\<rparr>"
    and status: "get_status (''order:'' @ al_order_id (sg_alloc env) @ '':attempt:1'') g = (q, g')"
      "reaper_settlement (res_status q) = Some how"
  shows "ended env c (wh_id wh) d (final_status how, res_status q)
    (w_db (wk_world (snd (reap_reservations get_status jenv ws))))"
proof -
  let ?oid = "al_order_id (sg_alloc env)" and ?row = "reserved_row env d c l (wh_id wh)" and ?te = "jb_settle jenv 0"
  let ?d4 = "charged_db env d c l (wh_id wh) r d2"
  note f = reserved_facts[OF ready res]
  obtain p where pays: "payments ?d4 = payments d @ [p]" and sel: "pay_id p = sg_payment_id env" "pay_order p = ?oid"
      "pay_status p = res_status r" "pay_idempotency_key p = ''order:'' @ ?oid @ '':attempt:1''"
    by (rule that[of "charged_payment env r (initial_payment env (placed_order env d c l (wh_id wh)))"])
      (simp_all add: charged_db_def charged_payment_def initial_payment_def placed_order_def
        build_charge_idempotency_key_def FIRST_PAYMENT_ATTEMPT_def show_nat.simps digit_char_eqs)
  have tables: "orders ?d4 = orders d @ [?row]" by (simp add: charged_db_def f)
  have fresh: "\<forall>x \<in> set (payments d). pay_order x \<noteq> pay_order p \<and> pay_id x \<noteq> pay_id p \<and>
      pay_idempotency_key x \<noteq> pay_idempotency_key p"
    unfolding sel using ready(3) by (auto simp: fresh_ids_def Let_def build_charge_idempotency_key_def show_nat.simps digit_char_eqs)
  have late: "expired jenv ?row" using reaper by (simp add: expired_def) (simp add: reserved_row_def reaper_ready_def)
  have row: "select_expired_reservations jenv (w_db (wk_world ws)) = [\<lparr>er_id = ?oid,
      er_expires_at = the (row_reservation_expires_at ?row),
      er_payment = Some (sg_payment_id env, ''order:'' @ ?oid @ '':attempt:1'')\<rparr>]"
    using select_only_expired[OF tables _ late _ pays] reaper fresh
    by (simp add: world sel reaper_ready_def)
  have pay: "(case Some \<lparr>pr_payment_id = sg_payment_id env, pr_charge_result = q\<rparr> of None \<Rightarrow> Inr ?d4
      | Some p \<Rightarrow> update_payment (tx_now ?te) p ?d4) =
      Inr (?d4\<lparr>payments := payments d @ [resolved_payment (tx_now ?te) q p]\<rparr>)"
    using update_payment_fresh[OF fresh _ pays] r by (simp add: sel)
  from reaper have te: "\<not> tx_contended ?te" "sends_ok (tx_send ?te)" by (simp_all add: reaper_ready_def)
  from reserved_settles[OF ready w l res te pay, of how] obtain o2 d5 where
    o2: "settlement_call how ?te ?oid (Some \<lparr>pr_payment_id = sg_payment_id env, pr_charge_result = q\<rparr>) ?d4 = Inr (SETTLED, o2, d5)"
      "ord_status o2 = final_status how" "find_order d5 ?oid = Some (order_to_persistence (tx_now ?te) o2)"
      "payments d5 = payments d @ [resolved_payment (tx_now ?te) q p]" "jobs d5 = jobs d @ settlement_jobs how ?te ?oid"
    and st: "\<And>w' p. stock d5 w' p = (if w' = wh_id wh \<and> p \<in> line_product ` set (co_lines c)
       then map_option (\<lambda>(a, r). (a + returned (settlement_type how) (lines_total (co_lines c) p),
         r - lines_total (co_lines c) p)) (stock d2 (wh_id wh) p) else stock d2 w' p)" by auto
  have "stock d5 w' p = (if w' = wh_id wh \<and> final_status how = CONFIRMED
      then map_option (\<lambda>(a, r). (a - lines_total (co_lines c) p, r)) (stock d (wh_id wh) p) else stock d w' p)" for w' p
    using st[of w' p] f(9)[of w' p] lines_total_absent[of p "co_lines c"]
    by (cases how; cases "stock d (wh_id wh) p") (auto simp: returned_def)
  moreover have "how = SettleCaptured \<longleftrightarrow> final_status how = CONFIRMED" by (cases how) simp_all
  ultimately have "ended env c (wh_id wh) d (final_status how, res_status q) d5"
    using o2 sel by (auto simp: ended_def Let_def job_queues_confirmed resolved_payment_def)
  moreover have "jb_others jenv 0 = (\<lambda>d. d)" using reaper by (simp add: reaper_ready_def)
  ultimately show ?thesis
    using reap_one[OF row _ pid _ _ status(2), of "''order:'' @ ?oid @ '':attempt:1''" get_status g'] status(1) o2(1)
    by (simp add: world settled_db_def)
qed

text \<open>
  C7. Every order that can be served ends, and ends as its card says. The saga, with the HTTP gateway
  and the provider behind it, answers 201 with a confirmed order, 402 for a declined card and 502 where the
  gateway learns nothing; in the last case the order stays pending. One run of the reaper, at any time
  after the reservation has run out and through a gateway of its own, then asks the provider and ends it:
  it cancels the order of a card that was never charged and confirms the order of a card that was charged
  after the gateway had given up. Every order has one payment, settled with the provider's verdict, and
  its units are gone exactly when it is confirmed.
\<close>

theorem order_ends_as_card_says:
  fixes geocode :: "address \<Rightarrow> mock net \<Rightarrow> (app_error + coordinates) \<times> mock net"
  assumes "orderable d c" and "catalogue_distinct d" and "distinct (map wh_id (warehouses d))"
    and "fresh_ids d env" and "undisturbed env"
    and "geocode (co_address c) g = (Inr l, g1)" and "coordinates_wf l"
    and "nearest knn d l (co_lines c) wh" and "stock_bounded d (wh_id wh)"
    and "current_state (net_breaker g1) = CLOSED" and "consecutive_failures (net_breaker g1) = 0"
    and "unused_key (''order:'' @ al_order_id (sg_alloc env) @ '':attempt:1'') (net_remote g1)"
    and "me_options menv = default_mock_options" and "co_card_number c \<noteq> []" and "sg_payment_id env \<noteq> []"
    and "reaper_ready jenv env d"
  shows "\<exists>answer w. create_order geocode (gateway_charge default_gateway_options draw (mock_fetch menv)) knn st_distance
      env c \<lparr>w_db = d, w_ext = g\<rparr> = (answer, w) \<and>
    answer_of_card (card_last4 (co_card_number c)) (al_order_id (sg_alloc env)) answer \<and>
    (if left_open (card_last4 (co_card_number c))
     then (\<exists>row. find_order (w_db w) (al_order_id (sg_alloc env)) = Some row \<and> row_status row = PENDING_PAYMENT) \<and>
       (\<forall>ws. w_db (wk_world ws) = w_db w \<and> net_remote (w_ext (wk_world ws)) = net_remote (w_ext w) \<and>
          net_now (w_ext w) \<le> net_now (w_ext (wk_world ws)) \<and> current_state (net_breaker (w_ext (wk_world ws))) = CLOSED \<longrightarrow>
          ended env c (wh_id wh) d (card_outcome (card_last4 (co_card_number c))) (w_db (wk_world (snd (reap_reservations
            (gateway_get_status default_gateway_options draw2 (mock_fetch menv)) jenv ws)))))
     else ended env c (wh_id wh) d (card_outcome (card_last4 (co_card_number c))) (w_db w))"
proof -
  let ?l4 = "card_last4 (co_card_number c)" and ?oid = "al_order_id (sg_alloc env)"
  let ?key = "''order:'' @ ?oid @ '':attempt:1''"
  let ?charge = "gateway_charge default_gateway_options draw (mock_fetch menv)"
  let ?status = "gateway_get_status default_gateway_options draw2 (mock_fetch menv)"
  have cmd: "cmd_idempotency_key (saga_charge env d c) = ?key" "cmd_card_number (saga_charge env d c) = co_card_number c"
    by (simp_all add: saga_charge_def)
  have "sendable (saga_charge env d c)" using assms(14) by (simp add: sendable_def saga_charge_def)
  from charge_outcome_of_card[OF assms(10,11) this _ assms(13), of draw, unfolded cmd, OF assms(12)] obtain r g2 where
    r: "?charge (saga_charge env d c) g1 = (r, g2)"
    and verdict: "\<And>t. net_now g2 \<le> t \<Longrightarrow> (res_status r, res_failure_code r,
      record_verdict (get_by_idempotency_key (catch_up t ?key (net_remote g2)) ?key)) = charge_verdict ?l4" by blast
  from saga_run[where charge = ?charge and geocode = geocode, OF assms(1-9) r, of st_distance] obtain answer w d2 where
    run: "create_order geocode ?charge knn st_distance env c \<lparr>w_db = d, w_ext = g\<rparr> = (answer, w)" "w_ext w = g2"
    and left: "saga_answer r ?oid answer" "saga_left env c (wh_id wh) d r (w_db w)"
    and res: "reserve (al_now (sg_alloc env) 0) False \<lparr>rc_order = ?oid, rc_warehouse = wh_id wh,
      rc_lines = co_lines c\<rparr> (placed_db env d c l (wh_id wh)) = Inr d2"
    and pending: "res_status r \<noteq> PS_CAPTURED \<and> res_status r \<noteq> PS_DECLINED \<longrightarrow> w_db w = charged_db env d c l (wh_id wh) r d2"
    by blast
  note codes = CARD_DECLINED_LAST4_def CARD_PROVIDER_ERROR_LAST4_def CARD_TIMEOUT_LAST4_def
  have answer: "answer_of_card ?l4 ?oid answer"
    using left(1) verdict[OF order_refl]
    by (cases answer) (auto simp: answer_of_card_def charge_verdict_def Let_def codes split: if_splits)
  show ?thesis
  proof (cases "left_open ?l4")
    case False
    then have "res_status r = PS_CAPTURED \<or> res_status r = PS_DECLINED"
      "(status_after (res_status r), res_status r) = card_outcome ?l4"
      using verdict[OF order_refl] by (auto simp: left_open_def charge_verdict_def card_outcome_def split: if_splits)
    with saga_left_ended[OF left(2)] run answer False show ?thesis by auto
  next
    case True
    then have open_status: "res_status r = PS_UNKNOWN"
      using verdict[OF order_refl] by (auto simp: left_open_def charge_verdict_def codes split: if_splits)
    with left(2) have row: "\<exists>row. find_order (w_db w) ?oid = Some row \<and> row_status row = PENDING_PAYMENT"
      by (auto simp: saga_left_def)
    have "ended env c (wh_id wh) d (card_outcome ?l4) (w_db (wk_world (snd (reap_reservations ?status jenv ws))))"
      if ws: "w_db (wk_world ws) = w_db w" "net_remote (w_ext (wk_world ws)) = net_remote (w_ext w)"
        "net_now (w_ext w) \<le> net_now (w_ext (wk_world ws))" "current_state (net_breaker (w_ext (wk_world ws))) = CLOSED" for ws
    proof -
      let ?g = "w_ext (wk_world ws)"
      from verdict[of "net_now ?g"] ws(2,3) run(2) True
      have "record_verdict (get_by_idempotency_key (catch_up (net_now ?g) ?key (net_remote ?g)) ?key) = snd (card_outcome ?l4)"
        by (auto simp: left_open_def charge_verdict_def card_outcome_def codes)
      from status_verdict[OF ws(4) this, of draw2 menv] obtain q g3 where
        q: "?status ?key ?g = (q, g3)" "res_status q = snd (card_outcome ?l4)" by blast
      obtain how where how: "reaper_settlement (res_status q) = Some how" "(final_status how, res_status q) = card_outcome ?l4"
        using q(2) True by (auto simp: left_open_def card_outcome_def reaper_settlement_def codes split: if_splits)
      have world: "wk_world ws = \<lparr>w_db = charged_db env d c l (wh_id wh) r d2, w_ext = ?g\<rparr>"
        using ws(1) pending open_status by (cases "wk_world ws") simp
      have "unresolved (res_status r)" by (simp add: unresolved_def open_status)
      from expired_order_ends[where get_status = ?status, OF assms(1,2,4,8,9,7) res this assms(16,15) world q(1) how(1)] how(2) show ?thesis by simp
    qed
    with run answer row True show ?thesis by (intro exI[of _ answer] exI[of _ w]) simp
  qed
qed

definition stalling_command :: create_order_command where
  "stalling_command = sample_command\<lparr>co_card_number := ''4000000000000004''\<rparr>"

definition reaping_worker :: "mock net world \<Rightarrow> mock net worker" where
  "reaping_worker w = \<lparr>wk_world = w\<lparr>w_ext := (w_ext w)\<lparr>net_breaker := new_breaker\<rparr>\<rparr>, wk_logs = [], wk_spans = []\<rparr>"

lemma sample_reaper_ready: "reaper_ready sample_job_env sample_saga_env sample_shop"
  by (simp add: reaper_ready_def sample_job_env_def sample_saga_env_def sample_shop_def sample_defs expired_def
      reservation_ttl_minutes_def ms_per_minute_def sample_env_def)

theorem order_ends_as_card_says_witness:
  "\<exists>answer w. create_order (\<lambda>a s. (Inr \<lparr>latitude = 32, longitude = - 117\<rparr>, s))
      (gateway_charge default_gateway_options (\<lambda>_ _. 0) (mock_fetch sample_mock_env)) (\<lambda>_ _. 0) (\<lambda>_ _. 0) sample_saga_env
      stalling_command \<lparr>w_db = sample_shop, w_ext = sample_net\<rparr> = (answer, w) \<and>
    answer = Inl (PaymentProviderUnavailableError ''o9'' (Some ''TIMEOUT'')) \<and>
    ended sample_saga_env stalling_command ''w1'' sample_shop (CONFIRMED, PS_CAPTURED) (w_db (wk_world (snd (reap_reservations
      (gateway_get_status default_gateway_options (\<lambda>_ _. 0) (mock_fetch sample_mock_env)) sample_job_env (reaping_worker w)))))"
proof -
  let ?wh = "hd (warehouses sample_shop)"
  have ready: "orderable sample_shop stalling_command"
    "nearest (\<lambda>_ _. 0) sample_shop l (co_lines stalling_command) ?wh" for l
    using sample_shop_ready(1,7) by (simp_all add: orderable_def stalling_command_def)
  have ids: "wh_id ?wh = ''w1''" "al_order_id (sg_alloc sample_saga_env) = ''o9''" "sg_payment_id sample_saga_env \<noteq> []"
    by (simp_all add: sample_shop_def sample_defs sample_saga_env_def)
  have net: "current_state (net_breaker sample_net) = CLOSED" "consecutive_failures (net_breaker sample_net) = 0"
    "unused_key k (net_remote sample_net)" "me_options sample_mock_env = default_mock_options" for k
    by (simp_all add: sample_net_def new_breaker_def unused_key_def empty_mock_def sample_mock_env_def)
  have card: "co_card_number stalling_command \<noteq> []" "left_open (card_last4 (co_card_number stalling_command))"
    "card_outcome (card_last4 (co_card_number stalling_command)) = (CONFIRMED, PS_CAPTURED)"
    "answer_of_card (card_last4 (co_card_number stalling_command)) oid answer \<longleftrightarrow>
      answer = Inl (PaymentProviderUnavailableError oid (Some ''TIMEOUT''))" for oid answer
  proof -
    have "card_last4 (co_card_number stalling_command) = CARD_TIMEOUT_LAST4" by code_simp
    moreover have "CARD_TIMEOUT_LAST4 \<noteq> CARD_DECLINED_LAST4" "CARD_TIMEOUT_LAST4 \<noteq> CARD_PROVIDER_ERROR_LAST4" by code_simp+
    ultimately show "left_open (card_last4 (co_card_number stalling_command))"
      "card_outcome (card_last4 (co_card_number stalling_command)) = (CONFIRMED, PS_CAPTURED)"
      "answer_of_card (card_last4 (co_card_number stalling_command)) oid answer \<longleftrightarrow>
        answer = Inl (PaymentProviderUnavailableError oid (Some ''TIMEOUT''))"
      by (simp_all add: left_open_def card_outcome_def answer_of_card_def)
  qed (simp add: stalling_command_def)
  have wf: "coordinates_wf \<lparr>latitude = 32, longitude = - 117\<rparr>" by (simp add: coordinates_wf_def)
  from order_ends_as_card_says[where geocode = "\<lambda>a s. (Inr \<lparr>latitude = 32, longitude = - 117\<rparr>, s)" and draw = "\<lambda>_ _. 0"
      and ?draw2.0 = "\<lambda>_ _. 0" and st_distance = "\<lambda>_ _. 0" and menv = sample_mock_env and jenv = sample_job_env and g = sample_net,
      OF ready(1) sample_shop_ready(2-5) refl wf ready(2) _ net(1-3) net(4) card(1) ids(3) sample_reaper_ready]
    sample_shop_ready(6) card(2-4) ids(1,2)
  show ?thesis by (auto simp: reaping_worker_def new_breaker_def net_now_def)
qed

end
