(* ===== verification/Spec2Isabelle.thy ===== *)
theory Spec2Isabelle
  imports Create_Order_Dto Paging Mock_Server Config Verify_Schema Observability
    Concurrency_E2e Payments_Check Events_Check Health Demo Order_Outcome
begin

text \<open>
  Canals order management, modelled from its TypeScript sources (paths below are under
  \<^verbatim>\<open>src/\<close> of the repository unless they start with \<^verbatim>\<open>payments-mock/\<close>).

  An order is created by a saga of three phases around two remote services: the address is geocoded
  and the stock reserved in one warehouse, the card is charged, and the order is settled by the
  charge's outcome. Every phase is its own database transaction; what a phase leaves unfinished
  (a charge whose outcome is unknown, a reservation that runs out) is finished by background jobs
  through the same settlement code. Stock is kept as two balances per warehouse and product and an
  append-only ledger of movements.

  Which theory models what:
  \<^item> \<open>Prelude\<close>: generic lemmas, the error monad \<open>bindR\<close> (a throw is \<open>Inl\<close>) and its state-passing
    version \<open>bindE\<close>.
  \<^item> \<open>Js_Number\<close>, \<open>Money\<close>, \<open>Value_Objects\<close>, \<open>Order_Entity\<close>, \<open>Domain_Types\<close>, \<open>Ports\<close>: \<^verbatim>\<open>domain/\<close>
    and the error classes.
  \<^item> \<open>Store\<close>: the tables and the statements with their constraints; a transaction that throws
    returns no new database, which is its rollback.
  \<^item> \<open>Inventory\<close> (\<^verbatim>\<open>application/allocation/inventory.service.ts\<close>), \<open>Ledger\<close> (its balances and what an
    order holds, as functions of the rows) and \<open>Reservation\<close> (the contract of reserve, release and
    commit as a locale, interpreted on the service).
  \<^item> \<open>Order_Mapper\<close>, \<open>Events\<close>, \<open>Settlement\<close>, \<open>Allocation\<close>: the files of the same name.
  \<^item> \<open>Retry\<close>, \<open>Circuit_Breaker\<close>, \<open>Http_Client\<close>, \<open>Redaction\<close>, \<open>Payment_Gateway\<close>:
    \<^verbatim>\<open>infrastructure/http/\<close> and \<^verbatim>\<open>infrastructure/payments/\<close>; the provider is the function \<open>fetch\<close>.
  \<^item> \<open>Create_Order\<close> and \<open>Saga\<close>: \<^verbatim>\<open>application/orders/create-order.use-case.ts\<close> and what it leaves.
  \<^item> \<open>Jobs\<close>: the five background handlers (\<^verbatim>\<open>application/jobs/\<close>).
  \<^item> \<open>Shop_Spec\<close>: the abstract shop, with two moves (an order is placed, an order ends). \<open>Shop_State\<close>,
    \<open>Shop_Settle\<close>, \<open>Shop_Place\<close>: the abstraction from the tables (with \<^verbatim>\<open>sql/verify-ledger.sql\<close>) and the
    refinement of each transaction. \<open>Transactions\<close>: the step relation of all committed transactions
    and the invariant \<open>db_ok\<close>. \<open>Program_Runs\<close>: the saga and the jobs as runs of it under every
    interleaving. \<open>Guarantees\<close>: what follows for stock, money and shipments.
  \<^item> \<open>Json_Text\<close>, \<open>Js_Double\<close>, \<open>Js_Date\<close>: text of JSON, rounding of doubles, ISO dates.
    \<open>Order_Views\<close> and \<open>Problem_Details\<close>: response bodies and the exception filter
    (\<^verbatim>\<open>infrastructure/http/\<close>).
  \<^item> \<open>Idempotency\<close> and \<open>Replay\<close>: the key table around the saga and the \<open>POST /orders\<close> action, and what
    a retried request gets.
  \<^item> \<open>Create_Order_Dto\<close>: the body classes of \<open>POST /orders\<close> as predicates on JSON.
  \<^item> \<open>Node_Text\<close>, \<open>Orders_Read\<close>, \<open>Paging\<close>: base64 and UTF-8, the read endpoints with their
    repository, services and responses, and the walk over the pages.
  \<^item> \<open>Payments_Mock\<close> and \<open>Mock_Server\<close>: \<^verbatim>\<open>payments-mock/src/\<close>, the provider, and the server as the
    remote side of the gateway. \<open>Order_Outcome\<close>: saga, gateway, provider and reaper together, by card.
  \<^item> \<open>Geo_Text\<close>, \<open>Geo_Static\<close>, \<open>Geo_Cache\<close>, \<open>Redact_Url\<close>, \<open>Geoapify\<close>: \<^verbatim>\<open>infrastructure/geocoding/\<close>, with
    the promise of a driver as a locale interpreted on both drivers, alone and behind the cache;
    \<open>Geo_Saga\<close>: the factory, and that the saga may use either.
  \<^item> \<open>Migration\<close>: the two migrations as statements on a catalogue. \<open>Seed\<close> and \<open>Verify_Schema\<close>:
    \<^verbatim>\<open>infrastructure/database/seed.ts\<close> and \<^verbatim>\<open>verify-schema.ts\<close>, on the catalogue the migrations leave and the
    databases the program reaches from the seed.
  \<^item> \<open>Job_Runner\<close>: the queues, the pg-boss provider, the runner around a handler
    (\<^verbatim>\<open>infrastructure/messaging/\<close>) and the worker's handlers. \<open>Config\<close>: the environment
    (\<^verbatim>\<open>infrastructure/config/env.schema.ts\<close>). \<open>Observability\<close>: correlation ids, exported spans and log lines.

  \<^item> \<open>Health\<close>: the probes of both processes (\<^verbatim>\<open>infrastructure/health/\<close>), the telemetry set-up as far as
    it depends on the process, and the life of a worker container around its readiness file.
  \<^item> \<open>Concurrency_Check\<close>, \<open>Concurrency_E2e\<close>, \<open>Payments_Check\<close>, \<open>Events_Check\<close>: the scripts of the same name
    under \<^verbatim>\<open>scripts/\<close> of the repository, against the models above: the race under every schedule of its
    transactions, the test cards against the provider, the worker under every order of deliveries.
    \<open>Demo_Harness\<close> and \<open>Demo\<close>: \<^verbatim>\<open>scripts/demo/\<close>, over a running stack that is an argument.

  What the code gets from outside is an argument of the model: clocks, fresh identifiers, lock
  timeouts, the changes other sessions commit between two transactions, PostGIS distances, the
  payment provider and Geoapify behind \<open>fetch\<close>, SHA-256, collation keys, URL syntax and pg-boss's calls.
  There is no fuel. Loops are structural or have a measure; the one loop whose end depends on what it is
  shown, the polling of \<open>Events_Check\<close>, is a partial function that is proved to return when its clock
  advances. Not modelled, because they only wire or call libraries: the Nest modules (but for the rate
  limit), \<^verbatim>\<open>main.ts\<close>, the data source, the shutdown hook of the api and the start of the mock; console
  output, but for the scripts that print a verdict per case; the widths of text columns on rows.
\<close>

end
